(* ===== verification/Prelude.thy ===== *)
theory Prelude
  imports Main "HOL-Library.Word"
begin

text \<open>
  Shared vocabulary of the development: the machine integers and byte strings of the Rust
  sources, checked and saturating arithmetic, big-endian conversions, UTF-8 validity, and the
  combinators by which fallible and state-changing code is written. \<open>'e + 'a\<close> is Rust's
  \<^verbatim>\<open>Result<'a, 'e>\<close> with \<open>Inl\<close> the error; a method on \<^verbatim>\<open>&mut self\<close> is a function
  \<open>'s \<Rightarrow> ('e + 'a) \<times> 's\<close>, which returns the updated state on the error path as well.
\<close>

named_theorems st_simps \<open>equations that run the state-and-error combinators\<close>
named_theorems wire_simps \<open>lengths and values of encoded wire objects\<close>

section \<open>Machine integers and bytes\<close>

type_synonym u8 = "8 word"
type_synonym u16 = "16 word"
type_synonym u32 = "32 word"
type_synonym u64 = "64 word"
type_synonym bytes = "u8 list"

lemma unat_bound: "unat (w :: 'a::len word) < 2 ^ LENGTH('a)"
  by (rule unsigned_less)

lemma unat_bounds:
  "unat (a :: u8) < 256" "unat (b :: u16) < 65536" "unat (c :: u32) < 4294967296"
  "unat (d :: u64) < 18446744073709551616"
  using unat_bound [of a] unat_bound [of b] unat_bound [of c] unat_bound [of d] by simp_all

lemma unat_ucast_64 [simp]:
  "unat (ucast (a :: u8) :: u64) = unat a" "unat (ucast (b :: u16) :: u64) = unat b"
  using unat_bound [of a] unat_bound [of b] by (simp_all add: unsigned_ucast_eq take_bit_eq_mod)

lemma ucast_ucast_64 [simp]:
  "ucast (ucast (a :: u8) :: u64) = a" "ucast (ucast (b :: u16) :: u64) = b"
  by (transfer, simp)+

text \<open>\<^verbatim>\<open>u64::checked_add\<close>, and \<^verbatim>\<open>Option::is_none_or\<close>.\<close>

definition checked_add :: "u64 \<Rightarrow> u64 \<Rightarrow> u64 option" where
  "checked_add a b = (if unat a + unat b < 2 ^ 64 then Some (a + b) else None)"

definition is_none_or :: "('a \<Rightarrow> bool) \<Rightarrow> 'a option \<Rightarrow> bool" where
  "is_none_or P x = (case x of None \<Rightarrow> True | Some v \<Rightarrow> P v)"

text \<open>\<^verbatim>\<open>u8::saturating_add\<close>.\<close>

definition saturating_add8 :: "u8 \<Rightarrow> u8 \<Rightarrow> u8" where
  "saturating_add8 a b = (if unat a + unat b < 256 then a + b else 255)"

lemma checked_add_SomeD:
  "checked_add a b = Some c \<Longrightarrow> unat c = unat a + unat b"
  by (auto simp: checked_add_def unat_word_ariths split: if_splits)

lemma checked_add_eq_Some:
  "unat a + unat b < 2 ^ 64 \<Longrightarrow> checked_add a b = Some (a + b)"
  by (simp add: checked_add_def)

lemma is_none_or_simps [simp]:
  "is_none_or P None = True" "is_none_or P (Some v) = P v"
  by (simp_all add: is_none_or_def)

text \<open>The shape of every quota test: an addition that overflows or reaches the limit.\<close>

lemma quota_reached_iff:
  "is_none_or (\<lambda>n. n \<ge> lim) (checked_add a b) \<longleftrightarrow> unat lim \<le> unat a + unat b"
  using unat_bound [of lim]
  by (auto simp: checked_add_def word_le_nat_alt unat_word_ariths)

lemma quota2_reached_iff:
  "is_none_or (\<lambda>n. n \<ge> lim) (Option.bind (checked_add a b) (\<lambda>n. checked_add n c)) \<longleftrightarrow>
     unat lim \<le> unat a + unat b + unat c"
proof (cases "checked_add a b")
  case None
  then show ?thesis using unat_bound [of lim] by (auto simp: checked_add_def split: if_splits)
next
  case (Some n)
  then show ?thesis using quota_reached_iff [of lim n c] checked_add_SomeD [OF Some] by simp
qed

lemma unat_the_checked_add:
  "unat a + unat b < 2 ^ 64 \<Longrightarrow> unat (the (checked_add a b)) = unat a + unat b"
  using checked_add_SomeD [OF checked_add_eq_Some] by (simp add: checked_add_eq_Some)

lemma unat_saturating_add8:
  "unat (saturating_add8 a b) = min 255 (unat a + unat b)"
  by (auto simp: saturating_add8_def unat_word_ariths)

text \<open>Rust's \<^verbatim>\<open>to_be_bytes\<close> and \<^verbatim>\<open>from_be_bytes\<close>: \<open>be_bytes n v\<close> are the \<open>n\<close> low bytes of \<open>v\<close>,
  most significant first.\<close>

fun be_bytes :: "nat \<Rightarrow> nat \<Rightarrow> bytes" where
  "be_bytes 0 v = []"
| "be_bytes (Suc n) v = be_bytes n (v div 256) @ [of_nat (v mod 256)]"

definition be_val :: "bytes \<Rightarrow> nat" where
  "be_val bs = foldl (\<lambda>a b. a * 256 + unat b) 0 bs"

lemma length_be_bytes [simp]: "length (be_bytes n v) = n"
  by (induction n arbitrary: v) auto

text \<open>For evaluation at concrete values.\<close>

lemma be_bytes_expand:
  "be_bytes 2 v = [of_nat (v div 256 mod 256), of_nat (v mod 256)]"
  "be_bytes 4 v = [of_nat (v div 256 div 256 div 256 mod 256), of_nat (v div 256 div 256 mod 256),
     of_nat (v div 256 mod 256), of_nat (v mod 256)]"
proof -
  have "(2 :: nat) = Suc (Suc 0)" "(4 :: nat) = Suc (Suc (Suc (Suc 0)))" by simp_all
  then show "be_bytes 2 v = [of_nat (v div 256 mod 256), of_nat (v mod 256)]"
    "be_bytes 4 v = [of_nat (v div 256 div 256 div 256 mod 256), of_nat (v div 256 div 256 mod 256),
       of_nat (v div 256 mod 256), of_nat (v mod 256)]"
    by (simp_all only: be_bytes.simps append_Nil append_Cons)
qed

lemma be_val_Nil [simp]: "be_val [] = 0"
  by (simp add: be_val_def)

lemma be_val_snoc [simp]: "be_val (bs @ [b]) = be_val bs * 256 + unat b"
  by (simp add: be_val_def)

lemma unat_of_nat_byte [simp]: "unat (of_nat (v mod 256) :: u8) = v mod 256"
  by (simp add: unat_of_nat)

lemma be_val_be_bytes: "be_val (be_bytes n v) = v mod 256 ^ n"
proof (induction n arbitrary: v)
  case 0
  then show ?case by simp
next
  case (Suc n)
  have "v mod (256 * 256 ^ n) = 256 * (v div 256 mod 256 ^ n) + v mod 256"
    by (rule mod_mult2_eq)
  with Suc show ?case by simp
qed

lemma be_val_be_bytes_small [simp]: "v < 256 ^ n \<Longrightarrow> be_val (be_bytes n v) = v"
  by (simp add: be_val_be_bytes)

lemma be_val_bound: "be_val bs < 256 ^ length bs"
proof (induction bs rule: rev_induct)
  case Nil
  then show ?case by simp
next
  case (snoc b bs)
  have "unat b < 256" using unat_bound [of b] by simp
  with snoc show ?case by simp
qed

lemma be_bytes_be_val: "be_bytes (length bs) (be_val bs) = bs"
proof (induction bs rule: rev_induct)
  case Nil
  then show ?case by simp
next
  case (snoc b bs)
  have "unat b < 256" using unat_bound [of b] by simp
  then have "(be_val bs * 256 + unat b) div 256 = be_val bs"
    and "(be_val bs * 256 + unat b) mod 256 = unat b"
    by simp_all
  with snoc show ?case by simp
qed

definition u16_of_be :: "bytes \<Rightarrow> u16" where
  "u16_of_be bs = of_nat (be_val bs)"

definition u32_of_be :: "bytes \<Rightarrow> u32" where
  "u32_of_be bs = of_nat (be_val bs)"

definition u16_to_be :: "u16 \<Rightarrow> bytes" where
  "u16_to_be w = be_bytes 2 (unat w)"

definition u32_to_be :: "u32 \<Rightarrow> bytes" where
  "u32_to_be w = be_bytes 4 (unat w)"

lemma length_u16_to_be [simp]: "length (u16_to_be w) = 2"
  by (simp add: u16_to_be_def)

lemma length_u32_to_be [simp]: "length (u32_to_be w) = 4"
  by (simp add: u32_to_be_def)

lemma u16_of_be_to_be [simp]: "u16_of_be (u16_to_be w) = w"
  using unat_bound [of w] by (simp add: u16_of_be_def u16_to_be_def)

lemma u32_of_be_to_be [simp]: "u32_of_be (u32_to_be w) = w"
  using unat_bound [of w] by (simp add: u32_of_be_def u32_to_be_def)

lemma unat_u16_of_be: "length bs = 2 \<Longrightarrow> unat (u16_of_be bs) = be_val bs"
  using be_val_bound [of bs] by (simp add: u16_of_be_def unat_of_nat)

lemma u16_to_be_of_be: "length bs = 2 \<Longrightarrow> u16_to_be (u16_of_be bs) = bs"
  using be_bytes_be_val [of bs] by (simp add: u16_to_be_def unat_u16_of_be)

lemma unat_u32_of_be: "length bs = 4 \<Longrightarrow> unat (u32_of_be bs) = be_val bs"
  using be_val_bound [of bs] by (simp add: u32_of_be_def unat_of_nat)

lemma u32_to_be_of_be: "length bs = 4 \<Longrightarrow> u32_to_be (u32_of_be bs) = bs"
  using be_bytes_be_val [of bs] by (simp add: u32_to_be_def unat_u32_of_be)

text \<open>Two-element and four-element byte lists are the only ones of their length.\<close>

lemma length_2_cases: "length xs = 2 \<Longrightarrow> \<exists>a b. xs = [a, b]"
  by (auto simp: length_Suc_conv numeral_2_eq_2)

section \<open>UTF-8 validity\<close>

text \<open>\<^verbatim>\<open>core::str::from_utf8\<close> accepts exactly the well-formed sequences of the Unicode
  standard's table 3-7: no overlong forms, no surrogates, nothing above U+10FFFF.\<close>

definition utf8_cont :: "u8 \<Rightarrow> bool" where
  "utf8_cont b \<longleftrightarrow> 0x80 \<le> b \<and> b \<le> 0xBF"

fun utf8_valid :: "bytes \<Rightarrow> bool" where
  "utf8_valid [] = True"
| "utf8_valid (a # s) =
     (if a < 0x80 then utf8_valid s
      else case s of [] \<Rightarrow> False | b # s2 \<Rightarrow>
        if 0xC2 \<le> a \<and> a \<le> 0xDF then utf8_cont b \<and> utf8_valid s2
        else case s2 of [] \<Rightarrow> False | c # s3 \<Rightarrow>
          if 0xE0 \<le> a \<and> a \<le> 0xEF then
            utf8_cont b \<and> utf8_cont c \<and> (a = 0xE0 \<longrightarrow> 0xA0 \<le> b)
            \<and> (a = 0xED \<longrightarrow> b \<le> 0x9F) \<and> utf8_valid s3
          else case s3 of [] \<Rightarrow> False | d # s4 \<Rightarrow>
            if 0xF0 \<le> a \<and> a \<le> 0xF4 then
              utf8_cont b \<and> utf8_cont c \<and> utf8_cont d \<and> (a = 0xF0 \<longrightarrow> 0x90 \<le> b)
              \<and> (a = 0xF4 \<longrightarrow> b \<le> 0x8F) \<and> utf8_valid s4
            else False)"

lemma utf8_valid_ascii: "list_all (\<lambda>b. b < 0x80) s \<Longrightarrow> utf8_valid s"
  by (induction s) auto

section \<open>Results and state passing\<close>

text \<open>Rust's \<^verbatim>\<open>?\<close> on a \<^verbatim>\<open>Result\<close>.\<close>

definition res_bind :: "'e + 'a \<Rightarrow> ('a \<Rightarrow> 'e + 'b) \<Rightarrow> 'e + 'b" where
  "res_bind r f = (case r of Inl e \<Rightarrow> Inl e | Inr v \<Rightarrow> f v)"

definition ok_or :: "'e \<Rightarrow> 'a option \<Rightarrow> 'e + 'a" where
  "ok_or e x = (case x of None \<Rightarrow> Inl e | Some v \<Rightarrow> Inr v)"

definition is_err :: "'e + 'a \<Rightarrow> bool" where
  "is_err r = (case r of Inl _ \<Rightarrow> True | Inr _ \<Rightarrow> False)"

lemma res_bind_simps [simp]: "res_bind (Inl e) f = Inl e" "res_bind (Inr v) f = f v"
  by (simp_all add: res_bind_def)

text \<open>Evaluate a chain of \<^verbatim>\<open>?\<close> from the front: the continuation is looked at once its input is known.\<close>

lemma res_bind_weak_cong: "r = r' \<Longrightarrow> res_bind r f = res_bind r' f"
  by simp

lemma ok_or_simps [simp]: "ok_or e None = Inl e" "ok_or e (Some v) = Inr v"
  by (simp_all add: ok_or_def)

lemma is_err_simps [simp]: "is_err (Inl e) = True" "is_err (Inr v) = False"
  by (simp_all add: is_err_def)

lemma is_errI [intro]: "Inl e = r \<Longrightarrow> is_err r"
  by auto

lemma ok_or_eq_Inr [simp]: "ok_or e x = Inr v \<longleftrightarrow> x = Some v"
  by (cases x) auto

lemma ok_or_eq_Inl [simp]: "ok_or e x = Inl e' \<longleftrightarrow> x = None \<and> e' = e"
  by (cases x) auto

lemma res_bind_eq_Inr: "res_bind r f = Inr w \<longleftrightarrow> (\<exists>v. r = Inr v \<and> f v = Inr w)"
  by (cases r) auto

lemma res_bindE:
  assumes "res_bind r f = Inr w"
  obtains v where "r = Inr v" "f v = Inr w"
  using assms by (auto simp: res_bind_eq_Inr)

lemma res_bind_eq_Inl:
  "res_bind r f = Inl e \<longleftrightarrow> r = Inl e \<or> (\<exists>v. r = Inr v \<and> f v = Inl e)"
  by (cases r) auto

type_synonym ('s, 'e, 'a) step = "'s \<Rightarrow> ('e + 'a) \<times> 's"

definition st_ok :: "'a \<Rightarrow> ('s, 'e, 'a) step" where
  "st_ok v = (\<lambda>s. (Inr v, s))"

definition st_fail :: "'e \<Rightarrow> ('s, 'e, 'a) step" where
  "st_fail e = (\<lambda>s. (Inl e, s))"

definition st_lift :: "'e + 'a \<Rightarrow> ('s, 'e, 'a) step" where
  "st_lift r = (\<lambda>s. (r, s))"

definition st_upd :: "('s \<Rightarrow> 's) \<Rightarrow> ('s, 'e, unit) step" where
  "st_upd g = (\<lambda>s. (Inr (), g s))"

definition st_with :: "('s \<Rightarrow> ('s, 'e, 'a) step) \<Rightarrow> ('s, 'e, 'a) step" where
  "st_with f = (\<lambda>s. f s s)"

definition st_bind :: "('s, 'e, 'a) step \<Rightarrow> ('a \<Rightarrow> ('s, 'e, 'b) step) \<Rightarrow> ('s, 'e, 'b) step" where
  "st_bind m f = (\<lambda>s. case m s of (Inl e, s') \<Rightarrow> (Inl e, s') | (Inr v, s') \<Rightarrow> f v s')"

lemma st_ok_apply [st_simps]: "st_ok v s = (Inr v, s)"
  by (simp add: st_ok_def)

lemma st_fail_apply [st_simps]: "st_fail e s = (Inl e, s)"
  by (simp add: st_fail_def)

lemma st_lift_apply [st_simps]: "st_lift r s = (r, s)"
  by (simp add: st_lift_def)

lemma st_upd_apply [st_simps]: "st_upd g s = (Inr (), g s)"
  by (simp add: st_upd_def)

lemma st_with_apply [st_simps]: "st_with f s = f s s"
  by (simp add: st_with_def)

lemma st_bind_apply [st_simps]:
  "st_bind m f s = (case m s of (Inl e, s') \<Rightarrow> (Inl e, s') | (Inr v, s') \<Rightarrow> f v s')"
  by (simp add: st_bind_def)

text \<open>A bind succeeds exactly when both halves do; the shape most proofs invert.\<close>

lemma st_bind_Inr:
  "st_bind m f s = (Inr w, s'') \<longleftrightarrow> (\<exists>v s'. m s = (Inr v, s') \<and> f v s' = (Inr w, s''))"
  by (auto simp: st_bind_def split: prod.splits sum.splits)

text \<open>Two state predicates related through a run: \<open>st_pres P m\<close> says that \<open>m\<close> keeps \<open>P\<close> whether it
  succeeds or fails.\<close>

definition st_pres :: "('s \<Rightarrow> bool) \<Rightarrow> ('s, 'e, 'a) step \<Rightarrow> bool" where
  "st_pres P m \<longleftrightarrow> (\<forall>s. P s \<longrightarrow> P (snd (m s)))"

lemma st_pres_ok [intro]: "st_pres P (st_ok v)"
  by (simp add: st_pres_def st_simps)

lemma st_pres_fail [intro]: "st_pres P (st_fail e)"
  by (simp add: st_pres_def st_simps)

lemma st_pres_lift [intro]: "st_pres P (st_lift r)"
  by (simp add: st_pres_def st_simps)

lemma st_pres_upd: "(\<And>s. P s \<Longrightarrow> P (g s)) \<Longrightarrow> st_pres P (st_upd g)"
  by (simp add: st_pres_def st_simps)

lemma st_pres_with: "(\<And>s. st_pres P (f s)) \<Longrightarrow> st_pres P (st_with f)"
  by (simp add: st_pres_def st_simps)

lemma st_pres_bind: "st_pres P m \<Longrightarrow> (\<And>v. st_pres P (f v)) \<Longrightarrow> st_pres P (st_bind m f)"
  by (fastforce simp: st_pres_def st_simps split: prod.splits sum.splits)

lemma st_pres_if: "st_pres P a \<Longrightarrow> st_pres P b \<Longrightarrow> st_pres P (if c then a else b)"
  by simp

lemma st_pres_option: "st_pres P a \<Longrightarrow> (\<And>x. st_pres P (f x)) \<Longrightarrow> st_pres P (case v of None \<Rightarrow> a | Some x \<Rightarrow> f x)"
  by (cases v) simp_all

lemma st_pres_prod: "(\<And>x y. st_pres P (f x y)) \<Longrightarrow> st_pres P (case v of (x, y) \<Rightarrow> f x y)"
  by (cases v) simp

lemmas st_pres_rules =
  st_pres_ok st_pres_fail st_pres_lift st_pres_upd st_pres_with st_pres_bind st_pres_if
  st_pres_option st_pres_prod

text \<open>\<open>st_keeps P m\<close>: \<open>m\<close> keeps \<open>P\<close> when it succeeds. A step that always fails keeps everything.\<close>

definition st_keeps :: "('s \<Rightarrow> bool) \<Rightarrow> ('s, 'e, 'a) step \<Rightarrow> bool" where
  "st_keeps P m \<longleftrightarrow> (\<forall>s r s'. P s \<longrightarrow> m s = (Inr r, s') \<longrightarrow> P s')"

lemma st_keeps_ok: "st_keeps P (st_ok v)"
  by (simp add: st_keeps_def st_simps)

lemma st_keeps_fail: "st_keeps P (st_fail e)"
  by (simp add: st_keeps_def st_simps)

lemma st_keeps_then_fail: "st_keeps P (st_bind m (\<lambda>_. st_fail e))"
  by (auto simp: st_keeps_def st_simps split: prod.splits sum.splits)

lemma st_keeps_lift: "st_keeps P (st_lift r)"
  by (simp add: st_keeps_def st_simps)

lemma st_keeps_upd: "(\<And>s. P s \<Longrightarrow> P (g s)) \<Longrightarrow> st_keeps P (st_upd g)"
  by (simp add: st_keeps_def st_simps)

lemma st_keeps_with: "(\<And>s. st_keeps P (f s)) \<Longrightarrow> st_keeps P (st_with f)"
  by (auto simp: st_keeps_def st_simps)

lemma st_keeps_bind: "st_keeps P m \<Longrightarrow> (\<And>v. st_keeps P (f v)) \<Longrightarrow> st_keeps P (st_bind m f)"
  unfolding st_keeps_def st_bind_Inr by blast

lemma st_keeps_if: "st_keeps P a \<Longrightarrow> st_keeps P b \<Longrightarrow> st_keeps P (if c then a else b)"
  by simp

lemma st_keeps_option:
  "st_keeps P a \<Longrightarrow> (\<And>x. st_keeps P (f x)) \<Longrightarrow> st_keeps P (case v of None \<Rightarrow> a | Some x \<Rightarrow> f x)"
  by (cases v) simp_all

lemma st_keeps_prod: "(\<And>x y. st_keeps P (f x y)) \<Longrightarrow> st_keeps P (case v of (x, y) \<Rightarrow> f x y)"
  by (cases v) simp

lemma st_pres_keeps: "st_pres P m \<Longrightarrow> st_keeps P m"
  unfolding st_pres_def st_keeps_def by (metis snd_conv)

lemmas st_keeps_rules =
  st_keeps_ok st_keeps_fail st_keeps_then_fail st_keeps_lift st_keeps_upd st_keeps_with st_keeps_bind
  st_keeps_if st_keeps_option st_keeps_prod

lemma st_presD: "st_pres P m \<Longrightarrow> P s \<Longrightarrow> m s = (r, s') \<Longrightarrow> P s'"
  unfolding st_pres_def by (metis snd_conv)

lemma st_pres_apply: "st_pres P m \<Longrightarrow> P s \<Longrightarrow> P (snd (m s))"
  by (simp add: st_pres_def)

lemma st_keepsD: "st_keeps P m \<Longrightarrow> P s \<Longrightarrow> m s = (Inr r, s') \<Longrightarrow> P s'"
  by (simp add: st_keeps_def)

text \<open>\<open>st_rejects P m\<close>: from a state with \<open>P\<close> the step fails. A sequence rejects when a part of it
  does and what runs before keeps \<open>P\<close>.\<close>

definition st_rejects :: "('s \<Rightarrow> bool) \<Rightarrow> ('s, 'e, 'a) step \<Rightarrow> bool" where
  "st_rejects P m \<longleftrightarrow> (\<forall>s. P s \<longrightarrow> is_err (fst (m s)))"

lemma st_rejects_fail [intro]: "st_rejects P (st_fail e)"
  by (simp add: st_rejects_def st_simps)

lemma st_rejects_with: "(\<And>s. P s \<Longrightarrow> st_rejects P (f s)) \<Longrightarrow> st_rejects P (st_with f)"
  by (simp add: st_rejects_def st_simps)

lemma st_rejects_first: "st_rejects P m \<Longrightarrow> st_rejects P (st_bind m f)"
  by (fastforce simp: st_rejects_def st_simps split: prod.splits sum.splits)

lemma st_rejects_second:
  "st_pres P m \<Longrightarrow> (\<And>v. st_rejects P (f v)) \<Longrightarrow> st_rejects P (st_bind m f)"
  by (fastforce simp: st_rejects_def st_pres_def st_simps split: prod.splits sum.splits)

lemma st_rejects_lift_bind: "(\<And>v. st_rejects P (f v)) \<Longrightarrow> st_rejects P (st_bind (st_lift r) f)"
  by (rule st_rejects_second) auto

lemma st_rejects_if: "st_rejects P a \<Longrightarrow> st_rejects P b \<Longrightarrow> st_rejects P (if c then a else b)"
  by simp

lemma is_err_map_sum [simp]: "is_err (map_sum id f r) = is_err r"
  by (cases r) auto

section \<open>Two interfaces the components share\<close>

text \<open>A wire codec: on valid values the decoder undoes the encoder, and whatever the decoder accepts
  is exactly what the encoder writes. Byte strings and values then determine each other, which is
  what makes an accepted message non-malleable.\<close>

locale wire_codec =
  fixes enc :: "'v \<Rightarrow> 'e + 'b" and dec :: "'b \<Rightarrow> 'e + 'v" and valid :: "'v \<Rightarrow> bool"
  assumes dec_of_enc: "valid v \<Longrightarrow> enc v = Inr b \<Longrightarrow> dec b = Inr v"
    and enc_of_dec: "dec b = Inr v \<Longrightarrow> valid v \<and> enc v = Inr b"
begin

lemma dec_iff: "dec b = Inr v \<longleftrightarrow> valid v \<and> enc v = Inr b"
  using dec_of_enc enc_of_dec by blast

lemma enc_inj: "valid v \<Longrightarrow> valid w \<Longrightarrow> enc v = Inr b \<Longrightarrow> enc w = Inr b \<Longrightarrow> v = w"
  using dec_of_enc [of v b] dec_of_enc [of w b] by simp

lemma dec_inj: "dec b = Inr v \<Longrightarrow> dec b' = Inr v \<Longrightarrow> b = b'"
  using enc_of_dec [of b v] enc_of_dec [of b' v] by simp

end

text \<open>A fail-closed object: an operation that fails closes it, and a closed object rejects every
  operation and stays closed. \<open>run\<close> performs a sequence of calls and collects the answers.\<close>

primrec run :: "('i \<Rightarrow> 's \<Rightarrow> ('e + 'o) \<times> 's) \<Rightarrow> 'i list \<Rightarrow> 's \<Rightarrow> ('e + 'o) list \<times> 's" where
  "run f [] s = ([], s)"
| "run f (i # is) s =
     (fst (f i s) # fst (run f is (snd (f i s))), snd (run f is (snd (f i s))))"

lemma run_append:
  "run f (is @ js) s =
     (fst (run f is s) @ fst (run f js (snd (run f is s))), snd (run f js (snd (run f is s))))"
  by (induction "is" arbitrary: s) auto

lemma run_pres: "(\<And>i. st_pres P (f i)) \<Longrightarrow> P s \<Longrightarrow> P (snd (run f is s))"
  by (induction "is" arbitrary: s) (simp_all add: st_pres_def)

lemma length_run [simp]: "length (fst (run f is s)) = length is"
  by (induction "is" arbitrary: s) auto

text \<open>The answer of a call within a run, and the states between the calls.\<close>

definition run_state :: "('i \<Rightarrow> 's \<Rightarrow> ('e + 'o) \<times> 's) \<Rightarrow> 'i list \<Rightarrow> 's \<Rightarrow> nat \<Rightarrow> 's" where
  "run_state f is s k = snd (run f (take k is) s)"

lemma run_state_0 [simp]: "run_state f is s 0 = s"
  by (simp add: run_state_def)

lemma run_state_Suc:
  "k < length is \<Longrightarrow> run_state f is s (Suc k) = snd (f (is ! k) (run_state f is s k))"
  by (simp add: run_state_def take_Suc_conv_app_nth run_append)

lemma run_nth: "k < length is \<Longrightarrow> fst (run f is s) ! k = fst (f (is ! k) (run_state f is s k))"
proof (induction "is" arbitrary: s k)
  case (Cons i "is")
  then show ?case by (cases k) (auto simp: run_state_def)
qed simp

lemma run_state_mono:
  fixes g :: "'s \<Rightarrow> 'x::order"
  assumes "\<And>i s. g s \<le> g (snd (f i s))" "k \<le> l" "l \<le> length is"
  shows "g (run_state f is s k) \<le> g (run_state f is s l)"
  using assms(2,3)
proof (induction l rule: dec_induct)
  case (step l)
  with assms(1) [of "run_state f is s l" "is ! l"] show ?case
    by (auto simp: run_state_Suc intro: order_trans)
qed simp

text \<open>An object that stops at an error: an operation that fails shuts it, a shut object stays shut and
  rejects every operation but those that pass, which read it and change nothing. What a run of operations then
  satisfies: after the first failure there are only failures and passing operations.\<close>

locale fail_stop =
  fixes op :: "'i \<Rightarrow> 's \<Rightarrow> ('e + 'o) \<times> 's" and shut :: "'s \<Rightarrow> bool" and invar :: "'s \<Rightarrow> bool"
    and passes :: "'i \<Rightarrow> bool"
  assumes invar_op: "invar s \<Longrightarrow> invar (snd (op i s))"
    and err_shuts: "invar s \<Longrightarrow> is_err (fst (op i s)) \<Longrightarrow> shut (snd (op i s))"
    and shut_rejects: "invar s \<Longrightarrow> shut s \<Longrightarrow> \<not> passes i \<Longrightarrow> is_err (fst (op i s))"
    and passes_keeps: "invar s \<Longrightarrow> passes i \<Longrightarrow> snd (op i s) = s"
begin

lemma shut_stays: "invar s \<Longrightarrow> shut s \<Longrightarrow> shut (snd (op i s))"
  by (cases "passes i") (simp_all add: passes_keeps err_shuts shut_rejects)

lemma invar_run: "invar s \<Longrightarrow> invar (snd (run op is s))"
  by (induction "is" arbitrary: s) (simp_all add: invar_op)

lemma run_shut: "invar s \<Longrightarrow> shut s \<Longrightarrow> shut (snd (run op is s))"
  by (induction "is" arbitrary: s) (simp_all add: invar_op shut_stays)

lemma run_shut_rejects:
  "invar s \<Longrightarrow> shut s \<Longrightarrow> j < length is \<Longrightarrow> is_err (fst (run op is s) ! j) \<or> passes (is ! j)"
proof (induction "is" arbitrary: s j)
  case (Cons c cs)
  then show ?case
    using Cons.IH [of "snd (op c s)" "j - 1"]
    by (cases j) (auto simp: invar_op shut_stays dest: shut_rejects)
qed simp

lemma run_first_error_final:
  assumes "invar s" "i < j" "j < length is" "is_err (fst (run op is s) ! i)"
  shows "is_err (fst (run op is s) ! j) \<or> passes (is ! j)"
  using assms
proof (induction "is" arbitrary: s i j)
  case (Cons c cs)
  have inv: "invar (snd (op c s))" using Cons.prems(1) by (rule invar_op)
  show ?case
  proof (cases i)
    case 0
    with Cons.prems have "shut (snd (op c s))" by (simp add: err_shuts)
    with 0 Cons.prems run_shut_rejects [OF inv, of "j - 1" cs] show ?thesis by (cases j) auto
  next
    case (Suc i')
    with inv Cons.prems Cons.IH [of "snd (op c s)" i' "j - 1"] show ?thesis by (cases j) auto
  qed
qed simp

lemma run_error_shuts:
  assumes "invar s" "i < length is" "is_err (fst (run op is s) ! i)"
  shows "shut (snd (run op is s))"
  using assms
proof (induction "is" arbitrary: s i)
  case (Cons c cs)
  have inv: "invar (snd (op c s))" using Cons.prems(1) by (rule invar_op)
  show ?case
  proof (cases i)
    case 0
    with Cons.prems inv show ?thesis using run_shut err_shuts by simp
  next
    case (Suc i')
    with Cons.prems inv Cons.IH [of "snd (op c s)" i'] show ?thesis by simp
  qed
qed simp

end

text \<open>The strict case, where nothing passes: the first failure is final.\<close>

locale fail_closed =
  fixes op :: "'i \<Rightarrow> 's \<Rightarrow> ('e + 'o) \<times> 's" and shut :: "'s \<Rightarrow> bool" and invar :: "'s \<Rightarrow> bool"
  assumes invar_op: "invar s \<Longrightarrow> invar (snd (op i s))"
    and err_shuts: "invar s \<Longrightarrow> is_err (fst (op i s)) \<Longrightarrow> shut (snd (op i s))"
    and shut_rejects: "invar s \<Longrightarrow> shut s \<Longrightarrow> is_err (fst (op i s))"

sublocale fail_closed \<subseteq> stop: fail_stop op shut invar "\<lambda>_. False"
  by unfold_locales (simp_all add: invar_op err_shuts shut_rejects)

context fail_closed
begin

lemmas invar_run = stop.invar_run

lemma run_first_error_final:
  "invar s \<Longrightarrow> i < j \<Longrightarrow> j < length is \<Longrightarrow> is_err (fst (run op is s) ! i) \<Longrightarrow> is_err (fst (run op is s) ! j)"
  using stop.run_first_error_final by blast

lemma run_error_shuts:
  "invar s \<Longrightarrow> i < length is \<Longrightarrow> is_err (fst (run op is s) ! i) \<Longrightarrow> shut (snd (run op is s))"
  by (rule stop.run_error_shuts)

end

text \<open>Operations that hand out counters: no operation lowers the mark, and a counter handed out lies
  above the mark it found and not above the one it leaves. The counters of a run then strictly
  increase.\<close>

locale counter_log =
  fixes op :: "'i \<Rightarrow> 's \<Rightarrow> ('e + 'o) \<times> 's" and invar :: "'s \<Rightarrow> bool"
    and counter :: "'e + 'o \<Rightarrow> u64 option" and mark :: "'s \<Rightarrow> u64"
  assumes log_invar: "invar s \<Longrightarrow> invar (snd (op i s))"
    and log_mark: "invar s \<Longrightarrow> mark s \<le> mark (snd (op i s))"
    and log_counter: "invar s \<Longrightarrow> counter (fst (op i s)) = Some c \<Longrightarrow>
          mark s < c \<and> c \<le> mark (snd (op i s))"
begin

lemma run_counters:
  assumes "invar s"
  shows "sorted_wrt (<) (List.map_filter counter (fst (run op is s)))"
    and "\<forall>c \<in> set (List.map_filter counter (fst (run op is s))). mark s < c"
  using assms
proof (induction "is" arbitrary: s)
  case Nil
  { case 1 show ?case by (simp add: List.map_filter_simps) }
  { case 2 show ?case by (simp add: List.map_filter_simps) }
next
  case (Cons i "is")
  { case (1 s)
    let ?s = "snd (op i s)"
    have "mark ?s < c" if "c \<in> set (List.map_filter counter (fst (run op is ?s)))" for c
      using Cons(2) [OF log_invar [OF 1, of i]] that by simp
    with Cons(1) [OF log_invar [OF 1]] log_counter [OF 1, of i] show ?case
      by (force simp: List.map_filter_simps split: option.splits) }
  { case (2 s)
    then show ?case
      using Cons(2) [OF log_invar [OF 2]] log_counter [OF 2, of i] log_mark [OF 2, of i]
      by (force simp: List.map_filter_simps split: option.splits) }
qed

end

end
