(* ===== verification/Wire_Types.thy ===== *)
theory Wire_Types
  imports Prelude
begin

text \<open>
  The closed vocabularies of \<^verbatim>\<open>transport/crypto-core/src/lib.rs\<close>: close reasons, handoff states,
  record kinds with their wire numbers, and the secret-free error value every operation of the
  core returns.
\<close>

section \<open>Close reasons\<close>

datatype CloseReason =
    Normal | AuthenticationFailed | BindingMismatch | Stale | Timeout | Oversize | Malformed
  | SequenceViolation | RecordLimit | PeerClosed | BrokerLost | EligibilityLost
  | CleanupFailed | InternalError

text \<open>The discriminants of \<^verbatim>\<open>#[repr(u8)]\<close>, as \<^verbatim>\<open>reason as u8\<close> reads them.\<close>

fun CloseReason_wire :: "CloseReason \<Rightarrow> u8" where
  "CloseReason_wire Normal = 0"
| "CloseReason_wire AuthenticationFailed = 1"
| "CloseReason_wire BindingMismatch = 2"
| "CloseReason_wire Stale = 3"
| "CloseReason_wire Timeout = 4"
| "CloseReason_wire Oversize = 5"
| "CloseReason_wire Malformed = 6"
| "CloseReason_wire SequenceViolation = 7"
| "CloseReason_wire RecordLimit = 8"
| "CloseReason_wire PeerClosed = 9"
| "CloseReason_wire BrokerLost = 10"
| "CloseReason_wire EligibilityLost = 11"
| "CloseReason_wire CleanupFailed = 12"
| "CloseReason_wire InternalError = 13"

datatype HandoffState = NotHandedOff | HandoffPossibleOrConfirmed

fun HandoffState_wire :: "HandoffState \<Rightarrow> u8" where
  "HandoffState_wire NotHandedOff = 0"
| "HandoffState_wire HandoffPossibleOrConfirmed = 1"

fun conservative_max :: "HandoffState \<Rightarrow> HandoffState \<Rightarrow> HandoffState" where
  "conservative_max HandoffPossibleOrConfirmed _ = HandoffPossibleOrConfirmed"
| "conservative_max _ HandoffPossibleOrConfirmed = HandoffPossibleOrConfirmed"
| "conservative_max _ _ = NotHandedOff"

section \<open>Errors\<close>

record error =
  err_reason :: CloseReason
  err_peer_close :: "(CloseReason \<times> HandoffState) option"
  err_close_frame :: "bytes option"

definition Error_new :: "CloseReason \<Rightarrow> error" where
  "Error_new r = \<lparr>err_reason = r, err_peer_close = None, err_close_frame = None\<rparr>"

definition Error_peer_close :: "CloseReason \<Rightarrow> HandoffState \<Rightarrow> error" where
  "Error_peer_close r h =
     \<lparr>err_reason = PeerClosed, err_peer_close = Some (r, h), err_close_frame = None\<rparr>"

definition Error_record_limit :: "bytes option \<Rightarrow> error" where
  "Error_record_limit f = \<lparr>err_reason = RecordLimit, err_peer_close = None, err_close_frame = f\<rparr>"

text \<open>\<^verbatim>\<open>take_close_frame\<close> hands the frame out once and leaves \<^verbatim>\<open>None\<close> behind.\<close>

definition Error_take_close_frame :: "error \<Rightarrow> bytes option \<times> error" where
  "Error_take_close_frame e = (err_close_frame e, e\<lparr>err_close_frame := None\<rparr>)"

lemma Error_sel [simp]:
  "err_reason (Error_new r) = r" "err_peer_close (Error_new r) = None"
  "err_close_frame (Error_new r) = None"
  "err_reason (Error_peer_close r h) = PeerClosed" "err_peer_close (Error_peer_close r h) = Some (r, h)"
  "err_close_frame (Error_peer_close r h) = None"
  "err_reason (Error_record_limit f) = RecordLimit" "err_peer_close (Error_record_limit f) = None"
  "err_close_frame (Error_record_limit f) = f"
  by (simp_all add: Error_new_def Error_peer_close_def Error_record_limit_def)

lemma Error_new_inject [simp]: "Error_new r = Error_new r' \<longleftrightarrow> r = r'"
  by (simp add: Error_new_def)

definition CloseReason_from_wire :: "u8 \<Rightarrow> error + CloseReason" where
  "CloseReason_from_wire v =
     (if v = 0 then Inr Normal else if v = 1 then Inr AuthenticationFailed
      else if v = 2 then Inr BindingMismatch else if v = 3 then Inr Stale
      else if v = 4 then Inr Timeout else if v = 5 then Inr Oversize
      else if v = 6 then Inr Malformed else if v = 7 then Inr SequenceViolation
      else if v = 8 then Inr RecordLimit else if v = 9 then Inr PeerClosed
      else if v = 10 then Inr BrokerLost else if v = 11 then Inr EligibilityLost
      else if v = 12 then Inr CleanupFailed else if v = 13 then Inr InternalError
      else Inl (Error_new Malformed))"

definition HandoffState_from_wire :: "u8 \<Rightarrow> error + HandoffState" where
  "HandoffState_from_wire v =
     (if v = 0 then Inr NotHandedOff else if v = 1 then Inr HandoffPossibleOrConfirmed
      else Inl (Error_new Malformed))"

lemma CloseReason_from_to_wire [simp]: "CloseReason_from_wire (CloseReason_wire r) = Inr r"
  by (cases r) (simp_all add: CloseReason_from_wire_def)

lemma HandoffState_from_to_wire [simp]: "HandoffState_from_wire (HandoffState_wire h) = Inr h"
  by (cases h) (simp_all add: HandoffState_from_wire_def)

lemma CloseReason_to_from_wire: "CloseReason_from_wire v = Inr r \<Longrightarrow> CloseReason_wire r = v"
  by (auto simp: CloseReason_from_wire_def split: if_splits)

lemma HandoffState_to_from_wire: "HandoffState_from_wire v = Inr h \<Longrightarrow> HandoffState_wire h = v"
  by (auto simp: HandoffState_from_wire_def split: if_splits)

lemma conservative_max_idem [simp]: "conservative_max h h = h"
  by (cases h) auto

lemma conservative_max_top [simp]:
  "conservative_max h HandoffPossibleOrConfirmed = HandoffPossibleOrConfirmed"
  by (cases h) auto

lemma conservative_max_eq_not:
  "conservative_max a b = NotHandedOff \<longleftrightarrow> a = NotHandedOff \<and> b = NotHandedOff"
  by (cases a; cases b) auto

section \<open>Record kinds\<close>

datatype RecordKind = Application | Finished | Heartbeat | Close

fun RecordKind_wire :: "RecordKind \<Rightarrow> u8" where
  "RecordKind_wire Application = 1"
| "RecordKind_wire Finished = 2"
| "RecordKind_wire Heartbeat = 3"
| "RecordKind_wire Close = 4"

definition RecordKind_from_wire :: "u8 \<Rightarrow> error + RecordKind" where
  "RecordKind_from_wire v =
     (if v = 1 then Inr Application else if v = 2 then Inr Finished
      else if v = 3 then Inr Heartbeat else if v = 4 then Inr Close
      else Inl (Error_new Malformed))"

lemma RecordKind_from_to_wire [simp]: "RecordKind_from_wire (RecordKind_wire k) = Inr k"
  by (cases k) (simp_all add: RecordKind_from_wire_def)

lemma RecordKind_to_from_wire: "RecordKind_from_wire v = Inr k \<Longrightarrow> RecordKind_wire k = v"
  by (auto simp: RecordKind_from_wire_def split: if_splits)

end
