(* ===== verification/Cbor.thy ===== *)
theory Cbor
  imports Wire_Types
begin

unbundle bit_operations_syntax

text \<open>
  CBOR. The transport core encodes and decodes its payloads through the third-party crate
  \<^verbatim>\<open>minicbor\<close>; the model takes its primitive operations as a parameter, the record \<open>cbor\<close>, and the
  locale \<open>minicbor\<close> states the documented behaviour the code relies on: every writer emits the
  preferred (shortest) serialisation, every reader undoes it, and text that is read is valid UTF-8. The same serialisation is written
  out by hand in \<^verbatim>\<open>host-runtime/src/raw_transport.rs\<close> (\<open>cbor_major_len\<close> and its wrappers), which
  gives the specification its bytes. \<open>rfc_cbor\<close> is an executable codec that satisfies the locale.
\<close>

section \<open>The hand-written preferred serialisation\<close>

definition cbor_major_len :: "u8 \<Rightarrow> u64 \<Rightarrow> bytes" where
  "cbor_major_len major value =
     (if value \<le> 23 then [push_bit 5 major OR ucast value]
      else if value \<le> 0xff then [push_bit 5 major OR 24, ucast value]
      else if value \<le> 0xffff then (push_bit 5 major OR 25) # be_bytes 2 (unat value)
      else if value \<le> 0xffffffff then (push_bit 5 major OR 26) # be_bytes 4 (unat value)
      else (push_bit 5 major OR 27) # be_bytes 8 (unat value))"

definition cbor_uint :: "u64 \<Rightarrow> bytes" where
  "cbor_uint value = cbor_major_len 0 value"

definition cbor_bytes :: "bytes \<Rightarrow> bytes" where
  "cbor_bytes bs = cbor_major_len 2 (of_nat (length bs)) @ bs"

definition cbor_text :: "bytes \<Rightarrow> bytes" where
  "cbor_text s = cbor_major_len 3 (of_nat (length s)) @ s"

lemma cbor_major_len_nonempty [simp]: "cbor_major_len m v \<noteq> []"
  by (simp add: cbor_major_len_def)

lemma length_cbor_major_len:
  "length (cbor_major_len m v) =
     (if v \<le> 23 then 1 else if v \<le> 0xff then 2 else if v \<le> 0xffff then 3
      else if v \<le> 0xffffffff then 5 else 9)"
  by (simp add: cbor_major_len_def)

lemma cbor_length_bounds:
  "length (cbor_major_len m v) \<le> 9" "length (cbor_uint v) \<le> 9"
  "length (cbor_bytes b) \<le> 9 + length b" "length (cbor_text b) \<le> 9 + length b"
  by (simp_all add: cbor_uint_def cbor_bytes_def cbor_text_def length_cbor_major_len)

section \<open>The codec interface\<close>

text \<open>A decoder is the input that is left; its position is at the end exactly when nothing is left.
  A reader returns \<open>None\<close> for a decode error. A writer returns the bytes it appends, or \<open>None\<close> for
  an encode error. Text is the UTF-8 bytes of a Rust \<^verbatim>\<open>str\<close>.\<close>

record cbor =
  get_map :: "bytes \<Rightarrow> (u64 option \<times> bytes) option"
  get_u8 :: "bytes \<Rightarrow> (u8 \<times> bytes) option"
  get_u16 :: "bytes \<Rightarrow> (u16 \<times> bytes) option"
  get_u64 :: "bytes \<Rightarrow> (u64 \<times> bytes) option"
  get_bytes :: "bytes \<Rightarrow> (bytes \<times> bytes) option"
  get_str :: "bytes \<Rightarrow> (bytes \<times> bytes) option"
  put_array :: "u64 \<Rightarrow> bytes option"
  put_map :: "u64 \<Rightarrow> bytes option"
  put_str :: "bytes \<Rightarrow> bytes option"
  put_bytes :: "bytes \<Rightarrow> bytes option"
  put_u8 :: "u8 \<Rightarrow> bytes option"
  put_u16 :: "u16 \<Rightarrow> bytes option"
  put_u64 :: "u64 \<Rightarrow> bytes option"

text \<open>The wrappers \<^verbatim>\<open>Decoder\<close> and \<^verbatim>\<open>Encoder\<close> of the core turn decode errors into \<open>Malformed\<close> and
  encode errors into \<open>InternalError\<close>. \<open>Encoder_run\<close> is a chain of writer calls joined by \<^verbatim>\<open>?\<close>.\<close>

definition Decoder_map :: "cbor \<Rightarrow> bytes \<Rightarrow> error + (u64 option \<times> bytes)" where
  "Decoder_map C d = ok_or (Error_new Malformed) (get_map C d)"

definition Decoder_u8 :: "cbor \<Rightarrow> bytes \<Rightarrow> error + (u8 \<times> bytes)" where
  "Decoder_u8 C d = ok_or (Error_new Malformed) (get_u8 C d)"

definition Decoder_u64 :: "cbor \<Rightarrow> bytes \<Rightarrow> error + (u64 \<times> bytes)" where
  "Decoder_u64 C d = ok_or (Error_new Malformed) (get_u64 C d)"

definition Decoder_bytes :: "cbor \<Rightarrow> bytes \<Rightarrow> error + (bytes \<times> bytes)" where
  "Decoder_bytes C d = ok_or (Error_new Malformed) (get_bytes C d)"

definition put_all :: "bytes option list \<Rightarrow> bytes option" where
  "put_all ws = map_option concat (those ws)"

definition Encoder_run :: "bytes option list \<Rightarrow> error + bytes" where
  "Encoder_run ws = ok_or (Error_new InternalError) (put_all ws)"

lemma put_all_Nil [simp]: "put_all [] = Some []"
  by (simp add: put_all_def)

lemma put_all_Cons [simp]:
  "put_all (w # ws) =
     (case w of None \<Rightarrow> None | Some b \<Rightarrow> map_option (\<lambda>bs. b @ bs) (put_all ws))"
  by (auto simp: put_all_def option.map_comp o_def split: option.splits)

lemma put_all_length:
  "put_all ws = Some p \<Longrightarrow> \<forall>w \<in> set ws. \<forall>b. w = Some b \<longrightarrow> length b \<le> n \<Longrightarrow> length p \<le> length ws * n"
  by (induction ws arbitrary: p) (force split: option.splits)+

lemmas Decoder_defs = Decoder_map_def Decoder_u8_def Decoder_u64_def Decoder_bytes_def

text \<open>A recurring shape of the parsers: read a small integer and insist on its value. Both a decode
  error and another value are \<open>Malformed\<close>.\<close>

definition expect_u8 :: "cbor \<Rightarrow> u8 \<Rightarrow> bytes \<Rightarrow> error + bytes" where
  "expect_u8 C k d =
     res_bind (Decoder_u8 C d) (\<lambda>(v, d'). if v \<noteq> k then Inl (Error_new Malformed) else Inr d')"

definition expect_map :: "cbor \<Rightarrow> u64 \<Rightarrow> bytes \<Rightarrow> error + bytes" where
  "expect_map C n d =
     res_bind (Decoder_map C d)
       (\<lambda>(v, d'). if v \<noteq> Some n then Inl (Error_new Malformed) else Inr d')"

section \<open>What the code relies on\<close>

locale minicbor =
  fixes C :: cbor
  assumes put_u8: "put_u8 C v8 = Some (cbor_uint (ucast v8))"
    and put_u16: "put_u16 C v16 = Some (cbor_uint (ucast v16))"
    and put_u64: "put_u64 C v64 = Some (cbor_uint v64)"
    and put_map: "put_map C n = Some (cbor_major_len 5 n)"
    and put_array: "put_array C n = Some (cbor_major_len 4 n)"
    and put_bytes: "length bs < 2 ^ 64 \<Longrightarrow> put_bytes C bs = Some (cbor_bytes bs)"
    and put_str: "length bs < 2 ^ 64 \<Longrightarrow> put_str C bs = Some (cbor_text bs)"
    and get_u8: "unat v64 < 2 ^ 8 \<Longrightarrow> get_u8 C (cbor_uint v64 @ r) = Some (ucast v64, r)"
    and get_u16: "unat v64 < 2 ^ 16 \<Longrightarrow> get_u16 C (cbor_uint v64 @ r) = Some (ucast v64, r)"
    and get_u64: "get_u64 C (cbor_uint v64 @ r) = Some (v64, r)"
    and get_map: "get_map C (cbor_major_len 5 n @ r) = Some (Some n, r)"
    and get_bytes: "length bs < 2 ^ 64 \<Longrightarrow> get_bytes C (cbor_bytes bs @ r) = Some (bs, r)"
    and get_str: "length bs < 2 ^ 64 \<Longrightarrow> utf8_valid bs \<Longrightarrow> get_str C (cbor_text bs @ r) = Some (bs, r)"
    and get_str_utf8: "get_str C d = Some (bs, r) \<Longrightarrow> utf8_valid bs"
begin

lemmas put_laws = put_u8 put_u16 put_u64 put_map put_array put_bytes put_str

lemmas get_laws = get_u8 get_u16 get_u64 get_map get_bytes get_str

lemma Decoder_laws:
  "unat v < 2 ^ 8 \<Longrightarrow> Decoder_u8 C (cbor_uint v @ r) = Inr (ucast v, r)"
  "Decoder_u64 C (cbor_uint v @ r) = Inr (v, r)"
  "Decoder_map C (cbor_major_len 5 n @ r) = Inr (Some n, r)"
  "length bs < 2 ^ 64 \<Longrightarrow> Decoder_bytes C (cbor_bytes bs @ r) = Inr (bs, r)"
  by (simp_all add: Decoder_defs get_laws)

lemma Decoder_laws_end:
  "unat v < 2 ^ 8 \<Longrightarrow> Decoder_u8 C (cbor_uint v) = Inr (ucast v, [])"
  "Decoder_u64 C (cbor_uint v) = Inr (v, [])"
  "length bs < 2 ^ 64 \<Longrightarrow> Decoder_bytes C (cbor_bytes bs) = Inr (bs, [])"
  using Decoder_laws [where r = "[]"] by simp_all

lemma expect_laws:
  "unat v < 2 ^ 8 \<Longrightarrow> expect_u8 C k (cbor_uint v @ r) =
     (if ucast v = k then Inr r else Inl (Error_new Malformed))"
  "expect_map C m (cbor_major_len 5 n @ r) = (if n = m then Inr r else Inl (Error_new Malformed))"
  by (simp_all add: expect_u8_def expect_map_def Decoder_laws)

lemmas parse_laws = Decoder_laws Decoder_laws_end expect_laws

lemma Encoder_run_laws:
  "Encoder_run [] = Inr []"
  "Encoder_run (Some b # ws) = map_sum id ((@) b) (Encoder_run ws)"
  by (auto simp: Encoder_run_def ok_or_def split: option.splits)

end

section \<open>An executable codec\<close>

text \<open>The RFC 8949 subset the payloads use: unsigned integers, byte and text strings, definite
  arrays and maps.\<close>

definition rfc_arg :: "u8 \<Rightarrow> bytes \<Rightarrow> (u64 \<times> bytes) option" where
  "rfc_arg info r =
     (if info \<le> 23 then Some (ucast info, r)
      else if info > 27 then None
      else let n = (if info = 24 then 1 else if info = 25 then 2 else if info = 26 then 4 else 8)
           in if length r < n then None else Some (of_nat (be_val (take n r)), drop n r))"

definition rfc_head :: "u8 \<Rightarrow> bytes \<Rightarrow> (u64 \<times> bytes) option" where
  "rfc_head major d =
     (case d of [] \<Rightarrow> None
      | b # r \<Rightarrow> if drop_bit 5 b = major then rfc_arg (b AND 31) r else None)"

definition rfc_uint :: "nat \<Rightarrow> bytes \<Rightarrow> (u64 \<times> bytes) option" where
  "rfc_uint lim d =
     (case rfc_head 0 d of None \<Rightarrow> None
      | Some (v, r) \<Rightarrow> if unat v < lim then Some (v, r) else None)"

definition rfc_string :: "u8 \<Rightarrow> bytes \<Rightarrow> (bytes \<times> bytes) option" where
  "rfc_string major d =
     (case rfc_head major d of None \<Rightarrow> None
      | Some (v, r) \<Rightarrow> if length r < unat v then None else Some (take (unat v) r, drop (unat v) r))"

definition rfc_cbor :: cbor where
  "rfc_cbor = \<lparr>
     get_map = (\<lambda>d. map_option (\<lambda>(v, r). (Some v, r)) (rfc_head 5 d)),
     get_u8 = (\<lambda>d. map_option (\<lambda>(v, r). (ucast v, r)) (rfc_uint 256 d)),
     get_u16 = (\<lambda>d. map_option (\<lambda>(v, r). (ucast v, r)) (rfc_uint 65536 d)),
     get_u64 = rfc_uint (2 ^ 64),
     get_bytes = rfc_string 2,
     get_str = (\<lambda>d. case rfc_string 3 d of None \<Rightarrow> None
                | Some (s, r) \<Rightarrow> if utf8_valid s then Some (s, r) else None),
     put_array = (\<lambda>n. Some (cbor_major_len 4 n)),
     put_map = (\<lambda>n. Some (cbor_major_len 5 n)),
     put_str = (\<lambda>s. Some (cbor_text s)),
     put_bytes = (\<lambda>b. Some (cbor_bytes b)),
     put_u8 = (\<lambda>v. Some (cbor_uint (ucast v))),
     put_u16 = (\<lambda>v. Some (cbor_uint (ucast v))),
     put_u64 = (\<lambda>v. Some (cbor_uint v))\<rparr>"

lemma head_byte_low: "i < 32 \<Longrightarrow> drop_bit 5 (i :: u8) = 0"
  by (simp add: drop_bit_eq_div word_less_nat_alt word_arith_nat_div)

lemma head_byte_major: "m < 8 \<Longrightarrow> drop_bit 5 (push_bit 5 m) = (m :: u8)"
proof -
  assume "m < 8"
  then have "unat (m * 32) = unat m * 32"
    by (simp add: unat_word_ariths word_less_nat_alt)
  then show ?thesis
    by (simp add: push_bit_eq_mult drop_bit_eq_div word_arith_nat_div)
qed

lemma head_byte_info: "i < 32 \<Longrightarrow> (push_bit 5 m OR i) AND 31 = (i :: u8)"
proof -
  assume i: "i < 32"
  have "(push_bit 5 m OR i) AND 31 = take_bit 5 (push_bit 5 m OR i)"
    by (simp add: take_bit_eq_mask mask_eq_exp_minus_1)
  also have "\<dots> = take_bit 5 i"
    by (simp add: take_bit_push_bit)
  also have "\<dots> = i"
    using i by (simp add: take_bit_eq_mod word_arith_nat_mod word_less_nat_alt)
  finally show ?thesis .
qed

lemma ucast_small: "v \<le> 0xff \<Longrightarrow> unat (ucast (v :: u64) :: u8) = unat v"
  by (simp add: unsigned_ucast_eq take_bit_eq_mod word_le_nat_alt)

lemma rfc_head_cbor_major_len:
  assumes "m < 8"
  shows "rfc_head m (cbor_major_len m v @ r) = Some (v, r)"
proof (cases "v \<le> 23")
  case True
  then have i: "ucast v < (32 :: u8)" "ucast v \<le> (23 :: u8)"
    by (simp_all add: word_less_nat_alt word_le_nat_alt ucast_small)
  from True have "ucast (ucast v :: u8) = v"
    by (simp add: word_unat_eq_iff ucast_small word_le_nat_alt)
  with True i assms show ?thesis
    by (simp add: rfc_head_def cbor_major_len_def head_byte_major head_byte_low head_byte_info rfc_arg_def)
next
  case False
  have ucast1: "v \<le> 0xff \<Longrightarrow> word_of_nat (be_val [ucast v]) = v"
    using be_val_snoc [of "[]"] by (simp add: ucast_small)
  have le: "v \<le> 0xffff \<Longrightarrow> unat v < 2 ^ 16" "v \<le> 0xffffffff \<Longrightarrow> unat v < 2 ^ 32"
    by (simp_all add: word_le_nat_alt)
  show ?thesis
    using False assms ucast1 le unat_bound [of v]
    by (auto simp: rfc_head_def cbor_major_len_def head_byte_major head_byte_low head_byte_info rfc_arg_def Let_def)
qed

lemma rfc_uint_cbor: "unat v < lim \<Longrightarrow> rfc_uint lim (cbor_uint v @ r) = Some (v, r)"
  by (simp add: rfc_uint_def cbor_uint_def rfc_head_cbor_major_len)

lemma rfc_string_cbor:
  assumes "m < 8" "length s < 2 ^ 64"
  shows "rfc_string m (cbor_major_len m (of_nat (length s)) @ s @ r) = Some (s, r)"
  using assms by (simp add: rfc_string_def rfc_head_cbor_major_len unat_of_nat)

interpretation rfc: minicbor rfc_cbor
  by unfold_locales
    (auto simp: rfc_cbor_def rfc_uint_cbor rfc_head_cbor_major_len cbor_bytes_def cbor_text_def unat_bounds
      rfc_string_cbor split: option.splits if_splits)

end
