(* ===== verification/Payloads.thy ===== *)
theory Payloads
  imports Cbor
begin

text \<open>
  The CBOR payloads of \<^verbatim>\<open>transport/crypto-core/src/lib.rs\<close> and their strict parsers: close records,
  the two bootstrap messages, the bootstrap acknowledgement, the Finished body, heartbeats, and the
  Noise prologues. Each parser re-encodes what it read and compares, so it accepts exactly one byte
  string per value; each section proves that as a \<open>wire_codec\<close>.
\<close>

section \<open>Bindings\<close>

record SessionLimits =
  sl_request_bytes :: nat
  sl_response_bytes :: nat
  sl_first_open_bytes :: nat

definition SessionLimits_default :: SessionLimits where
  "SessionLimits_default = \<lparr>sl_request_bytes = 16 * 1024 * 1024,
     sl_response_bytes = 64 * 1024 * 1024, sl_first_open_bytes = 64 * 1024\<rparr>"

record SessionBinding =
  sb_lease_id :: bytes
  sb_process_generation :: u64
  sb_listener_epoch :: u64
  sb_nk_handshake_hash :: bytes

definition valid_generation :: "u64 \<Rightarrow> bool" where
  "valid_generation v \<longleftrightarrow> 1 \<le> v \<and> v \<le> 9007199254740991"

definition SessionBinding_valid :: "SessionBinding \<Rightarrow> bool" where
  "SessionBinding_valid b \<longleftrightarrow>
     (1 \<le> sb_process_generation b \<and> sb_process_generation b \<le> 9007199254740991) \<and>
     (1 \<le> sb_listener_epoch b \<and> sb_listener_epoch b \<le> 9007199254740991)"

record BootstrapBinding =
  bb_target_reference_digest :: bytes
  bb_lease_id :: bytes
  bb_target_nonce :: bytes
  bb_app_artifact_digest :: bytes
  bb_expiry_ms :: u64

record TargetBootstrapAck =
  ack_target_reference_digest :: bytes
  ack_lease_id :: bytes
  ack_process_generation :: u64
  ack_listener_epoch :: u64
  ack_nk_handshake_hash :: bytes

record LeaseBinding =
  lb_lease_id :: bytes
  lb_process_generation :: u64
  lb_listener_epoch :: u64

definition LeaseBinding_from_ack :: "TargetBootstrapAck \<Rightarrow> LeaseBinding" where
  "LeaseBinding_from_ack ack =
     \<lparr>lb_lease_id = ack_lease_id ack, lb_process_generation = ack_process_generation ack,
      lb_listener_epoch = ack_listener_epoch ack\<rparr>"

text \<open>What Rust's array types say of these structs: the lengths of their byte fields.\<close>

definition wf_session_binding :: "SessionBinding \<Rightarrow> bool" where
  "wf_session_binding b \<longleftrightarrow> length (sb_lease_id b) = 16 \<and> length (sb_nk_handshake_hash b) = 32"

definition wf_bootstrap_binding :: "BootstrapBinding \<Rightarrow> bool" where
  "wf_bootstrap_binding b \<longleftrightarrow>
     length (bb_target_reference_digest b) = 32 \<and> length (bb_lease_id b) = 16 \<and>
     length (bb_target_nonce b) = 32 \<and> length (bb_app_artifact_digest b) = 32"

definition wf_ack :: "TargetBootstrapAck \<Rightarrow> bool" where
  "wf_ack a \<longleftrightarrow>
     length (ack_target_reference_digest a) = 32 \<and> length (ack_lease_id a) = 16 \<and>
     length (ack_nk_handshake_hash a) = 32"

definition wf_lease_binding :: "LeaseBinding \<Rightarrow> bool" where
  "wf_lease_binding b \<longleftrightarrow> length (lb_lease_id b) = 16"

definition array32 :: "bytes \<Rightarrow> error + bytes" where
  "array32 bs = (if length bs = 32 then Inr bs else Inl (Error_new Malformed))"

definition array16 :: "bytes \<Rightarrow> error + bytes" where
  "array16 bs = (if length bs = 16 then Inr bs else Inl (Error_new Malformed))"

definition ProcessBootstrapSecret_from_slice :: "bytes \<Rightarrow> error + bytes" where
  "ProcessBootstrapSecret_from_slice bs =
     (if length bs \<noteq> 32 then Inl (Error_new Malformed) else Inr bs)"

text \<open>The last step of every parser: nothing is left over and the re-encoding is the input.\<close>

definition canonical_or :: "bytes \<Rightarrow> error + bytes \<Rightarrow> bytes \<Rightarrow> 'a \<Rightarrow> error + 'a" where
  "canonical_or rest enc input v =
     (if rest \<noteq> [] then Inl (Error_new Malformed)
      else res_bind enc (\<lambda>b. if b \<noteq> input then Inl (Error_new Malformed) else Inr v))"

lemma canonical_or_Inr:
  "canonical_or rest enc input v = Inr w \<longleftrightarrow> rest = [] \<and> enc = Inr input \<and> w = v"
  by (auto simp: canonical_or_def res_bind_eq_Inr)

lemma canonical_or_end [simp]: "canonical_or [] (Inr b) b v = Inr v"
  by (simp add: canonical_or_def)

section \<open>Close records\<close>

definition close_payload :: "cbor \<Rightarrow> CloseReason \<Rightarrow> HandoffState \<Rightarrow> error + bytes" where
  "close_payload C reason handoff = Encoder_run
     [put_map C 3, put_u8 C 0, put_u8 C 1, put_u8 C 1, put_u8 C (CloseReason_wire reason),
      put_u8 C 2, put_u8 C (HandoffState_wire handoff)]"

definition parse_close :: "cbor \<Rightarrow> bytes \<Rightarrow> error + (CloseReason \<times> HandoffState)" where
  "parse_close C input =
     res_bind (expect_map C 3 input) (\<lambda>d.
     res_bind (expect_u8 C 0 d) (\<lambda>d.
     res_bind (expect_u8 C 1 d) (\<lambda>d.
     res_bind (expect_u8 C 1 d) (\<lambda>d.
     res_bind (Decoder_u8 C d) (\<lambda>(w, d).
     res_bind (CloseReason_from_wire w) (\<lambda>reason.
     res_bind (expect_u8 C 2 d) (\<lambda>d.
     res_bind (Decoder_u8 C d) (\<lambda>(w, d).
     res_bind (HandoffState_from_wire w) (\<lambda>handoff.
     canonical_or d (close_payload C reason handoff) input (reason, handoff))))))))))"

definition validate_control_record :: "cbor \<Rightarrow> RecordKind \<Rightarrow> bytes \<Rightarrow> error + unit" where
  "validate_control_record C kind bs =
     (if kind = Close then res_bind (parse_close C bs) (\<lambda>_. Inr ()) else Inr ())"

lemma parse_close_canonical: "parse_close C input = Inr (r, h) \<Longrightarrow> close_payload C r h = Inr input"
  by (auto simp: parse_close_def res_bind_eq_Inr canonical_or_Inr)

section \<open>Noise prologues\<close>

definition ascii :: "string \<Rightarrow> bytes" where
  "ascii s = map (\<lambda>c. of_nat (of_char c)) s"

definition session_prologue :: "cbor \<Rightarrow> SessionBinding \<Rightarrow> SessionLimits \<Rightarrow> error + bytes" where
  "session_prologue C b limits =
     (if \<not> SessionBinding_valid b then Inl (Error_new BindingMismatch)
      else Encoder_run
        [put_array C 12, put_str C (ascii ''apppilotkit.transport''), put_u8 C 1,
         put_str C (ascii ''session''), put_u8 C 0, put_u8 C 1, put_bytes C (sb_lease_id b),
         put_u64 C (sb_process_generation b), put_u64 C (sb_listener_epoch b),
         put_u64 C (of_nat (sl_request_bytes limits)), put_u64 C (of_nat (sl_response_bytes limits)),
         put_u64 C 8192, put_bytes C (sb_nk_handshake_hash b)])"

definition bootstrap_prologue :: "cbor \<Rightarrow> BootstrapBinding \<Rightarrow> error + bytes" where
  "bootstrap_prologue C b = Encoder_run
     [put_array C 10, put_str C (ascii ''apppilotkit.transport''), put_u8 C 1,
      put_str C (ascii ''bootstrap''), put_u8 C 0, put_u8 C 1,
      put_bytes C (bb_target_reference_digest b), put_bytes C (bb_lease_id b),
      put_bytes C (bb_target_nonce b), put_bytes C (bb_app_artifact_digest b),
      put_u64 C (bb_expiry_ms b)]"

section \<open>Bootstrap messages\<close>

definition m1_payload :: "cbor \<Rightarrow> BootstrapBinding \<Rightarrow> error + bytes" where
  "m1_payload C b = Encoder_run
     [put_map C 4, put_u8 C 0, put_u8 C 1, put_u8 C 1, put_bytes C (bb_target_reference_digest b),
      put_u8 C 2, put_bytes C (bb_lease_id b), put_u8 C 3, put_bytes C (bb_target_nonce b)]"

definition expected_m2 :: "cbor \<Rightarrow> BootstrapBinding \<Rightarrow> bytes \<Rightarrow> error + bytes" where
  "expected_m2 C b secret = Encoder_run
     [put_map C 7, put_u8 C 0, put_u8 C 1, put_u8 C 1, put_bytes C secret,
      put_u8 C 2, put_bytes C (bb_target_reference_digest b), put_u8 C 3, put_bytes C (bb_lease_id b),
      put_u8 C 4, put_bytes C (bb_target_nonce b), put_u8 C 5, put_u64 C (bb_expiry_ms b),
      put_u8 C 6, put_bytes C (bb_app_artifact_digest b)]"

definition parse_m2 :: "cbor \<Rightarrow> BootstrapBinding \<Rightarrow> bytes \<Rightarrow> error + bytes" where
  "parse_m2 C b input =
     res_bind (expect_map C 7 input) (\<lambda>d.
     res_bind (expect_u8 C 0 d) (\<lambda>d.
     res_bind (Decoder_u8 C d) (\<lambda>(version, d).
     res_bind (expect_u8 C 1 d) (\<lambda>d.
     res_bind (Decoder_bytes C d) (\<lambda>(x, d).
     res_bind (ProcessBootstrapSecret_from_slice x) (\<lambda>secret.
     res_bind (expect_u8 C 2 d) (\<lambda>d.
     res_bind (Decoder_bytes C d) (\<lambda>(x, d).
     res_bind (array32 x) (\<lambda>digest.
     res_bind (expect_u8 C 3 d) (\<lambda>d.
     res_bind (Decoder_bytes C d) (\<lambda>(x, d).
     res_bind (array16 x) (\<lambda>lease.
     res_bind (expect_u8 C 4 d) (\<lambda>d.
     res_bind (Decoder_bytes C d) (\<lambda>(x, d).
     res_bind (array32 x) (\<lambda>nonce.
     res_bind (expect_u8 C 5 d) (\<lambda>d.
     res_bind (Decoder_u64 C d) (\<lambda>(expiry, d).
     res_bind (expect_u8 C 6 d) (\<lambda>d.
     res_bind (Decoder_bytes C d) (\<lambda>(x, d).
     res_bind (array32 x) (\<lambda>artifact.
     if d \<noteq> [] \<or> version \<noteq> 1 then Inl (Error_new Malformed)
     else if digest \<noteq> bb_target_reference_digest b \<or> lease \<noteq> bb_lease_id b
        \<or> nonce \<noteq> bb_target_nonce b \<or> expiry \<noteq> bb_expiry_ms b
        \<or> artifact \<noteq> bb_app_artifact_digest b then Inl (Error_new BindingMismatch)
     else res_bind (expected_m2 C b secret)
       (\<lambda>canonical. if canonical \<noteq> input then Inl (Error_new Malformed)
         else Inr secret)))))))))))))))))))))"

definition bootstrap_ack_payload :: "cbor \<Rightarrow> TargetBootstrapAck \<Rightarrow> error + bytes" where
  "bootstrap_ack_payload C ack = Encoder_run
     [put_map C 6, put_u8 C 0, put_u8 C 1, put_u8 C 1, put_bytes C (ack_target_reference_digest ack),
      put_u8 C 2, put_bytes C (ack_lease_id ack), put_u8 C 3, put_u64 C (ack_process_generation ack),
      put_u8 C 4, put_u64 C (ack_listener_epoch ack), put_u8 C 5,
      put_bytes C (ack_nk_handshake_hash ack)]"

definition parse_bootstrap_ack ::
    "cbor \<Rightarrow> bytes \<Rightarrow> BootstrapBinding \<Rightarrow> bytes \<Rightarrow> error + TargetBootstrapAck" where
  "parse_bootstrap_ack C input b hash =
     res_bind (expect_map C 6 input) (\<lambda>d.
     res_bind (expect_u8 C 0 d) (\<lambda>d.
     res_bind (expect_u8 C 1 d) (\<lambda>d.
     res_bind (expect_u8 C 1 d) (\<lambda>d.
     res_bind (Decoder_bytes C d) (\<lambda>(x, d).
     res_bind (array32 x) (\<lambda>digest.
     res_bind (expect_u8 C 2 d) (\<lambda>d.
     res_bind (Decoder_bytes C d) (\<lambda>(x, d).
     res_bind (array16 x) (\<lambda>lease.
     res_bind (expect_u8 C 3 d) (\<lambda>d.
     res_bind (Decoder_u64 C d) (\<lambda>(generation, d).
     res_bind (expect_u8 C 4 d) (\<lambda>d.
     res_bind (Decoder_u64 C d) (\<lambda>(epoch, d).
     res_bind (expect_u8 C 5 d) (\<lambda>d.
     res_bind (Decoder_bytes C d) (\<lambda>(x, d).
     res_bind (array32 x) (\<lambda>received_hash.
     if d \<noteq> [] then Inl (Error_new Malformed)
     else if digest \<noteq> bb_target_reference_digest b \<or> lease \<noteq> bb_lease_id b
        \<or> received_hash \<noteq> hash \<or> \<not> valid_generation generation \<or> epoch \<noteq> 1
     then Inl (Error_new BindingMismatch)
     else let ack = \<lparr>ack_target_reference_digest = digest, ack_lease_id = lease,
            ack_process_generation = generation, ack_listener_epoch = epoch,
            ack_nk_handshake_hash = hash\<rparr>
       in res_bind (bootstrap_ack_payload C ack)
            (\<lambda>canonical. if canonical \<noteq> input then Inl (Error_new Malformed)
              else Inr ack)))))))))))))))))"

section \<open>Finished and heartbeat\<close>

definition finished :: "cbor \<Rightarrow> SessionBinding \<Rightarrow> u8 \<Rightarrow> bytes \<Rightarrow> error + bytes" where
  "finished C b role session_hash = Encoder_run
     [put_map C 6, put_u8 C 0, put_u8 C 1, put_u8 C 1, put_u8 C role, put_u8 C 2,
      put_bytes C (sb_lease_id b), put_u8 C 3, put_u64 C (sb_process_generation b), put_u8 C 4,
      put_u64 C (sb_listener_epoch b), put_u8 C 5, put_bytes C session_hash]"

definition parse_finished :: "cbor \<Rightarrow> bytes \<Rightarrow> SessionBinding \<Rightarrow> bytes \<Rightarrow> error + u8" where
  "parse_finished C input b session_hash =
     res_bind (expect_map C 6 input) (\<lambda>d.
     res_bind (expect_u8 C 0 d) (\<lambda>d.
     res_bind (expect_u8 C 1 d) (\<lambda>d.
     res_bind (expect_u8 C 1 d) (\<lambda>d.
     res_bind (Decoder_u8 C d) (\<lambda>(role, d).
     res_bind (expect_u8 C 2 d) (\<lambda>d.
     res_bind (Decoder_bytes C d) (\<lambda>(x, d).
     res_bind (array16 x) (\<lambda>lease.
     if lease \<noteq> sb_lease_id b then Inl (Error_new BindingMismatch) else
     res_bind (expect_u8 C 3 d) (\<lambda>d.
     res_bind (Decoder_u64 C d) (\<lambda>(generation, d).
     if generation \<noteq> sb_process_generation b then Inl (Error_new BindingMismatch) else
     res_bind (expect_u8 C 4 d) (\<lambda>d.
     res_bind (Decoder_u64 C d) (\<lambda>(epoch, d).
     if epoch \<noteq> sb_listener_epoch b then Inl (Error_new BindingMismatch) else
     res_bind (expect_u8 C 5 d) (\<lambda>d.
     res_bind (Decoder_bytes C d) (\<lambda>(x, d).
     res_bind (array32 x) (\<lambda>hash.
     if hash \<noteq> session_hash then Inl (Error_new BindingMismatch) else
     res_bind (canonical_or d (finished C b role session_hash) input role) (\<lambda>role.
     if role = 0 \<or> role = 1 then Inr role else Inl (Error_new Malformed)))))))))))))))))"

definition heartbeat_payload :: "cbor \<Rightarrow> u8 \<Rightarrow> LeaseBinding \<Rightarrow> u64 \<Rightarrow> error + bytes" where
  "heartbeat_payload C role b counter =
     (if \<not> (role = 1 \<or> role = 2) \<or> counter = 0 then Inl (Error_new SequenceViolation)
      else Encoder_run
        [put_map C 5, put_u8 C 0, put_u8 C role, put_u8 C 1, put_bytes C (lb_lease_id b),
         put_u8 C 2, put_u64 C (lb_process_generation b), put_u8 C 3,
         put_u64 C (lb_listener_epoch b), put_u8 C 4, put_u64 C counter])"

definition parse_heartbeat :: "cbor \<Rightarrow> bytes \<Rightarrow> u8 \<Rightarrow> LeaseBinding \<Rightarrow> error + u64" where
  "parse_heartbeat C input role b =
     res_bind (expect_map C 5 input) (\<lambda>d.
     res_bind (expect_u8 C 0 d) (\<lambda>d.
     res_bind (expect_u8 C role d) (\<lambda>d.
     res_bind (expect_u8 C 1 d) (\<lambda>d.
     res_bind (Decoder_bytes C d) (\<lambda>(x, d).
     res_bind (array16 x) (\<lambda>lease_id.
     res_bind (expect_u8 C 2 d) (\<lambda>d.
     res_bind (Decoder_u64 C d) (\<lambda>(generation, d).
     res_bind (expect_u8 C 3 d) (\<lambda>d.
     res_bind (Decoder_u64 C d) (\<lambda>(epoch, d).
     res_bind (expect_u8 C 4 d) (\<lambda>d.
     res_bind (Decoder_u64 C d) (\<lambda>(counter, d).
     if lease_id \<noteq> lb_lease_id b \<or> generation \<noteq> lb_process_generation b
        \<or> epoch \<noteq> lb_listener_epoch b then Inl (Error_new BindingMismatch)
     else if counter = 0 then Inl (Error_new Malformed)
     else canonical_or d (heartbeat_payload C role b counter) input counter))))))))))))"

section \<open>What the parsers accept is canonical\<close>

text \<open>These facts hold for every codec: they come from the comparison each parser ends with.\<close>

lemma parse_m2_canonical:
  assumes "parse_m2 C b input = Inr s"
  shows "length s = 32 \<and> expected_m2 C b s = Inr input"
  using assms unfolding parse_m2_def
  by (auto elim!: res_bindE simp: ProcessBootstrapSecret_from_slice_def split: if_splits)

lemma parse_finished_canonical:
  assumes "parse_finished C input b hash = Inr role"
  shows "(role = 0 \<or> role = 1) \<and> finished C b role hash = Inr input"
  using assms unfolding parse_finished_def
  by (auto elim!: res_bindE simp: canonical_or_Inr split: if_splits)

lemma parse_heartbeat_canonical:
  assumes "parse_heartbeat C input role b = Inr counter"
  shows "heartbeat_payload C role b counter = Inr input"
  using assms unfolding parse_heartbeat_def
  by (auto elim!: res_bindE simp: canonical_or_Inr split: if_splits)

text \<open>The acknowledgements a Broker with this binding and handshake hash accepts.\<close>

definition ack_for :: "BootstrapBinding \<Rightarrow> bytes \<Rightarrow> TargetBootstrapAck \<Rightarrow> bool" where
  "ack_for b hash ack \<longleftrightarrow>
     ack_target_reference_digest ack = bb_target_reference_digest b \<and>
     ack_lease_id ack = bb_lease_id b \<and> ack_nk_handshake_hash ack = hash \<and>
     valid_generation (ack_process_generation ack) \<and> ack_listener_epoch ack = 1"

lemma parse_bootstrap_ack_canonical:
  assumes "parse_bootstrap_ack C input b hash = Inr ack"
  shows "wf_ack ack \<and> ack_for b hash ack \<and> bootstrap_ack_payload C ack = Inr input"
  using assms unfolding parse_bootstrap_ack_def
  by (auto elim!: res_bindE simp: Let_def array32_def array16_def wf_ack_def ack_for_def
      split: if_splits)

section \<open>The parsers as codecs\<close>

lemmas wf_binding_defs = wf_session_binding_def wf_bootstrap_binding_def wf_ack_def wf_lease_binding_def

context minicbor
begin

lemma close_payload_eq:
  "close_payload C r h = Inr (cbor_major_len 5 3 @ cbor_uint 0 @ cbor_uint 1 @ cbor_uint 1 @
     cbor_uint (ucast (CloseReason_wire r)) @ cbor_uint 2 @ cbor_uint (ucast (HandoffState_wire h)))"
  by (simp add: close_payload_def put_laws Encoder_run_laws)

lemma parse_close_payload:
  assumes enc: "close_payload C r h = Inr input"
  shows "parse_close C input = Inr (r, h)"
proof -
  from enc have input: "input = cbor_major_len 5 3 @ cbor_uint 0 @ cbor_uint 1 @ cbor_uint 1 @
     cbor_uint (ucast (CloseReason_wire r)) @ cbor_uint 2 @ cbor_uint (ucast (HandoffState_wire h))"
    by (simp add: close_payload_eq)
  show ?thesis
    unfolding input
    by (simp add: parse_close_def parse_laws unat_bounds enc [unfolded input]
        cong: res_bind_weak_cong)
qed

lemma close_codec: "wire_codec (\<lambda>(r, h). close_payload C r h) (parse_close C) (\<lambda>_. True)"
  by unfold_locales (auto intro: parse_close_payload dest: parse_close_canonical)

text \<open>For the longer payloads: the canonical bytes are computed once, the parser runs on them, and
  whatever it accepts passed its own comparison.\<close>

lemma parse_expected_m2:
  assumes wf: "wf_bootstrap_binding b" "length secret = 32" and enc: "expected_m2 C b secret = Inr input"
  shows "parse_m2 C b input = Inr secret"
proof -
  from wf enc have input: "input = cbor_major_len 5 7 @ cbor_uint 0 @ cbor_uint 1 @
      cbor_uint 1 @ cbor_bytes secret @ cbor_uint 2 @ cbor_bytes (bb_target_reference_digest b) @
      cbor_uint 3 @ cbor_bytes (bb_lease_id b) @ cbor_uint 4 @ cbor_bytes (bb_target_nonce b) @
      cbor_uint 5 @ cbor_uint (bb_expiry_ms b) @ cbor_uint 6 @ cbor_bytes (bb_app_artifact_digest b)"
    by (simp add: expected_m2_def put_laws Encoder_run_laws wf_binding_defs)
  show ?thesis
    unfolding input using wf
    by (simp add: parse_m2_def parse_laws wf_binding_defs array32_def array16_def
        ProcessBootstrapSecret_from_slice_def enc [unfolded input] cong: res_bind_weak_cong)
qed

lemma expected_m2_codec:
  "wf_bootstrap_binding b \<Longrightarrow> wire_codec (expected_m2 C b) (parse_m2 C b) (\<lambda>s. length s = 32)"
  by unfold_locales (auto intro: parse_expected_m2 dest: parse_m2_canonical)

lemma parse_bootstrap_ack_payload:
  assumes wf: "wf_ack ack" and ack: "ack_for b hash ack"
    and enc: "bootstrap_ack_payload C ack = Inr input"
  shows "parse_bootstrap_ack C input b hash = Inr ack"
proof -
  from wf enc have input: "input = cbor_major_len 5 6 @ cbor_uint 0 @ cbor_uint 1 @ cbor_uint 1 @
      cbor_bytes (ack_target_reference_digest ack) @ cbor_uint 2 @ cbor_bytes (ack_lease_id ack) @
      cbor_uint 3 @ cbor_uint (ack_process_generation ack) @ cbor_uint 4 @
      cbor_uint (ack_listener_epoch ack) @ cbor_uint 5 @ cbor_bytes (ack_nk_handshake_hash ack)"
    by (simp add: bootstrap_ack_payload_def put_laws Encoder_run_laws wf_binding_defs)
  obtain g where fields: "ack = \<lparr>ack_target_reference_digest = bb_target_reference_digest b,
      ack_lease_id = bb_lease_id b, ack_process_generation = g, ack_listener_epoch = 1,
      ack_nk_handshake_hash = hash\<rparr>" and g: "valid_generation g"
    using ack by (cases ack) (simp add: ack_for_def)
  show ?thesis
    unfolding input using wf g enc [unfolded input]
    by (simp add: parse_bootstrap_ack_def parse_laws wf_binding_defs array32_def array16_def fields
        cong: res_bind_weak_cong)
qed

lemma bootstrap_ack_codec:
  "length hash = 32 \<Longrightarrow> wire_codec (bootstrap_ack_payload C) (\<lambda>input. parse_bootstrap_ack C input b hash)
     (\<lambda>ack. wf_ack ack \<and> ack_for b hash ack)"
  by unfold_locales (auto intro: parse_bootstrap_ack_payload dest: parse_bootstrap_ack_canonical)

lemma parse_finished_payload:
  assumes wf: "wf_session_binding b" "length hash = 32" and role: "role = 0 \<or> role = 1"
    and enc: "finished C b role hash = Inr input"
  shows "parse_finished C input b hash = Inr role"
proof -
  from wf enc have input: "input = cbor_major_len 5 6 @ cbor_uint 0 @ cbor_uint 1 @ cbor_uint 1 @
      cbor_uint (ucast role) @ cbor_uint 2 @ cbor_bytes (sb_lease_id b) @ cbor_uint 3 @
      cbor_uint (sb_process_generation b) @ cbor_uint 4 @ cbor_uint (sb_listener_epoch b) @
      cbor_uint 5 @ cbor_bytes hash"
    by (simp add: finished_def put_laws Encoder_run_laws wf_binding_defs)
  show ?thesis
    unfolding input using wf role
    by (simp add: parse_finished_def parse_laws wf_binding_defs array32_def array16_def unat_bounds
        enc [unfolded input] cong: res_bind_weak_cong)
qed

lemma finished_codec:
  "wf_session_binding b \<Longrightarrow> length hash = 32 \<Longrightarrow>
     wire_codec (\<lambda>role. finished C b role hash) (\<lambda>input. parse_finished C input b hash)
       (\<lambda>role. role = 0 \<or> role = 1)"
  by unfold_locales (auto intro: parse_finished_payload dest: parse_finished_canonical)

lemma parse_heartbeat_payload:
  assumes wf: "wf_lease_binding b" and enc: "heartbeat_payload C role b counter = Inr input"
  shows "parse_heartbeat C input role b = Inr counter"
proof -
  from enc have role: "role = 1 \<or> role = 2" "counter \<noteq> 0"
    by (auto simp: heartbeat_payload_def split: if_splits)
  from wf role enc have input: "input = cbor_major_len 5 5 @ cbor_uint 0 @ cbor_uint (ucast role) @
      cbor_uint 1 @ cbor_bytes (lb_lease_id b) @ cbor_uint 2 @ cbor_uint (lb_process_generation b) @
      cbor_uint 3 @ cbor_uint (lb_listener_epoch b) @ cbor_uint 4 @ cbor_uint counter"
    by (simp add: heartbeat_payload_def put_laws Encoder_run_laws wf_binding_defs)
  show ?thesis
    unfolding input using wf role
    by (simp add: parse_heartbeat_def parse_laws wf_binding_defs array16_def unat_bounds
        enc [unfolded input] cong: res_bind_weak_cong)
qed

lemma heartbeat_codec:
  "wf_lease_binding b \<Longrightarrow>
     wire_codec (heartbeat_payload C role b) (\<lambda>input. parse_heartbeat C input role b) (\<lambda>_. True)"
  by unfold_locales (auto intro: parse_heartbeat_payload dest: parse_heartbeat_canonical)

text \<open>Every payload of a well-formed binding can be written.\<close>

lemma payloads_total:
  "\<exists>p. close_payload C r h = Inr p"
  "wf_bootstrap_binding b \<Longrightarrow> \<exists>p. m1_payload C b = Inr p"
  "wf_bootstrap_binding b \<Longrightarrow> \<exists>p. bootstrap_prologue C b = Inr p"
  "wf_bootstrap_binding b \<Longrightarrow> length s = 32 \<Longrightarrow> \<exists>p. expected_m2 C b s = Inr p"
  "wf_ack ack \<Longrightarrow> \<exists>p. bootstrap_ack_payload C ack = Inr p"
  "wf_session_binding sb \<Longrightarrow> length hash = 32 \<Longrightarrow> \<exists>p. finished C sb role hash = Inr p"
  by (simp_all add: close_payload_def m1_payload_def bootstrap_prologue_def expected_m2_def
      bootstrap_ack_payload_def finished_def put_laws Encoder_run_laws wf_binding_defs ascii_def)

text \<open>Their lengths: a close payload has seven bytes, and every other fits a record and a handshake
  message many times over.\<close>

lemma close_payload_length: "close_payload C r h = Inr p \<Longrightarrow> length p = 7"
  by (cases r; cases h) (auto simp: close_payload_eq cbor_uint_def length_cbor_major_len)

lemma payload_lengths:
  "heartbeat_payload C role lb c = Inr p \<Longrightarrow> wf_lease_binding lb \<Longrightarrow> length p \<le> 615"
  "m1_payload C b = Inr p \<Longrightarrow> wf_bootstrap_binding b \<Longrightarrow> length p \<le> 615"
  "expected_m2 C b s = Inr p \<Longrightarrow> wf_bootstrap_binding b \<Longrightarrow> length s = 32 \<Longrightarrow> length p \<le> 615"
  "bootstrap_ack_payload C ack = Inr p \<Longrightarrow> wf_ack ack \<Longrightarrow> length p \<le> 615"
  "finished C sb role hash = Inr p \<Longrightarrow> wf_session_binding sb \<Longrightarrow> length hash = 32 \<Longrightarrow> length p \<le> 615"
proof -
  have item: "length (cbor_major_len m v) \<le> 41" "length (cbor_uint v) \<le> 41"
    "length x \<le> 32 \<Longrightarrow> length (cbor_bytes x) \<le> 41" for m v x
    using cbor_length_bounds(1) [of m v] cbor_length_bounds(2) [of v] cbor_length_bounds(3) [of x] by linarith+
  have run: "length p \<le> 615" if "Encoder_run ws = Inr p" "length ws \<le> 15"
    "\<forall>w \<in> set ws. \<forall>b. w = Some b \<longrightarrow> length b \<le> 41" for ws
    using put_all_length [of ws p 41] that by (simp add: Encoder_run_def)
  show "heartbeat_payload C role lb c = Inr p \<Longrightarrow> wf_lease_binding lb \<Longrightarrow> length p \<le> 615"
    by (auto simp: heartbeat_payload_def put_laws wf_binding_defs item split: if_splits dest!: run)
  show "m1_payload C b = Inr p \<Longrightarrow> wf_bootstrap_binding b \<Longrightarrow> length p \<le> 615"
    unfolding m1_payload_def by (erule run) (auto simp: put_laws wf_binding_defs item)
  show "expected_m2 C b s = Inr p \<Longrightarrow> wf_bootstrap_binding b \<Longrightarrow> length s = 32 \<Longrightarrow> length p \<le> 615"
    unfolding expected_m2_def by (erule run) (auto simp: put_laws wf_binding_defs item)
  show "bootstrap_ack_payload C ack = Inr p \<Longrightarrow> wf_ack ack \<Longrightarrow> length p \<le> 615"
    unfolding bootstrap_ack_payload_def by (erule run) (auto simp: put_laws wf_binding_defs item)
  show "finished C sb role hash = Inr p \<Longrightarrow> wf_session_binding sb \<Longrightarrow> length hash = 32 \<Longrightarrow> length p \<le> 615"
    unfolding finished_def by (erule run) (auto simp: put_laws wf_binding_defs item)
qed

end

section \<open>Properties\<close>

definition demo_bootstrap_binding :: BootstrapBinding where
  "demo_bootstrap_binding = \<lparr>bb_target_reference_digest = replicate 32 1, bb_lease_id = replicate 16 2,
     bb_target_nonce = replicate 32 3, bb_app_artifact_digest = replicate 32 4, bb_expiry_ms = 900000\<rparr>"

definition demo_session_binding :: SessionBinding where
  "demo_session_binding = \<lparr>sb_lease_id = replicate 16 2, sb_process_generation = 77, sb_listener_epoch = 1,
     sb_nk_handshake_hash = replicate 32 5\<rparr>"

lemma demo_bindings_wf [simp]:
  "wf_bootstrap_binding demo_bootstrap_binding" "wf_session_binding demo_session_binding"
  "SessionBinding_valid demo_session_binding"
  by (simp_all add: wf_binding_defs demo_bootstrap_binding_def demo_session_binding_def SessionBinding_valid_def)

text \<open>A close record's payload and its meaning determine each other: over a CBOR library that writes
  the preferred serialisation and reads it back, the strict parser accepts exactly the canonical bytes.\<close>

theorem close_payload_codec:
  assumes "minicbor C"
  shows "parse_close C input = Inr (reason, handoff) \<longleftrightarrow> close_payload C reason handoff = Inr input"
  using wire_codec.dec_iff [OF minicbor.close_codec [OF assms], of input "(reason, handoff)"] by simp

theorem close_payload_codec_witness:
  "parse_close rfc_cbor [0xA3, 0, 1, 1, 4, 2, 1] = Inr (Timeout, HandoffPossibleOrConfirmed) \<longleftrightarrow>
   close_payload rfc_cbor Timeout HandoffPossibleOrConfirmed = Inr [0xA3, 0, 1, 1, 4, 2, 1]"
  by (rule close_payload_codec [OF rfc.minicbor_axioms])

text \<open>The Target accepts a second bootstrap message exactly when it is the canonical encoding of a
  32-byte secret under the Target's own binding; the Broker accepts an acknowledgement exactly when it is
  the canonical encoding of one that carries its binding, its handshake hash, a generation in range and
  epoch one.\<close>

theorem bootstrap_payload_codecs:
  assumes "minicbor C" "wf_bootstrap_binding b" "length hash = 32"
  shows "(parse_m2 C b input = Inr secret \<longleftrightarrow> length secret = 32 \<and> expected_m2 C b secret = Inr input) \<and>
    (parse_bootstrap_ack C input b hash = Inr ack \<longleftrightarrow>
       (wf_ack ack \<and> ack_for b hash ack) \<and> bootstrap_ack_payload C ack = Inr input)"
  using wire_codec.dec_iff [OF minicbor.expected_m2_codec [OF assms(1,2)], of input secret]
    wire_codec.dec_iff [OF minicbor.bootstrap_ack_codec [OF assms(1,3)], of input b ack] by simp

theorem bootstrap_payload_codecs_witness:
  "parse_m2 rfc_cbor demo_bootstrap_binding [] = Inr (replicate 32 9) \<longleftrightarrow>
     expected_m2 rfc_cbor demo_bootstrap_binding (replicate 32 9) = Inr []"
  using bootstrap_payload_codecs [OF rfc.minicbor_axioms demo_bindings_wf(1), of "replicate 32 5" "[]" "replicate 32 9"]
  by simp

text \<open>A Finished body is accepted exactly when it is the canonical encoding of one of the two roles
  under the session's binding and hash, and a heartbeat exactly when it is the canonical encoding of its
  counter under the lease's binding and the expected role.\<close>

theorem control_payload_codecs:
  assumes "minicbor C" "wf_session_binding sb" "length hash = 32" "wf_lease_binding lb"
  shows "(parse_finished C input sb hash = Inr role \<longleftrightarrow>
       (role = 0 \<or> role = 1) \<and> finished C sb role hash = Inr input) \<and>
    (parse_heartbeat C input r lb = Inr counter \<longleftrightarrow> heartbeat_payload C r lb counter = Inr input)"
  using wire_codec.dec_iff [OF minicbor.finished_codec [OF assms(1-3)], of input role]
    wire_codec.dec_iff [OF minicbor.heartbeat_codec [OF assms(1,4)], of input r counter] by simp

theorem control_payload_codecs_witness:
  "parse_finished rfc_cbor [] demo_session_binding (replicate 32 5) \<noteq> Inr 2 \<and>
   (parse_heartbeat rfc_cbor [] 1 \<lparr>lb_lease_id = replicate 16 2, lb_process_generation = 77, lb_listener_epoch = 1\<rparr> = Inr 8 \<longleftrightarrow>
     heartbeat_payload rfc_cbor 1 \<lparr>lb_lease_id = replicate 16 2, lb_process_generation = 77, lb_listener_epoch = 1\<rparr> 8 = Inr [])"
  using control_payload_codecs [OF rfc.minicbor_axioms demo_bindings_wf(2), of "replicate 32 5"
      "\<lparr>lb_lease_id = replicate 16 2, lb_process_generation = 77, lb_listener_epoch = 1\<rparr>" "[]" 2 1 8]
  by (simp add: wf_lease_binding_def)

end
