(* ===== verification/Records.thy ===== *)
theory Records
  imports Payloads
begin

unbundle bit_operations_syntax

text \<open>
  The inner record layer of \<^verbatim>\<open>transport/crypto-core/src/lib.rs\<close>: the twelve-byte record header, the
  fragmentation of a message into records, the non-interleaved reassembler with its record and byte
  budgets, and the half-duplex turn. The lemmas show that the header is a codec, that reassembly
  undoes fragmentation, and that a reassembler never holds more than its cap and stays failed once
  it failed.
\<close>

definition RECORD_HEADER_LEN :: nat where
  "RECORD_HEADER_LEN = 12"

definition RECORD_DATA_MAX :: nat where
  "RECORD_DATA_MAX = 65507"

definition RECORD_LIMIT :: u64 where
  "RECORD_LIMIT = push_bit 32 1"

definition BYTE_LIMIT :: u64 where
  "BYTE_LIMIT = push_bit 40 1"

section \<open>Records\<close>

record Record =
  rec_kind :: RecordKind
  rec_start :: bool
  rec_end :: bool
  rec_total_len :: u32
  rec_offset :: u32
  rec_data :: bytes

definition Record_encode :: "Record \<Rightarrow> error + bytes" where
  "Record_encode r =
     (if length (rec_data r) > RECORD_DATA_MAX then Inl (Error_new Oversize)
      else let flags = of_bool (rec_start r) OR push_bit 1 (of_bool (rec_end r))
           in Inr ([RecordKind_wire (rec_kind r), flags] @ u16_to_be 0 @ u32_to_be (rec_total_len r)
                @ u32_to_be (rec_offset r) @ rec_data r))"

definition Record_decode :: "bytes \<Rightarrow> error + Record" where
  "Record_decode bs =
     (if length bs < RECORD_HEADER_LEN then Inl (Error_new Malformed)
      else if length bs - RECORD_HEADER_LEN > RECORD_DATA_MAX then Inl (Error_new Oversize)
      else let flags = bs ! 1
           in if flags AND NOT 3 \<noteq> 0 \<or> bs ! 2 \<noteq> 0 \<or> bs ! 3 \<noteq> 0
              then Inl (Error_new SequenceViolation)
              else res_bind (RecordKind_from_wire (bs ! 0)) (\<lambda>kind.
                Inr \<lparr>rec_kind = kind, rec_start = (flags AND 1 \<noteq> 0), rec_end = (flags AND 2 \<noteq> 0),
                     rec_total_len = u32_of_be (take 4 (drop 4 bs)),
                     rec_offset = u32_of_be (take 4 (drop 8 bs)), rec_data = drop 12 bs\<rparr>))"

definition complete_record :: "RecordKind \<Rightarrow> bytes \<Rightarrow> error + Record" where
  "complete_record kind payload =
     (if length payload \<ge> 2 ^ 32 then Inl (Error_new Oversize)
      else Inr \<lparr>rec_kind = kind, rec_start = True, rec_end = True,
             rec_total_len = of_nat (length payload), rec_offset = 0, rec_data = payload\<rparr>)"

definition validate_complete_record :: "Record \<Rightarrow> RecordKind \<Rightarrow> error + unit" where
  "validate_complete_record r kind =
     (if rec_kind r \<noteq> kind \<or> \<not> rec_start r \<or> \<not> rec_end r \<or> rec_offset r \<noteq> 0
      then Inl (Error_new SequenceViolation)
      else if unat (rec_total_len r) \<noteq> length (rec_data r) then Inl (Error_new Malformed)
      else Inr ())"

definition limit_close_plaintext :: "cbor \<Rightarrow> HandoffState \<Rightarrow> error + bytes" where
  "limit_close_plaintext C handoff =
     res_bind (close_payload C RecordLimit handoff) (\<lambda>p.
     res_bind (complete_record Close p) Record_encode)"

section \<open>Fragmentation\<close>

text \<open>\<^verbatim>\<open>slice::chunks\<close> and the collection of an iterator of results.\<close>

function chunks :: "nat \<Rightarrow> 'a list \<Rightarrow> 'a list list" where
  "chunks n xs = (if n = 0 \<or> xs = [] then [] else take n xs # chunks n (drop n xs))"
  by pat_completeness auto
termination
  by (relation "measure (\<lambda>(n, xs). length xs)") auto

declare chunks.simps [simp del]

primrec res_collect :: "('e + 'a) list \<Rightarrow> 'e + 'a list" where
  "res_collect [] = Inr []"
| "res_collect (r # rs) = res_bind r (\<lambda>x. res_bind (res_collect rs) (\<lambda>xs. Inr (x # xs)))"

definition fragment_record :: "RecordKind \<Rightarrow> nat \<Rightarrow> nat \<Rightarrow> bytes \<Rightarrow> error + Record" where
  "fragment_record kind tlen index chunk =
     (if index * RECORD_DATA_MAX \<ge> 2 ^ 64 then Inl (Error_new Oversize)
      else let offset = index * RECORD_DATA_MAX
           in Inr \<lparr>rec_kind = kind, rec_start = (index = 0), rec_end = (offset + length chunk = tlen),
                   rec_total_len = (if index = 0 then of_nat tlen else 0),
                   rec_offset = of_nat offset, rec_data = chunk\<rparr>)"

definition fragment_records :: "RecordKind \<Rightarrow> bytes \<Rightarrow> error + bytes list" where
  "fragment_records kind payload =
     (if payload = [] \<or> length payload > 4294967295 then Inl (Error_new Oversize)
      else res_collect (map (\<lambda>(index, chunk).
             res_bind (fragment_record kind (length payload) index chunk) Record_encode)
             (enumerate 0 (chunks RECORD_DATA_MAX payload))))"

section \<open>Reassembly\<close>

record RecordReassembler =
  rr_cap :: nat
  rr_active :: "(RecordKind \<times> nat \<times> bytes) option"
  rr_records :: u64
  rr_bytes :: u64
  rr_failed :: bool

definition RecordReassembler_new :: "nat \<Rightarrow> error + RecordReassembler" where
  "RecordReassembler_new max_message_bytes =
     (if max_message_bytes = 0 then Inl (Error_new InternalError)
      else Inr \<lparr>rr_cap = max_message_bytes, rr_active = None, rr_records = 0, rr_bytes = 0,
             rr_failed = False\<rparr>)"

definition RecordReassembler_clear :: "RecordReassembler \<Rightarrow> RecordReassembler" where
  "RecordReassembler_clear s = s\<lparr>rr_active := None\<rparr>"

text \<open>The three parts of \<^verbatim>\<open>accept\<close>'s closure: the budgets, a starting record, a continuation.\<close>

definition accept_start ::
    "cbor \<Rightarrow> Record \<Rightarrow> (RecordReassembler, error, (RecordKind \<times> bytes) option) step" where
  "accept_start C r s =
     (let tlen = unat (rec_total_len r); data = rec_data r in
      if tlen > rr_cap s then (Inl (Error_new Oversize), s)
      else if rr_active s \<noteq> None \<or> rec_offset r \<noteq> 0 then (Inl (Error_new SequenceViolation), s)
      else if tlen = 0 \<and> \<not> rec_end r then (Inl (Error_new Malformed), s)
      else if length data > tlen then (Inl (Error_new Malformed), s)
      else if rec_end r then
        (if length data \<noteq> tlen then (Inl (Error_new Malformed), s)
         else (res_bind (validate_control_record C (rec_kind r) data)
                 (\<lambda>_. Inr (Some (rec_kind r, data))), s))
      else (Inr None, s\<lparr>rr_active := Some (rec_kind r, tlen, data)\<rparr>))"

definition accept_continue ::
    "cbor \<Rightarrow> Record \<Rightarrow> (RecordReassembler, error, (RecordKind \<times> bytes) option) step" where
  "accept_continue C r s =
     (case rr_active s of
        None \<Rightarrow> (Inl (Error_new SequenceViolation), s)
      | Some (kind, tlen, assembled) \<Rightarrow>
          let s = s\<lparr>rr_active := None\<rparr> in
          if kind \<noteq> rec_kind r \<or> rec_total_len r \<noteq> 0 \<or> unat (rec_offset r) \<noteq> length assembled
          then (Inl (Error_new SequenceViolation), s)
          else if length assembled + length (rec_data r) > tlen then (Inl (Error_new Malformed), s)
          else let assembled = assembled @ rec_data r in
            if rec_end r then
              (if length assembled \<noteq> tlen then (Inl (Error_new Malformed), s)
               else (res_bind (validate_control_record C kind assembled)
                       (\<lambda>_. Inr (Some (kind, assembled))), s))
            else (Inr None, s\<lparr>rr_active := Some (kind, tlen, assembled)\<rparr>))"

definition accept_body ::
    "cbor \<Rightarrow> Record \<Rightarrow> (RecordReassembler, error, (RecordKind \<times> bytes) option) step" where
  "accept_body C r s =
     (case checked_add (rr_records s) 1 of
        None \<Rightarrow> (Inl (Error_new RecordLimit), s)
      | Some records \<Rightarrow>
          let s = s\<lparr>rr_records := records\<rparr> in
          case checked_add (rr_bytes s) (of_nat (RECORD_HEADER_LEN + length (rec_data r))) of
            None \<Rightarrow> (Inl (Error_new RecordLimit), s)
          | Some n \<Rightarrow>
              let s = s\<lparr>rr_bytes := n\<rparr> in
              if records \<ge> RECORD_LIMIT \<or> n \<ge> BYTE_LIMIT
              then (Inl (Error_new RecordLimit), RecordReassembler_clear s)
              else if rec_start r then accept_start C r s
              else accept_continue C r s)"

definition RecordReassembler_accept ::
    "cbor \<Rightarrow> Record \<Rightarrow> (RecordReassembler, error, (RecordKind \<times> bytes) option) step" where
  "RecordReassembler_accept C r s =
     (if rr_failed s then (Inl (Error_new SequenceViolation), s)
      else let (result, s) = accept_body C r s
           in if is_err result then (result, (RecordReassembler_clear s)\<lparr>rr_failed := True\<rparr>)
              else (result, s))"

definition RecordReassembler_eof :: "(RecordReassembler, error, unit) step" where
  "RecordReassembler_eof s =
     (if rr_failed s then (Inl (Error_new SequenceViolation), s)
      else if rr_active s \<noteq> None
      then (Inl (Error_new Malformed), (RecordReassembler_clear s)\<lparr>rr_failed := True\<rparr>)
      else (Inr (), s))"

definition RecordReassembler_set_cap :: "nat \<Rightarrow> (RecordReassembler, error, unit) step" where
  "RecordReassembler_set_cap cap s =
     (if rr_failed s \<or> cap = 0 \<or> rr_active s \<noteq> None then (Inl (Error_new SequenceViolation), s)
      else (Inr (), s\<lparr>rr_cap := cap\<rparr>))"

section \<open>Half duplex\<close>

datatype ApplicationTurn = Local | Peer

record HalfDuplex =
  hd_turn :: ApplicationTurn

definition HalfDuplex_new :: "ApplicationTurn \<Rightarrow> HalfDuplex" where
  "HalfDuplex_new turn = \<lparr>hd_turn = turn\<rparr>"

definition local_message_sent :: "(HalfDuplex, error, unit) step" where
  "local_message_sent s =
     (if hd_turn s \<noteq> Local then (Inl (Error_new SequenceViolation), s)
      else (Inr (), s\<lparr>hd_turn := Peer\<rparr>))"

definition accept_peer_record ::
    "cbor \<Rightarrow> Record \<Rightarrow> (HalfDuplex \<times> RecordReassembler, error, (RecordKind \<times> bytes) option) step" where
  "accept_peer_record C r = (\<lambda>(s, rs).
     if hd_turn s \<noteq> Peer then (Inl (Error_new SequenceViolation), (s, rs))
     else case RecordReassembler_accept C r rs of
       (Inl e, rs) \<Rightarrow> (Inl e, (s, rs))
     | (Inr message, rs) \<Rightarrow>
         (Inr message, (if message \<noteq> None then s\<lparr>hd_turn := Local\<rparr> else s, rs)))"

section \<open>The record codec\<close>

lemma limits_unat [simp]: "unat RECORD_LIMIT = 2 ^ 32" "unat BYTE_LIMIT = 2 ^ 40"
  by (simp_all add: RECORD_LIMIT_def BYTE_LIMIT_def push_bit_eq_mult)

lemma flag_values: "(f :: u8) AND NOT 3 = 0 \<Longrightarrow> f = 0 \<or> f = 1 \<or> f = 2 \<or> f = 3"
proof -
  assume *: "f AND NOT 3 = 0"
  have "f = (f AND 3) OR (f AND NOT 3)"
    by (simp add: bit.conj_disj_distrib [symmetric])
  with * have "f = f AND 3" by simp
  then have "f \<le> 3" by (metis word_and_le1)
  then have "unat f \<le> 3" by (simp add: word_le_nat_alt)
  then have "unat f \<in> {0, 1, 2, 3}" by auto
  then show ?thesis by (auto simp: word_unat_eq_iff)
qed

lemma Record_encode_Inr:
  "Record_encode r = Inr b \<longleftrightarrow> length (rec_data r) \<le> RECORD_DATA_MAX \<and>
     b = [RecordKind_wire (rec_kind r), of_bool (rec_start r) OR push_bit 1 (of_bool (rec_end r)), 0, 0]
       @ u32_to_be (rec_total_len r) @ u32_to_be (rec_offset r) @ rec_data r"
  by (auto simp: Record_encode_def Let_def u16_to_be_def numeral_2_eq_2)

interpretation rec_codec: wire_codec Record_encode Record_decode "\<lambda>r. True"
proof
  fix r b
  assume "Record_encode r = Inr b"
  then show "Record_decode b = Inr r"
    by (cases r; cases "rec_start r"; cases "rec_end r")
      (auto simp: Record_encode_Inr Record_decode_def RECORD_HEADER_LEN_def)
next
  fix b r
  assume dec: "Record_decode b = Inr r"
  then have len: "12 \<le> length b" "length b \<le> 12 + RECORD_DATA_MAX"
    and flags: "b ! 1 AND NOT 3 = 0" and zero: "b ! 2 = 0" "b ! 3 = 0"
    and kind: "RecordKind_wire (rec_kind r) = b ! 0"
    and r: "rec_start r = (b ! 1 AND 1 \<noteq> 0)" "rec_end r = (b ! 1 AND 2 \<noteq> 0)"
      "rec_total_len r = u32_of_be (take 4 (drop 4 b))" "rec_offset r = u32_of_be (take 4 (drop 8 b))"
      "rec_data r = drop 12 b"
    by (auto simp: Record_decode_def Let_def RECORD_HEADER_LEN_def elim!: res_bindE
        dest: RecordKind_to_from_wire split: if_splits)
  have flag: "of_bool (rec_start r) OR push_bit 1 (of_bool (rec_end r)) = b ! 1"
    using flag_values [OF flags] r(1,2) by auto
  have "b = [b ! 0, b ! 1, b ! 2, b ! 3] @ take 4 (drop 4 b) @ take 4 (drop 8 b) @ drop 12 b"
    (is "b = ?h @ _")
  proof -
    have "?h = take 4 b"
      using len(1) by (intro nth_equalityI) (auto simp: numeral_eq_Suc less_Suc_eq)
    moreover have "take 4 (drop 4 b) @ take 4 (drop 8 b) @ drop 12 b = drop 4 b"
      using append_take_drop_id [of 4 "drop 4 b"] append_take_drop_id [of 4 "drop 8 b"] by simp
    ultimately show ?thesis by simp
  qed
  with len zero kind flag r show "True \<and> Record_encode r = Inr b"
    by (simp add: Record_encode_Inr u32_to_be_of_be)
qed

section \<open>The reassembler is fail-closed and bounded\<close>

definition rr_inv :: "RecordReassembler \<Rightarrow> bool" where
  "rr_inv s \<longleftrightarrow> (case rr_active s of None \<Rightarrow> True
     | Some (_, tlen, assembled) \<Rightarrow>
         length assembled \<le> tlen \<and> tlen \<le> rr_cap s \<and> \<not> rr_failed s)"

datatype rr_call = RR_accept Record | RR_eof

fun rr_op :: "cbor \<Rightarrow> rr_call \<Rightarrow> (RecordReassembler, error, (RecordKind \<times> bytes) option) step" where
  "rr_op C (RR_accept r) s = RecordReassembler_accept C r s"
| "rr_op C RR_eof s = map_prod (map_sum id (\<lambda>_. None)) id (RecordReassembler_eof s)"

lemma accept_start_cases:
  assumes "accept_start C r s = (res, s')"
  shows "s' = s \<or> (res = Inr None \<and> s' = s\<lparr>rr_active := Some (rec_kind r, unat (rec_total_len r), rec_data r)\<rparr>
       \<and> length (rec_data r) \<le> unat (rec_total_len r) \<and> unat (rec_total_len r) \<le> rr_cap s)"
  using assms by (auto simp: accept_start_def Let_def split: if_splits)

lemma accept_continue_cases:
  assumes "accept_continue C r s = (res, s')" "rr_inv s"
  shows "rr_active s' = None \<or> rr_inv s'" "rr_cap s' = rr_cap s" "rr_failed s' = rr_failed s"
  using assms by (auto simp: accept_continue_def rr_inv_def Let_def split: if_splits option.splits)

lemma accept_inv: "rr_inv s \<Longrightarrow> rr_inv (snd (RecordReassembler_accept C r s))"
proof -
  assume inv: "rr_inv s"
  obtain res s1 where body: "accept_body C r s = (res, s1)" by fastforce
  have "rr_inv s1 \<or> rr_active s1 = None" if "\<not> rr_failed s"
    using inv that body
    by (auto simp: accept_body_def Let_def RecordReassembler_clear_def rr_inv_def
        split: option.splits if_splits dest!: accept_start_cases accept_continue_cases(1))
  with inv body show ?thesis
    by (auto simp: RecordReassembler_accept_def RecordReassembler_clear_def rr_inv_def
        split: option.splits)
qed

interpretation rr: fail_closed "rr_op C" rr_failed rr_inv for C
proof
  fix s :: RecordReassembler and c
  assume inv: "rr_inv s"
  show "rr_inv (snd (rr_op C c s))"
    using inv accept_inv [OF inv]
    by (cases c) (auto simp: RecordReassembler_eof_def RecordReassembler_clear_def rr_inv_def
        split: option.splits)
  show "is_err (fst (rr_op C c s)) \<Longrightarrow> rr_failed (snd (rr_op C c s))"
    by (cases c) (auto simp: RecordReassembler_accept_def RecordReassembler_eof_def Let_def
        split: prod.splits if_splits)
  show "rr_failed s \<Longrightarrow> is_err (fst (rr_op C c s))"
    by (cases c) (auto simp: RecordReassembler_accept_def RecordReassembler_eof_def)
qed

section \<open>Reassembly undoes fragmentation\<close>

lemma chunks_step: "0 < n \<Longrightarrow> xs \<noteq> [] \<Longrightarrow> chunks n xs = take n xs # chunks n (drop n xs)"
  by (simp add: chunks.simps)

lemma chunks_Nil [simp]: "chunks n [] = []"
  by (simp add: chunks.simps)

lemma chunks_eq_Nil: "0 < n \<Longrightarrow> chunks n xs = [] \<longleftrightarrow> xs = []"
  by (simp add: chunks.simps)

lemma concat_chunks: "0 < n \<Longrightarrow> concat (chunks n xs) = xs"
proof (induction n xs rule: chunks.induct)
  case (1 n xs)
  then show ?case by (cases "xs = []") (simp_all add: chunks_step)
qed

text \<open>What the budgets charge for a run of records, and that a record inside them is only accounted.\<close>

definition in_budget :: "RecordReassembler \<Rightarrow> bytes list \<Rightarrow> bool" where
  "in_budget s datas \<longleftrightarrow> unat (rr_records s) + length datas < 2 ^ 32 \<and>
     unat (rr_bytes s) + (\<Sum>d\<leftarrow>datas. RECORD_HEADER_LEN + length d) < 2 ^ 40"

definition charged :: "RecordReassembler \<Rightarrow> bytes \<Rightarrow> RecordReassembler" where
  "charged s d = s\<lparr>rr_records := rr_records s + 1,
     rr_bytes := rr_bytes s + of_nat (RECORD_HEADER_LEN + length d)\<rparr>"

lemma charged_simps [simp]:
  "rr_active (charged s d) = rr_active s" "rr_cap (charged s d) = rr_cap s"
  "rr_failed (charged s d) = rr_failed s"
  by (simp_all add: charged_def)

lemma unat_charge:
  assumes "unat (a :: u64) + n < 2 ^ 40"
  shows "checked_add a (of_nat n) = Some (a + of_nat n)" "unat (a + of_nat n) = unat a + n"
proof -
  have "unat (of_nat n :: u64) = n"
    using assms by (simp add: unat_of_nat)
  with assms show "checked_add a (of_nat n) = Some (a + of_nat n)"
    by (simp add: checked_add_def)
  then show "unat (a + of_nat n) = unat a + n"
    using checked_add_SomeD \<open>unat (of_nat n :: u64) = n\<close> by fastforce
qed

lemma accept_body_in_budget:
  assumes "in_budget s (rec_data r # ds)"
  shows "accept_body C r s = (if rec_start r then accept_start C r (charged s (rec_data r))
           else accept_continue C r (charged s (rec_data r)))"
    and "in_budget (charged s (rec_data r)) ds"
proof -
  let ?n = "RECORD_HEADER_LEN + length (rec_data r)"
  have budget: "unat (rr_records s) + 1 + length ds < 2 ^ 32"
    "unat (rr_bytes s) + ?n + (\<Sum>d\<leftarrow>ds. RECORD_HEADER_LEN + length d) < 2 ^ 40"
    using assms by (simp_all add: in_budget_def)
  then have r: "unat (rr_records s) + 1 < 2 ^ 40" and b: "unat (rr_bytes s) + ?n < 2 ^ 40"
    by simp_all
  note charge = unat_charge [OF r] unat_charge [OF b]
  show "in_budget (charged s (rec_data r)) ds"
    using budget charge by (simp add: in_budget_def charged_def)
  show "accept_body C r s = (if rec_start r then accept_start C r (charged s (rec_data r))
           else accept_continue C r (charged s (rec_data r)))"
    using budget charge
    by (simp add: accept_body_def charged_def word_le_nat_alt Let_def)
qed

definition fragment_list :: "RecordKind \<Rightarrow> nat \<Rightarrow> nat \<Rightarrow> bytes list \<Rightarrow> Record list" where
  "fragment_list kind tlen i cs =
     map (\<lambda>(index, chunk). \<lparr>rec_kind = kind, rec_start = (index = 0),
        rec_end = (index * RECORD_DATA_MAX + length chunk = tlen),
        rec_total_len = (if index = 0 then of_nat tlen else 0),
        rec_offset = of_nat (index * RECORD_DATA_MAX), rec_data = chunk\<rparr>) (enumerate i cs)"

lemma fragment_list_simps [simp]:
  "fragment_list kind tlen i [] = []"
  "fragment_list kind tlen i (c # cs) =
     \<lparr>rec_kind = kind, rec_start = (i = 0), rec_end = (i * RECORD_DATA_MAX + length c = tlen),
      rec_total_len = (if i = 0 then of_nat tlen else 0), rec_offset = of_nat (i * RECORD_DATA_MAX),
      rec_data = c\<rparr> # fragment_list kind tlen (Suc i) cs"
  by (simp_all add: fragment_list_def)

lemma length_fragment_list [simp]: "length (fragment_list kind tlen i cs) = length cs"
  by (simp add: fragment_list_def)

lemma replicate_pred: "cs \<noteq> [] \<Longrightarrow> x # replicate (length cs - Suc 0) x = replicate (length cs) x"
  by (cases cs) auto

text \<open>The continuations: with \<open>i * RECORD_DATA_MAX\<close> bytes of the message assembled, the fragments
  of the rest complete it.\<close>

lemma accept_rest:
  assumes "rr_active s = Some (kind, length payload, take (i * RECORD_DATA_MAX) payload)"
    "\<not> rr_failed s" "0 < i" "i * RECORD_DATA_MAX < length payload" "length payload < 2 ^ 32"
    "kind \<noteq> Close" "cs = chunks RECORD_DATA_MAX (drop (i * RECORD_DATA_MAX) payload)" "in_budget s cs"
  shows "\<exists>s'. run (RecordReassembler_accept C) (fragment_list kind (length payload) i cs) s =
      (replicate (length cs - 1) (Inr None) @ [Inr (Some (kind, payload))], s') \<and>
      rr_active s' = None \<and> \<not> rr_failed s' \<and> rr_cap s' = rr_cap s"
  using assms
proof (induction cs arbitrary: s i)
  case Nil
  from Nil.prems(4) Nil.prems(7) [symmetric] show ?case
    by (simp add: chunks_eq_Nil RECORD_DATA_MAX_def)
next
  case (Cons c cs)
  define off where "off = i * RECORD_DATA_MAX"
  have c: "c = take RECORD_DATA_MAX (drop off payload)"
    and cs: "cs = chunks RECORD_DATA_MAX (drop (off + RECORD_DATA_MAX) payload)"
    using Cons.prems(4,7) chunks_step [of RECORD_DATA_MAX "drop off payload"]
    by (simp_all add: off_def RECORD_DATA_MAX_def add.commute)
  let ?r = "\<lparr>rec_kind = kind, rec_start = False, rec_end = (off + length c = length payload),
      rec_total_len = 0, rec_offset = of_nat off, rec_data = c\<rparr>"
  let ?s = "charged s c"
  have body: "accept_body C ?r s = accept_continue C ?r ?s" and budget: "in_budget ?s cs"
    using accept_body_in_budget(1) [of s ?r cs C] accept_body_in_budget(2) [of s ?r cs] Cons.prems(8) by simp_all
  have "off < length payload" using Cons.prems(4) by (simp add: off_def)
  then have off: "unat (of_nat off :: u32) = off" "length (take off payload) = off"
    using Cons.prems(5) by (simp_all add: unat_of_nat)
  have asm: "take off payload @ c = take (off + RECORD_DATA_MAX) payload"
    by (simp add: c take_add)
  show ?case
  proof (cases "off + length c = length payload")
    case True
    then have "cs = []" using Cons.prems(4) cs by (simp add: c off_def RECORD_DATA_MAX_def)
    moreover have "take (off + RECORD_DATA_MAX) payload = payload"
      using True asm off(2) by (metis length_append take_all_iff take_all nle_le length_take min.absorb_iff2)
    ultimately show ?thesis
      using Cons.prems(1-6) body off asm True
      by (simp add: RecordReassembler_accept_def accept_continue_def validate_control_record_def off_def)
  next
    case False
    have less: "off + RECORD_DATA_MAX < length payload"
      using False Cons.prems(4) by (simp add: c off_def RECORD_DATA_MAX_def min_def split: if_splits)
    let ?s' = "?s\<lparr>rr_active := Some (kind, length payload, take (Suc i * RECORD_DATA_MAX) payload)\<rparr>"
    have step: "RecordReassembler_accept C ?r s = (Inr None, ?s')"
      using Cons.prems(1-6) body off asm False less
      by (simp add: RecordReassembler_accept_def accept_continue_def off_def add.commute c)
    have "in_budget ?s' cs" using budget by (simp add: in_budget_def)
    moreover have cs': "cs = chunks RECORD_DATA_MAX (drop (Suc i * RECORD_DATA_MAX) payload)"
      using cs by (simp add: off_def add.commute)
    ultimately obtain s' where rest: "run (RecordReassembler_accept C)
        (fragment_list kind (length payload) (Suc i) cs) ?s' =
        (replicate (length cs - 1) (Inr None) @ [Inr (Some (kind, payload))], s')"
      and s': "rr_active s' = None" "\<not> rr_failed s'" "rr_cap s' = rr_cap s"
      using Cons.IH [of ?s' "Suc i"] Cons.prems(2-6) less by (auto simp: off_def add.commute)
    have "cs \<noteq> []" using less cs by (simp add: chunks_eq_Nil RECORD_DATA_MAX_def)
    with rest s' step Cons.prems(3) show ?thesis by (simp add: off_def replicate_pred)
  qed
qed

lemma accept_fragments:
  assumes "rr_active s = None" "\<not> rr_failed s" "payload \<noteq> []" "length payload \<le> rr_cap s"
    "length payload < 2 ^ 32" "kind \<noteq> Close" "cs = chunks RECORD_DATA_MAX payload" "in_budget s cs"
  shows "\<exists>s'. run (RecordReassembler_accept C) (fragment_list kind (length payload) 0 cs) s =
      (replicate (length cs - 1) (Inr None) @ [Inr (Some (kind, payload))], s') \<and>
      rr_active s' = None \<and> \<not> rr_failed s' \<and> rr_cap s' = rr_cap s"
proof -
  define c where "c = take RECORD_DATA_MAX payload"
  define cs' where "cs' = chunks RECORD_DATA_MAX (drop RECORD_DATA_MAX payload)"
  have cs: "cs = c # cs'"
    using assms(3,7) by (simp add: c_def cs'_def chunks_step RECORD_DATA_MAX_def)
  let ?r = "\<lparr>rec_kind = kind, rec_start = True, rec_end = (length c = length payload),
      rec_total_len = of_nat (length payload), rec_offset = 0, rec_data = c\<rparr>"
  let ?s = "charged s c"
  have body: "accept_body C ?r s = accept_start C ?r ?s" and budget: "in_budget ?s cs'"
    using accept_body_in_budget(1) [of s ?r cs' C] accept_body_in_budget(2) [of s ?r cs'] assms(8) cs by simp_all
  have tlen: "unat (of_nat (length payload) :: u32) = length payload" "length payload \<noteq> 0"
    "length c \<le> length payload"
    using assms(3,5) by (simp_all add: unat_of_nat c_def)
  show ?thesis
  proof (cases "length c = length payload")
    case True
    then have "c = payload" "cs' = []" by (simp_all add: c_def cs'_def)
    with True assms(1-6) body tlen cs show ?thesis
      by (simp add: RecordReassembler_accept_def accept_start_def validate_control_record_def Let_def)
  next
    case False
    then have less: "RECORD_DATA_MAX < length payload" by (simp add: c_def)
    let ?s' = "?s\<lparr>rr_active := Some (kind, length payload, take (1 * RECORD_DATA_MAX) payload)\<rparr>"
    have step: "RecordReassembler_accept C ?r s = (Inr None, ?s')"
      using assms(1-6) body tlen False
      by (simp add: RecordReassembler_accept_def accept_start_def Let_def) (simp add: c_def)
    have "in_budget ?s' cs'" using budget by (simp add: in_budget_def)
    moreover have "cs' \<noteq> []" using less by (simp add: cs'_def chunks_eq_Nil RECORD_DATA_MAX_def)
    moreover note \<open>cs' \<noteq> []\<close>
    ultimately obtain s' where "cs' \<noteq> []" and rest: "run (RecordReassembler_accept C)
        (fragment_list kind (length payload) 1 cs') ?s' =
        (replicate (length cs' - 1) (Inr None) @ [Inr (Some (kind, payload))], s')"
      and s': "rr_active s' = None" "\<not> rr_failed s'" "rr_cap s' = rr_cap s"
      using accept_rest [of ?s' kind payload 1 cs' C] assms(2-6) less by (auto simp: cs'_def)
    with rest s' step cs show ?thesis by (simp add: replicate_pred)
  qed
qed

lemma res_collect_Inr: "res_collect rs = Inr xs \<longleftrightarrow> list_all2 (\<lambda>r x. r = Inr x) rs xs"
  by (induction rs arbitrary: xs) (auto simp: res_bind_eq_Inr list_all2_Cons1)

lemma encode_fragments:
  assumes "i * RECORD_DATA_MAX \<le> length payload" "length payload < 2 ^ 32"
    "cs = chunks RECORD_DATA_MAX (drop (i * RECORD_DATA_MAX) payload)"
  shows "\<exists>bs. res_collect (map (\<lambda>(index, chunk).
       res_bind (fragment_record kind (length payload) index chunk) Record_encode) (enumerate i cs)) = Inr bs \<and>
     list_all2 (\<lambda>r b. Record_encode r = Inr b) (fragment_list kind (length payload) i cs) bs"
  using assms
proof (induction cs arbitrary: i)
  case Nil
  then show ?case by simp
next
  case (Cons c cs)
  have nonempty: "drop (i * RECORD_DATA_MAX) payload \<noteq> []"
    using Cons.prems(3) by auto
  then have c: "c = take RECORD_DATA_MAX (drop (i * RECORD_DATA_MAX) payload)"
    and cs: "cs = chunks RECORD_DATA_MAX (drop (Suc i * RECORD_DATA_MAX) payload)"
    using Cons.prems(3) by (simp_all add: chunks_step RECORD_DATA_MAX_def add.commute)
  let ?r = "\<lparr>rec_kind = kind, rec_start = (i = 0),
      rec_end = (i * RECORD_DATA_MAX + length c = length payload),
      rec_total_len = (if i = 0 then of_nat (length payload) else 0),
      rec_offset = of_nat (i * RECORD_DATA_MAX), rec_data = c\<rparr>"
  have frag: "fragment_record kind (length payload) i c = Inr ?r"
    using Cons.prems(1,2) by (simp add: fragment_record_def)
  obtain b where b: "Record_encode ?r = Inr b"
    by (simp add: Record_encode_def Let_def c)
  show ?case
  proof (cases "cs = []")
    case True
    with frag b show ?thesis by simp
  next
    case False
    then have "Suc i * RECORD_DATA_MAX \<le> length payload"
      using cs by (metis chunks_Nil drop_all nle_le)
    from Cons.IH [OF this Cons.prems(2) cs] frag b show ?thesis by auto
  qed
qed

lemma fragment_records_Inr:
  assumes "payload \<noteq> []" "length payload < 2 ^ 32"
  obtains bs where "fragment_records kind payload = Inr bs"
    "list_all2 (\<lambda>r b. Record_encode r = Inr b)
       (fragment_list kind (length payload) 0 (chunks RECORD_DATA_MAX payload)) bs"
  using encode_fragments [of 0 payload "chunks RECORD_DATA_MAX payload" kind] assms
  by (auto simp: fragment_records_def)

section \<open>The announcing close record\<close>

lemma Record_encode_length:
  "Record_encode r = Inr b \<Longrightarrow> length b = 12 + length (rec_data r) \<and> length b \<le> 65519"
  by (auto simp: Record_encode_Inr RECORD_DATA_MAX_def)

lemma limit_close_length: "limit_close_plaintext C h = Inr close \<Longrightarrow> length close \<le> 65519"
  by (auto simp: limit_close_plaintext_def dest: Record_encode_length elim!: res_bindE)

context minicbor
begin

lemma limit_close_total: obtains close where "limit_close_plaintext C h = Inr close" "length close = 19"
proof -
  obtain p where p: "close_payload C RecordLimit h = Inr p" using payloads_total(1) by blast
  with close_payload_length [OF p] that show ?thesis
    by (auto simp: limit_close_plaintext_def complete_record_def Record_encode_def RECORD_DATA_MAX_def
        u16_to_be_def u32_to_be_def Let_def)
qed

lemma limit_close_length_eq: "limit_close_plaintext C h = Inr close \<Longrightarrow> length close = 19"
  by (rule limit_close_total [of h]) simp

end

section \<open>Properties\<close>

text \<open>The twelve-byte record header with its data is a bijective code: what decodes as a record is
  exactly what that record encodes to.\<close>

theorem record_codec: "Record_decode b = Inr r \<longleftrightarrow> Record_encode r = Inr b"
  using rec_codec.dec_iff by simp

lemma length_chunks_le: "0 < n \<Longrightarrow> length (chunks n xs) \<le> length xs"
proof (induction n xs rule: chunks.induct)
  case (1 n xs)
  show ?case
  proof (cases "xs = []")
    case False
    with 1 have "length (chunks n (drop n xs)) \<le> length (drop n xs)" by simp
    with False 1 show ?thesis by (cases xs) (simp_all add: chunks_step)
  qed simp
qed

lemma sum_header: "(\<Sum>d\<leftarrow>cs. RECORD_HEADER_LEN + length d) = 12 * length cs + length (concat cs)"
  by (induction cs) (simp_all add: RECORD_HEADER_LEN_def)

text \<open>C35: Fragmenting a message and feeding the decoded records to a fresh reassembler in order gives the
  message back with the last record and nothing before it. The kind is any but close, and the message is
  not empty and fits the cap.\<close>

theorem reassembly_of_fragments:
  assumes "RecordReassembler_new cap = Inr s" "payload \<noteq> []" "length payload \<le> cap"
    "length payload < 2 ^ 32" "kind \<noteq> Close"
  shows "\<exists>bs rs s'. fragment_records kind payload = Inr bs \<and>
    list_all2 (\<lambda>b r. Record_decode b = Inr r) bs rs \<and>
    run (RecordReassembler_accept C) rs s =
      (replicate (length bs - 1) (Inr None) @ [Inr (Some (kind, payload))], s') \<and>
    rr_active s' = None \<and> \<not> rr_failed s'"
proof -
  let ?cs = "chunks RECORD_DATA_MAX payload"
  let ?rs = "fragment_list kind (length payload) 0 ?cs"
  have s: "rr_active s = None" "\<not> rr_failed s" "rr_cap s = cap" "rr_records s = 0" "rr_bytes s = 0"
    using assms(1) by (auto simp: RecordReassembler_new_def split: if_splits)
  have "length ?cs \<le> length payload" "concat ?cs = payload"
    by (simp_all add: length_chunks_le concat_chunks RECORD_DATA_MAX_def)
  with s assms(4) have budget: "in_budget s ?cs" by (simp add: in_budget_def sum_header)
  obtain bs where bs: "fragment_records kind payload = Inr bs"
    and enc: "list_all2 (\<lambda>r b. Record_encode r = Inr b) ?rs bs"
    using fragment_records_Inr [OF assms(2,4)] by blast
  have dec: "list_all2 (\<lambda>b r. Record_decode b = Inr r) bs ?rs"
    using enc by (auto simp: list_all2_conv_all_nth rec_codec.dec_iff)
  have len: "length bs = length ?cs" using enc by (auto dest: list_all2_lengthD)
  obtain s' where "run (RecordReassembler_accept C) ?rs s =
      (replicate (length ?cs - 1) (Inr None) @ [Inr (Some (kind, payload))], s')"
    "rr_active s' = None" "\<not> rr_failed s'"
    using accept_fragments [OF s(1,2) assms(2) _ assms(4,5) refl budget] assms(3) s(3) by auto
  with bs dec len show ?thesis by auto
qed

theorem reassembly_of_fragments_witness:
  "\<exists>bs rs s'. fragment_records Application [7, 8, 9] = Inr bs \<and>
    list_all2 (\<lambda>b r. Record_decode b = Inr r) bs rs \<and>
    run (RecordReassembler_accept rfc_cbor) rs
      \<lparr>rr_cap = 64, rr_active = None, rr_records = 0, rr_bytes = 0, rr_failed = False\<rparr> =
      (replicate (length bs - 1) (Inr None) @ [Inr (Some (Application, [7, 8, 9]))], s') \<and>
    rr_active s' = None \<and> \<not> rr_failed s'"
  by (rule reassembly_of_fragments [of 64]) (simp_all add: RecordReassembler_new_def)

text \<open>C36: In every history of records and end-of-stream notices a reassembler holds at most its cap, and
  its first error is final.\<close>

theorem reassembler_bounded_fail_closed:
  assumes "RecordReassembler_new cap = Inr s"
  shows "(i < j \<and> j < length cs \<and> is_err (fst (run (rr_op C) cs s) ! i) \<longrightarrow>
      is_err (fst (run (rr_op C) cs s) ! j)) \<and>
    (\<forall>k n held. rr_active (snd (run (rr_op C) cs s)) = Some (k, n, held) \<longrightarrow>
       length held \<le> n \<and> n \<le> rr_cap (snd (run (rr_op C) cs s)))"
proof -
  have inv: "rr_inv s" using assms by (auto simp: RecordReassembler_new_def rr_inv_def split: if_splits)
  have "rr_inv (snd (run (rr_op C) cs s))" using inv by (rule rr.invar_run)
  then show ?thesis using rr.run_first_error_final [OF inv] by (auto simp: rr_inv_def)
qed

theorem reassembler_bounded_fail_closed_witness:
  "is_err (fst (run (rr_op rfc_cbor) [RR_accept
       \<lparr>rec_kind = Application, rec_start = False, rec_end = False, rec_total_len = 3, rec_offset = 1, rec_data = [1]\<rparr>,
       RR_eof] \<lparr>rr_cap = 64, rr_active = None, rr_records = 0, rr_bytes = 0, rr_failed = False\<rparr>) ! 1)"
proof -
  have new: "RecordReassembler_new 64 =
      Inr \<lparr>rr_cap = 64, rr_active = None, rr_records = 0, rr_bytes = 0, rr_failed = False\<rparr>"
    by (simp add: RecordReassembler_new_def)
  have "is_err (fst (run (rr_op rfc_cbor) [RR_accept
       \<lparr>rec_kind = Application, rec_start = False, rec_end = False, rec_total_len = 3, rec_offset = 1, rec_data = [1]\<rparr>,
       RR_eof] \<lparr>rr_cap = 64, rr_active = None, rr_records = 0, rr_bytes = 0, rr_failed = False\<rparr>) ! 0)"
    by (simp add: RecordReassembler_accept_def accept_body_def accept_continue_def checked_add_def RECORD_HEADER_LEN_def
        RECORD_LIMIT_def BYTE_LIMIT_def Let_def)
  with reassembler_bounded_fail_closed [OF new, THEN conjunct1, rule_format, of 0 1] show ?thesis
    by (metis One_nat_def length_Cons lessI list.size(3) zero_less_one)
qed

end
