(* ===== verification/Outer_Frame.thy ===== *)
theory Outer_Frame
  imports Wire_Types
begin

text \<open>
  The outer envelope of \<^verbatim>\<open>transport/crypto-core/src/lib.rs\<close>: a big-endian u16 length and that many
  bytes. \<open>encode_outer\<close> and \<open>one_outer\<close> write and read one frame; \<open>OuterFrameDecoder\<close> cuts a byte
  stream that arrives in arbitrary chunks. The lemmas show that the two readers agree with the
  writer, that cutting does not depend on the chunk boundaries, and that a failed decoder stays
  failed.
\<close>

section \<open>One frame\<close>

definition OUTER_MAX :: nat where
  "OUTER_MAX = 65535"

definition encode_outer :: "bytes \<Rightarrow> error + bytes" where
  "encode_outer payload =
     (if payload = [] then Inl (Error_new Malformed)
      else if length payload > OUTER_MAX then Inl (Error_new Oversize)
      else Inr (u16_to_be (of_nat (length payload)) @ payload))"

definition one_outer :: "bytes \<Rightarrow> error + bytes" where
  "one_outer outer =
     (if length outer < 2 then Inl (Error_new Malformed)
      else let n = unat (u16_of_be (take 2 outer))
           in if n = 0 \<or> length outer \<noteq> n + 2 then Inl (Error_new Malformed)
              else Inr (drop 2 outer))"

section \<open>The incremental decoder\<close>

record OuterFrameDecoder =
  ofd_pending :: bytes
  ofd_expected :: "nat option"
  ofd_failed :: bool

definition OuterFrameDecoder_new :: OuterFrameDecoder where
  "OuterFrameDecoder_new = \<lparr>ofd_pending = [], ofd_expected = None, ofd_failed = False\<rparr>"

definition OuterFrameDecoder_clear :: "OuterFrameDecoder \<Rightarrow> OuterFrameDecoder" where
  "OuterFrameDecoder_clear d = d\<lparr>ofd_pending := [], ofd_expected := None\<rparr>"

text \<open>The first half of a loop iteration: make sure a frame length is known. \<open>Inr None\<close> is the
  \<^verbatim>\<open>break\<close> for want of two bytes.\<close>

definition OuterFrameDecoder_header :: "OuterFrameDecoder \<Rightarrow> (error + nat option) \<times> OuterFrameDecoder" where
  "OuterFrameDecoder_header d =
     (case ofd_expected d of
        Some n \<Rightarrow> (Inr (Some n), d)
      | None \<Rightarrow>
          if length (ofd_pending d) < 2 then (Inr None, d)
          else let n = unat (u16_of_be (take 2 (ofd_pending d)));
                   d = d\<lparr>ofd_pending := drop 2 (ofd_pending d)\<rparr>
               in if n = 0
                  then (Inl (Error_new Malformed), (OuterFrameDecoder_clear d)\<lparr>ofd_failed := True\<rparr>)
                  else (Inr (Some n), d\<lparr>ofd_expected := Some n\<rparr>))"

lemma header_Some:
  assumes "OuterFrameDecoder_header d = (Inr (Some n), d')"
  shows "ofd_expected d' = Some n" "length (ofd_pending d') \<le> length (ofd_pending d)"
  using assms
  by (auto simp: OuterFrameDecoder_header_def Let_def split: option.splits if_splits)

lemma encode_outer_Inr:
  "encode_outer p = Inr f \<longleftrightarrow>
     p \<noteq> [] \<and> length p \<le> OUTER_MAX \<and> f = u16_to_be (of_nat (length p)) @ p"
  by (auto simp: encode_outer_def)

lemma encode_outer_total:
  assumes "p \<noteq> []" "length p \<le> OUTER_MAX"
  obtains f where "encode_outer p = Inr f"
  using assms by (simp add: encode_outer_def)

function OuterFrameDecoder_loop ::
    "OuterFrameDecoder \<Rightarrow> bytes list \<Rightarrow> (error + bytes list) \<times> OuterFrameDecoder" where
  "OuterFrameDecoder_loop d frames =
     (case OuterFrameDecoder_header d of
        (Inl e, d) \<Rightarrow> (Inl e, d)
      | (Inr None, d) \<Rightarrow> (Inr frames, d)
      | (Inr (Some n), d) \<Rightarrow>
          if length (ofd_pending d) < n then (Inr frames, d)
          else let payload = take n (ofd_pending d);
                   d = d\<lparr>ofd_pending := drop n (ofd_pending d)\<rparr>
               in (case encode_outer payload of
                     Inl e \<Rightarrow> (Inl e, d)
                   | Inr frame \<Rightarrow>
                       OuterFrameDecoder_loop (d\<lparr>ofd_expected := None\<rparr>) (frames @ [frame])))"
  by pat_completeness auto
termination
  by (relation "measure (\<lambda>(d, _). length (ofd_pending d))")
    (auto simp: encode_outer_Inr dest!: header_Some(2) [OF sym])

declare OuterFrameDecoder_loop.simps [simp del]

definition OuterFrameDecoder_push ::
    "bytes \<Rightarrow> OuterFrameDecoder \<Rightarrow> (error + bytes list) \<times> OuterFrameDecoder" where
  "OuterFrameDecoder_push input d =
     (if ofd_failed d then (Inl (Error_new SequenceViolation), d)
      else OuterFrameDecoder_loop (d\<lparr>ofd_pending := ofd_pending d @ input\<rparr>) [])"

definition OuterFrameDecoder_is_incomplete :: "OuterFrameDecoder \<Rightarrow> bool" where
  "OuterFrameDecoder_is_incomplete d \<longleftrightarrow> ofd_expected d \<noteq> None \<or> ofd_pending d \<noteq> []"

definition OuterFrameDecoder_timeout :: "OuterFrameDecoder \<Rightarrow> (error + unit) \<times> OuterFrameDecoder" where
  "OuterFrameDecoder_timeout d =
     (if ofd_failed d then (Inl (Error_new SequenceViolation), d)
      else if ofd_expected d \<noteq> None \<or> ofd_pending d \<noteq> []
      then (Inl (Error_new Timeout), (OuterFrameDecoder_clear d)\<lparr>ofd_failed := True\<rparr>)
      else (Inr (), d))"

definition OuterFrameDecoder_eof :: "OuterFrameDecoder \<Rightarrow> (error + unit) \<times> OuterFrameDecoder" where
  "OuterFrameDecoder_eof d =
     (if ofd_failed d then (Inl (Error_new SequenceViolation), d)
      else if ofd_expected d \<noteq> None \<or> ofd_pending d \<noteq> []
      then (Inl (Error_new Malformed), (OuterFrameDecoder_clear d)\<lparr>ofd_failed := True\<rparr>)
      else (Inr (), d))"

section \<open>The frame codec\<close>

lemma unat_frame_len [simp]: "n \<le> OUTER_MAX \<Longrightarrow> unat (of_nat n :: u16) = n"
  by (simp add: OUTER_MAX_def unat_of_nat)

lemma be_val_bound2: "be_val (take 2 bs) \<le> OUTER_MAX"
proof -
  have "be_val (take 2 bs) < 256 ^ length (take 2 bs)" by (rule be_val_bound)
  also have "\<dots> \<le> 256 ^ 2" by (rule power_increasing) auto
  finally show ?thesis by (simp add: OUTER_MAX_def)
qed

interpretation outer: wire_codec encode_outer one_outer "\<lambda>p. True"
proof
  fix p f
  assume "encode_outer p = Inr f"
  then have "p \<noteq> []" "length p \<le> OUTER_MAX" "f = u16_to_be (of_nat (length p)) @ p"
    by (simp_all add: encode_outer_Inr)
  then show "one_outer f = Inr p"
    by (simp add: one_outer_def Let_def)
next
  fix f p
  assume dec: "one_outer f = Inr p"
  then have len: "length f \<ge> 2" and p: "p = drop 2 f" "p \<noteq> []"
    and n: "length p = unat (u16_of_be (take 2 f))"
    by (auto simp: one_outer_def Let_def split: if_splits)
  have "take 2 f = u16_to_be (of_nat (length p))"
    using len by (simp add: n u16_to_be_of_be)
  then have "f = u16_to_be (of_nat (length p)) @ p"
    using append_take_drop_id [of 2 f] p(1) by simp
  moreover have "length p \<le> OUTER_MAX"
    using len be_val_bound2 [of f] by (simp add: n unat_u16_of_be)
  ultimately show "True \<and> encode_outer p = Inr f"
    using p(2) by (simp add: encode_outer_Inr)
qed

section \<open>The decoder against the codec\<close>

text \<open>Between calls the decoder holds less than one frame: at most one byte of a length, or a length
  in range and fewer bytes than it announces.\<close>

definition ofd_inv :: "OuterFrameDecoder \<Rightarrow> bool" where
  "ofd_inv d \<longleftrightarrow>
     (case ofd_expected d of
        None \<Rightarrow> length (ofd_pending d) < 2
      | Some n \<Rightarrow> 0 < n \<and> n \<le> OUTER_MAX \<and> length (ofd_pending d) < n) \<and>
     (ofd_failed d \<longrightarrow> ofd_pending d = [] \<and> ofd_expected d = None)"

text \<open>Inside the loop only the announced length is constrained.\<close>

definition ofd_mid :: "OuterFrameDecoder \<Rightarrow> bool" where
  "ofd_mid d \<longleftrightarrow>
     (\<forall>n. ofd_expected d = Some n \<longrightarrow> 0 < n \<and> n \<le> OUTER_MAX) \<and> \<not> ofd_failed d"

lemma header_cases:
  assumes "ofd_mid d"
  obtains (stop) "OuterFrameDecoder_header d = (Inr None, d)" "ofd_expected d = None"
      "length (ofd_pending d) < 2"
  | (zero) d' where "OuterFrameDecoder_header d = (Inl (Error_new Malformed), d')"
      "ofd_expected d = None" "ofd_failed d'" "ofd_inv d'"
  | (len) n d' where "OuterFrameDecoder_header d = (Inr (Some n), d')" "0 < n" "n \<le> OUTER_MAX"
      "ofd_expected d' = Some n" "ofd_mid d'" "\<not> ofd_failed d'"
proof -
  consider "ofd_expected d = None" "length (ofd_pending d) < 2"
    | "ofd_expected d = None" "\<not> length (ofd_pending d) < 2"
    | n where "ofd_expected d = Some n"
    by (cases "ofd_expected d") auto
  then show ?thesis
  proof cases
    case 1
    then show ?thesis using stop by (simp add: OuterFrameDecoder_header_def)
  next
    case 2
    define n where "n = unat (u16_of_be (take 2 (ofd_pending d)))"
    have "n \<le> OUTER_MAX" using 2 be_val_bound2 by (simp add: n_def unat_u16_of_be)
    with 2 assms show ?thesis
      by (cases "n = 0")
        (auto simp: OuterFrameDecoder_header_def Let_def n_def [symmetric] ofd_inv_def ofd_mid_def
          OuterFrameDecoder_clear_def intro: zero len)
  next
    case 3
    with assms show ?thesis using len
      by (auto simp: OuterFrameDecoder_header_def ofd_mid_def)
  qed
qed

text \<open>A successful iteration cuts one frame off the front.\<close>

lemma loop_inv:
  assumes "ofd_mid d" "OuterFrameDecoder_loop d frames = (r, d')"
  shows "ofd_inv d'" "is_err r \<longleftrightarrow> ofd_failed d'" "is_err r \<longrightarrow> r = Inl (Error_new Malformed)"
    "r = Inr fs \<longrightarrow> (\<exists>gs. fs = frames @ gs \<and> list_all (\<lambda>f. \<exists>p. encode_outer p = Inr f) gs)"
proof -
  have "ofd_inv d' \<and> (is_err r \<longleftrightarrow> ofd_failed d') \<and> (is_err r \<longrightarrow> r = Inl (Error_new Malformed)) \<and>
    (\<forall>fs. r = Inr fs \<longrightarrow>
      (\<exists>gs. fs = frames @ gs \<and> list_all (\<lambda>f. \<exists>p. encode_outer p = Inr f) gs))"
    using assms
  proof (induction d frames arbitrary: r d' rule: OuterFrameDecoder_loop.induct)
    case (1 d frames)
    from \<open>ofd_mid d\<close> show ?case
    proof (cases rule: header_cases)
      case stop
      with 1 show ?thesis
        by (auto simp: OuterFrameDecoder_loop.simps [of d] ofd_inv_def ofd_mid_def)
    next
      case (zero d0)
      with 1 show ?thesis
        by (auto simp: OuterFrameDecoder_loop.simps [of d])
    next
      case (len n d0)
      show ?thesis
      proof (cases "length (ofd_pending d0) < n")
        case True
        with len 1 show ?thesis
          by (auto simp: OuterFrameDecoder_loop.simps [of d] ofd_inv_def)
      next
        case False
        define p where "p = take n (ofd_pending d0)"
        define d1 where "d1 = d0\<lparr>ofd_pending := drop n (ofd_pending d0), ofd_expected := None\<rparr>"
        obtain f where f: "encode_outer p = Inr f"
          using False len(2,3) by (cases "ofd_pending d0") (auto simp: p_def encode_outer_Inr)
        have mid: "ofd_mid d1" using len by (simp add: d1_def ofd_mid_def)
        have loop: "OuterFrameDecoder_loop d1 (frames @ [f]) = (r, d')"
          using 1(3) len False f
          by (simp add: OuterFrameDecoder_loop.simps [of d] p_def d1_def)
        have "\<And>r d'. ofd_mid d1 \<Longrightarrow> OuterFrameDecoder_loop d1 (frames @ [f]) = (r, d') \<Longrightarrow>
          ofd_inv d' \<and> (is_err r \<longleftrightarrow> ofd_failed d') \<and>
          (is_err r \<longrightarrow> r = Inl (Error_new Malformed)) \<and>
          (\<forall>fs. r = Inr fs \<longrightarrow> (\<exists>gs. fs = (frames @ [f]) @ gs \<and>
            list_all (\<lambda>f. \<exists>p. encode_outer p = Inr f) gs))"
          using 1(1) [of "Inr (Some n)" d0 "Some n" n p _ f] len(1) False f
          by (simp add: p_def d1_def)
        from this [OF mid loop] f show ?thesis
          by (auto 0 4)
      qed
    qed
  qed
  then show "ofd_inv d'" "is_err r \<longleftrightarrow> ofd_failed d'" "is_err r \<longrightarrow> r = Inl (Error_new Malformed)"
    "r = Inr fs \<longrightarrow> (\<exists>gs. fs = frames @ gs \<and> list_all (\<lambda>f. \<exists>p. encode_outer p = Inr f) gs)"
    by blast+
qed

section \<open>Chunk boundaries do not matter\<close>

text \<open>\<open>ofd_more b d\<close> is \<open>d\<close> after \<open>b\<close> arrived but before it was looked at.\<close>

definition ofd_more :: "bytes \<Rightarrow> OuterFrameDecoder \<Rightarrow> OuterFrameDecoder" where
  "ofd_more b d = d\<lparr>ofd_pending := ofd_pending d @ b\<rparr>"

lemma ofd_more_simps [simp]:
  "ofd_pending (ofd_more b d) = ofd_pending d @ b" "ofd_expected (ofd_more b d) = ofd_expected d"
  "ofd_failed (ofd_more b d) = ofd_failed d" "ofd_more [] d = d"
  "ofd_mid (ofd_more b d) = ofd_mid d"
  by (simp_all add: ofd_more_def ofd_mid_def)

lemma header_more:
  "OuterFrameDecoder_header d = (Inr (Some n), d') \<Longrightarrow>
     OuterFrameDecoder_header (ofd_more b d) = (Inr (Some n), ofd_more b d')"
  "OuterFrameDecoder_header d = (Inl e, d') \<Longrightarrow>
     OuterFrameDecoder_header (ofd_more b d) = (Inl e, d')"
  by (auto simp: OuterFrameDecoder_header_def OuterFrameDecoder_clear_def ofd_more_def Let_def
      split: option.splits if_splits)

lemma loop_more_pending:
  "OuterFrameDecoder_header d = (Inr (Some n), d') \<Longrightarrow>
     OuterFrameDecoder_loop (ofd_more b d) frames = OuterFrameDecoder_loop (ofd_more b d') frames"
  using header_Some(1) [of d n d'] header_more(1) [of d n d' b]
  by (simp add: OuterFrameDecoder_loop.simps [of "ofd_more b d"]
      OuterFrameDecoder_loop.simps [of "ofd_more b d'"] OuterFrameDecoder_header_def [of "ofd_more b d'"])

text \<open>One iteration of the loop, as a rule: the loop stops, rejects a zero length, or cuts a frame.\<close>

lemma loop_cases [consumes 1, case_names stop zero cut]:
  assumes "ofd_mid d"
  obtains (stop) d' where "\<And>fs. OuterFrameDecoder_loop d fs = (Inr fs, d')"
      "\<And>b fs. OuterFrameDecoder_loop (ofd_more b d) fs = OuterFrameDecoder_loop (ofd_more b d') fs"
  | (zero) e d' where "\<And>b fs. OuterFrameDecoder_loop (ofd_more b d) fs = (Inl e, d')"
  | (cut) f d' where
      "\<And>b fs. OuterFrameDecoder_loop (ofd_more b d) fs = OuterFrameDecoder_loop (ofd_more b d') (fs @ [f])"
      "ofd_mid d'" "length (ofd_pending d') < length (ofd_pending d)"
  using assms
proof (cases rule: header_cases)
  case stop
  then show ?thesis using that(1) [of d]
    by (simp add: OuterFrameDecoder_loop.simps [of d])
next
  case (zero d')
  have "OuterFrameDecoder_loop (ofd_more b d) fs = (Inl (Error_new Malformed), d')" for b fs
    using header_more(2) [OF zero(1), of b] by (simp add: OuterFrameDecoder_loop.simps [of "ofd_more b d"])
  then show ?thesis by (rule that(2))
next
  case (len n d0)
  show ?thesis
  proof (cases "length (ofd_pending d0) < n")
    case True
    with len that(1) [of d0] show ?thesis
      by (simp add: OuterFrameDecoder_loop.simps [of d] loop_more_pending)
  next
    case False
    define d' where "d' = d0\<lparr>ofd_pending := drop n (ofd_pending d0), ofd_expected := None\<rparr>"
    obtain f where f: "encode_outer (take n (ofd_pending d0)) = Inr f"
      using False len(2,3) by (cases "ofd_pending d0") (auto simp: encode_outer_Inr)
    have "OuterFrameDecoder_loop (ofd_more b d) fs = OuterFrameDecoder_loop (ofd_more b d') (fs @ [f])"
      for b fs
      using header_more(1) [OF len(1), of b] False f
      by (subst OuterFrameDecoder_loop.simps, cases d0) (simp add: d'_def ofd_more_def)
    moreover have "ofd_mid d'" using len by (simp add: d'_def ofd_mid_def)
    moreover have "length (ofd_pending d') < length (ofd_pending d)"
      using False len(2) header_Some(2) [OF len(1)] by (simp add: d'_def)
    ultimately show ?thesis by (rule that(3))
  qed
qed

lemma loop_more:
  assumes "ofd_mid d"
  shows "OuterFrameDecoder_loop d fs = (Inr fs', d') \<Longrightarrow>
      OuterFrameDecoder_loop (ofd_more b d) fs = OuterFrameDecoder_loop (ofd_more b d') fs'"
    and "OuterFrameDecoder_loop d fs = (Inl e, d') \<Longrightarrow>
      OuterFrameDecoder_loop (ofd_more b d) fs = (Inl e, d')"
proof -
  have "(OuterFrameDecoder_loop d fs = (Inr fs', d') \<longrightarrow>
      OuterFrameDecoder_loop (ofd_more b d) fs = OuterFrameDecoder_loop (ofd_more b d') fs') \<and>
    (OuterFrameDecoder_loop d fs = (Inl e, d') \<longrightarrow>
      OuterFrameDecoder_loop (ofd_more b d) fs = (Inl e, d'))"
    using assms
  proof (induction "length (ofd_pending d)" arbitrary: d fs rule: less_induct)
    case less
    from \<open>ofd_mid d\<close> show ?case
    proof (cases rule: loop_cases)
      case (stop d0)
      then show ?thesis by auto
    next
      case (zero e0 d0)
      from zero [of "[]"] zero [of b] show ?thesis by auto
    next
      case (cut f d0)
      from cut(1) [of "[]"] cut(1) [of b] less(1) [OF cut(3,2)] show ?thesis by simp
    qed
  qed
  then show "OuterFrameDecoder_loop d fs = (Inr fs', d') \<Longrightarrow>
      OuterFrameDecoder_loop (ofd_more b d) fs = OuterFrameDecoder_loop (ofd_more b d') fs'"
    and "OuterFrameDecoder_loop d fs = (Inl e, d') \<Longrightarrow>
      OuterFrameDecoder_loop (ofd_more b d) fs = (Inl e, d')"
    by blast+
qed

lemma loop_acc:
  assumes "ofd_mid d"
  shows "OuterFrameDecoder_loop d (gs @ fs) =
    map_prod (map_sum id ((@) gs)) id (OuterFrameDecoder_loop d fs)"
  using assms
proof (induction "length (ofd_pending d)" arbitrary: d fs rule: less_induct)
  case less
  from \<open>ofd_mid d\<close> show ?case
  proof (cases rule: loop_cases)
    case (stop d0)
    then show ?thesis by simp
  next
    case (zero e0 d0)
    from zero [of "[]"] show ?thesis by simp
  next
    case (cut f d0)
    from cut(1) [of "[]"] less(1) [OF cut(3,2), of "fs @ [f]"] show ?thesis by simp
  qed
qed

lemma ofd_inv_mid: "ofd_inv d \<Longrightarrow> \<not> ofd_failed d \<Longrightarrow> ofd_mid d"
  by (auto simp: ofd_inv_def ofd_mid_def split: option.splits)

lemma push_inv: "ofd_inv d \<Longrightarrow> ofd_inv (snd (OuterFrameDecoder_push input d))"
  using loop_inv(1) [of "ofd_more input d"]
  by (cases "OuterFrameDecoder_loop (ofd_more input d) []")
    (auto simp: OuterFrameDecoder_push_def ofd_inv_mid ofd_more_def [symmetric])

lemma push_append:
  assumes "ofd_inv d"
  shows "OuterFrameDecoder_push a d = (Inr fs, d') \<Longrightarrow>
      OuterFrameDecoder_push (a @ b) d =
        map_prod (map_sum id ((@) fs)) id (OuterFrameDecoder_push b d')"
    and "OuterFrameDecoder_push a d = (Inl e, d') \<Longrightarrow> OuterFrameDecoder_push (a @ b) d = (Inl e, d')"
proof -
  have more: "ofd_more (a @ b) d = ofd_more b (ofd_more a d)"
    by (simp add: ofd_more_def)
  note defs = OuterFrameDecoder_push_def more ofd_more_def [symmetric]
  show "OuterFrameDecoder_push (a @ b) d = map_prod (map_sum id ((@) fs)) id (OuterFrameDecoder_push b d')"
    if push: "OuterFrameDecoder_push a d = (Inr fs, d')"
  proof -
    have nf: "\<not> ofd_failed d" and loop: "OuterFrameDecoder_loop (ofd_more a d) [] = (Inr fs, d')"
      using push by (auto simp: defs split: if_splits)
    have mid: "ofd_mid (ofd_more a d)" using assms nf ofd_inv_mid by simp
    have "\<not> ofd_failed d'" "ofd_mid d'"
      using loop_inv(1,2) [OF mid loop] ofd_inv_mid by simp_all
    moreover have "OuterFrameDecoder_loop (ofd_more b d') fs =
        map_prod (map_sum id ((@) fs)) id (OuterFrameDecoder_loop (ofd_more b d') [])"
      using loop_acc [of "ofd_more b d'" fs "[]"] \<open>ofd_mid d'\<close> by simp
    ultimately show ?thesis
      using nf loop_more(1) [OF mid loop, of b] by (simp add: defs)
  qed
  show "OuterFrameDecoder_push (a @ b) d = (Inl e, d')"
    if "OuterFrameDecoder_push a d = (Inl e, d')"
    using that loop_more(2) [of "ofd_more a d" "[]" e d' b] assms ofd_inv_mid
    by (auto simp: defs split: if_splits)
qed

section \<open>Whole streams\<close>

lemma push_new_frame:
  assumes "encode_outer p = Inr f"
  shows "OuterFrameDecoder_push f OuterFrameDecoder_new = (Inr [f], OuterFrameDecoder_new)"
proof -
  from assms have p: "p \<noteq> []" "length p \<le> OUTER_MAX" "f = u16_to_be (of_nat (length p)) @ p"
    by (simp_all add: encode_outer_Inr)
  let ?d = "\<lparr>ofd_pending = [], ofd_expected = None, ofd_failed = False\<rparr> :: OuterFrameDecoder"
  have "OuterFrameDecoder_loop ?d [f] = (Inr [f], ?d)"
    by (subst OuterFrameDecoder_loop.simps) (simp add: OuterFrameDecoder_header_def)
  with p assms show ?thesis
    by (simp add: OuterFrameDecoder_push_def OuterFrameDecoder_new_def
        OuterFrameDecoder_loop.simps [of "\<lparr>ofd_pending = _, ofd_expected = _, ofd_failed = _\<rparr>" "[]"]
        OuterFrameDecoder_header_def Let_def)
qed

lemma ofd_inv_new [simp]: "ofd_inv OuterFrameDecoder_new"
  by (simp add: ofd_inv_def OuterFrameDecoder_new_def)

lemma push_new_frames:
  assumes "list_all2 (\<lambda>p f. encode_outer p = Inr f) ps fs"
  shows "OuterFrameDecoder_push (concat fs) OuterFrameDecoder_new = (Inr fs, OuterFrameDecoder_new)"
  using assms
proof (induction rule: list_all2_induct)
  case Nil
  show ?case
    by (simp add: OuterFrameDecoder_push_def OuterFrameDecoder_new_def
        OuterFrameDecoder_loop.simps OuterFrameDecoder_header_def)
next
  case (Cons p ps f fs)
  with push_append(1) [OF ofd_inv_new push_new_frame, of p f "concat fs"] show ?case by simp
qed

text \<open>Reading a stream in any chunks gives what reading it at once gives.\<close>

lemma run_push_concat:
  assumes "ofd_inv d" "OuterFrameDecoder_push (concat chunks) d = (Inr fs, d')" "chunks \<noteq> []"
  shows "list_all (\<lambda>r. \<not> is_err r) (fst (run OuterFrameDecoder_push chunks d))"
    and "concat (map projr (fst (run OuterFrameDecoder_push chunks d))) = fs"
    and "snd (run OuterFrameDecoder_push chunks d) = d'"
proof -
  have "list_all (\<lambda>r. \<not> is_err r) (fst (run OuterFrameDecoder_push chunks d)) \<and>
    concat (map projr (fst (run OuterFrameDecoder_push chunks d))) = fs \<and>
    snd (run OuterFrameDecoder_push chunks d) = d'"
    using assms
  proof (induction chunks arbitrary: d fs)
    case Nil
    then show ?case by simp
  next
    case (Cons c cs)
    obtain r d1 where c: "OuterFrameDecoder_push c d = (r, d1)" by fastforce
    have d1: "ofd_inv d1" using push_inv [OF Cons.prems(1), of c] c by simp
    from Cons.prems c obtain gs where r: "r = Inr gs"
      using push_append(2) [OF Cons.prems(1)] by (cases r) auto
    show ?case
    proof (cases "cs = []")
      case True
      with Cons.prems c r show ?thesis by simp
    next
      case False
      from Cons.prems(2) push_append(1) [OF Cons.prems(1) c [unfolded r], of "concat cs"]
      obtain hs where "OuterFrameDecoder_push (concat cs) d1 = (Inr hs, d')" "fs = gs @ hs"
        by (cases "OuterFrameDecoder_push (concat cs) d1") (auto split: sum.splits simp: map_sum_def)
      with Cons.IH [OF d1 _ False] c r show ?thesis by simp
    qed
  qed
  then show "list_all (\<lambda>r. \<not> is_err r) (fst (run OuterFrameDecoder_push chunks d))"
    and "concat (map projr (fst (run OuterFrameDecoder_push chunks d))) = fs"
    and "snd (run OuterFrameDecoder_push chunks d) = d'"
    by blast+
qed

text \<open>The decoder as a fail-closed object: pushes, timeouts and end of file.\<close>

datatype ofd_call = OFD_push bytes | OFD_timeout | OFD_eof

fun ofd_op :: "ofd_call \<Rightarrow> OuterFrameDecoder \<Rightarrow> (error + bytes list) \<times> OuterFrameDecoder" where
  "ofd_op (OFD_push b) d = OuterFrameDecoder_push b d"
| "ofd_op OFD_timeout d = map_prod (map_sum id (\<lambda>_. [])) id (OuterFrameDecoder_timeout d)"
| "ofd_op OFD_eof d = map_prod (map_sum id (\<lambda>_. [])) id (OuterFrameDecoder_eof d)"

lemma push_err_failed:
  assumes "ofd_inv d" "is_err (fst (OuterFrameDecoder_push b d))"
  shows "ofd_failed (snd (OuterFrameDecoder_push b d))"
  using assms loop_inv(2) [of "ofd_more b d" "[]"] ofd_inv_mid [of d]
  by (cases "OuterFrameDecoder_loop (ofd_more b d) []")
    (auto simp: OuterFrameDecoder_push_def ofd_more_def [symmetric] split: if_splits)

interpretation ofd: fail_closed ofd_op ofd_failed ofd_inv
proof
  fix d :: OuterFrameDecoder and c
  assume inv: "ofd_inv d"
  show "ofd_inv (snd (ofd_op c d))"
    using inv push_inv [OF inv]
    by (cases c) (auto simp: OuterFrameDecoder_timeout_def OuterFrameDecoder_eof_def
        OuterFrameDecoder_clear_def ofd_inv_def)
  show "is_err (fst (ofd_op c d)) \<Longrightarrow> ofd_failed (snd (ofd_op c d))"
    using push_err_failed [OF inv]
    by (cases c) (auto simp: OuterFrameDecoder_timeout_def OuterFrameDecoder_eof_def split: if_splits)
  show "ofd_failed d \<Longrightarrow> is_err (fst (ofd_op c d))"
    by (cases c) (auto simp: OuterFrameDecoder_push_def OuterFrameDecoder_timeout_def
        OuterFrameDecoder_eof_def)
qed

section \<open>Properties\<close>

text \<open>The outer frame is a bijective code. A byte string is accepted as one frame with payload \<open>p\<close>
  exactly when it is what the encoder writes for \<open>p\<close>.\<close>

theorem outer_frame_codec: "one_outer b = Inr p \<longleftrightarrow> encode_outer p = Inr b"
  using outer.dec_iff by simp

text \<open>C10: However a stream of frames is cut into reads, the incremental decoder delivers exactly those
  frames in order, reports no error, and ends as new.\<close>

theorem outer_stream_any_chunks:
  assumes "list_all2 (\<lambda>p f. encode_outer p = Inr f) ps fs" "concat chunks = concat fs" "chunks \<noteq> []"
  shows "list_all (\<lambda>r. \<not> is_err r) (fst (run OuterFrameDecoder_push chunks OuterFrameDecoder_new)) \<and>
    concat (map projr (fst (run OuterFrameDecoder_push chunks OuterFrameDecoder_new))) = fs \<and>
    snd (run OuterFrameDecoder_push chunks OuterFrameDecoder_new) = OuterFrameDecoder_new"
  using run_push_concat [OF ofd_inv_new _ assms(3)] push_new_frames [OF assms(1)] assms(2) by simp

theorem outer_stream_any_chunks_witness:
  "concat (map projr (fst (run OuterFrameDecoder_push [[0], [1, 7, 0], [2, 1, 2]] OuterFrameDecoder_new))) =
     [[0, 1, 7], [0, 2, 1, 2]]"
proof -
  have "list_all2 (\<lambda>p f. encode_outer p = Inr f) [[7], [1, 2]] [[0, 1, 7], [0, 2, 1, 2]]"
    by (simp add: encode_outer_def OUTER_MAX_def u16_to_be_def be_bytes_expand)
  from outer_stream_any_chunks [OF this, of "[[0], [1, 7, 0], [2, 1, 2]]"] show ?thesis by simp
qed

text \<open>In every history of pushes, timeouts and end-of-file notices, the decoder holds at most one
  incomplete frame, and its first error is final: every later call fails.\<close>

theorem outer_decoder_fail_closed:
  "(i < j \<and> j < length cs \<and> is_err (fst (run ofd_op cs OuterFrameDecoder_new) ! i) \<longrightarrow>
      is_err (fst (run ofd_op cs OuterFrameDecoder_new) ! j)) \<and>
   length (ofd_pending (snd (run ofd_op cs OuterFrameDecoder_new))) < OUTER_MAX"
proof -
  have "ofd_inv (snd (run ofd_op cs OuterFrameDecoder_new))" by (rule ofd.invar_run) simp
  then have "length (ofd_pending (snd (run ofd_op cs OuterFrameDecoder_new))) < OUTER_MAX"
    by (auto simp: ofd_inv_def OUTER_MAX_def split: option.splits)
  then show ?thesis using ofd.run_first_error_final [OF ofd_inv_new] by blast
qed

theorem outer_decoder_fail_closed_witness:
  "is_err (fst (run ofd_op [OFD_push [0, 0], OFD_push [0, 1, 7]] OuterFrameDecoder_new) ! 1)"
proof -
  have "is_err (fst (run ofd_op [OFD_push [0, 0], OFD_push [0, 1, 7]] OuterFrameDecoder_new) ! 0)"
    by (simp add: OuterFrameDecoder_push_def OuterFrameDecoder_new_def OuterFrameDecoder_loop.simps
        OuterFrameDecoder_header_def u16_of_be_def be_val_def)
  then show ?thesis
    using outer_decoder_fail_closed [of 0 1 "[OFD_push [0, 0], OFD_push [0, 1, 7]]"] by simp
qed

end
