(* ===== verification/Noise.thy ===== *)
theory Noise
  imports Outer_Frame Payloads
begin

text \<open>
  The Noise library. \<^verbatim>\<open>transport/crypto-core\<close> drives the third-party crate \<^verbatim>\<open>snow\<close>; its handshake
  and transport states are opaque types \<open>'h\<close> and \<open>'t\<close> of the model and its operations the fields of
  the parameter record \<open>noise\<close>. Randomness the operating system supplies is an explicit argument.
  The locale \<open>noise_link\<close> states what the protocol relies on: a completed handshake leaves both ends
  with the same hash and two independent ordered channels. \<open>clear_noise\<close> is an executable instance
  (framing, nonces and tags without secrecy) that satisfies it. The definitions of this theory are the
  four functions of the core through which every message passes.
\<close>

record ('h, 't) noise =
  params_ok :: "string \<Rightarrow> bool"
  nk_initiator :: "bytes \<Rightarrow> bytes option \<Rightarrow> bytes \<Rightarrow> bytes \<Rightarrow> 'h option"
  nk_responder :: "bytes \<Rightarrow> bytes option \<Rightarrow> bytes \<Rightarrow> bytes \<Rightarrow> 'h option"
  nnpsk0_initiator :: "bytes \<Rightarrow> bytes option \<Rightarrow> bytes \<Rightarrow> bytes \<Rightarrow> 'h option"
  nnpsk0_responder :: "bytes \<Rightarrow> bytes option \<Rightarrow> bytes \<Rightarrow> bytes \<Rightarrow> 'h option"
  hs_write :: "'h \<Rightarrow> bytes \<Rightarrow> nat \<Rightarrow> bytes option \<times> 'h"
  hs_read :: "'h \<Rightarrow> bytes \<Rightarrow> nat \<Rightarrow> bytes option \<times> 'h"
  hs_hash :: "'h \<Rightarrow> bytes"
  hs_into_transport :: "'h \<Rightarrow> 't option"
  tr_write :: "'t \<Rightarrow> bytes \<Rightarrow> nat \<Rightarrow> bytes option \<times> 't"
  tr_read :: "'t \<Rightarrow> bytes \<Rightarrow> nat \<Rightarrow> bytes option \<times> 't"
  generate_keypair :: "bytes \<Rightarrow> (bytes \<times> bytes) option"

text \<open>The builders take the entropy the handshake will draw, the fixed ephemeral key of test
  constructors, the key material (remote static public key, local static private key, or psk) and
  the prologue. Reads and writes take the capacity of the output buffer.\<close>

section \<open>Messages through the library\<close>

definition write_handshake :: "('h, 't) noise \<Rightarrow> bytes \<Rightarrow> ('h, error, bytes) step" where
  "write_handshake N payload st =
     (case hs_write N st payload OUTER_MAX of
        (None, st) \<Rightarrow> (Inl (Error_new AuthenticationFailed), st)
      | (Some message, st) \<Rightarrow> (encode_outer message, st))"

definition read_handshake_mut :: "('h, 't) noise \<Rightarrow> bytes \<Rightarrow> ('h, error, bytes) step" where
  "read_handshake_mut N outer st =
     (case one_outer outer of
        Inl e \<Rightarrow> (Inl e, st)
      | Inr payload \<Rightarrow>
          (case hs_read N st payload OUTER_MAX of
             (None, st) \<Rightarrow> (Inl (Error_new AuthenticationFailed), st)
           | (Some plain, st) \<Rightarrow> (Inr plain, st)))"

definition encrypt_transport :: "('h, 't) noise \<Rightarrow> bytes \<Rightarrow> ('t, error, bytes) step" where
  "encrypt_transport N plaintext st =
     (case tr_write N st plaintext (length plaintext + 16) of
        (None, st) \<Rightarrow> (Inl (Error_new AuthenticationFailed), st)
      | (Some ciphertext, st) \<Rightarrow> (encode_outer ciphertext, st))"

definition decrypt_transport :: "('h, 't) noise \<Rightarrow> bytes \<Rightarrow> ('t, error, bytes) step" where
  "decrypt_transport N outer st =
     (case one_outer outer of
        Inl e \<Rightarrow> (Inl e, st)
      | Inr ciphertext \<Rightarrow>
          (case tr_read N st ciphertext (length ciphertext) of
             (None, st) \<Rightarrow> (Inl (Error_new AuthenticationFailed), st)
           | (Some plain, st) \<Rightarrow> (Inr plain, st)))"

section \<open>Key material\<close>

definition BrokerStaticKeypair_generate :: "('h, 't) noise \<Rightarrow> bytes \<Rightarrow> error + (bytes \<times> bytes)" where
  "BrokerStaticKeypair_generate N entropy =
     (if \<not> params_ok N ''Noise_NK_25519_ChaChaPoly_SHA256'' then Inl (Error_new InternalError)
      else res_bind (ok_or (Error_new AuthenticationFailed) (generate_keypair N entropy))
        (\<lambda>(priv, pub). res_bind (array32 priv) (\<lambda>private.
           res_bind (array32 pub) (\<lambda>public. Inr (private, public)))))"

text \<open>The draw is \<open>None\<close> when no generator is available or filling the buffer fails.\<close>

definition ProcessBootstrapSecret_generate :: "bytes option \<Rightarrow> error + bytes" where
  "ProcessBootstrapSecret_generate draw = ok_or (Error_new InternalError) draw"

section \<open>What the protocol relies on\<close>

text \<open>\<open>chan n s r\<close>: the next message \<open>s\<close> sends is the next one \<open>r\<close> expects, and it is number \<open>n\<close>. A
  pair of handshake states is linked when the two messages of the pattern pass with their payloads,
  both ends then hold the same 32-byte hash, and both directions start at zero.\<close>

definition hs_linked :: "('h, 't) noise \<Rightarrow> (nat \<Rightarrow> 't \<Rightarrow> 't \<Rightarrow> bool) \<Rightarrow> 'h \<Rightarrow> 'h \<Rightarrow> bool" where
  "hs_linked N chan hi hr \<longleftrightarrow>
     (\<forall>p1 p2. length p1 \<le> 65487 \<and> length p2 \<le> 65487 \<longrightarrow>
       (\<exists>c1 c2 hi1 hr1 hr2 hi2 ti tr.
          hs_write N hi p1 OUTER_MAX = (Some c1, hi1) \<and> c1 \<noteq> [] \<and> length c1 \<le> OUTER_MAX \<and>
          hs_read N hr c1 OUTER_MAX = (Some p1, hr1) \<and>
          hs_write N hr1 p2 OUTER_MAX = (Some c2, hr2) \<and> c2 \<noteq> [] \<and> length c2 \<le> OUTER_MAX \<and>
          hs_read N hi1 c2 OUTER_MAX = (Some p2, hi2) \<and>
          hs_hash N hi2 = hs_hash N hr2 \<and> length (hs_hash N hr2) = 32 \<and>
          hs_into_transport N hi2 = Some ti \<and> hs_into_transport N hr2 = Some tr \<and>
          chan 0 ti tr \<and> chan 0 tr ti))"

locale noise_link =
  fixes N :: "('h, 't) noise" and chan :: "nat \<Rightarrow> 't \<Rightarrow> 't \<Rightarrow> bool"
    and keypair :: "bytes \<Rightarrow> bytes \<Rightarrow> bool"
  assumes params: "params_ok N ''Noise_NK_25519_ChaChaPoly_SHA256''"
      "params_ok N ''Noise_NNpsk0_25519_ChaChaPoly_SHA256''"
    and nk: "keypair sk pk \<Longrightarrow> \<exists>hi hr. nk_initiator N e1 f1 pk pro = Some hi \<and>
          nk_responder N e2 f2 sk pro = Some hr \<and> hs_linked N chan hi hr"
    and nnpsk0: "length psk = 32 \<Longrightarrow> \<exists>hi hr. nnpsk0_initiator N e1 f1 psk pro = Some hi \<and>
          nnpsk0_responder N e2 f2 psk pro = Some hr \<and> hs_linked N chan hi hr"
    and send: "chan n s r \<Longrightarrow> n < 2 ^ 64 - 1 \<Longrightarrow> length p \<le> 65519 \<Longrightarrow>
          \<exists>c s' r'. tr_write N s p (length p + 16) = (Some c, s') \<and> length c = length p + 16 \<and>
            tr_read N r c (length c) = (Some p, r') \<and> chan (Suc n) s' r'"
    and send_keeps: "tr_write N s p cap = (x, s') \<Longrightarrow> chan m r s \<Longrightarrow> chan m r s'"
    and receive_keeps: "tr_read N r c cap = (x, r') \<Longrightarrow> chan m r s \<Longrightarrow> chan m r' s"
begin

text \<open>A message sealed at one end opens at the other, and the reverse direction is untouched.\<close>

lemma transport_delivers:
  assumes "chan n s r" "chan m r s" "n < 2 ^ 64 - 1" "length p \<le> 65519"
  obtains outer s' r' where "encrypt_transport N p s = (Inr outer, s')"
    "decrypt_transport N outer r = (Inr p, r')" "chan (Suc n) s' r'" "chan m r' s'"
proof -
  obtain c s' r' where c: "tr_write N s p (length p + 16) = (Some c, s')" "length c = length p + 16"
      "tr_read N r c (length c) = (Some p, r')" and ch: "chan (Suc n) s' r'"
    using send [OF assms(1,3,4)] by blast
  have "c \<noteq> []" "length c \<le> OUTER_MAX"
    using c(2) assms(4) by (auto simp: OUTER_MAX_def)
  then obtain outer where outer: "encode_outer c = Inr outer"
    by (rule encode_outer_total)
  have "encrypt_transport N p s = (Inr outer, s')"
    using c(1) outer by (simp add: encrypt_transport_def)
  moreover have "decrypt_transport N outer r = (Inr p, r')"
    using c(3) outer.dec_of_enc [OF _ outer] by (simp add: decrypt_transport_def)
  moreover have "chan m r' s'"
    using receive_keeps [OF c(3) send_keeps [OF c(1) assms(2)]] .
  ultimately show ?thesis using ch that by blast
qed

text \<open>Two linked handshake states exchange their messages and become transports.\<close>

lemma handshake_delivers:
  assumes "hs_linked N chan hi hr" "length p1 \<le> 65487" "length p2 \<le> 65487"
  obtains o1 o2 hi1 hr1 hr2 hi2 ti tr where
    "write_handshake N p1 hi = (Inr o1, hi1)" "read_handshake_mut N o1 hr = (Inr p1, hr1)"
    "write_handshake N p2 hr1 = (Inr o2, hr2)" "read_handshake_mut N o2 hi1 = (Inr p2, hi2)"
    "hs_hash N hi2 = hs_hash N hr2" "length (hs_hash N hr2) = 32"
    "hs_into_transport N hi2 = Some ti" "hs_into_transport N hr2 = Some tr"
    "chan 0 ti tr" "chan 0 tr ti"
proof -
  from assms obtain c1 c2 hi1 hr1 hr2 hi2 ti tr where
    h: "hs_write N hi p1 OUTER_MAX = (Some c1, hi1)" "c1 \<noteq> []" "length c1 \<le> OUTER_MAX"
      "hs_read N hr c1 OUTER_MAX = (Some p1, hr1)"
      "hs_write N hr1 p2 OUTER_MAX = (Some c2, hr2)" "c2 \<noteq> []" "length c2 \<le> OUTER_MAX"
      "hs_read N hi1 c2 OUTER_MAX = (Some p2, hi2)"
    and rest: "hs_hash N hi2 = hs_hash N hr2" "length (hs_hash N hr2) = 32"
      "hs_into_transport N hi2 = Some ti" "hs_into_transport N hr2 = Some tr"
      "chan 0 ti tr" "chan 0 tr ti"
    unfolding hs_linked_def by blast
  obtain o1 o2 where enc: "encode_outer c1 = Inr o1" "encode_outer c2 = Inr o2"
    using h encode_outer_total by metis
  then have "one_outer o1 = Inr c1" "one_outer o2 = Inr c2"
    using outer.dec_of_enc by blast+
  with h enc have
    "write_handshake N p1 hi = (Inr o1, hi1)" "read_handshake_mut N o1 hr = (Inr p1, hr1)"
    "write_handshake N p2 hr1 = (Inr o2, hr2)" "read_handshake_mut N o2 hi1 = (Inr p2, hi2)"
    by (simp_all add: write_handshake_def read_handshake_mut_def)
  from that [OF this rest] show ?thesis .
qed

end

section \<open>An instance\<close>

datatype clear_hs = Clear_HS bytes bytes

datatype clear_tr = Clear_TR nat nat

definition pad32 :: "bytes \<Rightarrow> bytes" where
  "pad32 b = take 32 (b @ replicate 32 0)"

lemma length_pad32 [simp]: "length (pad32 b) = 32"
  by (simp add: pad32_def)

definition clear_hs_write :: "clear_hs \<Rightarrow> bytes \<Rightarrow> nat \<Rightarrow> bytes option \<times> clear_hs" where
  "clear_hs_write h p cap = (case h of Clear_HS key pro \<Rightarrow>
     (if length p + 48 \<le> cap then Some (pad32 key @ p @ be_bytes 16 (length p)) else None, h))"

definition clear_hs_read :: "clear_hs \<Rightarrow> bytes \<Rightarrow> nat \<Rightarrow> bytes option \<times> clear_hs" where
  "clear_hs_read h c cap = (case h of Clear_HS key pro \<Rightarrow>
     (let n = length c - 48 in
      if 48 \<le> length c \<and> n \<le> cap \<and> take 32 c = pad32 key \<and> drop (32 + n) c = be_bytes 16 n
      then Some (take n (drop 32 c)) else None, h))"

definition clear_tr_write :: "clear_tr \<Rightarrow> bytes \<Rightarrow> nat \<Rightarrow> bytes option \<times> clear_tr" where
  "clear_tr_write t p cap = (case t of Clear_TR s r \<Rightarrow>
     if s < 2 ^ 64 - 1 \<and> length p + 16 \<le> cap then (Some (p @ be_bytes 16 s), Clear_TR (Suc s) r)
     else (None, t))"

definition clear_tr_read :: "clear_tr \<Rightarrow> bytes \<Rightarrow> nat \<Rightarrow> bytes option \<times> clear_tr" where
  "clear_tr_read t c cap = (case t of Clear_TR s r \<Rightarrow>
     (let n = length c - 16 in
      if 16 \<le> length c \<and> n \<le> cap \<and> drop n c = be_bytes 16 r
      then (Some (take n c), Clear_TR s (Suc r)) else (None, t)))"

definition clear_noise :: "(clear_hs, clear_tr) noise" where
  "clear_noise = \<lparr>params_ok = (\<lambda>_. True),
     nk_initiator = (\<lambda>e f pk pro. Some (Clear_HS pk pro)),
     nk_responder = (\<lambda>e f sk pro. Some (Clear_HS sk pro)),
     nnpsk0_initiator = (\<lambda>e f psk pro. Some (Clear_HS psk pro)),
     nnpsk0_responder = (\<lambda>e f psk pro. Some (Clear_HS psk pro)),
     hs_write = clear_hs_write, hs_read = clear_hs_read,
     hs_hash = (\<lambda>h. case h of Clear_HS key pro \<Rightarrow> pad32 pro),
     hs_into_transport = (\<lambda>h. Some (Clear_TR 0 0)),
     tr_write = clear_tr_write, tr_read = clear_tr_read,
     generate_keypair = (\<lambda>e. Some (pad32 e, pad32 e))\<rparr>"

fun clear_chan :: "nat \<Rightarrow> clear_tr \<Rightarrow> clear_tr \<Rightarrow> bool" where
  "clear_chan n (Clear_TR s r) (Clear_TR s' r') \<longleftrightarrow> s = n \<and> r' = n"

lemma clear_hs_linked: "hs_linked clear_noise clear_chan (Clear_HS k pro) (Clear_HS k pro)"
  by (auto simp: hs_linked_def clear_noise_def clear_hs_write_def clear_hs_read_def OUTER_MAX_def
      simp flip: length_greater_0_conv)

interpretation clear: noise_link clear_noise clear_chan "\<lambda>sk pk. sk = pk"
proof
  fix n s r and p :: bytes
  assume "clear_chan n s r" "n < 2 ^ 64 - 1" "length p \<le> 65519"
  then show "\<exists>c s' r'. tr_write clear_noise s p (length p + 16) = (Some c, s') \<and>
      length c = length p + 16 \<and> tr_read clear_noise r c (length c) = (Some p, r') \<and>
      clear_chan (Suc n) s' r'"
    by (cases s; cases r) (auto simp: clear_noise_def clear_tr_write_def clear_tr_read_def)
next
  fix s p cap x s' m r
  assume "tr_write clear_noise s p cap = (x, s')" "clear_chan m r s"
  then show "clear_chan m r s'"
    by (cases s; cases r) (auto simp: clear_noise_def clear_tr_write_def split: if_splits)
next
  fix r c cap x r' m s
  assume "tr_read clear_noise r c cap = (x, r')" "clear_chan m r s"
  then show "clear_chan m r' s"
    by (cases s; cases r) (auto simp: clear_noise_def clear_tr_read_def Let_def split: if_splits)
qed (auto simp: clear_noise_def clear_hs_linked [unfolded clear_noise_def])

end
