(* ===== verification/Lease.thy ===== *)
theory Lease
  imports Records Noise
begin

text \<open>
  The lease-control connection of \<^verbatim>\<open>transport/crypto-core/src/lib.rs\<close>: \<^verbatim>\<open>LeaseCore\<close> and its two
  role-specific views, which exchange heartbeats and close records after the bootstrap. Quotas are
  kept in 64-bit counters; every non-close write leaves room for one authenticated close record.
  The lemmas show that both views are fail-closed, that heartbeat counters only grow, and that the
  quotas hold in every reachable state.
\<close>

record 't LeaseCore =
  lc_transport :: "'t option"
  lc_binding :: LeaseBinding
  lc_closed :: bool
  lc_sent_records :: u64
  lc_sent_plaintext :: u64
  lc_received_records :: u64
  lc_received_plaintext :: u64
  lc_pending_heartbeat :: "u64 option"
  lc_last_heartbeat :: u64

definition LeaseCore_new ::
    "'t \<Rightarrow> LeaseBinding \<Rightarrow> u64 \<Rightarrow> u64 \<Rightarrow> u64 \<Rightarrow> u64 \<Rightarrow> 't LeaseCore" where
  "LeaseCore_new transport binding sent_records sent_plaintext received_records received_plaintext =
     \<lparr>lc_transport = Some transport, lc_binding = binding, lc_closed = False,
      lc_sent_records = sent_records, lc_sent_plaintext = sent_plaintext,
      lc_received_records = received_records, lc_received_plaintext = received_plaintext,
      lc_pending_heartbeat = None, lc_last_heartbeat = 0\<rparr>"

definition LeaseCore_close_state :: "'t LeaseCore \<Rightarrow> 't LeaseCore" where
  "LeaseCore_close_state s = s\<lparr>lc_closed := True, lc_transport := None\<rparr>"

definition LeaseCore_finish_result :: "('t LeaseCore, error, 'a) step \<Rightarrow> ('t LeaseCore, error, 'a) step" where
  "LeaseCore_finish_result m s =
     (let (r, s) = m s in if is_err r then (r, LeaseCore_close_state s) else (r, s))"

text \<open>\<^verbatim>\<open>self.transport()?\<close> followed by an operation on the borrowed state.\<close>

definition LeaseCore_transport :: "('t, error, 'a) step \<Rightarrow> ('t LeaseCore, error, 'a) step" where
  "LeaseCore_transport f s =
     (if lc_closed s then (Inl (Error_new SequenceViolation), s)
      else case lc_transport s of
        None \<Rightarrow> (Inl (Error_new SequenceViolation), s)
      | Some t \<Rightarrow> (let (r, t) = f t in (r, s\<lparr>lc_transport := Some t\<rparr>)))"

definition LeaseCore_limit_close :: "('h, 't) noise \<Rightarrow> cbor \<Rightarrow> ('t LeaseCore, error, bytes) step" where
  "LeaseCore_limit_close N C =
     st_bind (st_lift (limit_close_plaintext C NotHandedOff)) (\<lambda>plaintext. st_with (\<lambda>s.
     let next_records = checked_add (lc_sent_records s) 1;
         next_bytes = checked_add (lc_sent_plaintext s) (of_nat (length plaintext))
     in if is_none_or (\<lambda>n. n \<ge> RECORD_LIMIT) next_records \<or> is_none_or (\<lambda>n. n \<ge> BYTE_LIMIT) next_bytes
        then st_fail (Error_new RecordLimit)
        else st_bind (LeaseCore_transport (encrypt_transport N plaintext)) (\<lambda>frame.
          st_bind (st_upd (\<lambda>s. s\<lparr>lc_sent_records := the next_records,
              lc_sent_plaintext := the next_bytes\<rparr>)) (\<lambda>_. st_ok frame))))"

definition LeaseCore_limit_error :: "('h, 't) noise \<Rightarrow> cbor \<Rightarrow> 't LeaseCore \<Rightarrow> error \<times> 't LeaseCore" where
  "LeaseCore_limit_error N C s =
     (let (r, s) = LeaseCore_limit_close N C s;
          close = (case r of Inl _ \<Rightarrow> None | Inr frame \<Rightarrow> Some frame)
      in (Error_record_limit close, LeaseCore_close_state s))"

definition LeaseCore_write_record ::
    "('h, 't) noise \<Rightarrow> cbor \<Rightarrow> RecordKind \<Rightarrow> bytes \<Rightarrow> ('t LeaseCore, error, bytes) step" where
  "LeaseCore_write_record N C kind data =
     st_bind (st_lift (res_bind (complete_record kind data) Record_encode)) (\<lambda>plaintext.
     st_bind (st_lift (limit_close_plaintext C NotHandedOff)) (\<lambda>close. st_with (\<lambda>s.
     let next_records = checked_add (lc_sent_records s) 1;
         next_bytes = checked_add (lc_sent_plaintext s) (of_nat (length plaintext));
         close_len = of_nat (length close);
         limit_reached =
           (if kind = Close then
              is_none_or (\<lambda>n. n \<ge> RECORD_LIMIT) next_records \<or> is_none_or (\<lambda>n. n \<ge> BYTE_LIMIT) next_bytes
            else
              is_none_or (\<lambda>n. n \<ge> RECORD_LIMIT) (Option.bind next_records (\<lambda>n. checked_add n 1)) \<or>
              is_none_or (\<lambda>n. n \<ge> BYTE_LIMIT) (Option.bind next_bytes (\<lambda>n. checked_add n close_len)))
     in if limit_reached
        then (\<lambda>s. let (e, s) = LeaseCore_limit_error N C s in (Inl e, s))
        else st_bind (LeaseCore_transport (encrypt_transport N plaintext)) (\<lambda>frame.
          st_bind (st_upd (\<lambda>s. s\<lparr>lc_sent_records := the next_records,
              lc_sent_plaintext := the next_bytes\<rparr>)) (\<lambda>_. st_ok frame)))))"

definition LeaseCore_decrypt_counted ::
    "('h, 't) noise \<Rightarrow> cbor \<Rightarrow> bytes \<Rightarrow> ('t LeaseCore, error, bytes) step" where
  "LeaseCore_decrypt_counted N C outer =
     st_bind (LeaseCore_transport (decrypt_transport N outer)) (\<lambda>plaintext. st_with (\<lambda>s.
     let next_records = checked_add (lc_received_records s) 1;
         next_bytes = checked_add (lc_received_plaintext s) (of_nat (length plaintext))
     in if is_none_or (\<lambda>n. n \<ge> RECORD_LIMIT) next_records \<or> is_none_or (\<lambda>n. n \<ge> BYTE_LIMIT) next_bytes
        then (\<lambda>s. let (e, s) = LeaseCore_limit_error N C s in (Inl e, s))
        else st_bind (st_upd (\<lambda>s. s\<lparr>lc_received_records := the next_records,
            lc_received_plaintext := the next_bytes\<rparr>)) (\<lambda>_. st_ok plaintext)))"

definition LeaseCore_write_heartbeat ::
    "('h, 't) noise \<Rightarrow> cbor \<Rightarrow> u8 \<Rightarrow> u64 \<Rightarrow> ('t LeaseCore, error, bytes) step" where
  "LeaseCore_write_heartbeat N C role counter = st_with (\<lambda>s.
     st_bind (st_lift (heartbeat_payload C role (lc_binding s) counter)) (\<lambda>payload.
     LeaseCore_write_record N C Heartbeat payload))"

definition LeaseCore_read_heartbeat ::
    "('h, 't) noise \<Rightarrow> cbor \<Rightarrow> bytes \<Rightarrow> u8 \<Rightarrow> ('t LeaseCore, error, u64) step" where
  "LeaseCore_read_heartbeat N C outer role =
     st_bind (LeaseCore_decrypt_counted N C outer) (\<lambda>plaintext.
     st_bind (st_lift (Record_decode plaintext)) (\<lambda>r.
     if rec_kind r = Close then
       st_bind (st_lift (validate_complete_record r Close)) (\<lambda>_.
       st_bind (st_lift (parse_close C (rec_data r))) (\<lambda>(reason, handoff).
       st_fail (Error_peer_close reason handoff)))
     else
       st_bind (st_lift (validate_complete_record r Heartbeat)) (\<lambda>_. st_with (\<lambda>s.
       st_lift (parse_heartbeat C (rec_data r) role (lc_binding s))))))"

definition LeaseCore_write_close ::
    "('h, 't) noise \<Rightarrow> cbor \<Rightarrow> CloseReason \<Rightarrow> HandoffState \<Rightarrow> ('t LeaseCore, error, bytes) step" where
  "LeaseCore_write_close N C reason handoff =
     st_bind (st_lift (close_payload C reason handoff)) (\<lambda>payload.
     st_bind (LeaseCore_write_record N C Close payload) (\<lambda>frame.
     st_bind (st_upd LeaseCore_close_state) (\<lambda>_. st_ok frame)))"

definition LeaseCore_read_close ::
    "('h, 't) noise \<Rightarrow> cbor \<Rightarrow> bytes \<Rightarrow> ('t LeaseCore, error, CloseReason \<times> HandoffState) step" where
  "LeaseCore_read_close N C outer =
     st_bind (LeaseCore_decrypt_counted N C outer) (\<lambda>plaintext.
     st_bind (st_lift (Record_decode plaintext)) (\<lambda>r.
     st_bind (st_lift (validate_complete_record r Close)) (\<lambda>_.
     st_bind (st_lift (parse_close C (rec_data r))) (\<lambda>close.
     st_bind (st_upd LeaseCore_close_state) (\<lambda>_. st_ok close)))))"

section \<open>The Target's view\<close>

definition TargetLease_read_heartbeat_request ::
    "('h, 't) noise \<Rightarrow> cbor \<Rightarrow> bytes \<Rightarrow> ('t LeaseCore, error, u64) step" where
  "TargetLease_read_heartbeat_request N C outer = LeaseCore_finish_result (st_with (\<lambda>s.
     if lc_pending_heartbeat s \<noteq> None then st_fail (Error_new SequenceViolation)
     else st_bind (LeaseCore_read_heartbeat N C outer 1) (\<lambda>counter. st_with (\<lambda>s.
       if counter \<le> lc_last_heartbeat s then st_fail (Error_new SequenceViolation)
       else st_bind (st_upd (\<lambda>s. s\<lparr>lc_pending_heartbeat := Some counter\<rparr>)) (\<lambda>_. st_ok counter)))))"

definition TargetLease_write_heartbeat_reply ::
    "('h, 't) noise \<Rightarrow> cbor \<Rightarrow> u64 \<Rightarrow> ('t LeaseCore, error, bytes) step" where
  "TargetLease_write_heartbeat_reply N C counter = LeaseCore_finish_result (st_with (\<lambda>s.
     if lc_pending_heartbeat s \<noteq> Some counter then st_fail (Error_new SequenceViolation)
     else st_bind (LeaseCore_write_heartbeat N C 2 counter) (\<lambda>frame.
       st_bind (st_upd (\<lambda>s. s\<lparr>lc_pending_heartbeat := None, lc_last_heartbeat := counter\<rparr>)) (\<lambda>_.
       st_ok frame))))"

definition TargetLease_write_close ::
    "('h, 't) noise \<Rightarrow> cbor \<Rightarrow> CloseReason \<Rightarrow> HandoffState \<Rightarrow> ('t LeaseCore, error, bytes) step" where
  "TargetLease_write_close N C reason handoff =
     LeaseCore_finish_result (LeaseCore_write_close N C reason handoff)"

definition TargetLease_read_close ::
    "('h, 't) noise \<Rightarrow> cbor \<Rightarrow> bytes \<Rightarrow> ('t LeaseCore, error, CloseReason \<times> HandoffState) step" where
  "TargetLease_read_close N C outer = LeaseCore_finish_result (LeaseCore_read_close N C outer)"

section \<open>The Broker's view\<close>

definition BrokerLease_write_heartbeat_request ::
    "('h, 't) noise \<Rightarrow> cbor \<Rightarrow> u64 \<Rightarrow> ('t LeaseCore, error, bytes) step" where
  "BrokerLease_write_heartbeat_request N C counter = LeaseCore_finish_result (st_with (\<lambda>s.
     if lc_pending_heartbeat s \<noteq> None \<or> counter \<le> lc_last_heartbeat s
     then st_fail (Error_new SequenceViolation)
     else st_bind (LeaseCore_write_heartbeat N C 1 counter) (\<lambda>frame.
       st_bind (st_upd (\<lambda>s. s\<lparr>lc_pending_heartbeat := Some counter\<rparr>)) (\<lambda>_. st_ok frame))))"

definition BrokerLease_read_heartbeat_reply ::
    "('h, 't) noise \<Rightarrow> cbor \<Rightarrow> bytes \<Rightarrow> ('t LeaseCore, error, u64) step" where
  "BrokerLease_read_heartbeat_reply N C outer = LeaseCore_finish_result (
     st_bind (LeaseCore_read_heartbeat N C outer 2) (\<lambda>counter. st_with (\<lambda>s.
     if lc_pending_heartbeat s \<noteq> Some counter then st_fail (Error_new SequenceViolation)
     else st_bind (st_upd (\<lambda>s. s\<lparr>lc_pending_heartbeat := None, lc_last_heartbeat := counter\<rparr>)) (\<lambda>_.
       st_ok counter))))"

definition BrokerLease_write_close ::
    "('h, 't) noise \<Rightarrow> cbor \<Rightarrow> CloseReason \<Rightarrow> HandoffState \<Rightarrow> ('t LeaseCore, error, bytes) step" where
  "BrokerLease_write_close N C reason handoff =
     LeaseCore_finish_result (LeaseCore_write_close N C reason handoff)"

definition BrokerLease_read_close ::
    "('h, 't) noise \<Rightarrow> cbor \<Rightarrow> bytes \<Rightarrow> ('t LeaseCore, error, CloseReason \<times> HandoffState) step" where
  "BrokerLease_read_close N C outer = LeaseCore_finish_result (LeaseCore_read_close N C outer)"

section \<open>Calls as values\<close>

datatype lease_answer = A_counter u64 | A_frame bytes | A_close "CloseReason \<times> HandoffState"

datatype target_lease_call =
    TL_read_heartbeat_request bytes | TL_write_heartbeat_reply u64
  | TL_write_close CloseReason HandoffState | TL_read_close bytes

fun target_lease_op ::
    "('h, 't) noise \<Rightarrow> cbor \<Rightarrow> target_lease_call \<Rightarrow> ('t LeaseCore, error, lease_answer) step" where
  "target_lease_op N C (TL_read_heartbeat_request f) s =
     map_prod (map_sum id A_counter) id (TargetLease_read_heartbeat_request N C f s)"
| "target_lease_op N C (TL_write_heartbeat_reply c) s =
     map_prod (map_sum id A_frame) id (TargetLease_write_heartbeat_reply N C c s)"
| "target_lease_op N C (TL_write_close r h) s =
     map_prod (map_sum id A_frame) id (TargetLease_write_close N C r h s)"
| "target_lease_op N C (TL_read_close f) s =
     map_prod (map_sum id A_close) id (TargetLease_read_close N C f s)"

datatype broker_lease_call =
    BL_write_heartbeat_request u64 | BL_read_heartbeat_reply bytes
  | BL_write_close CloseReason HandoffState | BL_read_close bytes

fun broker_lease_op ::
    "('h, 't) noise \<Rightarrow> cbor \<Rightarrow> broker_lease_call \<Rightarrow> ('t LeaseCore, error, lease_answer) step" where
  "broker_lease_op N C (BL_write_heartbeat_request c) s =
     map_prod (map_sum id A_frame) id (BrokerLease_write_heartbeat_request N C c s)"
| "broker_lease_op N C (BL_read_heartbeat_reply f) s =
     map_prod (map_sum id A_counter) id (BrokerLease_read_heartbeat_reply N C f s)"
| "broker_lease_op N C (BL_write_close r h) s =
     map_prod (map_sum id A_frame) id (BrokerLease_write_close N C r h s)"
| "broker_lease_op N C (BL_read_close f) s =
     map_prod (map_sum id A_close) id (BrokerLease_read_close N C f s)"

lemmas lease_role_defs =
  TargetLease_read_heartbeat_request_def TargetLease_write_heartbeat_reply_def
  TargetLease_write_close_def TargetLease_read_close_def
  BrokerLease_write_heartbeat_request_def BrokerLease_read_heartbeat_reply_def
  BrokerLease_write_close_def BrokerLease_read_close_def

section \<open>Fail closed\<close>

lemma LeaseCore_close_state_simps [simp]:
  "lc_closed (LeaseCore_close_state s)" "lc_transport (LeaseCore_close_state s) = None"
  "lc_binding (LeaseCore_close_state s) = lc_binding s"
  "lc_sent_records (LeaseCore_close_state s) = lc_sent_records s"
  "lc_sent_plaintext (LeaseCore_close_state s) = lc_sent_plaintext s"
  "lc_received_records (LeaseCore_close_state s) = lc_received_records s"
  "lc_received_plaintext (LeaseCore_close_state s) = lc_received_plaintext s"
  "lc_pending_heartbeat (LeaseCore_close_state s) = lc_pending_heartbeat s"
  "lc_last_heartbeat (LeaseCore_close_state s) = lc_last_heartbeat s"
  by (simp_all add: LeaseCore_close_state_def)

text \<open>A lease that failed is closed and holds no keys.\<close>

abbreviation lease_shut :: "'t LeaseCore \<Rightarrow> bool" where
  "lease_shut s \<equiv> lc_closed s \<and> lc_transport s = None"

lemma finish_result_err:
  "is_err (fst (LeaseCore_finish_result m s)) = is_err (fst (m s))"
  "is_err (fst (LeaseCore_finish_result m s)) \<Longrightarrow> lease_shut (snd (LeaseCore_finish_result m s))"
  by (auto simp: LeaseCore_finish_result_def Let_def split: prod.splits if_splits)

lemma transport_rejects: "st_rejects lc_closed (LeaseCore_transport f)"
  by (simp add: st_rejects_def LeaseCore_transport_def)

lemma limit_error_rejects:
  "st_rejects P (\<lambda>s. let (e, s) = LeaseCore_limit_error N C s in (Inl e, s))"
  by (simp add: st_rejects_def Let_def split: prod.splits)

lemma lease_core_rejects:
  "st_rejects lc_closed (LeaseCore_write_record N C kind data)"
  "st_rejects lc_closed (LeaseCore_decrypt_counted N C outer)"
  "st_rejects lc_closed (LeaseCore_write_heartbeat N C role counter)"
  "st_rejects lc_closed (LeaseCore_read_heartbeat N C outer role)"
  "st_rejects lc_closed (LeaseCore_write_close N C reason handoff)"
  "st_rejects lc_closed (LeaseCore_read_close N C outer)"
proof -
  show w: "st_rejects lc_closed (LeaseCore_write_record N C kind data)" for kind data
    unfolding LeaseCore_write_record_def Let_def
    by (intro st_rejects_lift_bind st_rejects_with st_rejects_if limit_error_rejects
        [unfolded Let_def] st_rejects_first transport_rejects)
  show d: "st_rejects lc_closed (LeaseCore_decrypt_counted N C outer)"
    unfolding LeaseCore_decrypt_counted_def by (intro st_rejects_first transport_rejects)
  show "st_rejects lc_closed (LeaseCore_write_heartbeat N C role counter)"
    unfolding LeaseCore_write_heartbeat_def by (intro st_rejects_with st_rejects_lift_bind w)
  show "st_rejects lc_closed (LeaseCore_read_heartbeat N C outer role)"
    unfolding LeaseCore_read_heartbeat_def by (intro st_rejects_first d)
  show "st_rejects lc_closed (LeaseCore_write_close N C reason handoff)"
    unfolding LeaseCore_write_close_def by (intro st_rejects_lift_bind st_rejects_first w)
  show "st_rejects lc_closed (LeaseCore_read_close N C outer)"
    unfolding LeaseCore_read_close_def by (intro st_rejects_first d)
qed

lemma finish_result_rejects: "st_rejects P m \<Longrightarrow> st_rejects P (LeaseCore_finish_result m)"
  by (simp add: st_rejects_def finish_result_err)

lemma lease_ops_reject:
  "st_rejects lc_closed (target_lease_op N C c)" "st_rejects lc_closed (broker_lease_op N C d)"
proof -
  have *: "st_rejects lc_closed (TargetLease_read_heartbeat_request N C f)"
    "st_rejects lc_closed (TargetLease_write_heartbeat_reply N C n)"
    "st_rejects lc_closed (TargetLease_write_close N C r h)"
    "st_rejects lc_closed (TargetLease_read_close N C f)"
    "st_rejects lc_closed (BrokerLease_write_heartbeat_request N C n)"
    "st_rejects lc_closed (BrokerLease_read_heartbeat_reply N C f)"
    "st_rejects lc_closed (BrokerLease_write_close N C r h)"
    "st_rejects lc_closed (BrokerLease_read_close N C f)" for f n r h
    unfolding lease_role_defs
    by (intro finish_result_rejects st_rejects_with st_rejects_if st_rejects_fail st_rejects_first
        lease_core_rejects)+
  show "st_rejects lc_closed (target_lease_op N C c)"
    by (cases c) (use * in \<open>auto simp: st_rejects_def\<close>)
  show "st_rejects lc_closed (broker_lease_op N C d)"
    by (cases d) (use * in \<open>auto simp: st_rejects_def\<close>)
qed

interpretation target_lease: fail_closed "target_lease_op N C" lease_shut "\<lambda>_. True" for N C
proof
  fix s and c :: target_lease_call
  show "is_err (fst (target_lease_op N C c s)) \<Longrightarrow> lease_shut (snd (target_lease_op N C c s))"
    by (cases c) (simp_all only: target_lease_op.simps broker_lease_op.simps fst_map_prod snd_map_prod
      is_err_map_sum id_apply lease_role_defs finish_result_err(2))
  show "lease_shut s \<Longrightarrow> is_err (fst (target_lease_op N C c s))"
    using lease_ops_reject(1) [of N C c] by (simp add: st_rejects_def)
qed simp

interpretation broker_lease: fail_closed "broker_lease_op N C" lease_shut "\<lambda>_. True" for N C
proof
  fix s and c :: broker_lease_call
  show "is_err (fst (broker_lease_op N C c s)) \<Longrightarrow> lease_shut (snd (broker_lease_op N C c s))"
    by (cases c) (simp_all only: target_lease_op.simps broker_lease_op.simps fst_map_prod snd_map_prod
      is_err_map_sum id_apply lease_role_defs finish_result_err(2))
  show "lease_shut s \<Longrightarrow> is_err (fst (broker_lease_op N C c s))"
    using lease_ops_reject(2) [of N C c] by (simp add: st_rejects_def)
qed simp

section \<open>Quotas\<close>

text \<open>The counters stay below the limits, and as long as the lease is open the sender could still
  write the close record that announces an exhausted quota.\<close>

definition close_room :: "cbor \<Rightarrow> 't LeaseCore \<Rightarrow> bool" where
  "close_room C s \<longleftrightarrow> unat (lc_sent_records s) + 1 < 2 ^ 32 \<and>
     (\<forall>close. limit_close_plaintext C NotHandedOff = Inr close \<longrightarrow>
        unat (lc_sent_plaintext s) + length close < 2 ^ 40)"

definition lease_quota :: "'t LeaseCore \<Rightarrow> bool" where
  "lease_quota s \<longleftrightarrow>
     unat (lc_sent_records s) < 2 ^ 32 \<and> unat (lc_sent_plaintext s) < 2 ^ 40 \<and>
     unat (lc_received_records s) < 2 ^ 32 \<and> unat (lc_received_plaintext s) < 2 ^ 40"

definition lease_inv :: "cbor \<Rightarrow> 't LeaseCore \<Rightarrow> bool" where
  "lease_inv C s \<longleftrightarrow> lease_quota s \<and> (lc_closed s \<or> close_room C s)"

lemma lease_quota_close [simp]: "lease_quota (LeaseCore_close_state s) = lease_quota s"
  by (simp add: lease_quota_def)

lemma lease_inv_closed: "lease_quota s \<Longrightarrow> lc_closed s \<Longrightarrow> lease_inv C s"
  by (simp add: lease_inv_def)

lemma lease_transport_update [simp]:
  "lease_quota (s\<lparr>lc_transport := t\<rparr>) = lease_quota s"
  "close_room C (s\<lparr>lc_transport := t\<rparr>) = close_room C s"
  "lease_inv C (s\<lparr>lc_transport := t\<rparr>) = lease_inv C s"
  by (simp_all add: lease_quota_def close_room_def lease_inv_def)

lemma unat_length_64: "length (xs :: bytes) < 2 ^ 64 \<Longrightarrow> unat (of_nat (length xs) :: u64) = length xs"
  by (simp add: unat_of_nat)

text \<open>The state after one record more was sealed, or opened.\<close>

definition lease_sent :: "'t LeaseCore \<Rightarrow> 't \<Rightarrow> nat \<Rightarrow> 't LeaseCore" where
  "lease_sent s t n = s\<lparr>lc_transport := Some t, lc_sent_records := lc_sent_records s + 1,
     lc_sent_plaintext := lc_sent_plaintext s + of_nat n\<rparr>"

definition lease_received :: "'t LeaseCore \<Rightarrow> 't \<Rightarrow> nat \<Rightarrow> 't LeaseCore" where
  "lease_received s t n = s\<lparr>lc_transport := Some t, lc_received_records := lc_received_records s + 1,
     lc_received_plaintext := lc_received_plaintext s + of_nat n\<rparr>"

lemmas lease_moves = lease_sent_def lease_received_def

lemma sent_quota:
  assumes "unat (lc_sent_records s) + 1 < 2 ^ 32" "unat (lc_sent_plaintext s) + n < 2 ^ 40"
  shows "checked_add (lc_sent_records s) 1 = Some (lc_sent_records s + 1)"
    "checked_add (lc_sent_plaintext s) (of_nat n) = Some (lc_sent_plaintext s + of_nat n)"
    "unat (lc_sent_records s + 1) = unat (lc_sent_records s) + 1"
    "unat (lc_sent_plaintext s + of_nat n) = unat (lc_sent_plaintext s) + n"
  using assms unat_charge [of "lc_sent_plaintext s" n] unat_charge [of "lc_sent_records s" 1]
  by simp_all

lemma LeaseCore_transport_cases:
  assumes "LeaseCore_transport f s = (r, s')"
  obtains (rejected) "s' = s" "is_err r"
    | (used) t t' where "lc_transport s = Some t" "f t = (r, t')" "s' = s\<lparr>lc_transport := Some t'\<rparr>"
        "\<not> lc_closed s"
  using assms by (auto simp: LeaseCore_transport_def Let_def split: if_splits option.splits prod.splits)

text \<open>An exhausted quota closes the lease; its close record is counted when it fits.\<close>

lemma limit_close_cases:
  assumes "LeaseCore_limit_close N C s = (r, s')"
  obtains (failed) tr where "is_err r" "s' = s\<lparr>lc_transport := tr\<rparr>"
    | (sent) close t t' frame where "limit_close_plaintext C NotHandedOff = Inr close"
        "encrypt_transport N close t = (Inr frame, t')" "lc_transport s = Some t" "r = Inr frame"
        "unat (lc_sent_records s) + 1 < 2 ^ 32" "unat (lc_sent_plaintext s) + length close < 2 ^ 40"
        "s' = lease_sent s t' (length close)"
proof (cases "limit_close_plaintext C NotHandedOff")
  case (Inl e)
  with assms have "r = Inl e" "s' = s" by (simp_all add: LeaseCore_limit_close_def st_simps)
  then show ?thesis using failed [of "lc_transport s"] by simp
next
  case (Inr close)
  have len: "unat (of_nat (length close) :: u64) = length close"
    using limit_close_length [OF Inr] by (simp add: unat_length_64)
  show ?thesis
  proof (cases "unat (lc_sent_records s) + 1 < 2 ^ 32 \<and> unat (lc_sent_plaintext s) + length close < 2 ^ 40")
    case False
    with Inr len assms show ?thesis
      using failed [of "lc_transport s"]
      by (auto simp: LeaseCore_limit_close_def st_simps Let_def quota_reached_iff)
  next
    case True
    obtain r1 s1 where tr: "LeaseCore_transport (encrypt_transport N close) s = (r1, s1)" by fastforce
    note q = sent_quota [OF conjunct1 [OF True] conjunct2 [OF True]]
    have "(r, s') = (case r1 of Inl e \<Rightarrow> (Inl e, s1) | Inr f \<Rightarrow> (Inr f, s1\<lparr>
        lc_sent_records := lc_sent_records s + 1, lc_sent_plaintext := lc_sent_plaintext s + of_nat (length close)\<rparr>))"
      using Inr tr True len
      by (cases r1) (simp_all add: assms [symmetric] LeaseCore_limit_close_def st_simps Let_def quota_reached_iff word_le_nat_alt q)
    with tr Inr True show ?thesis
      using failed [of "lc_transport s"] failed sent
      by (cases rule: LeaseCore_transport_cases) (auto simp: lease_sent_def split: sum.splits)
  qed
qed

lemma limit_error_post:
  assumes "LeaseCore_limit_error N C s = (e, s')"
  shows "lc_closed s'" "lease_quota s \<Longrightarrow> lease_quota s'" "lc_pending_heartbeat s' = lc_pending_heartbeat s"
    "lc_last_heartbeat s' = lc_last_heartbeat s"
proof -
  obtain r s1 where c: "LeaseCore_limit_close N C s = (r, s1)" by fastforce
  then have s': "s' = LeaseCore_close_state s1" using assms by (simp add: LeaseCore_limit_error_def)
  then show "lc_closed s'" by simp
  from c have *: "(lease_quota s \<longrightarrow> lease_quota s1) \<and> lc_pending_heartbeat s1 = lc_pending_heartbeat s \<and>
      lc_last_heartbeat s1 = lc_last_heartbeat s"
    by (cases rule: limit_close_cases) (auto simp: lease_sent_def lease_quota_def sent_quota)
  with s' show "lease_quota s \<Longrightarrow> lease_quota s'" "lc_pending_heartbeat s' = lc_pending_heartbeat s"
    "lc_last_heartbeat s' = lc_last_heartbeat s" by simp_all
qed

text \<open>The three ways \<^verbatim>\<open>write_record\<close> ends.\<close>

lemma write_record_cases:
  assumes "LeaseCore_write_record N C kind data s = (r, s')"
  obtains (failed) tr where "is_err r" "s' = s\<lparr>lc_transport := tr\<rparr>"
    | (limit) e where "r = Inl e" "LeaseCore_limit_error N C s = (e, s')"
    | (sent) plaintext close t t' frame where
        "res_bind (complete_record kind data) Record_encode = Inr plaintext"
        "limit_close_plaintext C NotHandedOff = Inr close"
        "encrypt_transport N plaintext t = (Inr frame, t')" "lc_transport s = Some t" "r = Inr frame"
        "unat (lc_sent_records s) + 1 < 2 ^ 32" "unat (lc_sent_plaintext s) + length plaintext < 2 ^ 40"
        "kind \<noteq> Close \<Longrightarrow> close_room C (lease_sent s t' (length plaintext))"
        "s' = lease_sent s t' (length plaintext)"
proof (cases "res_bind (complete_record kind data) Record_encode")
  case (Inl e)
  with assms have "r = Inl e" "s' = s" by (simp_all add: LeaseCore_write_record_def st_simps)
  then show ?thesis using failed [of "lc_transport s"] by simp
next
  case plain: (Inr plaintext)
  have "length plaintext \<le> 65519"
    using plain by (auto dest: Record_encode_length elim!: res_bindE)
  then have plen: "unat (of_nat (length plaintext) :: u64) = length plaintext"
    by (simp add: unat_length_64)
  show ?thesis
  proof (cases "limit_close_plaintext C NotHandedOff")
    case (Inl e)
    with assms plain have "r = Inl e" "s' = s" by (simp_all add: LeaseCore_write_record_def st_simps)
    then show ?thesis using failed [of "lc_transport s"] by simp
  next
    case (Inr close)
    have clen: "unat (of_nat (length close) :: u64) = length close"
      using limit_close_length [OF Inr] by (simp add: unat_length_64)
    let ?fits = "if kind = Close
      then unat (lc_sent_records s) + 1 < 2 ^ 32 \<and> unat (lc_sent_plaintext s) + length plaintext < 2 ^ 40
      else unat (lc_sent_records s) + 2 < 2 ^ 32 \<and>
        unat (lc_sent_plaintext s) + length plaintext + length close < 2 ^ 40"
    show ?thesis
    proof (cases ?fits)
      case False
      with plain Inr plen clen assms limit show ?thesis
        by (auto simp: LeaseCore_write_record_def st_simps Let_def quota_reached_iff quota2_reached_iff
            split: if_splits prod.splits)
    next
      case True
      then have fits: "unat (lc_sent_records s) + 1 < 2 ^ 32" "unat (lc_sent_plaintext s) + length plaintext < 2 ^ 40"
        by (simp_all split: if_splits)
      obtain r1 s1 where tr: "LeaseCore_transport (encrypt_transport N plaintext) s = (r1, s1)" by fastforce
      have step: "(r, s') = (case r1 of Inl e \<Rightarrow> (Inl e, s1) | Inr f \<Rightarrow> (Inr f, s1\<lparr>
          lc_sent_records := lc_sent_records s + 1,
          lc_sent_plaintext := lc_sent_plaintext s + of_nat (length plaintext)\<rparr>))"
        using plain Inr tr True plen clen
        by (cases r1) (simp_all add: assms [symmetric] LeaseCore_write_record_def st_simps Let_def quota_reached_iff
            quota2_reached_iff sent_quota [OF fits] word_le_nat_alt split: if_splits)
      have "close_room C (lease_sent s t' (length plaintext))" if "kind \<noteq> Close" for t'
        using True Inr that sent_quota [OF fits] by (simp add: close_room_def lease_sent_def)
      with tr step plain Inr fits show ?thesis
        using failed [of "lc_transport s"] failed sent
        by (cases rule: LeaseCore_transport_cases) (auto simp: lease_sent_def split: sum.splits)
    qed
  qed
qed

text \<open>And the ways \<^verbatim>\<open>decrypt_counted\<close> ends. The lengths a Noise library returns are not bounded here,
  so the counter is read back as the machine adds it.\<close>

lemma decrypt_counted_cases:
  assumes "LeaseCore_decrypt_counted N C outer s = (r, s')"
  obtains (failed) tr where "is_err r" "s' = s\<lparr>lc_transport := tr\<rparr>"
    | (limit) e tr where "r = Inl e" "LeaseCore_limit_error N C (s\<lparr>lc_transport := tr\<rparr>) = (e, s')"
    | (opened) plaintext t t' where "decrypt_transport N outer t = (Inr plaintext, t')"
        "lc_transport s = Some t" "r = Inr plaintext" "\<not> lc_closed s"
        "unat (lc_received_records s) + 1 < 2 ^ 32"
        "unat (lc_received_plaintext s) + unat (of_nat (length plaintext) :: u64) < 2 ^ 40"
        "s' = lease_received s t' (length plaintext)"
proof -
  obtain r1 s1 where tr: "LeaseCore_transport (decrypt_transport N outer) s = (r1, s1)" by fastforce
  then show ?thesis
  proof (cases rule: LeaseCore_transport_cases)
    case rejected
    with assms tr failed [of "lc_transport s"] show ?thesis
      by (cases r1) (auto simp: LeaseCore_decrypt_counted_def st_simps)
  next
    case (used t t')
    show ?thesis
    proof (cases r1)
      case (Inl e)
      with assms tr used failed [of "Some t'"] show ?thesis
        by (auto simp: LeaseCore_decrypt_counted_def st_simps)
    next
      case (Inr plaintext)
      let ?n = "unat (of_nat (length plaintext) :: u64)"
      show ?thesis
      proof (cases "unat (lc_received_records s) + 1 < 2 ^ 32 \<and> unat (lc_received_plaintext s) + ?n < 2 ^ 40")
        case False
        with assms tr used Inr limit show ?thesis
          by (auto simp: LeaseCore_decrypt_counted_def st_simps Let_def quota_reached_iff split: prod.splits)
      next
        case True
        with assms tr used Inr opened show ?thesis
          by (auto simp: LeaseCore_decrypt_counted_def st_simps Let_def lease_received_def
              checked_add_eq_Some word_le_nat_alt unat_word_ariths)
      qed
    qed
  qed
qed

lemma received_quota:
  assumes "unat (lc_received_records s) + 1 < 2 ^ 32"
    "unat (lc_received_plaintext s) + unat (of_nat n :: u64) < 2 ^ 40"
  shows "unat (lc_received_records s + 1) = unat (lc_received_records s) + 1"
    "unat (lc_received_plaintext s + of_nat n) = unat (lc_received_plaintext s) + unat (of_nat n :: u64)"
  using assms by (simp_all add: unat_word_ariths)

lemma finish_result_inv:
  assumes "\<And>r s'. m s = (r, s') \<Longrightarrow> lease_quota s' \<and> (is_err r \<or> lc_closed s' \<or> close_room C s')"
  shows "lease_inv C (snd (LeaseCore_finish_result m s))"
  using assms by (auto simp: LeaseCore_finish_result_def lease_inv_def split: prod.splits)

lemma write_record_post:
  assumes "LeaseCore_write_record N C kind data s = (r, s')" "lease_quota s"
  shows "lease_quota s'" "kind \<noteq> Close \<Longrightarrow> \<not> is_err r \<Longrightarrow> close_room C s'"
  using assms(1)
  by (cases rule: write_record_cases; use assms(2) in \<open>auto dest: limit_error_post(2) simp: lease_quota_def
      lease_sent_def sent_quota\<close>)+

lemma decrypt_counted_post:
  assumes "LeaseCore_decrypt_counted N C outer s = (r, s')" "lease_inv C s"
  shows "lease_inv C s'"
  using assms(1)
proof (cases rule: decrypt_counted_cases)
  case (limit e tr)
  then show ?thesis
    using assms(2) limit_error_post [OF limit(2)] by (simp add: lease_inv_def)
next
  case (opened plaintext t t')
  then show ?thesis
    using assms(2) received_quota [OF opened(5,6)]
    by (auto simp: lease_inv_def lease_quota_def close_room_def lease_received_def)
qed (use assms(2) in simp)

lemma read_heartbeat_state:
  "snd (LeaseCore_read_heartbeat N C outer role s) = snd (LeaseCore_decrypt_counted N C outer s)"
  by (auto simp: LeaseCore_read_heartbeat_def st_simps split: prod.splits sum.splits)

lemma read_close_state:
  "snd (LeaseCore_read_close N C outer s) = snd (LeaseCore_decrypt_counted N C outer s) \<or>
   snd (LeaseCore_read_close N C outer s) = LeaseCore_close_state (snd (LeaseCore_decrypt_counted N C outer s))"
  by (auto simp: LeaseCore_read_close_def st_simps split: prod.splits sum.splits)

lemma write_heartbeat_state:
  "snd (LeaseCore_write_heartbeat N C role c s) = s \<and> is_err (fst (LeaseCore_write_heartbeat N C role c s)) \<or>
   (\<exists>p. LeaseCore_write_heartbeat N C role c s = LeaseCore_write_record N C Heartbeat p s)"
  by (auto simp: LeaseCore_write_heartbeat_def st_simps split: sum.splits)

text \<open>Writing a close record, successfully or not, leaves the lease closed.\<close>

lemma write_close_post:
  assumes "LeaseCore_write_close N C reason handoff s = (r, s')" "lease_quota s"
  shows "lease_quota s'" "is_err r \<or> lc_closed s'"
proof -
  show "is_err r \<or> lc_closed s'"
    using assms(1) by (auto simp: LeaseCore_write_close_def st_simps split: sum.splits prod.splits)
  show "lease_quota s'"
    using assms write_record_post(1) by (fastforce simp: LeaseCore_write_close_def st_simps split: sum.splits prod.splits)
qed

lemma lease_inv_quota: "lease_inv C s \<Longrightarrow> lease_quota s"
  by (simp add: lease_inv_def)

lemma write_close_inv:
  "lease_inv C s \<Longrightarrow> lease_inv C (snd (LeaseCore_finish_result (LeaseCore_write_close N C reason handoff) s))"
  by (rule finish_result_inv) (use write_close_post lease_inv_quota in blast)

lemma read_close_inv:
  "lease_inv C s \<Longrightarrow> lease_inv C (snd (LeaseCore_finish_result (LeaseCore_read_close N C outer) s))"
proof (rule finish_result_inv)
  fix r s'
  assume inv: "lease_inv C s" and "LeaseCore_read_close N C outer s = (r, s')"
  moreover have "lease_inv C (snd (LeaseCore_decrypt_counted N C outer s))"
    using decrypt_counted_post [OF prod.collapse [symmetric] inv] .
  ultimately show "lease_quota s' \<and> (is_err r \<or> lc_closed s' \<or> close_room C s')"
    using read_close_state [of N C outer s] by (auto simp: lease_inv_def)
qed

lemma lease_inv_upd [simp]:
  "lease_quota (s\<lparr>lc_pending_heartbeat := p\<rparr>) = lease_quota s"
  "lease_quota (s\<lparr>lc_last_heartbeat := l\<rparr>) = lease_quota s"
  "close_room C (s\<lparr>lc_pending_heartbeat := p\<rparr>) = close_room C s"
  "close_room C (s\<lparr>lc_last_heartbeat := l\<rparr>) = close_room C s"
  by (simp_all add: lease_quota_def close_room_def)

lemma read_heartbeat_inv:
  assumes "lease_inv C s" "LeaseCore_read_heartbeat N C outer role s = (r, s')"
  shows "lease_quota s' \<and> (lc_closed s' \<or> close_room C s')"
  using decrypt_counted_post [OF prod.collapse [symmetric] assms(1)] assms(2)
    read_heartbeat_state [of N C outer role s] by (simp add: lease_inv_def)

lemma write_heartbeat_inv:
  assumes "lease_inv C s" "LeaseCore_write_heartbeat N C role c s = (r, s')"
  shows "lease_quota s'" "is_err r \<or> close_room C s'"
  using write_heartbeat_state [of N C role c s] assms lease_inv_quota [OF assms(1)]
  by (auto dest: write_record_post(1) [OF sym] write_record_post(2) [OF sym])

lemma target_lease_inv: "lease_inv C s \<Longrightarrow> lease_inv C (snd (target_lease_op N C c s))"
proof (cases c)
  case (TL_read_heartbeat_request outer)
  assume "lease_inv C s"
  then show ?thesis
    unfolding TL_read_heartbeat_request target_lease_op.simps TargetLease_read_heartbeat_request_def snd_map_prod id_apply
    by (intro finish_result_inv) (auto simp: st_simps lease_inv_quota split: if_splits sum.splits prod.splits
        dest!: read_heartbeat_inv)
next
  case (TL_write_heartbeat_reply n)
  assume "lease_inv C s"
  then show ?thesis
    unfolding TL_write_heartbeat_reply target_lease_op.simps TargetLease_write_heartbeat_reply_def snd_map_prod id_apply
    by (intro finish_result_inv) (auto simp: st_simps lease_inv_quota split: if_splits sum.splits prod.splits
        dest: write_heartbeat_inv)
qed (simp_all add: TargetLease_write_close_def TargetLease_read_close_def write_close_inv read_close_inv)

lemma broker_lease_inv: "lease_inv C s \<Longrightarrow> lease_inv C (snd (broker_lease_op N C c s))"
proof (cases c)
  case (BL_write_heartbeat_request n)
  assume "lease_inv C s"
  then show ?thesis
    unfolding BL_write_heartbeat_request broker_lease_op.simps BrokerLease_write_heartbeat_request_def snd_map_prod id_apply
    by (intro finish_result_inv) (auto simp: st_simps lease_inv_quota split: if_splits sum.splits prod.splits
        dest: write_heartbeat_inv)
next
  case (BL_read_heartbeat_reply outer)
  assume "lease_inv C s"
  then show ?thesis
    unfolding BL_read_heartbeat_reply broker_lease_op.simps BrokerLease_read_heartbeat_reply_def snd_map_prod id_apply
    by (intro finish_result_inv) (auto simp: st_simps lease_inv_quota split: if_splits sum.splits prod.splits
        dest!: read_heartbeat_inv)
qed (simp_all add: BrokerLease_write_close_def BrokerLease_read_close_def write_close_inv read_close_inv)

interpretation target_quota: fail_closed "target_lease_op N C" lease_shut "lease_inv C" for N C
  by unfold_locales (use target_lease_inv target_lease.err_shuts target_lease.shut_rejects in blast)+

interpretation broker_quota: fail_closed "broker_lease_op N C" lease_shut "lease_inv C" for N C
  by unfold_locales (use broker_lease_inv broker_lease.err_shuts broker_lease.shut_rejects in blast)+

section \<open>Heartbeat counters\<close>

definition beats :: "'t LeaseCore \<Rightarrow> u64 option \<times> u64" where
  "beats s = (lc_pending_heartbeat s, lc_last_heartbeat s)"

lemma beats_simps [simp]:
  "beats (s\<lparr>lc_transport := t\<rparr>) = beats s" "beats (LeaseCore_close_state s) = beats s"
  "beats (lease_sent s t' n) = beats s" "beats (lease_received s t' n) = beats s"
  by (simp_all add: beats_def lease_moves)

lemma limit_error_beats: "LeaseCore_limit_error N C s = (e, s') \<Longrightarrow> beats s' = beats s"
  by (simp add: beats_def limit_error_post)

lemma core_beats:
  "beats (snd (LeaseCore_write_record N C kind data s)) = beats s"
  "beats (snd (LeaseCore_decrypt_counted N C outer s)) = beats s"
  "beats (snd (LeaseCore_write_heartbeat N C role c s)) = beats s"
  "beats (snd (LeaseCore_read_heartbeat N C outer role s)) = beats s"
  "beats (snd (LeaseCore_write_close N C reason handoff s)) = beats s"
  "beats (snd (LeaseCore_read_close N C outer s)) = beats s"
proof -
  show w: "beats (snd (LeaseCore_write_record N C kind data s)) = beats s" for kind data
    by (rule write_record_cases [OF prod.collapse [symmetric, of "LeaseCore_write_record N C kind data s"]])
      (auto dest: limit_error_beats)
  show d: "beats (snd (LeaseCore_decrypt_counted N C outer s)) = beats s"
    by (rule decrypt_counted_cases [OF prod.collapse [symmetric, of "LeaseCore_decrypt_counted N C outer s"]])
      (auto dest: limit_error_beats)
  show "beats (snd (LeaseCore_write_heartbeat N C role c s)) = beats s"
    using write_heartbeat_state [of N C role c s] w by auto
  show "beats (snd (LeaseCore_read_heartbeat N C outer role s)) = beats s"
    using d by (simp add: read_heartbeat_state)
  show "beats (snd (LeaseCore_write_close N C reason handoff s)) = beats s"
    using w [of Close] by (auto simp: LeaseCore_write_close_def st_simps split: sum.splits prod.splits)
      (metis snd_conv)+
  show "beats (snd (LeaseCore_read_close N C outer s)) = beats s"
    using d read_close_state [of N C outer s] by auto
qed

lemma finish_result_beats [simp]: "beats (snd (LeaseCore_finish_result m s)) = beats (snd (m s))"
  by (simp add: LeaseCore_finish_result_def split: prod.splits)

lemma finish_result_fst: "fst (LeaseCore_finish_result m s) = fst (m s)"
  by (simp add: LeaseCore_finish_result_def split: prod.splits)

text \<open>How each operation of a role moves the pending and the last counter.\<close>

lemma role_beats:
  "case fst (TargetLease_read_heartbeat_request N C f s) of
     Inl e \<Rightarrow> beats (snd (TargetLease_read_heartbeat_request N C f s)) = beats s
   | Inr c \<Rightarrow> fst (beats s) = None \<and> snd (beats s) < c \<and>
       beats (snd (TargetLease_read_heartbeat_request N C f s)) = (Some c, snd (beats s))"
  "case fst (TargetLease_write_heartbeat_reply N C n s) of
     Inl e \<Rightarrow> beats (snd (TargetLease_write_heartbeat_reply N C n s)) = beats s
   | Inr _ \<Rightarrow> fst (beats s) = Some n \<and> beats (snd (TargetLease_write_heartbeat_reply N C n s)) = (None, n)"
  "case fst (BrokerLease_write_heartbeat_request N C n s) of
     Inl e \<Rightarrow> beats (snd (BrokerLease_write_heartbeat_request N C n s)) = beats s
   | Inr _ \<Rightarrow> fst (beats s) = None \<and> snd (beats s) < n \<and>
       beats (snd (BrokerLease_write_heartbeat_request N C n s)) = (Some n, snd (beats s))"
  "case fst (BrokerLease_read_heartbeat_reply N C f s) of
     Inl e \<Rightarrow> beats (snd (BrokerLease_read_heartbeat_reply N C f s)) = beats s
   | Inr c \<Rightarrow> fst (beats s) = Some c \<and> beats (snd (BrokerLease_read_heartbeat_reply N C f s)) = (None, c)"
  subgoal
    using core_beats(4) [of N C f 1 s]
    by (auto simp: TargetLease_read_heartbeat_request_def LeaseCore_finish_result_def st_simps beats_def
        split: if_splits sum.splits prod.splits)
  subgoal
    using core_beats(3) [of N C 2 n s]
    by (auto simp: TargetLease_write_heartbeat_reply_def LeaseCore_finish_result_def st_simps beats_def
        split: if_splits sum.splits prod.splits)
  subgoal
    using core_beats(3) [of N C 1 n s]
    by (auto simp: BrokerLease_write_heartbeat_request_def LeaseCore_finish_result_def st_simps beats_def
        split: if_splits sum.splits prod.splits)
  subgoal
    using core_beats(4) [of N C f 2 s]
    by (auto simp: BrokerLease_read_heartbeat_reply_def LeaseCore_finish_result_def st_simps beats_def
        split: if_splits sum.splits prod.splits)
  done

lemma close_beats:
  "beats (snd (TargetLease_write_close N C r h s)) = beats s"
  "beats (snd (TargetLease_read_close N C f s)) = beats s"
  "beats (snd (BrokerLease_write_close N C r h s)) = beats s"
  "beats (snd (BrokerLease_read_close N C f s)) = beats s"
  by (simp_all add: lease_role_defs core_beats)

fun answered_counter :: "error + lease_answer \<Rightarrow> u64 option" where
  "answered_counter (Inr (A_counter c)) = Some c"
| "answered_counter _ = None"

lemma answered_counter_simps [simp]:
  "answered_counter (map_sum id A_counter r) = (case r of Inl _ \<Rightarrow> None | Inr c \<Rightarrow> Some c)"
  "answered_counter (map_sum id A_frame r2) = None" "answered_counter (map_sum id A_close r3) = None"
  by (cases r; cases r2; cases r3; simp)+

definition target_mark :: "'t LeaseCore \<Rightarrow> u64" where
  "target_mark s = (case fst (beats s) of Some c \<Rightarrow> c | None \<Rightarrow> snd (beats s))"

definition broker_beats_inv :: "'t LeaseCore \<Rightarrow> bool" where
  "broker_beats_inv s \<longleftrightarrow> (case fst (beats s) of Some c \<Rightarrow> snd (beats s) < c | None \<Rightarrow> True)"

interpretation target_beats:
  counter_log "target_lease_op N C" "\<lambda>_. True" answered_counter target_mark for N C
proof
  fix s and c :: target_lease_call and n
  show "target_mark s \<le> target_mark (snd (target_lease_op N C c s))"
  proof (cases c)
    case (TL_read_heartbeat_request f)
    then show ?thesis using role_beats(1) [of N C f s] by (auto simp: target_mark_def split: sum.splits option.splits)
  next
    case (TL_write_heartbeat_reply m)
    then show ?thesis using role_beats(2) [of N C m s] by (auto simp: target_mark_def split: sum.splits option.splits)
  qed (simp_all add: target_mark_def close_beats split: option.splits)
  show "answered_counter (fst (target_lease_op N C c s)) = Some n \<Longrightarrow>
      target_mark s < n \<and> n \<le> target_mark (snd (target_lease_op N C c s))"
  proof (cases c)
    case (TL_read_heartbeat_request f)
    then show "answered_counter (fst (target_lease_op N C c s)) = Some n \<Longrightarrow> ?thesis"
      using role_beats(1) [of N C f s] by (auto simp: target_mark_def split: sum.splits)
  qed simp_all
qed simp

interpretation broker_beats:
  counter_log "broker_lease_op N C" broker_beats_inv answered_counter "\<lambda>s. snd (beats s)"
  for N :: "('h, 't) noise" and C
proof
  fix s :: "'t LeaseCore" and c :: broker_lease_call and n
  assume inv: "broker_beats_inv s"
  have *: "broker_beats_inv (snd (broker_lease_op N C c s)) \<and>
      snd (beats s) \<le> snd (beats (snd (broker_lease_op N C c s)))"
  proof (cases c)
    case (BL_write_heartbeat_request m)
    with inv show ?thesis using role_beats(3) [of N C m s] by (auto simp: broker_beats_inv_def split: sum.splits option.splits)
  next
    case (BL_read_heartbeat_reply f)
    with inv show ?thesis using role_beats(4) [of N C f s] by (auto simp: broker_beats_inv_def split: sum.splits option.splits)
  qed (use inv in \<open>simp_all add: broker_beats_inv_def close_beats split: option.splits\<close>)
  then show "broker_beats_inv (snd (broker_lease_op N C c s))"
    "snd (beats s) \<le> snd (beats (snd (broker_lease_op N C c s)))" by blast+
  show "answered_counter (fst (broker_lease_op N C c s)) = Some n \<Longrightarrow>
      snd (beats s) < n \<and> n \<le> snd (beats (snd (broker_lease_op N C c s)))"
  proof (cases c)
    case (BL_read_heartbeat_reply f)
    with inv show "answered_counter (fst (broker_lease_op N C c s)) = Some n \<Longrightarrow> ?thesis"
      using role_beats(4) [of N C f s] by (auto simp: broker_beats_inv_def split: sum.splits)
  qed simp_all
qed

section \<open>Two linked ends\<close>

text \<open>The two ends of one lease connection: open, with one binding, and with transports and counters that
  mirror each other in both directions.\<close>

definition lease_linked :: "(nat \<Rightarrow> 't \<Rightarrow> 't \<Rightarrow> bool) \<Rightarrow> 't LeaseCore \<Rightarrow> 't LeaseCore \<Rightarrow> bool" where
  "lease_linked chan a b \<longleftrightarrow> \<not> lc_closed a \<and> \<not> lc_closed b \<and>
     lc_binding a = lc_binding b \<and> wf_lease_binding (lc_binding a) \<and>
     (\<exists>ta tb. lc_transport a = Some ta \<and> lc_transport b = Some tb \<and>
        chan (unat (lc_sent_records a)) ta tb \<and> chan (unat (lc_sent_records b)) tb ta) \<and>
     lc_received_records b = lc_sent_records a \<and> lc_received_plaintext b = lc_sent_plaintext a \<and>
     lc_received_records a = lc_sent_records b \<and> lc_received_plaintext a = lc_sent_plaintext b"

definition lease_spare :: "'t LeaseCore \<Rightarrow> bool" where
  "lease_spare s \<longleftrightarrow> unat (lc_sent_records s) + 2 < 2 ^ 32 \<and> unat (lc_sent_plaintext s) + 1024 < 2 ^ 40"

lemma lease_linked_sym: "lease_linked chan a b \<Longrightarrow> lease_linked chan b a"
  by (auto simp: lease_linked_def)

lemma lease_linked_upd [simp]:
  "lease_linked chan (a\<lparr>lc_pending_heartbeat := p\<rparr>) b = lease_linked chan a b"
  "lease_linked chan (a\<lparr>lc_last_heartbeat := l\<rparr>) b = lease_linked chan a b"
  "lease_linked chan a (b\<lparr>lc_pending_heartbeat := p\<rparr>) = lease_linked chan a b"
  "lease_linked chan a (b\<lparr>lc_last_heartbeat := l\<rparr>) = lease_linked chan a b"
  "lease_spare (a\<lparr>lc_pending_heartbeat := p\<rparr>) = lease_spare a"
  by (simp_all add: lease_linked_def lease_spare_def)

lemma beats_upd [simp]:
  "beats (s\<lparr>lc_pending_heartbeat := p\<rparr>) = (p, snd (beats s))"
  "beats (s\<lparr>lc_last_heartbeat := l\<rparr>) = (fst (beats s), l)"
  by (simp_all add: beats_def)

locale protected_link = noise_link N chan keypair + minicbor C
  for N :: "('h, 't) noise" and chan keypair C
begin

text \<open>A record written at one end is opened at the other as the record it was, and the ends stay linked.\<close>

lemma lease_record_delivered:
  assumes link: "lease_linked chan a b" and spare: "lease_spare a" and len: "length data \<le> 700"
    and kind: "kind \<noteq> Close"
  obtains frame plaintext ta tb r where
    "LeaseCore_write_record N C kind data a = (Inr frame, lease_sent a ta (length plaintext))"
    "LeaseCore_decrypt_counted N C frame b = (Inr plaintext, lease_received b tb (length plaintext))"
    "complete_record kind data = Inr r" "Record_decode plaintext = Inr r"
    "lease_linked chan (lease_sent a ta (length plaintext)) (lease_received b tb (length plaintext))"
    "length plaintext \<le> 712"
proof -
  obtain r where r: "complete_record kind data = Inr r" "rec_data r = data"
    using len by (auto simp: complete_record_def)
  obtain plaintext where pt: "Record_encode r = Inr plaintext"
    using r(2) len by (auto simp: Record_encode_def RECORD_DATA_MAX_def Let_def)
  have dec: "Record_decode plaintext = Inr r" using rec_codec.dec_of_enc [OF TrueI pt] .
  have plen: "length plaintext \<le> 712" using Record_encode_length [OF pt] r(2) len by simp
  obtain close where close: "limit_close_plaintext C NotHandedOff = Inr close" "length close = 19"
    by (rule limit_close_total)
  from link obtain ta tb where t: "lc_transport a = Some ta" "lc_transport b = Some tb"
    and ch: "chan (unat (lc_sent_records a)) ta tb" "chan (unat (lc_sent_records b)) tb ta"
    by (auto simp: lease_linked_def)
  have "unat (lc_sent_records a) < 2 ^ 64 - 1" "length plaintext \<le> 65519"
    using spare plen by (simp_all add: lease_spare_def)
  from transport_delivers [OF ch this] obtain frame ta' tb' where
    enc: "encrypt_transport N plaintext ta = (Inr frame, ta')"
    and decr: "decrypt_transport N frame tb = (Inr plaintext, tb')"
    and ch': "chan (Suc (unat (lc_sent_records a))) ta' tb'" "chan (unat (lc_sent_records b)) tb' ta'" .
  have q: "unat (lc_sent_records a) + 1 < 2 ^ 32" "unat (lc_sent_plaintext a) + length plaintext < 2 ^ 40"
    using spare plen by (simp_all add: lease_spare_def)
  have lens: "unat (of_nat (length plaintext) :: u64) = length plaintext"
    "unat (of_nat (length close) :: u64) = length close"
    using plen close(2) by (simp_all add: unat_of_nat)
  have w: "LeaseCore_write_record N C kind data a = (Inr frame, lease_sent a ta' (length plaintext))"
    using link kind r pt close t(1) enc spare plen lens
    by (simp add: LeaseCore_write_record_def LeaseCore_transport_def st_simps Let_def quota2_reached_iff
        lease_sent_def lease_linked_def lease_spare_def sent_quota [OF q])
  have o: "LeaseCore_decrypt_counted N C frame b = (Inr plaintext, lease_received b tb' (length plaintext))"
    using link t(2) decr q lens sent_quota [OF q]
    by (simp add: LeaseCore_decrypt_counted_def LeaseCore_transport_def st_simps Let_def
        lease_received_def lease_linked_def word_le_nat_alt)
  have "lease_linked chan (lease_sent a ta' (length plaintext)) (lease_received b tb' (length plaintext))"
    using link ch' sent_quota(3) [OF q] by (auto simp: lease_linked_def lease_moves)
  with w o r(1) dec plen that show ?thesis by blast
qed

lemma lease_heartbeat_delivered:
  assumes link: "lease_linked chan a b" and spare: "lease_spare a"
    and role: "role = 1 \<or> role = 2" and counter: "counter \<noteq> 0"
  obtains frame a' b' where "LeaseCore_write_heartbeat N C role counter a = (Inr frame, a')"
    "LeaseCore_read_heartbeat N C frame role b = (Inr counter, b')" "lease_linked chan a' b'"
    "lease_spare b' = lease_spare b" "beats a' = beats a" "beats b' = beats b"
proof -
  from link have wf: "wf_lease_binding (lc_binding a)" and bind: "lc_binding b = lc_binding a"
    by (auto simp: lease_linked_def)
  then obtain p where p: "heartbeat_payload C role (lc_binding a) counter = Inr p"
    using role counter by (auto simp: heartbeat_payload_def put_laws Encoder_run_laws wf_binding_defs)
  have len: "length p \<le> 700" using payload_lengths(1) [OF p wf] by simp
  obtain frame plaintext ta tb r where
    w: "LeaseCore_write_record N C Heartbeat p a = (Inr frame, lease_sent a ta (length plaintext))"
    and d: "LeaseCore_decrypt_counted N C frame b = (Inr plaintext, lease_received b tb (length plaintext))"
    and r: "complete_record Heartbeat p = Inr r" "Record_decode plaintext = Inr r"
    and l: "lease_linked chan (lease_sent a ta (length plaintext)) (lease_received b tb (length plaintext))"
    by (rule lease_record_delivered [OF link spare len, of Heartbeat]) auto
  from r(1) have "rec_kind r = Heartbeat" "validate_complete_record r Heartbeat = Inr ()" "rec_data r = p"
    using len
    by (auto simp: complete_record_def validate_complete_record_def unat_of_nat split: if_splits)
  with p w d r(2) bind parse_heartbeat_payload [OF wf p] have
    "LeaseCore_write_heartbeat N C role counter a = (Inr frame, lease_sent a ta (length plaintext))"
    "LeaseCore_read_heartbeat N C frame role b = (Inr counter, lease_received b tb (length plaintext))"
    by (simp_all add: LeaseCore_write_heartbeat_def LeaseCore_read_heartbeat_def st_simps lease_received_def)
  moreover have "lease_spare (lease_received b tb (length plaintext)) = lease_spare b"
    by (simp add: lease_spare_def lease_received_def)
  ultimately show ?thesis using l that by (metis beats_simps(3,4))
qed

text \<open>One heartbeat: request, reply, and both ends are back where they were with a higher counter.\<close>

lemma lease_heartbeat_exchange:
  assumes link: "lease_linked chan b t" and spare: "lease_spare b" "lease_spare t"
    and idle: "beats b = (None, n)" "beats t = (None, n)" and higher: "n < counter"
  obtains request b1 t1 reply t2 b2 where
    "BrokerLease_write_heartbeat_request N C counter b = (Inr request, b1)"
    "TargetLease_read_heartbeat_request N C request t = (Inr counter, t1)"
    "TargetLease_write_heartbeat_reply N C counter t1 = (Inr reply, t2)"
    "BrokerLease_read_heartbeat_reply N C reply b1 = (Inr counter, b2)"
    "lease_linked chan b2 t2" "beats b2 = (None, counter)" "beats t2 = (None, counter)"
proof -
  have nz: "counter \<noteq> 0" using higher by auto
  from lease_heartbeat_delivered [OF link spare(1), of 1 counter] nz obtain request b1 t1 where
    s1: "LeaseCore_write_heartbeat N C 1 counter b = (Inr request, b1)"
      "LeaseCore_read_heartbeat N C request 1 t = (Inr counter, t1)"
    and l1: "lease_linked chan b1 t1" "lease_spare t1" "beats b1 = (None, n)" "beats t1 = (None, n)"
    using idle spare by metis
  let ?b1 = "b1\<lparr>lc_pending_heartbeat := Some counter\<rparr>"
  let ?t1 = "t1\<lparr>lc_pending_heartbeat := Some counter\<rparr>"
  have "lease_linked chan ?t1 ?b1" "lease_spare ?t1" using l1(1,2) by (simp_all add: lease_linked_sym)
  then obtain reply t2 b2 where
    s2: "LeaseCore_write_heartbeat N C 2 counter ?t1 = (Inr reply, t2)"
      "LeaseCore_read_heartbeat N C reply 2 ?b1 = (Inr counter, b2)"
    and l2: "lease_linked chan t2 b2" "beats t2 = (Some counter, n)" "beats b2 = (Some counter, n)"
    by (rule lease_heartbeat_delivered [of _ _ 2 counter]) (use nz l1 in auto)
  show ?thesis
  proof (rule that)
    show "BrokerLease_write_heartbeat_request N C counter b = (Inr request, ?b1)"
      using s1 idle higher by (simp add: BrokerLease_write_heartbeat_request_def LeaseCore_finish_result_def
          st_simps beats_def)
    show "TargetLease_read_heartbeat_request N C request t = (Inr counter, ?t1)"
      using s1 idle higher l1 by (simp add: TargetLease_read_heartbeat_request_def LeaseCore_finish_result_def
          st_simps beats_def)
    show "TargetLease_write_heartbeat_reply N C counter ?t1 =
        (Inr reply, t2\<lparr>lc_pending_heartbeat := None, lc_last_heartbeat := counter\<rparr>)"
      using s2 by (simp add: TargetLease_write_heartbeat_reply_def LeaseCore_finish_result_def st_simps)
    show "BrokerLease_read_heartbeat_reply N C reply ?b1 =
        (Inr counter, b2\<lparr>lc_pending_heartbeat := None, lc_last_heartbeat := counter\<rparr>)"
      using s2 l2 by (simp add: BrokerLease_read_heartbeat_reply_def LeaseCore_finish_result_def st_simps
          beats_def)
  qed (use l2 in \<open>simp_all add: lease_linked_sym\<close>)
qed

end

interpretation clear_link: protected_link clear_noise clear_chan "\<lambda>sk pk. sk = pk" rfc_cbor
  by unfold_locales

section \<open>Properties\<close>

definition demo_lease :: "clear_tr \<Rightarrow> clear_tr LeaseCore" where
  "demo_lease t = LeaseCore_new t
     \<lparr>lb_lease_id = replicate 16 2, lb_process_generation = 77, lb_listener_epoch = 1\<rparr> 1 40 0 0"

text \<open>C32: Both views of a lease are fail-closed: in any sequence of heartbeat and close calls on any
  state, the first error is final, and at the end of the sequence the lease is closed and its keys are
  dropped.\<close>

theorem lease_fail_closed:
  "(i < j \<and> j < length cs \<and> is_err (fst (run (target_lease_op N C) cs s) ! i) \<longrightarrow>
      is_err (fst (run (target_lease_op N C) cs s) ! j)) \<and>
   (i < length cs \<and> is_err (fst (run (target_lease_op N C) cs s) ! i) \<longrightarrow>
      lc_closed (snd (run (target_lease_op N C) cs s)) \<and> lc_transport (snd (run (target_lease_op N C) cs s)) = None) \<and>
   (i < j \<and> j < length ds \<and> is_err (fst (run (broker_lease_op N C) ds s) ! i) \<longrightarrow>
      is_err (fst (run (broker_lease_op N C) ds s) ! j)) \<and>
   (i < length ds \<and> is_err (fst (run (broker_lease_op N C) ds s) ! i) \<longrightarrow>
      lc_closed (snd (run (broker_lease_op N C) ds s)) \<and> lc_transport (snd (run (broker_lease_op N C) ds s)) = None)"
  by (intro conjI) (use target_lease.run_first_error_final [OF TrueI, of i j cs N C s] target_lease.run_error_shuts [OF TrueI, of i cs N C s]
    broker_lease.run_first_error_final [OF TrueI, of i j ds N C s] broker_lease.run_error_shuts [OF TrueI, of i ds N C s]
    in simp_all)

theorem lease_fail_closed_witness:
  "is_err (fst (run (target_lease_op clear_noise rfc_cbor)
     [TL_write_heartbeat_reply 5, TL_read_heartbeat_request [0, 1, 1]] (demo_lease (Clear_TR 1 0))) ! 1) \<and>
   lc_transport (snd (run (broker_lease_op clear_noise rfc_cbor)
     [BL_write_heartbeat_request 0, BL_read_heartbeat_reply [0, 1, 1]] (demo_lease (Clear_TR 1 0)))) = None"
proof -
  have "is_err (fst (run (target_lease_op clear_noise rfc_cbor)
      [TL_write_heartbeat_reply 5, TL_read_heartbeat_request [0, 1, 1]] (demo_lease (Clear_TR 1 0))) ! 0)"
    by (simp add: TargetLease_write_heartbeat_reply_def LeaseCore_finish_result_def st_simps demo_lease_def
        LeaseCore_new_def)
  moreover have "is_err (fst (run (broker_lease_op clear_noise rfc_cbor)
      [BL_write_heartbeat_request 0, BL_read_heartbeat_reply [0, 1, 1]] (demo_lease (Clear_TR 1 0))) ! 0)"
    by (simp add: BrokerLease_write_heartbeat_request_def LeaseCore_finish_result_def st_simps demo_lease_def
        LeaseCore_new_def)
  ultimately show ?thesis
    using lease_fail_closed [of 0 1 "[TL_write_heartbeat_reply 5, TL_read_heartbeat_request [0, 1, 1]]"
        clear_noise rfc_cbor "demo_lease (Clear_TR 1 0)"
        "[BL_write_heartbeat_request 0, BL_read_heartbeat_reply [0, 1, 1]]"] by simp
qed

text \<open>C31: No call of either view exceeds the record and byte quotas in either direction, and as long as
  the lease is open there is room left for the close record that announces an exhausted quota.\<close>

theorem lease_quota_kept:
  assumes "lease_inv C s"
  shows "lease_inv C (snd (run (target_lease_op N C) cs s)) \<and> lease_inv C (snd (run (broker_lease_op N C) ds s))"
  using target_quota.invar_run [OF assms] broker_quota.invar_run [OF assms] by blast

theorem lease_quota_kept_witness:
  "lease_inv rfc_cbor (snd (run (target_lease_op clear_noise rfc_cbor)
     [TL_read_heartbeat_request [0, 1, 1], TL_write_close Normal NotHandedOff] (demo_lease (Clear_TR 1 0))))"
proof -
  have "lease_inv rfc_cbor (demo_lease (Clear_TR 1 0))"
    using limit_close_length [of rfc_cbor NotHandedOff]
    by (auto simp: lease_inv_def lease_quota_def close_room_def demo_lease_def LeaseCore_new_def)
  from lease_quota_kept [OF this] show ?thesis by blast
qed

text \<open>C30: The heartbeat counters a Target accepts from one lease strictly increase, whatever else is
  called in between, and so do the reply counters a Broker accepts from a state in which an outstanding
  request is newer than the last reply.\<close>

theorem heartbeat_counters_increase:
  assumes "broker_beats_inv b"
  shows "sorted_wrt (<) (List.map_filter answered_counter (fst (run (target_lease_op N C) cs t))) \<and>
    sorted_wrt (<) (List.map_filter answered_counter (fst (run (broker_lease_op N C) ds b)))"
  using target_beats.run_counters(1) [OF TrueI] broker_beats.run_counters(1) [OF assms] by blast

theorem heartbeat_counters_increase_witness:
  "sorted_wrt (<) (List.map_filter answered_counter (fst (run (broker_lease_op clear_noise rfc_cbor)
     [BL_write_heartbeat_request 1, BL_write_heartbeat_request 1] (demo_lease (Clear_TR 1 0)))))"
proof -
  have "broker_beats_inv (demo_lease (Clear_TR 1 0))"
    by (simp add: broker_beats_inv_def beats_def demo_lease_def LeaseCore_new_def)
  from heartbeat_counters_increase [OF this] show ?thesis by blast
qed

text \<open>A heartbeat completes. Between two linked idle ends with quota to spare, the Broker's request with
  any higher counter is accepted by the Target with that counter, the Target's reply is accepted by the
  Broker, and both ends are linked and idle again with the counter recorded.\<close>

theorem heartbeat_exchange_completes:
  assumes "protected_link N chan keypair C" "lease_linked chan b t" "lease_spare b" "lease_spare t"
    "beats b = (None, n)" "beats t = (None, n)" "n < counter"
  shows "\<exists>request b1 t1 reply t2 b2.
    BrokerLease_write_heartbeat_request N C counter b = (Inr request, b1) \<and>
    TargetLease_read_heartbeat_request N C request t = (Inr counter, t1) \<and>
    TargetLease_write_heartbeat_reply N C counter t1 = (Inr reply, t2) \<and>
    BrokerLease_read_heartbeat_reply N C reply b1 = (Inr counter, b2) \<and>
    lease_linked chan b2 t2 \<and> beats b2 = (None, counter) \<and> beats t2 = (None, counter)"
  using protected_link.lease_heartbeat_exchange [OF assms] by metis

definition demo_broker_lease :: "clear_tr LeaseCore" where
  "demo_broker_lease = LeaseCore_new (Clear_TR 0 1)
     \<lparr>lb_lease_id = replicate 16 2, lb_process_generation = 77, lb_listener_epoch = 1\<rparr> 0 0 1 40"

theorem heartbeat_exchange_completes_witness:
  "\<exists>request b1 t1 reply t2 b2.
    BrokerLease_write_heartbeat_request clear_noise rfc_cbor 9 demo_broker_lease = (Inr request, b1) \<and>
    TargetLease_read_heartbeat_request clear_noise rfc_cbor request (demo_lease (Clear_TR 1 0)) = (Inr 9, t1) \<and>
    TargetLease_write_heartbeat_reply clear_noise rfc_cbor 9 t1 = (Inr reply, t2) \<and>
    BrokerLease_read_heartbeat_reply clear_noise rfc_cbor reply b1 = (Inr 9, b2) \<and>
    lease_linked clear_chan b2 t2 \<and> beats b2 = (None, 9) \<and> beats t2 = (None, 9)"
  by (rule heartbeat_exchange_completes [OF clear_link.protected_link_axioms, of _ _ 0])
    (simp_all add: lease_linked_def lease_spare_def beats_def demo_lease_def demo_broker_lease_def
      LeaseCore_new_def wf_lease_binding_def)

end
