(* ===== verification/Session.thy ===== *)
theory Session
  imports Lease
begin

text \<open>
  The application session of \<^verbatim>\<open>transport/crypto-core/src/lib.rs\<close>: \<^verbatim>\<open>SessionCore\<close> and its two
  role-specific views. A session runs a Noise NNpsk0 handshake under the process bootstrap secret,
  confirms it by a pair of Finished records, and then carries application messages one at a time,
  fragmented into records, until a close record or an error ends it.
\<close>

record ('h, 't) SessionCore =
  sc_handshake :: "'h option"
  sc_transport :: "'t option"
  sc_binding :: SessionBinding
  sc_session_hash :: "bytes option"
  sc_limits :: SessionLimits
  sc_reassembly :: RecordReassembler
  sc_sent_finished :: bool
  sc_got_finished :: bool
  sc_peer_turn :: bool
  sc_first_application :: bool
  sc_closed :: bool
  sc_sent_records :: u64
  sc_sent_plaintext :: u64
  sc_received_records :: u64
  sc_received_plaintext :: u64
  sc_handoff :: HandoffState

type_synonym ('h, 't, 'a) sess = "(('h, 't) SessionCore, error, 'a) step"

section \<open>The core\<close>

definition SessionCore_close_state :: "('h, 't) SessionCore \<Rightarrow> ('h, 't) SessionCore" where
  "SessionCore_close_state s = s\<lparr>sc_closed := True, sc_transport := None, sc_handshake := None,
     sc_reassembly := RecordReassembler_clear (sc_reassembly s), sc_session_hash := None\<rparr>"

definition SessionCore_finish_result :: "('h, 't, 'a) sess \<Rightarrow> ('h, 't, 'a) sess" where
  "SessionCore_finish_result m s =
     (let (r, s) = m s in if is_err r then (r, SessionCore_close_state s) else (r, s))"

definition SessionCore_new ::
    "('h, 't) noise \<Rightarrow> cbor \<Rightarrow> bytes \<Rightarrow> SessionBinding \<Rightarrow> bytes \<Rightarrow> SessionLimits \<Rightarrow> bool \<Rightarrow> nat \<Rightarrow> bool \<Rightarrow>
      bytes option \<Rightarrow> error + ('h, 't) SessionCore" where
  "SessionCore_new N C entropy binding pbs limits initiator inbound_cap peer_turn ephemeral =
     (if limits \<noteq> SessionLimits_default then Inl (Error_new BindingMismatch)
      else res_bind (session_prologue C binding limits) (\<lambda>prologue.
        if \<not> params_ok N ''Noise_NNpsk0_25519_ChaChaPoly_SHA256'' then Inl (Error_new InternalError)
        else res_bind (ok_or (Error_new AuthenticationFailed)
               (if initiator then nnpsk0_initiator N entropy ephemeral pbs prologue
                else nnpsk0_responder N entropy ephemeral pbs prologue)) (\<lambda>handshake.
          res_bind (RecordReassembler_new inbound_cap) (\<lambda>reassembly.
          Inr \<lparr>sc_handshake = Some handshake, sc_transport = None, sc_binding = binding,
               sc_session_hash = None, sc_limits = limits, sc_reassembly = reassembly,
               sc_sent_finished = False, sc_got_finished = False, sc_peer_turn = peer_turn,
               sc_first_application = False, sc_closed = False, sc_sent_records = 0,
               sc_sent_plaintext = 0, sc_received_records = 0, sc_received_plaintext = 0,
               sc_handoff = NotHandedOff\<rparr>))))"

text \<open>An operation on the borrowed handshake state, and on the borrowed transport state.\<close>

definition SessionCore_handshake :: "('h, error, 'a) step \<Rightarrow> ('h, 't, 'a) sess" where
  "SessionCore_handshake f s =
     (case sc_handshake s of
        None \<Rightarrow> (Inl (Error_new SequenceViolation), s)
      | Some h \<Rightarrow> (let (r, h) = f h in (r, s\<lparr>sc_handshake := Some h\<rparr>)))"

definition SessionCore_transport :: "('t, error, 'a) step \<Rightarrow> ('h, 't, 'a) sess" where
  "SessionCore_transport f s =
     (if sc_closed s then (Inl (Error_new SequenceViolation), s)
      else case sc_transport s of
        None \<Rightarrow> (Inl (Error_new SequenceViolation), s)
      | Some t \<Rightarrow> (let (r, t) = f t in (r, s\<lparr>sc_transport := Some t\<rparr>)))"

definition SessionCore_write_handshake :: "('h, 't) noise \<Rightarrow> bytes \<Rightarrow> ('h, 't, bytes) sess" where
  "SessionCore_write_handshake N payload = SessionCore_handshake (write_handshake N payload)"

definition SessionCore_read_handshake :: "('h, 't) noise \<Rightarrow> bytes \<Rightarrow> ('h, 't, unit) sess" where
  "SessionCore_read_handshake N outer =
     st_bind (SessionCore_handshake (read_handshake_mut N outer)) (\<lambda>payload.
     if payload \<noteq> [] then st_fail (Error_new AuthenticationFailed) else st_ok ())"

definition SessionCore_finish_handshake :: "('h, 't) noise \<Rightarrow> ('h, 't, unit) sess" where
  "SessionCore_finish_handshake N s =
     (case sc_handshake s of
        None \<Rightarrow> (Inl (Error_new SequenceViolation), s)
      | Some handshake \<Rightarrow>
          let s = s\<lparr>sc_handshake := None, sc_session_hash := Some (hs_hash N handshake)\<rparr> in
          case hs_into_transport N handshake of
            None \<Rightarrow> (Inl (Error_new AuthenticationFailed), s)
          | Some t \<Rightarrow> (Inr (), s\<lparr>sc_transport := Some t\<rparr>))"

definition SessionCore_read_handshake_finish :: "('h, 't) noise \<Rightarrow> bytes \<Rightarrow> ('h, 't, unit) sess" where
  "SessionCore_read_handshake_finish N outer =
     st_bind (SessionCore_read_handshake N outer) (\<lambda>_. SessionCore_finish_handshake N)"

definition send_usage_after ::
    "cbor \<Rightarrow> ('h, 't) SessionCore \<Rightarrow> u64 \<Rightarrow> u64 \<Rightarrow> bool \<Rightarrow> error + (u64 \<times> u64) option" where
  "send_usage_after C s additional_records additional_bytes reserve_close =
     (case checked_add (sc_sent_records s) additional_records of
        None \<Rightarrow> Inr None
      | Some next_records \<Rightarrow>
          (case checked_add (sc_sent_plaintext s) additional_bytes of
             None \<Rightarrow> Inr None
           | Some next_bytes \<Rightarrow>
               res_bind (if reserve_close
                   then res_bind (limit_close_plaintext C (sc_handoff s)) (\<lambda>close.
                          Inr (checked_add next_records 1, checked_add next_bytes (of_nat (length close))))
                   else Inr (Some next_records, Some next_bytes))
                 (\<lambda>(records_with_reserve, bytes_with_reserve).
                   if is_none_or (\<lambda>n. n \<ge> RECORD_LIMIT) records_with_reserve \<or>
                      is_none_or (\<lambda>n. n \<ge> BYTE_LIMIT) bytes_with_reserve
                   then Inr None else Inr (Some (next_records, next_bytes)))))"

text \<open>\<^verbatim>\<open>self.sent_records = ...; self.sent_plaintext = ...\<close>\<close>

definition set_sent :: "u64 \<times> u64 \<Rightarrow> ('h, 't, unit) sess" where
  "set_sent u = st_upd (\<lambda>s. s\<lparr>sc_sent_records := fst u, sc_sent_plaintext := snd u\<rparr>)"

text \<open>The closure that seals the announcing close record, and the error built from it.\<close>

definition limit_close_frame :: "('h, 't) noise \<Rightarrow> cbor \<Rightarrow> HandoffState \<Rightarrow> ('h, 't, bytes) sess" where
  "limit_close_frame N C handoff =
     st_bind (st_lift (limit_close_plaintext C handoff)) (\<lambda>plaintext.
     st_with (\<lambda>s.
     st_bind (st_lift (send_usage_after C s 1 (of_nat (length plaintext)) False)) (\<lambda>usage.
     case usage of
       None \<Rightarrow> st_fail (Error_new RecordLimit)
     | Some u \<Rightarrow>
         st_bind (SessionCore_transport (encrypt_transport N plaintext)) (\<lambda>frame.
         st_bind (set_sent u) (\<lambda>_. st_ok frame)))))"

definition record_limit_error_with_handoff ::
    "('h, 't) noise \<Rightarrow> cbor \<Rightarrow> HandoffState \<Rightarrow> ('h, 't) SessionCore \<Rightarrow> error \<times> ('h, 't) SessionCore" where
  "record_limit_error_with_handoff N C handoff s =
     (let (r, s) = limit_close_frame N C handoff s;
          close_frame = (case r of Inl _ \<Rightarrow> None | Inr frame \<Rightarrow> Some frame)
      in (Error_record_limit close_frame, SessionCore_close_state s))"

definition record_limit_error ::
    "('h, 't) noise \<Rightarrow> cbor \<Rightarrow> ('h, 't) SessionCore \<Rightarrow> error \<times> ('h, 't) SessionCore" where
  "record_limit_error N C s = record_limit_error_with_handoff N C (sc_handoff s) s"

definition st_error :: "('s \<Rightarrow> 'e \<times> 's) \<Rightarrow> ('s, 'e, 'a) step" where
  "st_error f s = (let (e, s) = f s in (Inl e, s))"

definition encrypt_counted :: "('h, 't) noise \<Rightarrow> cbor \<Rightarrow> bytes \<Rightarrow> ('h, 't, bytes) sess" where
  "encrypt_counted N C plaintext = st_with (\<lambda>s.
     st_bind (st_lift (send_usage_after C s 1 (of_nat (length plaintext)) True)) (\<lambda>usage.
     case usage of
       None \<Rightarrow> st_error (record_limit_error N C)
     | Some u \<Rightarrow>
         st_bind (SessionCore_transport (encrypt_transport N plaintext)) (\<lambda>frame.
         st_bind (set_sent u) (\<lambda>_. st_ok frame))))"

definition decrypt_counted :: "('h, 't) noise \<Rightarrow> cbor \<Rightarrow> bytes \<Rightarrow> ('h, 't, bytes) sess" where
  "decrypt_counted N C outer =
     st_bind (SessionCore_transport (decrypt_transport N outer)) (\<lambda>plaintext. st_with (\<lambda>s.
     let next_records = checked_add (sc_received_records s) 1;
         next_bytes = checked_add (sc_received_plaintext s) (of_nat (length plaintext))
     in if is_none_or (\<lambda>n. n \<ge> RECORD_LIMIT) next_records \<or> is_none_or (\<lambda>n. n \<ge> BYTE_LIMIT) next_bytes
        then st_error (record_limit_error N C)
        else st_bind (st_upd (\<lambda>s. s\<lparr>sc_received_records := the next_records,
            sc_received_plaintext := the next_bytes\<rparr>)) (\<lambda>_. st_ok plaintext)))"

definition SessionCore_write_record ::
    "('h, 't) noise \<Rightarrow> cbor \<Rightarrow> RecordKind \<Rightarrow> bytes \<Rightarrow> ('h, 't, bytes) sess" where
  "SessionCore_write_record N C kind payload =
     st_bind (st_lift (res_bind (complete_record kind payload) Record_encode)) (encrypt_counted N C)"

definition SessionCore_write_finished :: "('h, 't) noise \<Rightarrow> cbor \<Rightarrow> u8 \<Rightarrow> ('h, 't, bytes) sess" where
  "SessionCore_write_finished N C role = st_with (\<lambda>s.
     if sc_sent_finished s then st_fail (Error_new SequenceViolation)
     else st_bind (st_lift (ok_or (Error_new SequenceViolation) (sc_session_hash s))) (\<lambda>hash.
       st_bind (st_lift (finished C (sc_binding s) role hash)) (\<lambda>body.
       st_bind (SessionCore_write_record N C Finished body) (\<lambda>frame.
       st_bind (st_upd (\<lambda>s. s\<lparr>sc_sent_finished := True\<rparr>)) (\<lambda>_. st_ok frame)))))"

definition SessionCore_read_finished ::
    "('h, 't) noise \<Rightarrow> cbor \<Rightarrow> bytes \<Rightarrow> u8 \<Rightarrow> ('h, 't, unit) sess" where
  "SessionCore_read_finished N C outer role = st_with (\<lambda>s.
     if sc_got_finished s then
       st_bind (st_upd (\<lambda>s. s\<lparr>sc_closed := True\<rparr>)) (\<lambda>_. st_fail (Error_new AuthenticationFailed))
     else st_bind (st_lift (ok_or (Error_new SequenceViolation) (sc_session_hash s))) (\<lambda>expected_hash.
       st_bind (decrypt_counted N C outer) (\<lambda>plain.
       st_bind (st_lift (Record_decode plain)) (\<lambda>record.
       st_bind (st_lift (validate_complete_record record Finished)) (\<lambda>_. st_with (\<lambda>s.
       st_bind (st_lift (parse_finished C (rec_data record) (sc_binding s) expected_hash)) (\<lambda>r.
       if r \<noteq> role then st_fail (Error_new AuthenticationFailed)
       else st_upd (\<lambda>s. s\<lparr>sc_got_finished := True\<rparr>))))))))"

text \<open>\<^verbatim>\<open>try_fold\<close> of the fragment lengths, and the loop that seals the fragments in order.\<close>

definition message_bytes :: "bytes list \<Rightarrow> u64 option" where
  "message_bytes plaintexts =
     foldl (\<lambda>total p. Option.bind total (\<lambda>n. checked_add n (of_nat (length p)))) (Some 0) plaintexts"

primrec encrypt_frames :: "('h, 't) noise \<Rightarrow> bytes list \<Rightarrow> ('h, 't, bytes list) sess" where
  "encrypt_frames N [] = st_ok []"
| "encrypt_frames N (p # ps) =
     st_bind (SessionCore_transport (encrypt_transport N p)) (\<lambda>frame.
     st_bind (encrypt_frames N ps) (\<lambda>frames. st_ok (frame # frames)))"

definition SessionCore_write_application ::
    "('h, 't) noise \<Rightarrow> cbor \<Rightarrow> bytes \<Rightarrow> nat \<Rightarrow> ('h, 't, bytes list) sess" where
  "SessionCore_write_application N C payload cap = st_with (\<lambda>s.
     if \<not> sc_sent_finished s \<or> \<not> sc_got_finished s \<or> sc_peer_turn s \<or> payload = []
     then st_fail (Error_new SequenceViolation)
     else if length payload > cap then st_fail (Error_new Oversize)
     else st_bind (st_lift (fragment_records Application payload)) (\<lambda>plaintexts.
       if length plaintexts \<ge> 2 ^ 64 then st_fail (Error_new RecordLimit)
       else st_bind (st_lift (case message_bytes plaintexts of
                None \<Rightarrow> Inr None
              | Some n \<Rightarrow> send_usage_after C s (of_nat (length plaintexts)) n True)) (\<lambda>usage.
         case usage of
           None \<Rightarrow> st_error (record_limit_error N C)
         | Some u \<Rightarrow>
             st_bind (encrypt_frames N plaintexts) (\<lambda>frames.
             st_bind (set_sent u) (\<lambda>_.
             st_bind (st_upd (\<lambda>s. s\<lparr>sc_peer_turn := True\<rparr>)) (\<lambda>_. st_ok frames))))))"

definition SessionCore_reassemble ::
    "cbor \<Rightarrow> Record \<Rightarrow> ('h, 't, (RecordKind \<times> bytes) option) sess" where
  "SessionCore_reassemble C r s =
     (let (res, rs) = RecordReassembler_accept C r (sc_reassembly s) in (res, s\<lparr>sc_reassembly := rs\<rparr>))"

definition SessionCore_read_application ::
    "('h, 't) noise \<Rightarrow> cbor \<Rightarrow> bytes \<Rightarrow> ('h, 't, bytes option) sess" where
  "SessionCore_read_application N C outer = st_with (\<lambda>s.
     if \<not> sc_sent_finished s \<or> \<not> sc_got_finished s then st_fail (Error_new SequenceViolation)
     else st_bind (decrypt_counted N C outer) (\<lambda>plain.
       st_bind (st_lift (Record_decode plain)) (\<lambda>record.
       if rec_kind record = Close then
         st_bind (st_lift (validate_complete_record record Close)) (\<lambda>_.
         st_bind (st_lift (parse_close C (rec_data record))) (\<lambda>(reason, handoff).
         st_bind (st_upd (\<lambda>s. s\<lparr>sc_closed := True\<rparr>)) (\<lambda>_.
         st_fail (Error_peer_close reason handoff))))
       else st_with (\<lambda>s.
         if \<not> sc_peer_turn s then st_fail (Error_new SequenceViolation)
         else if rec_kind record \<noteq> Application then st_fail (Error_new SequenceViolation)
         else st_bind (SessionCore_reassemble C record) (\<lambda>message.
           case message of
             None \<Rightarrow> st_ok None
           | Some (_, bs) \<Rightarrow>
               if bs = [] then st_fail (Error_new Malformed)
               else st_bind (st_upd (\<lambda>s. s\<lparr>sc_peer_turn := False\<rparr>)) (\<lambda>_. st_ok (Some bs)))))))"

definition SessionCore_eof :: "('h, 't, unit) sess" where
  "SessionCore_eof s =
     (if sc_closed s then (Inl (Error_new SequenceViolation), s)
      else let (r, rs) = RecordReassembler_eof (sc_reassembly s);
               result = res_bind r (\<lambda>_. Inl (Error_new PeerClosed))
           in (result, SessionCore_close_state (s\<lparr>sc_reassembly := rs\<rparr>)))"

text \<open>The orderly end: the session is closed and its key material dropped, the hash kept.\<close>

definition SessionCore_end :: "('h, 't) SessionCore \<Rightarrow> ('h, 't) SessionCore" where
  "SessionCore_end s = s\<lparr>sc_closed := True, sc_transport := None, sc_handshake := None,
     sc_reassembly := RecordReassembler_clear (sc_reassembly s)\<rparr>"

definition SessionCore_read_close ::
    "('h, 't) noise \<Rightarrow> cbor \<Rightarrow> bytes \<Rightarrow> ('h, 't, CloseReason \<times> HandoffState) sess" where
  "SessionCore_read_close N C outer = st_with (\<lambda>s.
     if \<not> sc_sent_finished s \<or> \<not> sc_got_finished s then st_fail (Error_new SequenceViolation)
     else st_bind (decrypt_counted N C outer) (\<lambda>plaintext.
       st_bind (st_lift (Record_decode plaintext)) (\<lambda>record.
       st_bind (st_lift (validate_complete_record record Close)) (\<lambda>_.
       st_bind (st_lift (parse_close C (rec_data record))) (\<lambda>close.
       st_bind (st_upd SessionCore_end) (\<lambda>_. st_ok close))))))"

definition SessionCore_write_close ::
    "('h, 't) noise \<Rightarrow> cbor \<Rightarrow> CloseReason \<Rightarrow> HandoffState \<Rightarrow> ('h, 't, bytes) sess" where
  "SessionCore_write_close N C reason handoff = st_with (\<lambda>s.
     let effective_handoff = conservative_max (sc_handoff s) handoff in
     st_bind (st_lift (res_bind (close_payload C reason effective_handoff) (\<lambda>p.
         res_bind (complete_record Close p) Record_encode))) (\<lambda>plaintext.
     st_bind (st_lift (send_usage_after C s 1 (of_nat (length plaintext)) False)) (\<lambda>usage.
     case usage of
       None \<Rightarrow> st_error (record_limit_error_with_handoff N C effective_handoff)
     | Some u \<Rightarrow>
         st_bind (SessionCore_transport (encrypt_transport N plaintext)) (\<lambda>frame.
         st_bind (set_sent u) (\<lambda>_.
         st_bind (st_upd SessionCore_end) (\<lambda>_. st_ok frame))))))"

definition SessionCore_validate_binding :: "u64 \<Rightarrow> u64 \<Rightarrow> ('h, 't, unit) sess" where
  "SessionCore_validate_binding process_generation listener_epoch s =
     (if process_generation \<noteq> sb_process_generation (sc_binding s) \<or>
         listener_epoch \<noteq> sb_listener_epoch (sc_binding s)
      then (Inl (Error_new BindingMismatch), SessionCore_close_state s)
      else (Inr (), s))"

section \<open>The Target's view\<close>

definition TargetSession_new ::
    "('h, 't) noise \<Rightarrow> cbor \<Rightarrow> bytes \<Rightarrow> SessionBinding \<Rightarrow> bytes \<Rightarrow> error + ('h, 't) SessionCore" where
  "TargetSession_new N C entropy binding pbs =
     (let limits = SessionLimits_default
      in SessionCore_new N C entropy binding pbs limits True (sl_first_open_bytes limits) True None)"

definition TargetSession_write_m1 :: "('h, 't) noise \<Rightarrow> ('h, 't, bytes) sess" where
  "TargetSession_write_m1 N = SessionCore_finish_result (SessionCore_write_handshake N [])"

definition TargetSession_read_m2 :: "('h, 't) noise \<Rightarrow> bytes \<Rightarrow> ('h, 't, unit) sess" where
  "TargetSession_read_m2 N outer = SessionCore_finish_result (SessionCore_read_handshake_finish N outer)"

definition TargetSession_write_finished :: "('h, 't) noise \<Rightarrow> cbor \<Rightarrow> ('h, 't, bytes) sess" where
  "TargetSession_write_finished N C = SessionCore_finish_result (SessionCore_write_finished N C 0)"

definition TargetSession_read_finished :: "('h, 't) noise \<Rightarrow> cbor \<Rightarrow> bytes \<Rightarrow> ('h, 't, unit) sess" where
  "TargetSession_read_finished N C outer = SessionCore_finish_result (st_with (\<lambda>s.
     if \<not> sc_sent_finished s then st_fail (Error_new SequenceViolation)
     else SessionCore_read_finished N C outer 1))"

text \<open>The first application message raises the inbound cap; that \<^verbatim>\<open>?\<close> leaves before \<^verbatim>\<open>finish_result\<close>.\<close>

definition TargetSession_read_application ::
    "('h, 't) noise \<Rightarrow> cbor \<Rightarrow> bytes \<Rightarrow> ('h, 't, bytes option) sess" where
  "TargetSession_read_application N C outer s =
     (case SessionCore_read_application N C outer s of
        (Inr (Some m), s) \<Rightarrow>
          let s = s\<lparr>sc_handoff := HandoffPossibleOrConfirmed\<rparr> in
          if \<not> sc_first_application s then
            let s = s\<lparr>sc_first_application := True\<rparr>;
                (r, rs) = RecordReassembler_set_cap (sl_request_bytes (sc_limits s)) (sc_reassembly s);
                s = s\<lparr>sc_reassembly := rs\<rparr>
            in (res_bind r (\<lambda>_. Inr (Some m)), s)
          else (Inr (Some m), s)
      | (Inr None, s) \<Rightarrow> (Inr None, s)
      | (Inl e, s) \<Rightarrow> (Inl e, SessionCore_close_state s))"

definition TargetSession_eof :: "('h, 't, unit) sess" where
  "TargetSession_eof = SessionCore_eof"

definition TargetSession_write_application_response ::
    "('h, 't) noise \<Rightarrow> cbor \<Rightarrow> bytes \<Rightarrow> ('h, 't, bytes list) sess" where
  "TargetSession_write_application_response N C payload = SessionCore_finish_result (st_with (\<lambda>s.
     if \<not> sc_first_application s then st_fail (Error_new SequenceViolation)
     else SessionCore_write_application N C payload (sl_response_bytes (sc_limits s))))"

definition TargetSession_write_close ::
    "('h, 't) noise \<Rightarrow> cbor \<Rightarrow> CloseReason \<Rightarrow> HandoffState \<Rightarrow> ('h, 't, bytes) sess" where
  "TargetSession_write_close N C reason handoff =
     SessionCore_finish_result (SessionCore_write_close N C reason handoff)"

definition TargetSession_read_close ::
    "('h, 't) noise \<Rightarrow> cbor \<Rightarrow> bytes \<Rightarrow> ('h, 't, CloseReason \<times> HandoffState) sess" where
  "TargetSession_read_close N C outer = SessionCore_finish_result (SessionCore_read_close N C outer)"

definition TargetSession_validate_binding :: "u64 \<Rightarrow> u64 \<Rightarrow> ('h, 't, unit) sess" where
  "TargetSession_validate_binding = SessionCore_validate_binding"

section \<open>The Broker's view\<close>

definition BrokerSession_new ::
    "('h, 't) noise \<Rightarrow> cbor \<Rightarrow> bytes \<Rightarrow> SessionBinding \<Rightarrow> bytes \<Rightarrow> error + ('h, 't) SessionCore" where
  "BrokerSession_new N C entropy binding pbs =
     (let limits = SessionLimits_default
      in SessionCore_new N C entropy binding pbs limits False (sl_response_bytes limits) False None)"

definition BrokerSession_read_m1_write_m2 :: "('h, 't) noise \<Rightarrow> bytes \<Rightarrow> ('h, 't, bytes) sess" where
  "BrokerSession_read_m1_write_m2 N outer = SessionCore_finish_result (
     st_bind (SessionCore_read_handshake N outer) (\<lambda>_.
     st_bind (SessionCore_write_handshake N []) (\<lambda>message.
     st_bind (SessionCore_finish_handshake N) (\<lambda>_. st_ok message))))"

definition BrokerSession_write_finished :: "('h, 't) noise \<Rightarrow> cbor \<Rightarrow> ('h, 't, bytes) sess" where
  "BrokerSession_write_finished N C = SessionCore_finish_result (st_with (\<lambda>s.
     if \<not> sc_got_finished s then st_fail (Error_new SequenceViolation)
     else SessionCore_write_finished N C 1))"

definition BrokerSession_read_finished :: "('h, 't) noise \<Rightarrow> cbor \<Rightarrow> bytes \<Rightarrow> ('h, 't, unit) sess" where
  "BrokerSession_read_finished N C outer = SessionCore_finish_result (SessionCore_read_finished N C outer 0)"

text \<open>\<^verbatim>\<open>if result.is_ok() { self.core.handoff = ... }\<close>\<close>

definition confirm_handoff :: "('h, 't, 'a) sess \<Rightarrow> ('h, 't, 'a) sess" where
  "confirm_handoff m =
     st_bind m (\<lambda>v. st_bind (st_upd (\<lambda>s. s\<lparr>sc_handoff := HandoffPossibleOrConfirmed\<rparr>)) (\<lambda>_. st_ok v))"

definition BrokerSession_write_session_open ::
    "('h, 't) noise \<Rightarrow> cbor \<Rightarrow> bytes \<Rightarrow> ('h, 't, bytes list) sess" where
  "BrokerSession_write_session_open N C payload = SessionCore_finish_result (confirm_handoff (st_with (\<lambda>s.
     if sc_first_application s \<or> payload = [] then st_fail (Error_new SequenceViolation)
     else if length payload > sl_first_open_bytes (sc_limits s) then st_fail (Error_new Oversize)
     else st_bind (st_upd (\<lambda>s. s\<lparr>sc_first_application := True\<rparr>)) (\<lambda>_.
       SessionCore_write_application N C payload (sl_request_bytes (sc_limits s))))))"

definition BrokerSession_write_application_request ::
    "('h, 't) noise \<Rightarrow> cbor \<Rightarrow> bytes \<Rightarrow> ('h, 't, bytes list) sess" where
  "BrokerSession_write_application_request N C payload =
     SessionCore_finish_result (confirm_handoff (st_with (\<lambda>s.
     if \<not> sc_first_application s then st_fail (Error_new SequenceViolation)
     else SessionCore_write_application N C payload (sl_request_bytes (sc_limits s)))))"

definition BrokerSession_read_application_response ::
    "('h, 't) noise \<Rightarrow> cbor \<Rightarrow> bytes \<Rightarrow> ('h, 't, bytes option) sess" where
  "BrokerSession_read_application_response N C outer =
     SessionCore_finish_result (SessionCore_read_application N C outer)"

definition BrokerSession_eof :: "('h, 't, unit) sess" where
  "BrokerSession_eof = SessionCore_eof"

definition BrokerSession_write_close ::
    "('h, 't) noise \<Rightarrow> cbor \<Rightarrow> CloseReason \<Rightarrow> HandoffState \<Rightarrow> ('h, 't, bytes) sess" where
  "BrokerSession_write_close N C reason handoff =
     SessionCore_finish_result (SessionCore_write_close N C reason handoff)"

definition BrokerSession_read_close ::
    "('h, 't) noise \<Rightarrow> cbor \<Rightarrow> bytes \<Rightarrow> ('h, 't, CloseReason \<times> HandoffState) sess" where
  "BrokerSession_read_close N C outer = SessionCore_finish_result (SessionCore_read_close N C outer)"

definition BrokerSession_validate_binding :: "u64 \<Rightarrow> u64 \<Rightarrow> ('h, 't, unit) sess" where
  "BrokerSession_validate_binding = SessionCore_validate_binding"

section \<open>Calls as values\<close>

text \<open>Every method of the two views that changes the session. \<^verbatim>\<open>validate_binding\<close> closes a session whose
  binding does not match and changes nothing otherwise; it does not ask whether the session is closed.\<close>

datatype session_answer =
    S_frame bytes | S_frames "bytes list" | S_unit | S_message "bytes option"
  | S_close "CloseReason \<times> HandoffState"

datatype target_session_call =
    TS_write_m1 | TS_read_m2 bytes | TS_write_finished | TS_read_finished bytes
  | TS_read_application bytes | TS_write_application_response bytes | TS_eof
  | TS_write_close CloseReason HandoffState | TS_read_close bytes | TS_validate_binding u64 u64

datatype broker_session_call =
    BS_read_m1_write_m2 bytes | BS_write_finished | BS_read_finished bytes
  | BS_write_session_open bytes | BS_write_application_request bytes
  | BS_read_application_response bytes | BS_eof
  | BS_write_close CloseReason HandoffState | BS_read_close bytes | BS_validate_binding u64 u64

definition answer :: "('a \<Rightarrow> session_answer) \<Rightarrow> ('h, 't, 'a) sess \<Rightarrow> ('h, 't, session_answer) sess" where
  "answer f m s = map_prod (map_sum id f) id (m s)"

fun target_session_op :: "('h, 't) noise \<Rightarrow> cbor \<Rightarrow> target_session_call \<Rightarrow> ('h, 't, session_answer) sess" where
  "target_session_op N C TS_write_m1 = answer S_frame (TargetSession_write_m1 N)"
| "target_session_op N C (TS_read_m2 f) = answer (\<lambda>_. S_unit) (TargetSession_read_m2 N f)"
| "target_session_op N C TS_write_finished = answer S_frame (TargetSession_write_finished N C)"
| "target_session_op N C (TS_read_finished f) = answer (\<lambda>_. S_unit) (TargetSession_read_finished N C f)"
| "target_session_op N C (TS_read_application f) = answer S_message (TargetSession_read_application N C f)"
| "target_session_op N C (TS_write_application_response p) =
     answer S_frames (TargetSession_write_application_response N C p)"
| "target_session_op N C TS_eof = answer (\<lambda>_. S_unit) TargetSession_eof"
| "target_session_op N C (TS_write_close r h) = answer S_frame (TargetSession_write_close N C r h)"
| "target_session_op N C (TS_read_close f) = answer S_close (TargetSession_read_close N C f)"
| "target_session_op N C (TS_validate_binding g e) = answer (\<lambda>_. S_unit) (TargetSession_validate_binding g e)"

fun broker_session_op :: "('h, 't) noise \<Rightarrow> cbor \<Rightarrow> broker_session_call \<Rightarrow> ('h, 't, session_answer) sess" where
  "broker_session_op N C (BS_read_m1_write_m2 f) = answer S_frame (BrokerSession_read_m1_write_m2 N f)"
| "broker_session_op N C BS_write_finished = answer S_frame (BrokerSession_write_finished N C)"
| "broker_session_op N C (BS_read_finished f) = answer (\<lambda>_. S_unit) (BrokerSession_read_finished N C f)"
| "broker_session_op N C (BS_write_session_open p) = answer S_frames (BrokerSession_write_session_open N C p)"
| "broker_session_op N C (BS_write_application_request p) =
     answer S_frames (BrokerSession_write_application_request N C p)"
| "broker_session_op N C (BS_read_application_response f) =
     answer S_message (BrokerSession_read_application_response N C f)"
| "broker_session_op N C BS_eof = answer (\<lambda>_. S_unit) BrokerSession_eof"
| "broker_session_op N C (BS_write_close r h) = answer S_frame (BrokerSession_write_close N C r h)"
| "broker_session_op N C (BS_read_close f) = answer S_close (BrokerSession_read_close N C f)"
| "broker_session_op N C (BS_validate_binding g e) = answer (\<lambda>_. S_unit) (BrokerSession_validate_binding g e)"

text \<open>The calls that only compare equal values.\<close>

fun target_call_matches :: "SessionBinding \<Rightarrow> target_session_call \<Rightarrow> bool" where
  "target_call_matches b (TS_validate_binding g e) = (g = sb_process_generation b \<and> e = sb_listener_epoch b)"
| "target_call_matches b _ = False"

fun broker_call_matches :: "SessionBinding \<Rightarrow> broker_session_call \<Rightarrow> bool" where
  "broker_call_matches b (BS_validate_binding g e) = (g = sb_process_generation b \<and> e = sb_listener_epoch b)"
| "broker_call_matches b _ = False"

section \<open>What the core leaves alone\<close>

lemmas session_core_defs =
  SessionCore_write_handshake_def SessionCore_read_handshake_def SessionCore_read_handshake_finish_def
  limit_close_frame_def encrypt_counted_def decrypt_counted_def SessionCore_write_record_def
  SessionCore_write_finished_def SessionCore_read_finished_def SessionCore_write_application_def
  SessionCore_read_application_def SessionCore_read_close_def SessionCore_write_close_def

lemmas target_session_defs =
  TargetSession_write_m1_def TargetSession_read_m2_def TargetSession_write_finished_def
  TargetSession_read_finished_def TargetSession_write_application_response_def TargetSession_eof_def
  TargetSession_write_close_def TargetSession_read_close_def TargetSession_validate_binding_def

lemmas broker_session_defs =
  BrokerSession_read_m1_write_m2_def BrokerSession_write_finished_def BrokerSession_read_finished_def
  BrokerSession_write_session_open_def BrokerSession_write_application_request_def
  BrokerSession_read_application_response_def BrokerSession_eof_def BrokerSession_write_close_def
  BrokerSession_read_close_def BrokerSession_validate_binding_def

lemma SessionCore_close_state_simps [simp]:
  "sc_closed (SessionCore_close_state s)" "sc_transport (SessionCore_close_state s) = None"
  "sc_handshake (SessionCore_close_state s) = None" "sc_session_hash (SessionCore_close_state s) = None"
  "sc_binding (SessionCore_close_state s) = sc_binding s" "sc_limits (SessionCore_close_state s) = sc_limits s"
  "sc_handoff (SessionCore_close_state s) = sc_handoff s"
  "sc_first_application (SessionCore_close_state s) = sc_first_application s"
  "sc_sent_records (SessionCore_close_state s) = sc_sent_records s"
  "sc_sent_plaintext (SessionCore_close_state s) = sc_sent_plaintext s"
  "sc_received_records (SessionCore_close_state s) = sc_received_records s"
  "sc_received_plaintext (SessionCore_close_state s) = sc_received_plaintext s"
  "sc_peer_turn (SessionCore_close_state s) = sc_peer_turn s"
  by (simp_all add: SessionCore_close_state_def)

lemma handshake_pres:
  "(\<And>s h. P s \<Longrightarrow> sc_handshake s \<noteq> None \<Longrightarrow> P (s\<lparr>sc_handshake := Some h\<rparr>)) \<Longrightarrow> st_pres P (SessionCore_handshake f)"
  by (auto simp: st_pres_def SessionCore_handshake_def split: option.splits prod.splits)

lemma transport_pres:
  "(\<And>s t. P s \<Longrightarrow> \<not> sc_closed s \<Longrightarrow> P (s\<lparr>sc_transport := Some t\<rparr>)) \<Longrightarrow> st_pres P (SessionCore_transport f)"
  by (auto simp: st_pres_def SessionCore_transport_def split: option.splits prod.splits)

lemma reassemble_pres:
  "(\<And>s rs. P s \<Longrightarrow> P (s\<lparr>sc_reassembly := rs\<rparr>)) \<Longrightarrow> st_pres P (SessionCore_reassemble C r)"
  by (auto simp: st_pres_def SessionCore_reassemble_def split: prod.splits)

lemma encrypt_frames_pres:
  assumes "\<And>s t. P s \<Longrightarrow> \<not> sc_closed s \<Longrightarrow> P (s\<lparr>sc_transport := Some t\<rparr>)"
  shows "st_pres P (encrypt_frames N ps)"
  by (induction ps) (auto intro!: st_pres_rules transport_pres assms)

lemma st_error_pres: "(\<And>s. P s \<Longrightarrow> P (snd (f s))) \<Longrightarrow> st_pres P (st_error f)"
  by (simp add: st_pres_def st_error_def case_prod_unfold Let_def)

lemma st_error_not_Inr [simp]: "st_error f s = (Inr v, s') \<longleftrightarrow> False"
  by (simp add: st_error_def case_prod_unfold Let_def)

lemma st_error_keeps: "st_keeps P (st_error f)"
  by (auto simp: st_keeps_def st_error_def split: prod.splits)

text \<open>The core never changes the binding, the limits, the handoff state or the first-message flag: the
  role views do.\<close>

definition sess_frame :: "('h, 't) SessionCore \<Rightarrow> SessionBinding \<times> SessionLimits \<times> HandoffState \<times> bool" where
  "sess_frame s = (sc_binding s, sc_limits s, sc_handoff s, sc_first_application s)"

lemma sess_frame_upd [simp]:
  "sess_frame (s\<lparr>sc_handshake := h\<rparr>) = sess_frame s" "sess_frame (s\<lparr>sc_transport := t\<rparr>) = sess_frame s"
  "sess_frame (s\<lparr>sc_reassembly := rs\<rparr>) = sess_frame s" "sess_frame (s\<lparr>sc_session_hash := x\<rparr>) = sess_frame s"
  "sess_frame (s\<lparr>sc_sent_finished := b\<rparr>) = sess_frame s" "sess_frame (s\<lparr>sc_got_finished := b\<rparr>) = sess_frame s"
  "sess_frame (s\<lparr>sc_peer_turn := b\<rparr>) = sess_frame s" "sess_frame (s\<lparr>sc_closed := b\<rparr>) = sess_frame s"
  "sess_frame (s\<lparr>sc_sent_records := n\<rparr>) = sess_frame s" "sess_frame (s\<lparr>sc_sent_plaintext := n\<rparr>) = sess_frame s"
  "sess_frame (s\<lparr>sc_received_records := n\<rparr>) = sess_frame s"
  "sess_frame (s\<lparr>sc_received_plaintext := n\<rparr>) = sess_frame s"
  "sess_frame (SessionCore_close_state s) = sess_frame s" "sess_frame (SessionCore_end s) = sess_frame s"
  by (simp_all add: sess_frame_def SessionCore_end_def)

lemma finish_handshake_frame: "st_pres (\<lambda>s. sess_frame s = c) (SessionCore_finish_handshake N)"
  by (auto simp: st_pres_def SessionCore_finish_handshake_def Let_def split: option.splits)

lemma limit_close_frame_frame: "st_pres (\<lambda>s. sess_frame s = c) (limit_close_frame N C h)"
  unfolding limit_close_frame_def set_sent_def
  by (intro st_pres_rules transport_pres) simp_all

lemma record_limit_error_frame:
  "sess_frame (snd (record_limit_error_with_handoff N C h s)) = sess_frame s"
  "sess_frame (snd (record_limit_error N C s)) = sess_frame s"
  using limit_close_frame_frame [of "sess_frame s" N C h] limit_close_frame_frame [of "sess_frame s" N C "sc_handoff s"]
  by (auto simp: record_limit_error_def record_limit_error_with_handoff_def st_pres_def Let_def
      split: prod.splits)

lemma core_frame:
  "st_pres (\<lambda>s. sess_frame s = c) (SessionCore_write_handshake N p)"
  "st_pres (\<lambda>s. sess_frame s = c) (SessionCore_read_handshake N f)"
  "st_pres (\<lambda>s. sess_frame s = c) (SessionCore_read_handshake_finish N f)"
  "st_pres (\<lambda>s. sess_frame s = c) (SessionCore_write_finished N C role)"
  "st_pres (\<lambda>s. sess_frame s = c) (SessionCore_read_finished N C f role)"
  "st_pres (\<lambda>s. sess_frame s = c) (SessionCore_write_application N C p cap)"
  "st_pres (\<lambda>s. sess_frame s = c) (SessionCore_read_application N C f)"
  "st_pres (\<lambda>s. sess_frame s = c) (SessionCore_read_close N C f)"
  "st_pres (\<lambda>s. sess_frame s = c) (SessionCore_write_close N C r h)"
  unfolding session_core_defs Let_def set_sent_def
  by (intro st_pres_rules handshake_pres transport_pres reassemble_pres encrypt_frames_pres st_error_pres
      finish_handshake_frame; simp add: record_limit_error_frame)+

lemma core_frame_eq:
  assumes "st_pres (\<lambda>s'. sess_frame s' = sess_frame s) m"
  shows "sess_frame (snd (m s)) = sess_frame s"
  using assms by (simp add: st_pres_def)

section \<open>Fail closed\<close>

text \<open>A closed session holds no handshake state and no transport keys, and on success the core keeps it so.\<close>

definition hs_gone :: "('h, 't) SessionCore \<Rightarrow> bool" where
  "hs_gone s \<longleftrightarrow> (sc_closed s \<longrightarrow> sc_handshake s = None \<and> sc_transport s = None)"

lemma hs_gone_close [simp]: "hs_gone (SessionCore_close_state s)" "hs_gone (SessionCore_end s)"
  by (simp_all add: hs_gone_def SessionCore_end_def)

lemma hs_gone_upd [simp]:
  "hs_gone (s\<lparr>sc_first_application := b\<rparr>) = hs_gone s" "hs_gone (s\<lparr>sc_handoff := h\<rparr>) = hs_gone s"
  by (simp_all add: hs_gone_def)

lemma finish_handshake_hs_gone: "st_keeps hs_gone (SessionCore_finish_handshake N)"
  by (auto simp: st_keeps_def hs_gone_def SessionCore_finish_handshake_def Let_def split: option.splits)

lemma core_hs_gone:
  "st_keeps hs_gone (SessionCore_write_handshake N p)"
  "st_keeps hs_gone (SessionCore_read_handshake N f)"
  "st_keeps hs_gone (SessionCore_read_handshake_finish N f)"
  "st_keeps hs_gone (SessionCore_write_finished N C role)"
  "st_keeps hs_gone (SessionCore_read_finished N C f role)"
  "st_keeps hs_gone (SessionCore_write_application N C p cap)"
  "st_keeps hs_gone (SessionCore_read_application N C f)"
  "st_keeps hs_gone (SessionCore_read_close N C f)"
  "st_keeps hs_gone (SessionCore_write_close N C r h)"
  unfolding session_core_defs Let_def set_sent_def
  by (intro st_keeps_rules st_error_keeps finish_handshake_hs_gone st_pres_keeps [OF handshake_pres]
      st_pres_keeps [OF transport_pres] st_pres_keeps [OF reassemble_pres] st_pres_keeps [OF encrypt_frames_pres];
      simp add: hs_gone_def SessionCore_end_def)+

text \<open>A closed session without a handshake state rejects every core operation.\<close>

definition sess_dead :: "('h, 't) SessionCore \<Rightarrow> bool" where
  "sess_dead s \<longleftrightarrow> sc_closed s \<and> sc_handshake s = None"

lemma handshake_rejects: "st_rejects sess_dead (SessionCore_handshake f)"
  by (simp add: st_rejects_def sess_dead_def SessionCore_handshake_def)

lemma sess_transport_rejects: "st_rejects sess_dead (SessionCore_transport f)"
  by (simp add: st_rejects_def sess_dead_def SessionCore_transport_def)

lemma st_error_rejects: "st_rejects P (st_error f)"
  by (simp add: st_rejects_def st_error_def case_prod_unfold Let_def)

lemma encrypt_frames_rejects: "ps \<noteq> [] \<Longrightarrow> st_rejects sess_dead (encrypt_frames N ps)"
  by (cases ps) (auto intro!: st_rejects_first sess_transport_rejects)

lemma st_rejects_option:
  "st_rejects P a \<Longrightarrow> (\<And>x. st_rejects P (f x)) \<Longrightarrow> st_rejects P (case v of None \<Rightarrow> a | Some x \<Rightarrow> f x)"
  by (cases v) simp_all

lemma fragment_records_nonempty: "fragment_records kind payload = Inr ps \<Longrightarrow> ps \<noteq> []"
  by (auto simp: fragment_records_def chunks_step RECORD_DATA_MAX_def res_bind_eq_Inr split: if_splits)

lemma write_application_rejects: "st_rejects sess_dead (SessionCore_write_application N C p cap)"
proof -
  have frag: "st_rejects sess_dead (st_bind (st_lift (fragment_records Application p)) g)"
    if "\<And>ps. ps \<noteq> [] \<Longrightarrow> st_rejects sess_dead (g ps)" for g :: "_ \<Rightarrow> ('h, 't, bytes list) sess"
    using that fragment_records_nonempty [of Application p]
    by (auto simp: st_rejects_def st_simps split: sum.splits)
  show ?thesis
    unfolding SessionCore_write_application_def
    by (intro st_rejects_with st_rejects_if st_rejects_fail frag)
      (intro st_rejects_if st_rejects_fail st_rejects_lift_bind st_rejects_option
        st_error_rejects st_rejects_first encrypt_frames_rejects)
qed

lemma st_rejects_then_fail: "st_rejects P (st_bind m (\<lambda>_. st_fail e))"
  by (auto simp: st_rejects_def st_simps split: prod.splits sum.splits)

lemma eof_rejects: "st_rejects sess_dead SessionCore_eof"
  by (simp add: st_rejects_def sess_dead_def SessionCore_eof_def)

lemma core_rejects:
  "st_rejects sess_dead (SessionCore_write_handshake N p)"
  "st_rejects sess_dead (SessionCore_read_handshake N f)"
  "st_rejects sess_dead (SessionCore_read_handshake_finish N f)"
  "st_rejects sess_dead (SessionCore_write_finished N C role)"
  "st_rejects sess_dead (SessionCore_read_finished N C f role)"
  "st_rejects sess_dead (SessionCore_read_application N C f)"
  "st_rejects sess_dead (SessionCore_read_close N C f)"
  "st_rejects sess_dead (SessionCore_write_close N C r h)"
  unfolding session_core_defs Let_def
  by (intro st_rejects_with st_rejects_if st_rejects_fail st_rejects_then_fail st_rejects_lift_bind
      st_rejects_option st_error_rejects st_rejects_first handshake_rejects sess_transport_rejects)+

text \<open>The role views: \<open>sess_base\<close> holds between calls, a failure closes, and a closed view rejects.\<close>

definition sess_base :: "('h, 't) SessionCore \<Rightarrow> bool" where
  "sess_base s \<longleftrightarrow> hs_gone s \<and> sc_limits s = SessionLimits_default"

lemma finish_result_simps:
  "fst (SessionCore_finish_result m s) = fst (m s)"
  "snd (SessionCore_finish_result m s) = (if is_err (fst (m s)) then SessionCore_close_state (snd (m s)) else snd (m s))"
  by (simp_all add: SessionCore_finish_result_def split: prod.splits)

lemma frame_limits: "(\<And>c. st_pres (\<lambda>s. sess_frame s = c) m) \<Longrightarrow> st_pres (\<lambda>s. sc_limits s = l) m"
  unfolding st_pres_def sess_frame_def by (metis prod.inject)

lemma finish_result_base:
  assumes "st_keeps hs_gone m" "st_pres (\<lambda>s'. sc_limits s' = SessionLimits_default) m" "sess_base s"
  shows "sess_base (snd (SessionCore_finish_result m s))"
proof -
  obtain r s' where m: "m s = (r, s')" by fastforce
  have "sc_limits s' = SessionLimits_default"
    using st_presD [OF assms(2) _ m] assms(3) by (simp add: sess_base_def)
  moreover have "hs_gone s'" if "r = Inr v" for v
    using st_keepsD [OF assms(1), of s v s'] m that assms(3) by (simp add: sess_base_def)
  ultimately show ?thesis using m by (cases r) (simp_all add: finish_result_simps sess_base_def)
qed

text \<open>A completed message leaves the reassembler idle, so raising its cap cannot fail.\<close>

lemma accept_idle:
  assumes "RecordReassembler_accept C r rs = (Inr (Some m), rs')"
  shows "rr_active rs' = None" "\<not> rr_failed rs'"
  using assms
  by (cases "rr_active rs"; auto simp: RecordReassembler_accept_def accept_body_def accept_start_def accept_continue_def Let_def
      res_bind_eq_Inr split: if_splits option.splits)+

lemma read_application_idle:
  assumes "SessionCore_read_application N C outer s = (Inr (Some m), s')"
  shows "rr_active (sc_reassembly s') = None \<and> \<not> rr_failed (sc_reassembly s')"
  using assms
  by (auto simp: SessionCore_read_application_def SessionCore_reassemble_def st_simps
      split: if_splits sum.splits prod.splits option.splits dest: accept_idle)

lemma target_read_application_cases:
  assumes "TargetSession_read_application N C outer s = (r, s')" "sc_limits s = SessionLimits_default"
  obtains (failed) e s1 where "SessionCore_read_application N C outer s = (Inl e, s1)" "r = Inl e"
      "s' = SessionCore_close_state s1"
    | (part) "SessionCore_read_application N C outer s = (Inr None, s')" "r = Inr None"
    | (message) m s1 rs where "SessionCore_read_application N C outer s = (Inr (Some m), s1)" "r = Inr (Some m)"
      "s' = s1\<lparr>sc_handoff := HandoffPossibleOrConfirmed, sc_first_application := True, sc_reassembly := rs\<rparr>"
      "rr_active rs = None" "\<not> rr_failed rs"
      "rr_cap rs = (if sc_first_application s1 then rr_cap (sc_reassembly s1) else sl_request_bytes SessionLimits_default)"
      "rr_records rs = rr_records (sc_reassembly s1)" "rr_bytes rs = rr_bytes (sc_reassembly s1)"
proof -
  obtain r1 s1 where c: "SessionCore_read_application N C outer s = (r1, s1)" by fastforce
  have lim: "sc_limits s1 = SessionLimits_default"
    using st_presD [OF frame_limits [OF core_frame(7)] _ c] assms(2) by simp
  show ?thesis
  proof (cases r1)
    case (Inl e)
    with c assms(1) have "r = Inl e" "s' = SessionCore_close_state s1"
      by (simp_all add: TargetSession_read_application_def)
    with Inl c show ?thesis by (intro failed) simp_all
  next
    case (Inr x)
    show ?thesis
    proof (cases x)
      case None
      with Inr c assms(1) have "r = Inr None" "s' = s1" by (simp_all add: TargetSession_read_application_def)
      with Inr None c show ?thesis by (intro part) simp_all
    next
      case (Some m)
      with Inr c have idle: "rr_active (sc_reassembly s1) = None" "\<not> rr_failed (sc_reassembly s1)"
        using read_application_idle by blast+
      let ?rs = "if sc_first_application s1 then sc_reassembly s1
        else (sc_reassembly s1)\<lparr>rr_cap := sl_request_bytes SessionLimits_default\<rparr>"
      have cap: "RecordReassembler_set_cap (sl_request_bytes SessionLimits_default) (sc_reassembly s1) =
          (Inr (), (sc_reassembly s1)\<lparr>rr_cap := sl_request_bytes SessionLimits_default\<rparr>)"
        using idle by (simp add: RecordReassembler_set_cap_def SessionLimits_default_def)
      have same: "s1\<lparr>sc_handoff := h, sc_first_application := True, sc_reassembly := sc_reassembly s1\<rparr> =
          s1\<lparr>sc_handoff := h\<rparr>" if "sc_first_application s1" for h
        using that by (cases s1) simp
      have "TargetSession_read_application N C outer s = (Inr (Some m), s1\<lparr>
          sc_handoff := HandoffPossibleOrConfirmed, sc_first_application := True, sc_reassembly := ?rs\<rparr>)"
        using Inr Some c lim cap same by (simp add: TargetSession_read_application_def Let_def)
      with assms(1) have "r = Inr (Some m)" "s' = s1\<lparr>sc_handoff := HandoffPossibleOrConfirmed,
          sc_first_application := True, sc_reassembly := ?rs\<rparr>"
        by simp_all
      with Inr Some c idle show ?thesis by (intro message [of m s1 ?rs]) simp_all
    qed
  qed
qed

lemma read_application_base:
  assumes "sess_base s"
  shows "sess_base (snd (TargetSession_read_application N C f s))"
proof -
  obtain r s' where c: "TargetSession_read_application N C f s = (r, s')" by fastforce
  have lim: "sc_limits s = SessionLimits_default" and hs: "hs_gone s" using assms by (simp_all add: sess_base_def)
  have *: "sc_limits s1 = SessionLimits_default \<and> (\<not> is_err r1 \<longrightarrow> hs_gone s1)"
    if "SessionCore_read_application N C f s = (r1, s1)" for r1 s1
    using st_presD [OF frame_limits [OF core_frame(7)] lim that] st_keepsD [OF core_hs_gone(7) hs] that
    by (cases r1) auto
  from c lim show ?thesis
    by (cases rule: target_read_application_cases) (auto simp: c sess_base_def hs_gone_def dest!: *)
qed

lemma eof_base: "sess_base s \<Longrightarrow> sess_base (snd (SessionCore_eof s))"
  by (simp add: SessionCore_eof_def sess_base_def case_prod_unfold Let_def)

lemma validate_binding_cases:
  "SessionCore_validate_binding g e s =
     (if g = sb_process_generation (sc_binding s) \<and> e = sb_listener_epoch (sc_binding s) then (Inr (), s)
      else (Inl (Error_new BindingMismatch), SessionCore_close_state s))"
  by (simp add: SessionCore_validate_binding_def)

lemma validate_binding_pres: "(\<And>s. P s \<Longrightarrow> P (SessionCore_close_state s)) \<Longrightarrow> st_pres P (SessionCore_validate_binding g e)"
  by (simp add: st_pres_def validate_binding_cases)

lemma validate_binding_base: "sess_base s \<Longrightarrow> sess_base (snd (SessionCore_validate_binding g e s))"
  by (simp add: validate_binding_cases sess_base_def)

lemma target_session_base:
  assumes "sess_base s"
  shows "sess_base (snd (target_session_op N C c s))"
  using assms
  by (cases c)
    (simp_all add: answer_def read_application_base eof_base validate_binding_base target_session_defs finish_result_base
      core_hs_gone st_keeps_rules core_frame [THEN frame_limits] st_pres_rules)

lemma confirm_handoff_base:
  "st_keeps hs_gone m \<Longrightarrow> st_keeps hs_gone (confirm_handoff m)"
  "st_pres (\<lambda>s. sc_limits s = l) m \<Longrightarrow> st_pres (\<lambda>s. sc_limits s = l) (confirm_handoff m)"
  unfolding confirm_handoff_def
  by (intro st_keeps_rules st_pres_rules; simp add: hs_gone_def)+

lemma finish_handshake_limits: "st_pres (\<lambda>s. sc_limits s = l) (SessionCore_finish_handshake N)"
  by (rule frame_limits [OF finish_handshake_frame])

lemma broker_session_base:
  assumes "sess_base s"
  shows "sess_base (snd (broker_session_op N C c s))"
  using assms
  by (cases c)
    (simp_all add: answer_def eof_base validate_binding_base broker_session_defs finish_result_base confirm_handoff_base
      core_hs_gone finish_handshake_hs_gone st_keeps_rules core_frame [THEN frame_limits]
      finish_handshake_limits st_pres_rules)

text \<open>A session that failed is closed and holds no keys.\<close>

abbreviation sess_shut :: "('h, 't) SessionCore \<Rightarrow> bool" where
  "sess_shut s \<equiv> sc_closed s \<and> sc_transport s = None"

lemma finish_result_shuts:
  "is_err (fst (SessionCore_finish_result m s)) \<Longrightarrow> sess_shut (snd (SessionCore_finish_result m s))"
  by (simp add: finish_result_simps)

lemma validate_binding_shuts:
  "is_err (fst (SessionCore_validate_binding g e s)) \<Longrightarrow> sess_shut (snd (SessionCore_validate_binding g e s))"
  by (auto simp: validate_binding_cases split: if_splits)

lemma finish_result_sess_rejects: "st_rejects P m \<Longrightarrow> st_rejects P (SessionCore_finish_result m)"
  by (simp add: st_rejects_def finish_result_simps)

lemma eof_shuts: "hs_gone s \<Longrightarrow> sess_shut (snd (SessionCore_eof s))"
  by (simp add: SessionCore_eof_def hs_gone_def case_prod_unfold Let_def)

lemma read_application_shuts:
  assumes "sess_base s" "is_err (fst (TargetSession_read_application N C f s))"
  shows "sess_shut (snd (TargetSession_read_application N C f s))"
proof -
  obtain r s' where c: "TargetSession_read_application N C f s = (r, s')" by fastforce
  then show ?thesis
    by (cases rule: target_read_application_cases) (use assms c in \<open>auto simp: sess_base_def\<close>)
qed

lemma read_application_rejects: "st_rejects sess_dead (TargetSession_read_application N C f)"
proof -
  have "is_err (fst (TargetSession_read_application N C f s))"
    if "is_err (fst (SessionCore_read_application N C f s))" for s
    using that by (cases "SessionCore_read_application N C f s")
      (auto simp: TargetSession_read_application_def split: sum.splits)
  then show ?thesis using core_rejects(6) [of N C f] by (auto simp: st_rejects_def)
qed

lemma answer_simps [simp]:
  "is_err (fst (answer f m s)) = is_err (fst (m s))" "snd (answer f m s) = snd (m s)"
  by (simp_all add: answer_def)

lemma answer_pres: "st_pres P m \<Longrightarrow> st_pres P (answer f m)"
  by (simp add: st_pres_def)

lemma answer_rejects: "st_rejects P m \<Longrightarrow> st_rejects P (answer f m)"
  by (simp add: st_rejects_def)

lemma confirm_rejects: "st_rejects P m \<Longrightarrow> st_rejects P (confirm_handoff m)"
  unfolding confirm_handoff_def by (rule st_rejects_first)

lemma first_application_dead: "st_pres sess_dead (st_upd (\<lambda>s. s\<lparr>sc_first_application := True\<rparr>))"
  by (simp add: st_pres_def st_simps sess_dead_def)

lemmas session_rejects =
  answer_rejects finish_result_sess_rejects confirm_rejects st_rejects_with st_rejects_if st_rejects_fail
  core_rejects write_application_rejects eof_rejects read_application_rejects
  st_rejects_second [OF first_application_dead]

text \<open>No call changes the binding, with which \<^verbatim>\<open>validate_binding\<close> compares.\<close>

lemma frame_binding: "(\<And>c. st_pres (\<lambda>s. sess_frame s = c) m) \<Longrightarrow> st_pres (\<lambda>s. sc_binding s = b) m"
  unfolding st_pres_def sess_frame_def by (metis prod.inject)

lemma finish_result_binding:
  "st_pres (\<lambda>s. sc_binding s = b) m \<Longrightarrow> st_pres (\<lambda>s. sc_binding s = b) (SessionCore_finish_result m)"
  by (simp add: st_pres_def finish_result_simps)

lemma eof_binding: "st_pres (\<lambda>s. sc_binding s = b) SessionCore_eof"
  by (simp add: st_pres_def SessionCore_eof_def case_prod_unfold Let_def)

lemma confirm_handoff_binding:
  "st_pres (\<lambda>s. sc_binding s = b) m \<Longrightarrow> st_pres (\<lambda>s. sc_binding s = b) (confirm_handoff m)"
  unfolding confirm_handoff_def by (intro st_pres_rules) simp_all

lemma read_application_binding: "st_pres (\<lambda>s. sc_binding s = b) (TargetSession_read_application N C f)"
proof -
  have "sc_binding (snd (TargetSession_read_application N C f s)) = b"
    if "sc_binding (snd (SessionCore_read_application N C f s)) = b" for s
    using that by (auto simp: TargetSession_read_application_def Let_def split: prod.splits sum.splits option.splits)
  then show ?thesis using frame_binding [OF core_frame(7), of b N C f] by (simp add: st_pres_def)
qed

lemmas session_binding_rules =
  answer_pres finish_result_binding confirm_handoff_binding core_frame [THEN frame_binding]
  finish_handshake_frame [THEN frame_binding] eof_binding read_application_binding validate_binding_pres st_pres_rules

lemma session_ops_binding:
  "st_pres (\<lambda>s. sc_binding s = b) (target_session_op N C c)"
  "st_pres (\<lambda>s. sc_binding s = b) (broker_session_op N C d)"
  by (cases c; simp add: target_session_defs; intro session_binding_rules; simp)
    (cases d; simp add: broker_session_defs; intro session_binding_rules; simp)

definition sess_bound :: "SessionBinding \<Rightarrow> ('h, 't) SessionCore \<Rightarrow> bool" where
  "sess_bound b s \<longleftrightarrow> sess_base s \<and> sc_binding s = b"

lemma session_ops_bound:
  "sess_bound b s \<Longrightarrow> sess_bound b (snd (target_session_op N C c s))"
  "sess_bound b s \<Longrightarrow> sess_bound b (snd (broker_session_op N C d s))"
  by (simp_all add: sess_bound_def target_session_base broker_session_base st_pres_apply [OF session_ops_binding(1)]
      st_pres_apply [OF session_ops_binding(2)])

text \<open>A dead session rejects every call but a matching \<^verbatim>\<open>validate_binding\<close>.\<close>

lemma validate_binding_rejects:
  "g \<noteq> sb_process_generation b \<or> e \<noteq> sb_listener_epoch b \<Longrightarrow>
     st_rejects (\<lambda>s. sess_dead s \<and> sc_binding s = b) (SessionCore_validate_binding g e)"
  by (auto simp: st_rejects_def validate_binding_cases)

lemma rejects_weaken: "st_rejects P m \<Longrightarrow> st_rejects (\<lambda>s. P s \<and> Q s) m"
  by (simp add: st_rejects_def)

lemma session_ops_reject:
  "\<not> target_call_matches b c \<Longrightarrow> st_rejects (\<lambda>s. sess_dead s \<and> sc_binding s = b) (target_session_op N C c)"
  "\<not> broker_call_matches b d \<Longrightarrow> st_rejects (\<lambda>s. sess_dead s \<and> sc_binding s = b) (broker_session_op N C d)"
  by (cases c; simp add: target_session_defs; (intro answer_rejects validate_binding_rejects; simp | intro rejects_weaken session_rejects))
    (cases d; simp add: broker_session_defs; (intro answer_rejects validate_binding_rejects; simp |
      rule rejects_weaken, (intro session_rejects | rule st_rejects_first)+))

lemma shut_bound_dead: "sess_bound b s \<Longrightarrow> sc_closed s \<Longrightarrow> sess_dead s \<and> sc_binding s = b"
  by (simp add: sess_bound_def sess_base_def hs_gone_def sess_dead_def)

lemma matching_call:
  "sess_bound b s \<Longrightarrow> target_call_matches b c \<Longrightarrow> target_session_op N C c s = (Inr S_unit, s)"
  "sess_bound b s \<Longrightarrow> broker_call_matches b d \<Longrightarrow> broker_session_op N C d s = (Inr S_unit, s)"
  by (cases c; simp add: sess_bound_def target_session_defs answer_def validate_binding_cases)
    (cases d; simp add: sess_bound_def broker_session_defs answer_def validate_binding_cases)

interpretation target_session:
  fail_stop "target_session_op N C" sess_shut "sess_bound b" "target_call_matches b" for N C b
proof
  fix s :: "('a, 'b) SessionCore" and c
  assume bound: "sess_bound b s"
  show "sess_bound b (snd (target_session_op N C c s))"
    using bound by (rule session_ops_bound)
  show "is_err (fst (target_session_op N C c s)) \<Longrightarrow> sess_shut (snd (target_session_op N C c s))"
    using bound by (cases c) (simp_all add: sess_bound_def sess_base_def target_session_defs
        finish_result_shuts eof_shuts read_application_shuts validate_binding_shuts)
  show "sess_shut s \<Longrightarrow> \<not> target_call_matches b c \<Longrightarrow> is_err (fst (target_session_op N C c s))"
    using shut_bound_dead [OF bound] session_ops_reject(1) [of b c N C] by (simp add: st_rejects_def)
  show "target_call_matches b c \<Longrightarrow> snd (target_session_op N C c s) = s"
    by (simp add: matching_call(1) [OF bound])
qed

interpretation broker_session:
  fail_stop "broker_session_op N C" sess_shut "sess_bound b" "broker_call_matches b" for N C b
proof
  fix s :: "('a, 'b) SessionCore" and c
  assume bound: "sess_bound b s"
  show "sess_bound b (snd (broker_session_op N C c s))"
    using bound by (rule session_ops_bound)
  show "is_err (fst (broker_session_op N C c s)) \<Longrightarrow> sess_shut (snd (broker_session_op N C c s))"
    using bound by (cases c) (simp_all add: sess_bound_def sess_base_def broker_session_defs finish_result_shuts
        eof_shuts validate_binding_shuts)
  show "sess_shut s \<Longrightarrow> \<not> broker_call_matches b c \<Longrightarrow> is_err (fst (broker_session_op N C c s))"
    using shut_bound_dead [OF bound] session_ops_reject(2) [of b c N C] by (simp add: st_rejects_def)
  show "broker_call_matches b c \<Longrightarrow> snd (broker_session_op N C c s) = s"
    by (simp add: matching_call(2) [OF bound])
qed

lemma new_session_base:
  "TargetSession_new N C e b pbs = Inr s \<Longrightarrow> sess_base s \<and> \<not> sc_closed s"
  "BrokerSession_new N C e b pbs = Inr s \<Longrightarrow> sess_base s \<and> \<not> sc_closed s"
  by (auto simp: TargetSession_new_def BrokerSession_new_def SessionCore_new_def Let_def sess_base_def hs_gone_def
      elim!: res_bindE split: if_splits)

lemma new_session_bound:
  "TargetSession_new N C e b pbs = Inr s \<Longrightarrow> sess_bound b s \<and> sess_base s"
  "BrokerSession_new N C e b pbs = Inr s \<Longrightarrow> sess_bound b s \<and> sess_base s"
  using new_session_base [of N C e b pbs s]
  by (auto simp: sess_bound_def TargetSession_new_def BrokerSession_new_def SessionCore_new_def Let_def
      elim!: res_bindE split: if_splits)

section \<open>Quotas\<close>

text \<open>The counters stay below the limits. While the session is open, one more record of nineteen bytes
  fits: the close record that announces an exhausted quota.\<close>

definition sess_counts :: "('h, 't) SessionCore \<Rightarrow> (u64 \<times> u64) \<times> u64 \<times> u64" where
  "sess_counts s = ((sc_sent_records s, sc_sent_plaintext s), sc_received_records s, sc_received_plaintext s)"

definition below_quota :: "('h, 't) SessionCore \<Rightarrow> bool" where
  "below_quota s \<longleftrightarrow>
     unat (sc_sent_records s) < 2 ^ 32 \<and> unat (sc_sent_plaintext s) < 2 ^ 40 \<and>
     unat (sc_received_records s) < 2 ^ 32 \<and> unat (sc_received_plaintext s) < 2 ^ 40"

definition sess_close_room :: "('h, 't) SessionCore \<Rightarrow> bool" where
  "sess_close_room s \<longleftrightarrow>
     unat (sc_sent_records s) + 1 < 2 ^ 32 \<and> unat (sc_sent_plaintext s) + 19 < 2 ^ 40"

definition sess_quota :: "('h, 't) SessionCore \<Rightarrow> bool" where
  "sess_quota s \<longleftrightarrow> below_quota s \<and> (sc_closed s \<or> sess_close_room s)"

lemma sess_counts_upd [simp]:
  "sess_counts (s\<lparr>sc_transport := t\<rparr>) = sess_counts s" "sess_counts (SessionCore_close_state s) = sess_counts s"
  by (simp_all add: sess_counts_def)

lemma quota_counts:
  "sess_counts s' = sess_counts s \<Longrightarrow> below_quota s' = below_quota s"
  "sess_counts s' = sess_counts s \<Longrightarrow> sess_close_room s' = sess_close_room s"
  by (simp_all add: sess_counts_def below_quota_def sess_close_room_def)

lemma quota_upd [simp]:
  "below_quota (s\<lparr>sc_transport := t\<rparr>) = below_quota s" "below_quota (s\<lparr>sc_handshake := h\<rparr>) = below_quota s"
  "below_quota (s\<lparr>sc_reassembly := rs\<rparr>) = below_quota s" "below_quota (s\<lparr>sc_session_hash := x\<rparr>) = below_quota s"
  "below_quota (s\<lparr>sc_sent_finished := b\<rparr>) = below_quota s" "below_quota (s\<lparr>sc_got_finished := b\<rparr>) = below_quota s"
  "below_quota (s\<lparr>sc_peer_turn := b\<rparr>) = below_quota s" "below_quota (s\<lparr>sc_closed := b\<rparr>) = below_quota s"
  "below_quota (s\<lparr>sc_handoff := hf\<rparr>) = below_quota s" "below_quota (s\<lparr>sc_first_application := b\<rparr>) = below_quota s"
  "below_quota (SessionCore_close_state s) = below_quota s" "below_quota (SessionCore_end s) = below_quota s"
  by (simp_all add: below_quota_def SessionCore_end_def)

lemma close_room_upd [simp]:
  "sess_close_room (s\<lparr>sc_transport := t\<rparr>) = sess_close_room s"
  "sess_close_room (s\<lparr>sc_handshake := h\<rparr>) = sess_close_room s"
  "sess_close_room (s\<lparr>sc_reassembly := rs\<rparr>) = sess_close_room s"
  "sess_close_room (s\<lparr>sc_session_hash := x\<rparr>) = sess_close_room s"
  "sess_close_room (s\<lparr>sc_sent_finished := b\<rparr>) = sess_close_room s"
  "sess_close_room (s\<lparr>sc_got_finished := b\<rparr>) = sess_close_room s"
  "sess_close_room (s\<lparr>sc_peer_turn := b\<rparr>) = sess_close_room s"
  "sess_close_room (s\<lparr>sc_closed := b\<rparr>) = sess_close_room s"
  "sess_close_room (s\<lparr>sc_handoff := hf\<rparr>) = sess_close_room s"
  "sess_close_room (s\<lparr>sc_first_application := b\<rparr>) = sess_close_room s"
  by (simp_all add: sess_close_room_def)

lemma sess_quota_upd [simp]:
  "sess_quota s \<Longrightarrow> sess_quota (s\<lparr>sc_transport := t\<rparr>)" "sess_quota s \<Longrightarrow> sess_quota (s\<lparr>sc_handshake := h\<rparr>)"
  "sess_quota s \<Longrightarrow> sess_quota (s\<lparr>sc_reassembly := rs\<rparr>)" "sess_quota s \<Longrightarrow> sess_quota (s\<lparr>sc_session_hash := x\<rparr>)"
  "sess_quota s \<Longrightarrow> sess_quota (s\<lparr>sc_sent_finished := b\<rparr>)" "sess_quota s \<Longrightarrow> sess_quota (s\<lparr>sc_got_finished := b\<rparr>)"
  "sess_quota s \<Longrightarrow> sess_quota (s\<lparr>sc_peer_turn := b\<rparr>)" "sess_quota s \<Longrightarrow> sess_quota (s\<lparr>sc_closed := True\<rparr>)"
  "sess_quota s \<Longrightarrow> sess_quota (s\<lparr>sc_handoff := hf\<rparr>)" "sess_quota s \<Longrightarrow> sess_quota (s\<lparr>sc_first_application := b\<rparr>)"
  "sess_quota s \<Longrightarrow> sess_quota (SessionCore_close_state s)" "sess_quota s \<Longrightarrow> sess_quota (SessionCore_end s)"
  by (auto simp: sess_quota_def SessionCore_end_def)

lemma counts_kept:
  "st_pres (\<lambda>s. sess_counts s = c) (SessionCore_transport f)"
  "st_pres (\<lambda>s. sess_counts s = c) (encrypt_frames N ps)"
  by (rule transport_pres encrypt_frames_pres; simp)+

context minicbor
begin

text \<open>The usage computation in closed form.\<close>

lemma send_usage_eq:
  "send_usage_after C s n b reserve = Inr
     (if unat (sc_sent_records s) + unat n + of_bool reserve < 2 ^ 32 \<and>
         unat (sc_sent_plaintext s) + unat b + 19 * of_bool reserve < 2 ^ 40
      then Some (sc_sent_records s + n, sc_sent_plaintext s + b) else None)"
proof -
  obtain close where close: "limit_close_plaintext C (sc_handoff s) = Inr close" "length close = 19"
    by (rule limit_close_total)
  have add: "checked_add x y = (if unat x + unat y < 2 ^ 64 then Some (x + y) else None)"
    "unat x + unat y < 2 ^ 64 \<Longrightarrow> unat (x + y) = unat x + unat y" for x y :: u64
    by (simp_all add: checked_add_def unat_word_ariths)
  show ?thesis
    using close by (cases reserve)
      (auto simp: send_usage_after_def quota_reached_iff add word_le_nat_alt)
qed

lemma limit_close_frame_quota:
  assumes "below_quota s"
  shows "below_quota (snd (limit_close_frame N C h s))"
proof -
  obtain close where close: "limit_close_plaintext C h = Inr close" "length close = 19"
    by (rule limit_close_total)
  have add: "unat (x + y) = unat x + unat y" if "unat x + unat y < 2 ^ 40" for x y :: u64
    using that by (simp add: unat_word_ariths)
  obtain r s' where t: "SessionCore_transport (encrypt_transport N close) s = (r, s')" by fastforce
  have cts: "sess_counts s' = sess_counts s" using st_presD [OF counts_kept(1) refl t] .
  show ?thesis
    using close t assms quota_counts(1) [OF cts] cts
    by (cases r) (auto simp: limit_close_frame_def st_simps send_usage_eq set_sent_def below_quota_def add
        sess_counts_def)
qed

lemma record_limit_error_quota:
  "below_quota s \<Longrightarrow> sess_quota (snd (record_limit_error_with_handoff N C h s))"
  "below_quota s \<Longrightarrow> sess_quota (snd (record_limit_error N C s))"
  using limit_close_frame_quota [of s N h] limit_close_frame_quota [of s N "sc_handoff s"]
  by (simp_all add: record_limit_error_def record_limit_error_with_handoff_def Let_def case_prod_unfold sess_quota_def)

lemma sess_quota_below: "sess_quota s \<Longrightarrow> below_quota s"
  by (simp add: sess_quota_def)

text \<open>Sending with the close reserve keeps the quota, whatever is sealed in between.\<close>

lemma sending_quota:
  fixes F :: "('h, 't, 'a) sess" and K :: "'a \<Rightarrow> ('h, 't, 'b) sess"
  assumes counts: "\<And>c. st_pres (\<lambda>s. sess_counts s = c) F" and quota: "st_pres sess_quota F"
    and cont: "\<And>v. st_pres sess_quota (K v)"
  shows "st_pres sess_quota (st_with (\<lambda>s. st_bind (st_lift (send_usage_after C s n b True)) (\<lambda>usage.
     case usage of None \<Rightarrow> st_error (record_limit_error N C)
     | Some u \<Rightarrow> st_bind F (\<lambda>v. st_bind (set_sent u) (\<lambda>_. K v)))))" (is "st_pres _ ?m")
  unfolding st_pres_def
proof (intro allI impI)
  fix s :: "('h, 't) SessionCore"
  assume inv: "sess_quota s"
  obtain r s' where F: "F s = (r, s')" by fastforce
  have cts: "sess_counts s' = sess_counts s" using st_presD [OF counts refl F] .
  have q: "sess_quota s'" using st_presD [OF quota inv F] .
  let ?u = "(sc_sent_records s + n, sc_sent_plaintext s + b)"
  show "sess_quota (snd (?m s))"
  proof (cases "unat (sc_sent_records s) + unat n + 1 < 2 ^ 32 \<and> unat (sc_sent_plaintext s) + unat b + 19 < 2 ^ 40")
    case False
    then show ?thesis
      using record_limit_error_quota(2) [OF sess_quota_below [OF inv], of N]
      by (auto simp: st_simps send_usage_eq st_error_def case_prod_unfold Let_def)
  next
    case True
    then have u: "unat (fst ?u) + 1 < 2 ^ 32" "unat (snd ?u) + 19 < 2 ^ 40" by (simp_all add: unat_word_ariths)
    have "sess_quota (s'\<lparr>sc_sent_records := fst ?u, sc_sent_plaintext := snd ?u\<rparr>)"
      using q cts u by (simp add: sess_quota_def below_quota_def sess_close_room_def sess_counts_def)
    with True F q cont show ?thesis
      by (cases r) (auto simp: st_simps send_usage_eq set_sent_def st_pres_def)
  qed
qed

lemma encrypt_counted_quota: "st_pres sess_quota (encrypt_counted N C p)"
  unfolding encrypt_counted_def
  by (intro sending_quota counts_kept transport_pres st_pres_ok) simp_all

lemma decrypt_counted_quota: "st_pres sess_quota (decrypt_counted N C f)"
proof -
  have "st_pres sess_quota (st_with (\<lambda>s.
     let next_records = checked_add (sc_received_records s) 1;
         next_bytes = checked_add (sc_received_plaintext s) (of_nat (length p))
     in if is_none_or (\<lambda>n. n \<ge> RECORD_LIMIT) next_records \<or> is_none_or (\<lambda>n. n \<ge> BYTE_LIMIT) next_bytes
        then st_error (record_limit_error N C)
        else st_bind (st_upd (\<lambda>s. s\<lparr>sc_received_records := the next_records,
            sc_received_plaintext := the next_bytes\<rparr>)) (\<lambda>_. st_ok p)))" for p
    unfolding st_pres_def
    using record_limit_error_quota(2) [of _ N]
    by (auto simp: st_simps Let_def st_error_def case_prod_unfold quota_reached_iff unat_the_checked_add
        sess_quota_def below_quota_def sess_close_room_def)
  then show ?thesis
    unfolding decrypt_counted_def by (intro st_pres_bind transport_pres) simp_all
qed

lemma st_error_quota: "st_pres sess_quota (st_error (record_limit_error N C))"
  by (rule st_error_pres) (simp add: record_limit_error_quota sess_quota_below)

lemma write_application_quota:
  fixes N :: "('h, 't) noise"
  shows "st_pres sess_quota (SessionCore_write_application N C p cap)"
  unfolding st_pres_def
proof (intro allI impI)
  fix s :: "('h, 't) SessionCore"
  assume inv: "sess_quota s"
  have send: "sess_quota (snd (st_with (\<lambda>s. st_bind (st_lift (send_usage_after C s n b True)) (\<lambda>usage.
     case usage of None \<Rightarrow> st_error (record_limit_error N C)
     | Some u \<Rightarrow> st_bind (encrypt_frames N ps) (\<lambda>frames. st_bind (set_sent u) (\<lambda>_.
         st_bind (st_upd (\<lambda>s. s\<lparr>sc_peer_turn := True\<rparr>)) (\<lambda>_. st_ok frames))))) s))" for n b ps
    by (rule st_pres_apply [where P = sess_quota, OF _ inv])
      (intro sending_quota counts_kept encrypt_frames_pres st_pres_rules; simp)
  have stop: "sess_quota (snd ((st_error (record_limit_error N C) :: ('h, 't, bytes list) sess) s))"
    by (rule st_pres_apply [OF st_error_quota inv])
  show "sess_quota (snd (SessionCore_write_application N C p cap s))"
  proof (cases "fragment_records Application p")
    case (Inl e)
    with inv show ?thesis by (simp add: SessionCore_write_application_def st_simps)
  next
    case (Inr ps)
    with inv stop send [of "of_nat (length ps)" "the (message_bytes ps)" ps] show ?thesis
      by (cases "message_bytes ps") (simp_all add: SessionCore_write_application_def st_simps)
  qed
qed

lemma write_close_quota:
  fixes N :: "('h, 't) noise"
  shows "st_pres sess_quota (SessionCore_write_close N C r h)"
  unfolding st_pres_def
proof (intro allI impI)
  fix s :: "('h, 't) SessionCore"
  assume inv: "sess_quota s"
  let ?h = "conservative_max (sc_handoff s) h"
  obtain p where p: "close_payload C r ?h = Inr p" using payloads_total(1) by blast
  then obtain pt where pt: "res_bind (complete_record Close p) Record_encode = Inr pt" "length pt = 19"
    using close_payload_length [OF p]
    by (auto simp: complete_record_def Record_encode_def RECORD_DATA_MAX_def Let_def u16_to_be_def u32_to_be_def)
  obtain v s' where t: "SessionCore_transport (encrypt_transport N pt) s = (v, s')" by fastforce
  have cts: "sess_counts s' = sess_counts s" using st_presD [OF counts_kept(1) refl t] .
  have q: "sess_quota s'" using st_presD [where P = sess_quota, OF transport_pres inv t] by simp
  have stop: "sess_quota (snd (st_error (record_limit_error_with_handoff N C ?h) s))"
    using record_limit_error_quota(1) [OF sess_quota_below [OF inv]]
    by (simp add: st_error_def case_prod_unfold Let_def)
  show "sess_quota (snd (SessionCore_write_close N C r h s))"
    using p pt t cts q stop inv
    by (cases v) (auto simp: SessionCore_write_close_def st_simps Let_def send_usage_eq set_sent_def
        sess_quota_def below_quota_def sess_counts_def SessionCore_end_def unat_word_ariths)
qed

lemma finish_handshake_quota: "st_pres sess_quota (SessionCore_finish_handshake N)"
  by (auto simp: st_pres_def SessionCore_finish_handshake_def Let_def split: option.splits)

lemma core_quota:
  "st_pres sess_quota (SessionCore_write_handshake N p)"
  "st_pres sess_quota (SessionCore_read_handshake N f)"
  "st_pres sess_quota (SessionCore_read_handshake_finish N f)"
  "st_pres sess_quota (SessionCore_write_finished N C role)"
  "st_pres sess_quota (SessionCore_read_finished N C f role)"
  "st_pres sess_quota (SessionCore_read_application N C f)"
  "st_pres sess_quota (SessionCore_read_close N C f)"
  unfolding SessionCore_write_handshake_def SessionCore_read_handshake_def SessionCore_read_handshake_finish_def
    SessionCore_write_finished_def SessionCore_write_record_def SessionCore_read_finished_def
    SessionCore_read_application_def SessionCore_read_close_def
  by (intro st_pres_rules handshake_pres reassemble_pres finish_handshake_quota encrypt_counted_quota
      decrypt_counted_quota; simp)+

lemma finish_result_quota: "st_pres sess_quota m \<Longrightarrow> st_pres sess_quota (SessionCore_finish_result m)"
  by (simp add: st_pres_def finish_result_simps)

lemma eof_quota: "st_pres sess_quota SessionCore_eof"
  by (simp add: st_pres_def SessionCore_eof_def case_prod_unfold Let_def)

lemma read_application_quota: "st_pres sess_quota (TargetSession_read_application N C f)"
proof -
  have "sess_quota (snd (TargetSession_read_application N C f s))"
    if "sess_quota (snd (SessionCore_read_application N C f s))" for s
    using that
    by (auto simp: TargetSession_read_application_def Let_def split: prod.splits sum.splits option.splits)
  then show ?thesis using core_quota(6) [of N f] by (simp add: st_pres_def)
qed

lemma confirm_quota: "st_pres sess_quota m \<Longrightarrow> st_pres sess_quota (confirm_handoff m)"
  unfolding confirm_handoff_def by (intro st_pres_rules) simp_all

lemmas session_quota_rules =
  answer_pres finish_result_quota confirm_quota core_quota write_application_quota write_close_quota
  eof_quota read_application_quota finish_handshake_quota validate_binding_pres st_pres_rules

lemma session_ops_quota:
  "st_pres sess_quota (target_session_op N C c)" "st_pres sess_quota (broker_session_op N C d)"
  by (cases c; simp add: target_session_defs; intro session_quota_rules; simp)
    (cases d; simp add: broker_session_defs; intro session_quota_rules; simp)

end

section \<open>Turns\<close>

text \<open>A completed inbound message is the peer's turn, a sealed outbound message the local one.\<close>

fun turn_of :: "error + session_answer \<Rightarrow> ApplicationTurn option" where
  "turn_of (Inr (S_message (Some m))) = Some Peer"
| "turn_of (Inr (S_frames fs)) = Some Local"
| "turn_of _ = None"

fun other_turn :: "ApplicationTurn \<Rightarrow> ApplicationTurn" where
  "other_turn Local = Peer"
| "other_turn Peer = Local"

primrec alternates :: "ApplicationTurn list \<Rightarrow> ApplicationTurn \<Rightarrow> bool" where
  "alternates [] t = True"
| "alternates (x # xs) t = (x = t \<and> alternates xs (other_turn t))"

definition turn :: "('h, 't) SessionCore \<Rightarrow> ApplicationTurn" where
  "turn s = (if sc_peer_turn s then Peer else Local)"

lemma turn_upd [simp]:
  "turn (s\<lparr>sc_transport := t\<rparr>) = turn s" "turn (s\<lparr>sc_handshake := h\<rparr>) = turn s"
  "turn (s\<lparr>sc_reassembly := rs\<rparr>) = turn s" "turn (s\<lparr>sc_session_hash := x\<rparr>) = turn s"
  "turn (s\<lparr>sc_sent_finished := b\<rparr>) = turn s" "turn (s\<lparr>sc_got_finished := b\<rparr>) = turn s"
  "turn (s\<lparr>sc_closed := b\<rparr>) = turn s" "turn (s\<lparr>sc_handoff := hf\<rparr>) = turn s"
  "turn (s\<lparr>sc_first_application := b\<rparr>) = turn s" "turn (s\<lparr>sc_sent_records := n\<rparr>) = turn s"
  "turn (s\<lparr>sc_sent_plaintext := n\<rparr>) = turn s" "turn (s\<lparr>sc_received_records := n\<rparr>) = turn s"
  "turn (s\<lparr>sc_received_plaintext := n\<rparr>) = turn s" "turn (SessionCore_end s) = turn s"
  "turn (s\<lparr>sc_peer_turn := b\<rparr>) = (if b then Peer else Local)"
  by (simp_all add: turn_def SessionCore_end_def)

lemma finish_handshake_turn: "st_keeps (\<lambda>s. turn s = t) (SessionCore_finish_handshake N)"
  by (auto simp: st_keeps_def SessionCore_finish_handshake_def Let_def split: option.splits)

lemma core_turn:
  "st_keeps (\<lambda>s. turn s = t) (SessionCore_write_handshake N p)"
  "st_keeps (\<lambda>s. turn s = t) (SessionCore_read_handshake N f)"
  "st_keeps (\<lambda>s. turn s = t) (SessionCore_read_handshake_finish N f)"
  "st_keeps (\<lambda>s. turn s = t) (decrypt_counted N C f)"
  "st_keeps (\<lambda>s. turn s = t) (SessionCore_write_finished N C role)"
  "st_keeps (\<lambda>s. turn s = t) (SessionCore_read_finished N C f role)"
  "st_keeps (\<lambda>s. turn s = t) (SessionCore_read_close N C f)"
  "st_keeps (\<lambda>s. turn s = t) (SessionCore_write_close N C r h)"
  unfolding session_core_defs Let_def set_sent_def
  by (intro st_keeps_rules st_error_keeps finish_handshake_turn st_pres_keeps [OF handshake_pres]
      st_pres_keeps [OF transport_pres]; simp)+

lemma write_application_turn:
  assumes "SessionCore_write_application N C p cap s = (Inr fs, s')"
  shows "turn s = Local \<and> turn s' = Peer"
  using assms
  by (auto simp: SessionCore_write_application_def st_simps st_error_def case_prod_unfold Let_def
      turn_def split: if_splits sum.splits option.splits prod.splits)

lemma read_application_turn:
  assumes "SessionCore_read_application N C f s = (Inr m, s')"
  shows "case m of None \<Rightarrow> turn s' = turn s | Some _ \<Rightarrow> turn s = Peer \<and> turn s' = Local"
proof -
  from assms obtain p s1 where d: "decrypt_counted N C f s = (Inr p, s1)"
    by (auto simp: SessionCore_read_application_def st_simps split: if_splits sum.splits prod.splits)
  have t: "turn s1 = turn s" using st_keepsD [OF core_turn(4) refl d] .
  with assms d show ?thesis
    by (auto simp: SessionCore_read_application_def SessionCore_reassemble_def st_simps turn_def
        split: if_splits sum.splits prod.splits option.splits)
qed

text \<open>An object that stops at an error and whose successful operations move a turn, except those that pass:
  the completed messages of a run alternate, beginning with the turn of the first state.\<close>

locale half_duplex = fail_stop op shut invar passes
  for op :: "'i \<Rightarrow> 's \<Rightarrow> (error + session_answer) \<times> 's" and shut invar passes +
  fixes whose :: "'s \<Rightarrow> ApplicationTurn"
  assumes moves: "invar s \<Longrightarrow> op i s = (Inr a, s') \<Longrightarrow>
    (case turn_of (Inr a) of None \<Rightarrow> whose s' = whose s | Some t \<Rightarrow> whose s = t \<and> whose s' = other_turn t)"
    and passes_quiet: "invar s \<Longrightarrow> passes i \<Longrightarrow> turn_of (fst (op i s)) = None"
begin

lemma shut_no_turn: "invar s \<Longrightarrow> shut s \<Longrightarrow> List.map_filter turn_of (fst (run op is s)) = []"
proof (induction "is" arbitrary: s)
  case (Cons i "is")
  have "turn_of (fst (op i s)) = None"
    using shut_rejects [OF Cons.prems, of i] passes_quiet [OF Cons.prems(1), of i]
    by (cases "passes i"; cases "fst (op i s)") simp_all
  with Cons show ?case by (simp add: List.map_filter_simps invar_op shut_stays)
qed (simp add: List.map_filter_simps)

lemma run_alternates: "invar s \<Longrightarrow> alternates (List.map_filter turn_of (fst (run op is s))) (whose s)"
proof (induction "is" arbitrary: s)
  case Nil
  then show ?case by (simp add: List.map_filter_simps)
next
  case (Cons i "is")
  obtain r s' where step: "op i s = (r, s')" by fastforce
  have inv: "invar s'" using invar_op [OF Cons.prems, of i] step by simp
  show ?case
  proof (cases r)
    case (Inl e)
    with step have "shut s'" using err_shuts [OF Cons.prems, of i] by simp
    with Inl step show ?thesis by (simp add: List.map_filter_simps shut_no_turn [OF inv])
  next
    case (Inr a)
    with step Cons.IH [OF inv] moves [OF Cons.prems, of i a s'] show ?thesis
      by (simp add: List.map_filter_simps split: option.splits)
  qed
qed

end

lemma answer_Inr: "answer f m s = (Inr a, s') \<longleftrightarrow> (\<exists>v. m s = (Inr v, s') \<and> a = f v)"
  by (cases "m s"; cases "fst (m s)") (auto simp: answer_def)

lemma finish_result_Inr: "SessionCore_finish_result m s = (Inr v, s') \<longleftrightarrow> m s = (Inr v, s')"
  by (auto simp: SessionCore_finish_result_def split: prod.splits)

lemma eof_is_err: "is_err (fst (SessionCore_eof s))"
  by (auto simp: SessionCore_eof_def case_prod_unfold Let_def res_bind_def split: sum.splits)

lemma eof_fails: "SessionCore_eof s \<noteq> (Inr v, s')"
  by (auto simp: SessionCore_eof_def case_prod_unfold Let_def res_bind_eq_Inr split: if_splits)

lemma confirm_handoff_Inr:
  "confirm_handoff m s = (Inr v, s') \<longleftrightarrow>
     (\<exists>s1. m s = (Inr v, s1) \<and> s' = s1\<lparr>sc_handoff := HandoffPossibleOrConfirmed\<rparr>)"
  by (auto simp: confirm_handoff_def st_simps split: prod.splits sum.splits)

lemma validate_binding_Inr: "SessionCore_validate_binding g e s = (Inr v, s') \<Longrightarrow> s' = s"
  by (simp add: validate_binding_cases split: if_splits)

lemma target_session_moves:
  assumes base: "sess_base s" and step: "target_session_op N C c s = (Inr a, s')"
  shows "case turn_of (Inr a) of None \<Rightarrow> turn s' = turn s | Some t \<Rightarrow> turn s = t \<and> turn s' = other_turn t"
proof (cases c)
  case (TS_read_application f)
  with step obtain m where m: "TargetSession_read_application N C f s = (Inr m, s')" "a = S_message m"
    by (auto simp: answer_Inr)
  have "sc_limits s = SessionLimits_default" using base by (simp add: sess_base_def)
  with m(1) show ?thesis
    by (cases rule: target_read_application_cases) (auto simp: m(2) dest!: read_application_turn)
next
  case (TS_write_application_response p)
  with step show ?thesis
    by (auto simp: answer_Inr target_session_defs finish_result_Inr st_simps dest: write_application_turn
        split: if_splits)
next
  case (TS_read_finished f)
  with step show ?thesis
    by (auto simp: answer_Inr target_session_defs finish_result_Inr st_simps
        dest: st_keepsD [OF core_turn(6) refl] split: if_splits)
qed (use step in \<open>auto simp: answer_Inr target_session_defs finish_result_Inr eof_fails
      dest: validate_binding_Inr core_turn [THEN st_keepsD, OF refl]\<close>)

lemma broker_session_moves:
  assumes step: "broker_session_op N C c s = (Inr a, s')"
  shows "case turn_of (Inr a) of None \<Rightarrow> turn s' = turn s | Some t \<Rightarrow> turn s = t \<and> turn s' = other_turn t"
proof (cases c)
  case (BS_read_application_response f)
  with step obtain m where m: "SessionCore_read_application N C f s = (Inr m, s')" "a = S_message m"
    by (auto simp: answer_Inr broker_session_defs finish_result_Inr)
  show ?thesis using read_application_turn [OF m(1)] by (auto simp: m(2) split: option.splits)
next
  case (BS_write_session_open p)
  with step show ?thesis
    by (auto simp: answer_Inr broker_session_defs finish_result_Inr confirm_handoff_Inr st_simps
        dest!: write_application_turn split: if_splits)
next
  case (BS_write_application_request p)
  with step show ?thesis
    by (auto simp: answer_Inr broker_session_defs finish_result_Inr confirm_handoff_Inr st_simps
        dest: write_application_turn split: if_splits)
next
  case (BS_read_m1_write_m2 f)
  have "st_keeps (\<lambda>s'. turn s' = turn s) (st_bind (SessionCore_read_handshake N f) (\<lambda>_.
      st_bind (SessionCore_write_handshake N []) (\<lambda>message.
      st_bind (SessionCore_finish_handshake N) (\<lambda>_. st_ok message))))"
    by (intro st_keeps_rules core_turn finish_handshake_turn)
  with BS_read_m1_write_m2 step show ?thesis
    by (auto simp: answer_Inr broker_session_defs finish_result_Inr
        dest: st_keepsD [where P = "\<lambda>s'. turn s' = turn s", OF _ refl])
next
  case BS_write_finished
  with step show ?thesis
    by (auto simp: answer_Inr broker_session_defs finish_result_Inr st_simps
        dest: st_keepsD [OF core_turn(5) refl] split: if_splits)
qed (use step in \<open>auto simp: answer_Inr broker_session_defs finish_result_Inr eof_fails
      dest: validate_binding_Inr core_turn [THEN st_keepsD, OF refl]\<close>)

interpretation target_turns:
  half_duplex "target_session_op N C" sess_shut "sess_bound b" "target_call_matches b" turn for N C b
  by unfold_locales (auto simp: sess_bound_def matching_call dest: target_session_moves)

interpretation broker_turns:
  half_duplex "broker_session_op N C" sess_shut "sess_bound b" "broker_call_matches b" turn for N C b
  by unfold_locales (auto simp: matching_call dest: broker_session_moves)

section \<open>Handoff\<close>

text \<open>Once a message was handed over the state says so for ever, and every close record written
  afterwards says so too.\<close>

abbreviation handed_off :: "('h, 't) SessionCore \<Rightarrow> bool" where
  "handed_off s \<equiv> sc_handoff s = HandoffPossibleOrConfirmed"

lemma frame_handoff: "(\<And>c. st_pres (\<lambda>s. sess_frame s = c) m) \<Longrightarrow> st_pres handed_off m"
  unfolding st_pres_def sess_frame_def by (metis prod.inject)

lemma finish_result_handoff: "st_pres handed_off m \<Longrightarrow> st_pres handed_off (SessionCore_finish_result m)"
  by (simp add: st_pres_def finish_result_simps)

lemma eof_handoff: "st_pres handed_off SessionCore_eof"
  by (simp add: st_pres_def SessionCore_eof_def case_prod_unfold Let_def)

lemma confirm_handoff_handoff: "st_pres handed_off m \<Longrightarrow> st_pres handed_off (confirm_handoff m)"
  unfolding confirm_handoff_def by (intro st_pres_rules) simp_all

lemma read_application_handoff: "st_pres handed_off (TargetSession_read_application N C f)"
proof -
  have "handed_off (snd (TargetSession_read_application N C f s))"
    if "handed_off (snd (SessionCore_read_application N C f s))" for s
    using that by (auto simp: TargetSession_read_application_def Let_def split: prod.splits sum.splits option.splits)
  then show ?thesis using frame_handoff [OF core_frame(7), of N C f] by (simp add: st_pres_def)
qed

lemmas session_handoff_rules =
  answer_pres finish_result_handoff confirm_handoff_handoff core_frame [THEN frame_handoff]
  finish_handshake_frame [THEN frame_handoff] eof_handoff read_application_handoff validate_binding_pres st_pres_rules

lemma session_ops_handoff:
  "st_pres handed_off (target_session_op N C c)" "st_pres handed_off (broker_session_op N C d)"
  by (cases c; simp add: target_session_defs; intro session_handoff_rules; simp)
    (cases d; simp add: broker_session_defs; intro session_handoff_rules; simp)

lemma target_message_handoff:
  assumes "sess_base s" "target_session_op N C c s = (Inr (S_message (Some m)), s')"
  shows "handed_off s'"
proof -
  from assms(2) obtain f where "TargetSession_read_application N C f s = (Inr (Some m), s')"
    by (cases c) (auto simp: answer_Inr)
  moreover have "sc_limits s = SessionLimits_default" using assms(1) by (simp add: sess_base_def)
  ultimately show ?thesis by (cases rule: target_read_application_cases) auto
qed

lemma target_run_handoff:
  assumes "sess_base s" "Inr (S_message (Some m)) \<in> set (fst (run (target_session_op N C) cs s))"
  shows "handed_off (snd (run (target_session_op N C) cs s))"
  using assms
proof (induction cs arbitrary: s)
  case (Cons c cs)
  have base: "sess_base (snd (target_session_op N C c s))"
    using target_session_base [OF Cons.prems(1)] .
  show ?case
  proof (cases "fst (target_session_op N C c s) = Inr (S_message (Some m))")
    case True
    then have "handed_off (snd (target_session_op N C c s))"
      using target_message_handoff [OF Cons.prems(1)] by (metis prod.collapse)
    then show ?thesis using run_pres [where P = handed_off, OF session_ops_handoff(1)] by simp
  next
    case False
    with Cons base show ?thesis by auto
  qed
qed simp

lemma write_close_Inr:
  assumes "SessionCore_write_close N C reason handoff s = (Inr frame, s')"
  obtains p plaintext t t' where "close_payload C reason (conservative_max (sc_handoff s) handoff) = Inr p"
    "res_bind (complete_record Close p) Record_encode = Inr plaintext" "sc_transport s = Some t"
    "encrypt_transport N plaintext t = (Inr frame, t')" "sc_closed s'"
  using assms
  by (auto simp: SessionCore_write_close_def SessionCore_transport_def SessionCore_end_def st_simps Let_def
      set_sent_def res_bind_eq_Inr
      split: if_splits sum.splits option.splits prod.splits)

section \<open>Properties\<close>

definition demo_target_session :: "(clear_hs, clear_tr) SessionCore" where
  "demo_target_session = projr (TargetSession_new clear_noise rfc_cbor [] demo_session_binding (replicate 32 9))"

text \<open>C7: Both views of a session are fail-closed. From a new session, in any sequence of calls the first error
  is final and at the end of the sequence the session is closed and its keys are dropped; in particular
  raising the inbound cap after the first message never fails and so never leaves a failed session open. The
  one call that a closed session still answers is \<^verbatim>\<open>validate_binding\<close> with the process generation and the
  listener epoch of its own binding; with any other values it is one of the errors.\<close>

theorem session_fail_closed:
  assumes "TargetSession_new N C e b pbs = Inr t" "BrokerSession_new N C e' b' pbs' = Inr br"
  shows "(i < j \<and> j < length cs \<and> is_err (fst (run (target_session_op N C) cs t) ! i) \<longrightarrow>
      is_err (fst (run (target_session_op N C) cs t) ! j) \<or>
      cs ! j = TS_validate_binding (sb_process_generation b) (sb_listener_epoch b)) \<and>
    (i < length cs \<and> is_err (fst (run (target_session_op N C) cs t) ! i) \<longrightarrow>
      sc_closed (snd (run (target_session_op N C) cs t)) \<and> sc_transport (snd (run (target_session_op N C) cs t)) = None) \<and>
    (i < j \<and> j < length ds \<and> is_err (fst (run (broker_session_op N C) ds br) ! i) \<longrightarrow>
      is_err (fst (run (broker_session_op N C) ds br) ! j) \<or>
      ds ! j = BS_validate_binding (sb_process_generation b') (sb_listener_epoch b')) \<and>
    (i < length ds \<and> is_err (fst (run (broker_session_op N C) ds br) ! i) \<longrightarrow>
      sc_closed (snd (run (broker_session_op N C) ds br)) \<and> sc_transport (snd (run (broker_session_op N C) ds br)) = None)"
proof -
  have bound: "sess_bound b t" "sess_bound b' br"
    using new_session_bound(1) [OF assms(1)] new_session_bound(2) [OF assms(2)] by blast+
  have "target_call_matches b c \<Longrightarrow> c = TS_validate_binding (sb_process_generation b) (sb_listener_epoch b)"
    "broker_call_matches b' d \<Longrightarrow> d = BS_validate_binding (sb_process_generation b') (sb_listener_epoch b')" for c d
    by (cases c; simp) (cases d; simp)
  with target_session.run_first_error_final [OF bound(1), of i j cs N C]
    target_session.run_error_shuts [OF bound(1), of i cs N C]
    broker_session.run_first_error_final [OF bound(2), of i j ds N C]
    broker_session.run_error_shuts [OF bound(2), of i ds N C]
  show ?thesis by (intro conjI) blast+
qed

lemma new_session_quota: "TargetSession_new N C e b pbs = Inr s \<Longrightarrow> sess_quota s"
  by (auto simp: TargetSession_new_def SessionCore_new_def sess_quota_def below_quota_def sess_close_room_def
      elim!: res_bindE split: if_splits)

lemma demo_session_new:
  "TargetSession_new clear_noise rfc_cbor [] demo_session_binding (replicate 32 9) = Inr demo_target_session"
  "\<exists>br. BrokerSession_new clear_noise rfc_cbor [] demo_session_binding (replicate 32 9) =
     Inr (br :: (clear_hs, clear_tr) SessionCore)"
proof -
  obtain pro where pro: "session_prologue rfc_cbor demo_session_binding SessionLimits_default = Inr pro"
    by (auto simp: session_prologue_def rfc.put_laws rfc.Encoder_run_laws demo_session_binding_def ascii_def
        SessionBinding_valid_def)
  then show "TargetSession_new clear_noise rfc_cbor [] demo_session_binding (replicate 32 9) = Inr demo_target_session"
    "\<exists>br. BrokerSession_new clear_noise rfc_cbor [] demo_session_binding (replicate 32 9) =
       Inr (br :: (clear_hs, clear_tr) SessionCore)"
    by (simp_all add: demo_target_session_def TargetSession_new_def BrokerSession_new_def SessionCore_new_def
        clear_noise_def RecordReassembler_new_def SessionLimits_default_def)
qed

theorem session_fail_closed_witness:
  "is_err (fst (run (target_session_op clear_noise rfc_cbor) [TS_validate_binding 0 0, TS_write_m1] demo_target_session) ! 1) \<and>
   sc_closed (snd (run (target_session_op clear_noise rfc_cbor) [TS_validate_binding 0 0, TS_write_m1] demo_target_session))"
proof -
  obtain br :: "(clear_hs, clear_tr) SessionCore"
    where br: "BrokerSession_new clear_noise rfc_cbor [] demo_session_binding (replicate 32 9) = Inr br"
    using demo_session_new(2) by blast
  have "sc_binding demo_target_session = demo_session_binding"
    using new_session_bound(1) [OF demo_session_new(1)] by (simp add: sess_bound_def)
  then have "is_err (fst (run (target_session_op clear_noise rfc_cbor)
      [TS_validate_binding 0 0, TS_write_m1] demo_target_session) ! 0)"
    by (simp add: target_session_defs validate_binding_cases demo_session_binding_def)
  then show ?thesis
    using session_fail_closed [OF demo_session_new(1) br, of 0 1 "[TS_validate_binding 0 0, TS_write_m1]" "[]"] by simp
qed

text \<open>C8: No protocol call of either view exceeds the record and byte quotas in either direction, and an open
  session always has room for one more nineteen-byte record, the close that announces an exhausted quota.\<close>

theorem session_quota_kept:
  assumes "minicbor C" "sess_quota s"
  shows "sess_quota (snd (run (target_session_op N C) cs s)) \<and> sess_quota (snd (run (broker_session_op N C) ds s))"
  using run_pres [where P = sess_quota and f = "target_session_op N C", OF minicbor.session_ops_quota(1) [OF assms(1)] assms(2)]
    run_pres [where P = sess_quota and f = "broker_session_op N C", OF minicbor.session_ops_quota(2) [OF assms(1)] assms(2)] by blast

theorem session_quota_kept_witness:
  "sess_quota (snd (run (target_session_op clear_noise rfc_cbor) [TS_write_m1, TS_read_m2 [0, 1, 1]] demo_target_session))"
proof -
  have "sess_quota demo_target_session"
    using new_session_quota [OF demo_session_new(1)] .
  from session_quota_kept [OF rfc.minicbor_axioms this] show ?thesis by blast
qed

text \<open>C22: Application messages alternate. In any sequence of protocol calls, the completed inbound messages and
  the sealed outbound messages of a Target take turns beginning with an inbound one, those of a Broker
  beginning with an outbound one: the half-duplex discipline of \<^verbatim>\<open>HalfDuplex\<close>.\<close>

theorem session_messages_alternate:
  assumes "TargetSession_new N C e b pbs = Inr t" "BrokerSession_new N C e' b' pbs' = Inr br"
  shows "alternates (List.map_filter turn_of (fst (run (target_session_op N C) cs t))) Peer \<and>
    alternates (List.map_filter turn_of (fst (run (broker_session_op N C) ds br))) Local"
proof -
  have bound: "sess_bound b t" "sess_bound b' br"
    using new_session_bound(1) [OF assms(1)] new_session_bound(2) [OF assms(2)] by blast+
  have "turn t = Peer" "turn br = Local"
    using assms by (auto simp: TargetSession_new_def BrokerSession_new_def SessionCore_new_def turn_def
        elim!: res_bindE split: if_splits)
  with target_turns.run_alternates [OF bound(1), of N C cs] broker_turns.run_alternates [OF bound(2), of N C ds]
  show ?thesis by simp
qed

theorem session_messages_alternate_witness:
  "alternates (List.map_filter turn_of (fst (run (target_session_op clear_noise rfc_cbor)
     [TS_write_m1, TS_write_application_response [1]] demo_target_session))) Peer"
proof -
  obtain br :: "(clear_hs, clear_tr) SessionCore"
    where br: "BrokerSession_new clear_noise rfc_cbor [] demo_session_binding (replicate 32 9) = Inr br"
    using demo_session_new(2) by blast
  from session_messages_alternate [OF demo_session_new(1) br] show ?thesis by blast
qed

end
