(* ===== verification/Session_Link.thy ===== *)
theory Session_Link
  imports Session
begin

text \<open>
  Two ends of one session. Over a Noise library and a CBOR codec that satisfy their interfaces, the
  handshake and the Finished exchange of \<^verbatim>\<open>TargetSession\<close> and \<^verbatim>\<open>BrokerSession\<close> complete, and an
  application message written at one end, fragmented, sealed and sent frame by frame, is read at the
  other end as the bytes it was.
\<close>

section \<open>Two linked ends\<close>

text \<open>\<open>opens N ps fs t t'\<close>: the frames \<open>fs\<close>, opened in order from the transport state \<open>t\<close>, give the
  plaintexts \<open>ps\<close> and end in \<open>t'\<close>.\<close>

fun opens :: "('h, 't) noise \<Rightarrow> bytes list \<Rightarrow> bytes list \<Rightarrow> 't \<Rightarrow> 't \<Rightarrow> bool" where
  "opens N [] [] t t' \<longleftrightarrow> t = t'"
| "opens N (p # ps) (f # fs) t t' \<longleftrightarrow> (\<exists>t1. decrypt_transport N f t = (Inr p, t1) \<and> opens N ps fs t1 t')"
| "opens N _ _ t t' \<longleftrightarrow> False"

lemma opens_length: "opens N ps fs t t' \<Longrightarrow> length fs = length ps"
  by (induction N ps fs t t' rule: opens.induct) auto

text \<open>What the quotas charge for a list of plaintexts.\<close>

definition weight :: "bytes list \<Rightarrow> nat" where
  "weight ps = (\<Sum>p\<leftarrow>ps. length p)"

lemma weight_simps [simp]: "weight [] = 0" "weight (p # ps) = length p + weight ps"
  by (simp_all add: weight_def)

lemma message_bytes_eq: "weight ps < 2 ^ 64 \<Longrightarrow> message_bytes ps = Some (of_nat (weight ps))"
proof (induction ps rule: rev_induct)
  case Nil
  then show ?case by (simp add: message_bytes_def)
next
  case (snoc p ps)
  then have w: "weight ps + length p < 2 ^ 64" and m: "message_bytes ps = Some (of_nat (weight ps))"
    by (simp_all add: weight_def)
  have "unat (of_nat (weight ps) :: u64) = weight ps" "unat (of_nat (length p) :: u64) = length p"
    using w by (simp_all add: unat_of_nat)
  with m w show ?case by (simp add: message_bytes_def checked_add_def weight_def)
qed

text \<open>The receiving state after a run of records.\<close>

definition sess_received ::
    "('h, 't) SessionCore \<Rightarrow> 't \<Rightarrow> RecordReassembler \<Rightarrow> bytes list \<Rightarrow> ('h, 't) SessionCore" where
  "sess_received s t rs ps = s\<lparr>sc_transport := Some t, sc_reassembly := rs,
     sc_received_records := sc_received_records s + of_nat (length ps),
     sc_received_plaintext := sc_received_plaintext s + of_nat (weight ps)\<rparr>"

lemma decrypt_counted_opens:
  assumes "\<not> sc_closed s" "sc_transport s = Some t" "decrypt_transport N f t = (Inr p, t')"
    "unat (sc_received_records s) + 1 < 2 ^ 32" "unat (sc_received_plaintext s) + length p < 2 ^ 40"
  shows "decrypt_counted N C f s = (Inr p, sess_received s t' (sc_reassembly s) [p])"
proof -
  have "unat (of_nat (length p) :: u64) = length p" using assms(5) by (simp add: unat_of_nat)
  then show ?thesis
    using assms unat_charge [OF assms(5)] unat_charge [of "sc_received_records s" 1]
    by (simp add: decrypt_counted_def SessionCore_transport_def st_simps Let_def sess_received_def word_le_nat_alt)
qed

lemma read_application_step:
  assumes "sc_sent_finished s" "sc_got_finished s" "sc_peer_turn s"
    "decrypt_counted N C f s = (Inr p, sess_received s t' (sc_reassembly s) [p])"
    "Record_decode p = Inr r" "rec_kind r = Application"
    "RecordReassembler_accept C r (sc_reassembly s) = (Inr m, rs)"
    "\<And>k d. m = Some (k, d) \<Longrightarrow> d \<noteq> []"
  shows "SessionCore_read_application N C f s = (Inr (map_option snd m),
    (sess_received s t' rs [p])\<lparr>sc_peer_turn := (m = None)\<rparr>)"
  using assms
  by (cases s; cases m) (auto simp: SessionCore_read_application_def SessionCore_reassemble_def st_simps sess_received_def)

lemma sess_received_append:
  "(sess_received ((sess_received s t rs [p])\<lparr>sc_peer_turn := b\<rparr>) t' rs' ps)\<lparr>sc_peer_turn := b'\<rparr> =
     (sess_received s t' rs' (p # ps))\<lparr>sc_peer_turn := b'\<rparr>"
  by (simp add: sess_received_def algebra_simps)

lemma read_run:
  assumes "run (RecordReassembler_accept C) rs (sc_reassembly s) =
      (replicate (length rs - 1) (Inr None) @ [Inr (Some (Application, payload))], rr')"
    "list_all2 (\<lambda>r p. Record_encode r = Inr p) rs ps" "\<forall>r \<in> set rs. rec_kind r = Application"
    "opens N ps fs t t'" "rs \<noteq> []" "payload \<noteq> []" "\<not> sc_closed s" "sc_transport s = Some t"
    "sc_sent_finished s" "sc_got_finished s" "sc_peer_turn s"
    "unat (sc_received_records s) + length ps < 2 ^ 32" "unat (sc_received_plaintext s) + weight ps < 2 ^ 40"
  shows "run (SessionCore_read_application N C) fs s =
    (replicate (length rs - 1) (Inr None) @ [Inr (Some payload)],
     (sess_received s t' rr' ps)\<lparr>sc_peer_turn := False\<rparr>)"
  using assms
proof (induction rs arbitrary: s ps fs t)
  case Nil
  then show ?case by simp
next
  case (Cons r rs)
  from Cons.prems(2) obtain p ps' where ps: "ps = p # ps'" and enc: "Record_encode r = Inr p"
    and rest: "list_all2 (\<lambda>r p. Record_encode r = Inr p) rs ps'"
    by (auto simp: list_all2_Cons1)
  from Cons.prems(4) ps obtain f fs' t1 where fs: "fs = f # fs'"
    and dec: "decrypt_transport N f t = (Inr p, t1)" and op: "opens N ps' fs' t1 t'"
    by (cases fs) auto
  have kind: "rec_kind r = Application" "Record_decode p = Inr r"
    using Cons.prems(3) rec_codec.dec_of_enc [OF TrueI enc] by simp_all
  have d: "decrypt_counted N C f s = (Inr p, sess_received s t1 (sc_reassembly s) [p])"
    using Cons.prems(7,8,12,13) dec ps by (intro decrypt_counted_opens) simp_all
  note step = read_application_step [OF Cons.prems(9-11) d kind(2) kind(1)]
  show ?case
  proof (cases "rs = []")
    case True
    with rest op ps fs have "ps' = []" "fs' = []" "t1 = t'" by (auto dest: opens_length elim: opens.elims)
    moreover have "RecordReassembler_accept C r (sc_reassembly s) = (Inr (Some (Application, payload)), rr')"
      using Cons.prems(1) True by (simp add: prod_eq_iff)
    ultimately show ?thesis using step [of "Some (Application, payload)" rr'] Cons.prems(6) fs ps True by simp
  next
    case False
    then obtain k where k: "length rs = Suc k" by (cases rs) auto
    obtain x rr1 where acc: "RecordReassembler_accept C r (sc_reassembly s) = (x, rr1)" by fastforce
    with Cons.prems(1) k have x: "x = Inr None"
      and run: "run (RecordReassembler_accept C) rs rr1 =
        (replicate (length rs - 1) (Inr None) @ [Inr (Some (Application, payload))], rr')"
      by (auto simp: prod_eq_iff)
    let ?s = "(sess_received s t1 rr1 [p])\<lparr>sc_peer_turn := True\<rparr>"
    have one: "SessionCore_read_application N C f s = (Inr None, ?s)"
      using step [of None rr1] acc x by simp
    have q: "unat (sc_received_records ?s) + length ps' < 2 ^ 32" "unat (sc_received_plaintext ?s) + weight ps' < 2 ^ 40"
      using Cons.prems(12,13) ps unat_charge [of "sc_received_records s" 1]
        unat_charge [of "sc_received_plaintext s" "length p"] by (simp_all add: sess_received_def)
    have "run (SessionCore_read_application N C) fs' ?s =
        (replicate (length rs - 1) (Inr None) @ [Inr (Some payload)],
         (sess_received ?s t' rr' ps')\<lparr>sc_peer_turn := False\<rparr>)"
      using Cons.prems(3,6-10) run rest op False q
      by (intro Cons.IH) (simp_all add: sess_received_def)
    with one fs ps k show ?thesis by (simp add: sess_received_append)
  qed
qed

text \<open>A view that passes partial results through behaves as the core up to the last frame.\<close>

lemma run_wrapped:
  assumes core: "run m fs s = (replicate (length fs - 1) (Inr None) @ [Inr (Some x)], s')" and "fs \<noteq> []"
    and pass: "\<And>f s s'. m f s = (Inr None, s') \<Longrightarrow> w f s = (Inr None, s')"
  obtains f s1 where "m f s1 = (Inr (Some x), s')"
    "run w fs s = (replicate (length fs - 1) (Inr None) @ [fst (w f s1)], snd (w f s1))"
  using core \<open>fs \<noteq> []\<close>
proof (induction fs arbitrary: s thesis)
  case (Cons f fs)
  show ?case
  proof (cases "fs = []")
    case True
    with Cons.prems(2) have "m f s = (Inr (Some x), s')" by (simp add: prod_eq_iff)
    with True Cons.prems(1) [of f s] show ?thesis by (simp add: prod_eq_iff)
  next
    case False
    then obtain k where k: "length fs = Suc k" by (cases fs) auto
    obtain r s2 where step: "m f s = (r, s2)" by fastforce
    with Cons.prems(2) k have "r = Inr None"
      and run: "run m fs s2 = (replicate (length fs - 1) (Inr None) @ [Inr (Some x)], s')"
      by (auto simp: prod_eq_iff)
    with step have w: "w f s = (Inr None, s2)" using pass by simp
    obtain f' s1 where "m f' s1 = (Inr (Some x), s')"
      "run w fs s2 = (replicate (length fs - 1) (Inr None) @ [fst (w f' s1)], snd (w f' s1))"
      using Cons.IH [OF _ run False] by blast
    with w k show ?thesis by (intro Cons.prems(1)) simp_all
  qed
qed simp

text \<open>The two ends of one confirmed session: open, both Finished records exchanged, transports and counters
  mirroring each other, and reassemblers that have charged no more than what was received.\<close>

definition sess_linked ::
    "(nat \<Rightarrow> 't \<Rightarrow> 't \<Rightarrow> bool) \<Rightarrow> ('h, 't) SessionCore \<Rightarrow> ('h, 't) SessionCore \<Rightarrow> bool" where
  "sess_linked chan a b \<longleftrightarrow> \<not> sc_closed a \<and> \<not> sc_closed b \<and>
     (\<exists>ta tb. sc_transport a = Some ta \<and> sc_transport b = Some tb \<and>
        chan (unat (sc_sent_records a)) ta tb \<and> chan (unat (sc_sent_records b)) tb ta) \<and>
     sc_received_records b = sc_sent_records a \<and> sc_received_plaintext b = sc_sent_plaintext a \<and>
     sc_received_records a = sc_sent_records b \<and> sc_received_plaintext a = sc_sent_plaintext b"

definition sess_idle :: "('h, 't) SessionCore \<Rightarrow> bool" where
  "sess_idle s \<longleftrightarrow> sc_sent_finished s \<and> sc_got_finished s \<and> sc_limits s = SessionLimits_default \<and>
     rr_active (sc_reassembly s) = None \<and> \<not> rr_failed (sc_reassembly s) \<and>
     unat (rr_records (sc_reassembly s)) \<le> unat (sc_received_records s) \<and>
     unat (rr_bytes (sc_reassembly s)) \<le> unat (sc_received_plaintext s)"

text \<open>Room for a message of \<open>n\<close> bytes: at most \<open>n\<close> records of at most twelve bytes more than their data.\<close>

definition sess_spare :: "nat \<Rightarrow> ('h, 't) SessionCore \<Rightarrow> bool" where
  "sess_spare n s \<longleftrightarrow>
     unat (sc_sent_records s) + n + 1 < 2 ^ 32 \<and> unat (sc_sent_plaintext s) + 13 * n + 19 < 2 ^ 40"

lemma sess_linked_sym: "sess_linked chan a b \<Longrightarrow> sess_linked chan b a"
  by (auto simp: sess_linked_def)

definition sess_sent :: "('h, 't) SessionCore \<Rightarrow> 't \<Rightarrow> bytes list \<Rightarrow> ('h, 't) SessionCore" where
  "sess_sent s t ps = s\<lparr>sc_transport := Some t, sc_sent_records := sc_sent_records s + of_nat (length ps),
     sc_sent_plaintext := sc_sent_plaintext s + of_nat (weight ps)\<rparr>"

lemma fragment_weights:
  assumes "list_all2 (\<lambda>r b. Record_encode r = Inr b) (fragment_list kind tlen i cs) ps"
  shows "length ps = length cs" "weight ps = (\<Sum>d\<leftarrow>cs. RECORD_HEADER_LEN + length d)"
    "\<forall>p \<in> set ps. length p \<le> 65519"
  using assms
proof (induction cs arbitrary: i ps)
  case (Cons c cs)
  { case 1 then show ?case using Cons(1) by (auto simp: list_all2_Cons1) }
  { case 2 then show ?case using Cons(2)
      by (auto simp: list_all2_Cons1 RECORD_HEADER_LEN_def dest!: Record_encode_length) }
  { case 3 then show ?case using Cons(3) by (auto simp: list_all2_Cons1 dest!: Record_encode_length) }
qed (auto)

lemma fragment_list_kind: "r \<in> set (fragment_list kind tlen i cs) \<Longrightarrow> rec_kind r = kind"
  by (auto simp: fragment_list_def)

lemma accept_counts:
  assumes "RecordReassembler_accept C r rs = (Inr m, rs')" "length (rec_data r) \<le> 65507"
  shows "unat (rr_records rs') = unat (rr_records rs) + 1"
    "unat (rr_bytes rs') = unat (rr_bytes rs) + (12 + length (rec_data r))"
proof -
  have n: "unat (of_nat (RECORD_HEADER_LEN + length (rec_data r)) :: u64) = 12 + length (rec_data r)"
    using assms(2) by (simp add: unat_of_nat RECORD_HEADER_LEN_def del: of_nat_add)
  from assms(1) obtain v w where v: "checked_add (rr_records rs) 1 = Some v"
    and w: "checked_add (rr_bytes rs) (of_nat (RECORD_HEADER_LEN + length (rec_data r))) = Some w"
    and eq: "rr_records rs' = v" "rr_bytes rs' = w"
    by (auto simp: RecordReassembler_accept_def accept_body_def accept_start_def accept_continue_def Let_def
        split: option.splits if_splits)
  show "unat (rr_records rs') = unat (rr_records rs) + 1"
    "unat (rr_bytes rs') = unat (rr_bytes rs) + (12 + length (rec_data r))"
    using checked_add_SomeD [OF v] checked_add_SomeD [OF w] n eq by simp_all
qed

lemma run_accept_counts:
  assumes "run (RecordReassembler_accept C) rs s = (ans, s')" "list_all (\<lambda>x. \<not> is_err x) ans"
    "\<forall>r \<in> set rs. length (rec_data r) \<le> 65507"
  shows "unat (rr_records s') = unat (rr_records s) + length rs"
    "unat (rr_bytes s') = unat (rr_bytes s) + (\<Sum>r\<leftarrow>rs. 12 + length (rec_data r))"
proof -
  have "unat (rr_records s') = unat (rr_records s) + length rs \<and>
      unat (rr_bytes s') = unat (rr_bytes s) + (\<Sum>r\<leftarrow>rs. 12 + length (rec_data r))"
    using assms
  proof (induction rs arbitrary: s ans)
    case (Cons r rs)
    obtain x s1 where step: "RecordReassembler_accept C r s = (x, s1)" by fastforce
    with Cons.prems obtain m where m: "x = Inr m" by (cases x) auto
    obtain ans' where run: "run (RecordReassembler_accept C) rs s1 = (ans', s')" "ans = x # ans'"
      using Cons.prems(1) step by (auto simp: prod_eq_iff)
    have "unat (rr_records s') = unat (rr_records s1) + length rs \<and>
        unat (rr_bytes s') = unat (rr_bytes s1) + (\<Sum>r\<leftarrow>rs. 12 + length (rec_data r))"
      using Cons.prems(2,3) run by (intro Cons.IH [OF run(1)]) auto
    with accept_counts [of C r s m s1] step m Cons.prems(3) show ?case by simp
  qed simp
  then show "unat (rr_records s') = unat (rr_records s) + length rs"
    "unat (rr_bytes s') = unat (rr_bytes s) + (\<Sum>r\<leftarrow>rs. 12 + length (rec_data r))" by blast+
qed

lemma chunks_bound: "0 < n \<Longrightarrow> c \<in> set (chunks n xs) \<Longrightarrow> length c \<le> n"
proof (induction n xs rule: chunks.induct)
  case (1 n xs)
  then show ?case by (cases "xs = []") (auto simp: chunks_step)
qed

lemma fragment_list_data: "map rec_data (fragment_list kind tlen i cs) = cs"
  by (induction cs arbitrary: i) simp_all

text \<open>A session at its start: confirmed, the Broker to speak, nothing said yet.\<close>

definition session_ready ::
    "(nat \<Rightarrow> 't \<Rightarrow> 't \<Rightarrow> bool) \<Rightarrow> ('h, 't) SessionCore \<Rightarrow> ('h, 't) SessionCore \<Rightarrow> bool" where
  "session_ready chan br tg \<longleftrightarrow> sess_linked chan br tg \<and> sess_idle br \<and> sess_idle tg \<and>
     \<not> sc_peer_turn br \<and> sc_peer_turn tg \<and> \<not> sc_first_application br \<and> \<not> sc_first_application tg \<and>
     rr_cap (sc_reassembly br) = sl_response_bytes SessionLimits_default \<and>
     rr_cap (sc_reassembly tg) = sl_first_open_bytes SessionLimits_default \<and>
     sess_spare (2 ^ 26) br \<and> sess_spare (2 ^ 26) tg"

context protected_link
begin

lemma frames_delivered:
  assumes "\<not> sc_closed a" "sc_transport a = Some ta" "chan n ta tb" "chan m tb ta"
    "n + length ps < 2 ^ 64" "\<forall>p \<in> set ps. length p \<le> 65519"
  obtains fs ta' tb' where "encrypt_frames N ps a = (Inr fs, a\<lparr>sc_transport := Some ta'\<rparr>)"
    "opens N ps fs tb tb'" "chan (n + length ps) ta' tb'" "chan m tb' ta'"
  using assms
proof (induction ps arbitrary: a ta tb n thesis)
  case Nil
  then show ?case by (cases a) (auto simp: st_simps)
next
  case (Cons p ps)
  have "n < 2 ^ 64 - 1" "length p \<le> 65519" using Cons.prems(6,7) by simp_all
  from transport_delivers [OF Cons.prems(4,5) this] obtain f ta1 tb1 where
    e: "encrypt_transport N p ta = (Inr f, ta1)" and d: "decrypt_transport N f tb = (Inr p, tb1)"
    and ch: "chan (Suc n) ta1 tb1" "chan m tb1 ta1" .
  let ?a = "a\<lparr>sc_transport := Some ta1\<rparr>"
  obtain fs ta' tb' where "encrypt_frames N ps ?a = (Inr fs, ?a\<lparr>sc_transport := Some ta'\<rparr>)"
    "opens N ps fs tb1 tb'" "chan (Suc n + length ps) ta' tb'" "chan m tb' ta'"
    using Cons.IH [of ?a tb1 "Suc n" _ ta1] Cons.prems(2,6,7) ch by auto
  with e d Cons.prems(2,3) show ?case
    by (intro Cons.prems(1) [of "f # fs" ta' tb']) (auto simp: SessionCore_transport_def st_simps)
qed

lemma message_delivered:
  assumes link: "sess_linked chan a b" and idle: "sess_idle a" "sess_idle b"
    and turns: "\<not> sc_peer_turn a" "sc_peer_turn b"
    and payload: "payload \<noteq> []" "length payload \<le> cap" "cap < 2 ^ 32" "length payload \<le> rr_cap (sc_reassembly b)"
    and spare: "sess_spare (length payload) a"
  obtains fs ta tb ps rs where
    "SessionCore_write_application N C payload cap a = (Inr fs, (sess_sent a ta ps)\<lparr>sc_peer_turn := True\<rparr>)"
    "run (SessionCore_read_application N C) fs b = (replicate (length fs - 1) (Inr None) @ [Inr (Some payload)],
       (sess_received b tb rs ps)\<lparr>sc_peer_turn := False\<rparr>)" "fs \<noteq> []"
    "sess_linked chan ((sess_sent a ta ps)\<lparr>sc_peer_turn := True\<rparr>) ((sess_received b tb rs ps)\<lparr>sc_peer_turn := False\<rparr>)"
    "sess_idle ((sess_sent a ta ps)\<lparr>sc_peer_turn := True\<rparr>)" "sess_idle ((sess_received b tb rs ps)\<lparr>sc_peer_turn := False\<rparr>)"
    "rr_cap rs = rr_cap (sc_reassembly b)"
proof -
  define cs where "cs = chunks RECORD_DATA_MAX payload"
  define recs where "recs = fragment_list Application (length payload) 0 cs"
  have len: "length payload < 2 ^ 32" using payload by linarith
  obtain ps where frag: "fragment_records Application payload = Inr ps"
    and enc: "list_all2 (\<lambda>r b. Record_encode r = Inr b) recs ps"
    using fragment_records_Inr [OF payload(1) len] unfolding recs_def cs_def by blast
  have k: "length cs \<le> length payload" "concat cs = payload" "cs \<noteq> []"
    using length_chunks_le [of RECORD_DATA_MAX payload] concat_chunks [of RECORD_DATA_MAX payload] payload(1)
    by (auto simp: cs_def RECORD_DATA_MAX_def chunks_eq_Nil)
  have w: "length ps = length cs" "weight ps = 12 * length cs + length payload" "\<forall>p \<in> set ps. length p \<le> 65519"
    using fragment_weights [OF enc [unfolded recs_def]] sum_header [of cs] k(2) by simp_all
  have wle: "weight ps \<le> 13 * length payload" using w(2) k(1) by simp
  from link obtain ta tb where live: "\<not> sc_closed a" "\<not> sc_closed b" and t: "sc_transport a = Some ta" "sc_transport b = Some tb"
    and ch: "chan (unat (sc_sent_records a)) ta tb" "chan (unat (sc_sent_records b)) tb ta"
    and rcv: "sc_received_records b = sc_sent_records a" "sc_received_plaintext b = sc_sent_plaintext a"
    by (auto simp: sess_linked_def)
  have q: "unat (sc_sent_records a) + length ps + 1 < 2 ^ 32" "unat (sc_sent_plaintext a) + weight ps + 19 < 2 ^ 40"
    using spare wle w(1) k(1) by (simp_all add: sess_spare_def)
  obtain fs ta' tb' where enc_fs: "encrypt_frames N ps a = (Inr fs, a\<lparr>sc_transport := Some ta'\<rparr>)"
    and opn: "opens N ps fs tb tb'" and ch': "chan (unat (sc_sent_records a) + length ps) ta' tb'"
      "chan (unat (sc_sent_records b)) tb' ta'"
    using frames_delivered [OF live(1) t(1) ch _ w(3)] q(1) by auto
  have nat64: "unat (of_nat (length ps) :: u64) = length ps" "unat (of_nat (weight ps) :: u64) = weight ps"
    using q by (simp_all add: unat_of_nat)
  have wr: "SessionCore_write_application N C payload cap a = (Inr fs, (sess_sent a ta' ps)\<lparr>sc_peer_turn := True\<rparr>)"
    using idle(1) turns(1) payload frag enc_fs q nat64
    by (simp add: SessionCore_write_application_def sess_idle_def st_simps message_bytes_eq send_usage_eq set_sent_def
        sess_sent_def)
  have "in_budget (sc_reassembly b) cs"
    using q idle(2) w rcv sum_header [of cs] k(2) by (simp add: in_budget_def sess_idle_def)
  then obtain rs where acc: "run (RecordReassembler_accept C) recs (sc_reassembly b) =
      (replicate (length cs - 1) (Inr None) @ [Inr (Some (Application, payload))], rs)"
    and rs: "rr_active rs = None" "\<not> rr_failed rs" "rr_cap rs = rr_cap (sc_reassembly b)"
    using accept_fragments [of "sc_reassembly b" payload Application cs C] idle(2) payload(1,4) len
    unfolding recs_def sess_idle_def by (auto simp: cs_def)
  have lens: "length recs = length cs" "length fs = length cs" "recs \<noteq> []"
    using opens_length [OF opn] w(1) k(3) by (cases cs; simp add: recs_def)+
  have rd: "run (SessionCore_read_application N C) fs b = (replicate (length fs - 1) (Inr None) @ [Inr (Some payload)],
       (sess_received b tb' rs ps)\<lparr>sc_peer_turn := False\<rparr>)"
    using read_run [of C recs b payload rs ps N fs tb tb'] acc enc opn lens payload(1) live(2) t(2) idle(2) turns(2) q rcv
    by (auto simp: sess_idle_def recs_def dest: fragment_list_kind)
  have data: "(\<Sum>r\<leftarrow>recs. 12 + length (rec_data r)) = weight ps" "\<forall>r \<in> set recs. length (rec_data r) \<le> 65507"
  proof -
    have "(\<Sum>r\<leftarrow>recs. 12 + length (rec_data r)) = (\<Sum>d\<leftarrow>map rec_data recs. RECORD_HEADER_LEN + length d)"
      by (simp add: RECORD_HEADER_LEN_def o_def)
    then show "(\<Sum>r\<leftarrow>recs. 12 + length (rec_data r)) = weight ps"
      using sum_header [of cs] w(2) k(2) by (simp add: recs_def fragment_list_data)
    have "rec_data ` set recs = set cs" using fragment_list_data unfolding recs_def by (metis set_map)
    then show "\<forall>r \<in> set recs. length (rec_data r) \<le> 65507"
      using chunks_bound [of RECORD_DATA_MAX _ payload] by (auto simp: cs_def RECORD_DATA_MAX_def)
  qed
  have counts: "unat (rr_records rs) = unat (rr_records (sc_reassembly b)) + length ps"
    "unat (rr_bytes rs) = unat (rr_bytes (sc_reassembly b)) + weight ps"
    using run_accept_counts [OF acc _ data(2)] data(1) lens(1) w(1) by (simp_all add: list_all_iff)
  have sums: "unat (sc_sent_records a + of_nat (length ps)) = unat (sc_sent_records a) + length ps"
    "unat (sc_sent_plaintext a + of_nat (weight ps)) = unat (sc_sent_plaintext a) + weight ps"
    using q nat64 by (simp_all add: unat_word_ariths)
  show ?thesis
  proof (rule that [OF wr rd])
    show "fs \<noteq> []" using lens by auto
    show "sess_linked chan ((sess_sent a ta' ps)\<lparr>sc_peer_turn := True\<rparr>) ((sess_received b tb' rs ps)\<lparr>sc_peer_turn := False\<rparr>)"
      using link ch' sums by (auto simp: sess_linked_def sess_sent_def sess_received_def)
    show "sess_idle ((sess_sent a ta' ps)\<lparr>sc_peer_turn := True\<rparr>)" using idle(1) by (simp add: sess_idle_def sess_sent_def)
    show "sess_idle ((sess_received b tb' rs ps)\<lparr>sc_peer_turn := False\<rparr>)"
      using idle(2) rs counts sums rcv by (simp add: sess_idle_def sess_received_def)
  qed (rule rs(3))
qed

text \<open>Establishing a session.\<close>

definition fresh_session :: "SessionBinding \<Rightarrow> 'h \<Rightarrow> nat \<Rightarrow> bool \<Rightarrow> ('h, 't) SessionCore" where
  "fresh_session b h cap peer = \<lparr>sc_handshake = Some h, sc_transport = None, sc_binding = b,
     sc_session_hash = None, sc_limits = SessionLimits_default,
     sc_reassembly = \<lparr>rr_cap = cap, rr_active = None, rr_records = 0, rr_bytes = 0, rr_failed = False\<rparr>,
     sc_sent_finished = False, sc_got_finished = False, sc_peer_turn = peer, sc_first_application = False,
     sc_closed = False, sc_sent_records = 0, sc_sent_plaintext = 0, sc_received_records = 0,
     sc_received_plaintext = 0, sc_handoff = NotHandedOff\<rparr>"

lemma session_start:
  assumes "wf_session_binding b" "SessionBinding_valid b" "length pbs = 32"
  obtains hi hr where
    "TargetSession_new N C e1 b pbs = Inr (fresh_session b hi 65536 True :: ('h, 't) SessionCore)"
    "BrokerSession_new N C e2 b pbs = Inr (fresh_session b hr 67108864 False :: ('h, 't) SessionCore)"
    "hs_linked N chan hi hr"
proof -
  obtain pro where pro: "session_prologue C b SessionLimits_default = Inr pro"
    using assms(1,2) by (auto simp: session_prologue_def put_laws Encoder_run_laws wf_binding_defs ascii_def)
  obtain hi hr where "nnpsk0_initiator N e1 None pbs pro = Some hi" "nnpsk0_responder N e2 None pbs pro = Some hr"
    "hs_linked N chan hi hr"
    using nnpsk0 [OF assms(3)] by blast
  with pro params that show ?thesis
    by (simp add: TargetSession_new_def BrokerSession_new_def SessionCore_new_def RecordReassembler_new_def
        SessionLimits_default_def fresh_session_def)
qed

lemma sess_record_delivered:
  assumes link: "sess_linked chan a b" and spare: "sess_spare 100 a" and len: "length data \<le> 700"
  obtains frame plaintext ta tb r where
    "SessionCore_write_record N C kind data a = (Inr frame, sess_sent a ta [plaintext])"
    "decrypt_counted N C frame b = (Inr plaintext, sess_received b tb (sc_reassembly b) [plaintext])"
    "complete_record kind data = Inr r" "Record_decode plaintext = Inr r"
    "sess_linked chan (sess_sent a ta [plaintext]) (sess_received b tb (sc_reassembly b) [plaintext])"
    "length plaintext \<le> 712"
proof -
  obtain r where r: "complete_record kind data = Inr r" "rec_data r = data"
    using len by (auto simp: complete_record_def)
  obtain plaintext where pt: "Record_encode r = Inr plaintext"
    using r(2) len by (auto simp: Record_encode_def RECORD_DATA_MAX_def Let_def)
  have dec: "Record_decode plaintext = Inr r" using rec_codec.dec_of_enc [OF TrueI pt] .
  have plen: "length plaintext \<le> 712" using Record_encode_length [OF pt] r(2) len by simp
  from link obtain ta tb where live: "\<not> sc_closed a" "\<not> sc_closed b" and t: "sc_transport a = Some ta" "sc_transport b = Some tb"
    and ch: "chan (unat (sc_sent_records a)) ta tb" "chan (unat (sc_sent_records b)) tb ta"
    and rcv: "sc_received_records b = sc_sent_records a" "sc_received_plaintext b = sc_sent_plaintext a"
    by (auto simp: sess_linked_def)
  have "unat (sc_sent_records a) < 2 ^ 64 - 1" "length plaintext \<le> 65519"
    using spare plen by (simp_all add: sess_spare_def)
  from transport_delivers [OF ch this] obtain frame ta' tb' where
    enc: "encrypt_transport N plaintext ta = (Inr frame, ta')"
    and decr: "decrypt_transport N frame tb = (Inr plaintext, tb')"
    and ch': "chan (Suc (unat (sc_sent_records a))) ta' tb'" "chan (unat (sc_sent_records b)) tb' ta'" .
  have q: "unat (sc_sent_records a) + 2 < 2 ^ 32" "unat (sc_sent_plaintext a) + length plaintext + 19 < 2 ^ 40"
    using spare plen by (simp_all add: sess_spare_def)
  have n: "unat (of_nat (length plaintext) :: u64) = length plaintext" using plen by (simp add: unat_of_nat)
  have w: "SessionCore_write_record N C kind data a = (Inr frame, sess_sent a ta' [plaintext])"
    using r pt live(1) t(1) enc q n
    by (simp add: SessionCore_write_record_def encrypt_counted_def SessionCore_transport_def st_simps
        send_usage_eq set_sent_def sess_sent_def)
  have o: "decrypt_counted N C frame b = (Inr plaintext, sess_received b tb' (sc_reassembly b) [plaintext])"
    using live(2) t(2) decr q rcv by (intro decrypt_counted_opens) simp_all
  have sum: "unat (sc_sent_records a + 1) = unat (sc_sent_records a) + 1" using q(1) by (simp add: unat_word_ariths)
  have "sess_linked chan (sess_sent a ta' [plaintext]) (sess_received b tb' (sc_reassembly b) [plaintext])"
    using link ch' sum by (auto simp: sess_linked_def sess_sent_def sess_received_def)
  with w o r(1) dec plen that show ?thesis by blast
qed

text \<open>A Finished record written by one end is accepted by the other.\<close>

lemma finished_delivered:
  assumes link: "sess_linked chan a b" and spare: "sess_spare 100 a" and wf: "wf_session_binding (sc_binding a)"
    and bind: "sc_binding b = sc_binding a" and hash: "sc_session_hash a = Some hash" "sc_session_hash b = Some hash"
      "length hash = 32" and flags: "\<not> sc_sent_finished a" "\<not> sc_got_finished b" and role: "role = 0 \<or> role = 1"
  obtains frame ta tb p where
    "SessionCore_write_finished N C role a = (Inr frame, (sess_sent a ta [p])\<lparr>sc_sent_finished := True\<rparr>)"
    "SessionCore_read_finished N C frame role b =
       (Inr (), (sess_received b tb (sc_reassembly b) [p])\<lparr>sc_got_finished := True\<rparr>)"
    "sess_linked chan ((sess_sent a ta [p])\<lparr>sc_sent_finished := True\<rparr>)
       ((sess_received b tb (sc_reassembly b) [p])\<lparr>sc_got_finished := True\<rparr>)" "length p \<le> 712"
proof -
  obtain body where body: "finished C (sc_binding a) role hash = Inr body"
    using payloads_total(6) [OF wf hash(3)] by blast
  have len: "length body \<le> 700" using payload_lengths(5) [OF body wf hash(3)] by simp
  obtain frame p ta tb r where
    w: "SessionCore_write_record N C Finished body a = (Inr frame, sess_sent a ta [p])"
    and d: "decrypt_counted N C frame b = (Inr p, sess_received b tb (sc_reassembly b) [p])"
    and r: "complete_record Finished body = Inr r" "Record_decode p = Inr r"
    and l: "sess_linked chan (sess_sent a ta [p]) (sess_received b tb (sc_reassembly b) [p])" "length p \<le> 712"
    using sess_record_delivered [OF link spare len] .
  from r(1) len have v: "validate_complete_record r Finished = Inr ()" "rec_data r = body"
    by (auto simp: complete_record_def validate_complete_record_def unat_of_nat split: if_splits)
  show ?thesis
  proof (rule that)
    show "SessionCore_write_finished N C role a = (Inr frame, (sess_sent a ta [p])\<lparr>sc_sent_finished := True\<rparr>)"
      using flags hash body w by (simp add: SessionCore_write_finished_def st_simps)
    show "SessionCore_read_finished N C frame role b =
        (Inr (), (sess_received b tb (sc_reassembly b) [p])\<lparr>sc_got_finished := True\<rparr>)"
      using flags hash d r(2) v bind parse_finished_payload [OF wf hash(3) role body]
      by (simp add: SessionCore_read_finished_def st_simps sess_received_def)
  qed (use l in \<open>simp_all add: sess_linked_def\<close>)
qed

lemma session_establishes:
  assumes wf: "wf_session_binding b" "SessionBinding_valid b" "length pbs = 32"
  obtains T0 B0 m1 T1 m2 B1 T2 f1 T3 B2 f2 B3 T4 where
    "TargetSession_new N C e1 b pbs = Inr T0" "BrokerSession_new N C e2 b pbs = Inr B0"
    "TargetSession_write_m1 N T0 = (Inr m1, T1)" "BrokerSession_read_m1_write_m2 N m1 B0 = (Inr m2, B1)"
    "TargetSession_read_m2 N m2 T1 = (Inr (), T2)" "TargetSession_write_finished N C T2 = (Inr f1, T3)"
    "BrokerSession_read_finished N C f1 B1 = (Inr (), B2)" "BrokerSession_write_finished N C B2 = (Inr f2, B3)"
    "TargetSession_read_finished N C f2 T3 = (Inr (), T4)" "session_ready chan B3 T4"
proof -
  obtain hi hr where new:
    "TargetSession_new N C e1 b pbs = Inr (fresh_session b hi 65536 True :: ('h, 't) SessionCore)"
    "BrokerSession_new N C e2 b pbs = Inr (fresh_session b hr 67108864 False :: ('h, 't) SessionCore)"
    and link: "hs_linked N chan hi hr"
    using session_start [OF wf] .
  obtain o1 o2 hi1 hr1 hr2 hi2 ti tr where
    hs: "write_handshake N [] hi = (Inr o1, hi1)" "read_handshake_mut N o1 hr = (Inr [], hr1)"
      "write_handshake N [] hr1 = (Inr o2, hr2)" "read_handshake_mut N o2 hi1 = (Inr [], hi2)"
    and hash: "hs_hash N hi2 = hs_hash N hr2" "length (hs_hash N hr2) = 32"
    and tr: "hs_into_transport N hi2 = Some ti" "hs_into_transport N hr2 = Some tr"
    and ch: "chan 0 ti tr" "chan 0 tr ti"
    by (rule handshake_delivers [OF link, of "[]" "[]"]) simp_all
  let ?T0 = "fresh_session b hi 65536 True :: ('h, 't) SessionCore"
  let ?B0 = "fresh_session b hr 67108864 False :: ('h, 't) SessionCore"
  define T2 where "T2 = ?T0\<lparr>sc_handshake := None, sc_session_hash := Some (hs_hash N hr2), sc_transport := Some ti\<rparr>"
  define B1 where "B1 = ?B0\<lparr>sc_handshake := None, sc_session_hash := Some (hs_hash N hr2), sc_transport := Some tr\<rparr>"
  note state = T2_def B1_def fresh_session_def sess_linked_def sess_spare_def sess_sent_def sess_received_def
  have l0: "sess_linked chan T2 B1" using ch by (simp add: state)
  obtain f1 t1 t2 p where s1: "SessionCore_write_finished N C 0 T2 = (Inr f1, (sess_sent T2 t1 [p])\<lparr>sc_sent_finished := True\<rparr>)"
      "SessionCore_read_finished N C f1 0 B1 = (Inr (), (sess_received B1 t2 (sc_reassembly B1) [p])\<lparr>sc_got_finished := True\<rparr>)"
    and l1: "sess_linked chan ((sess_sent T2 t1 [p])\<lparr>sc_sent_finished := True\<rparr>)
       ((sess_received B1 t2 (sc_reassembly B1) [p])\<lparr>sc_got_finished := True\<rparr>)" (is "sess_linked chan ?T3 ?B2")
    and p: "length p \<le> 712"
    by (rule finished_delivered [OF l0, of "hs_hash N hr2" 0]) (use wf hash in \<open>simp_all add: state\<close>)
  obtain f2 t3 t4 p' where s2: "SessionCore_write_finished N C 1 ?B2 = (Inr f2, (sess_sent ?B2 t3 [p'])\<lparr>sc_sent_finished := True\<rparr>)"
      "SessionCore_read_finished N C f2 1 ?T3 = (Inr (), (sess_received ?T3 t4 (sc_reassembly ?T3) [p'])\<lparr>sc_got_finished := True\<rparr>)"
    and l2: "sess_linked chan ((sess_sent ?B2 t3 [p'])\<lparr>sc_sent_finished := True\<rparr>)
       ((sess_received ?T3 t4 (sc_reassembly ?T3) [p'])\<lparr>sc_got_finished := True\<rparr>)" (is "sess_linked chan ?B3 ?T4")
    and p': "length p' \<le> 712"
    by (rule finished_delivered [OF sess_linked_sym [OF l1], of "hs_hash N hr2" 1]) (use wf hash in \<open>simp_all add: state\<close>)
  show ?thesis
  proof (rule that [OF new])
    show "TargetSession_write_m1 N ?T0 = (Inr o1, ?T0\<lparr>sc_handshake := Some hi1\<rparr>)"
      using hs by (simp add: TargetSession_write_m1_def SessionCore_finish_result_def SessionCore_write_handshake_def
          SessionCore_handshake_def fresh_session_def)
    show "BrokerSession_read_m1_write_m2 N o1 ?B0 = (Inr o2, B1)"
      using hs tr by (simp add: BrokerSession_read_m1_write_m2_def SessionCore_finish_result_def
          SessionCore_write_handshake_def SessionCore_read_handshake_def SessionCore_finish_handshake_def
          SessionCore_handshake_def st_simps fresh_session_def B1_def)
    show "TargetSession_read_m2 N o2 (?T0\<lparr>sc_handshake := Some hi1\<rparr>) = (Inr (), T2)"
      using hs tr hash by (simp add: TargetSession_read_m2_def SessionCore_finish_result_def
          SessionCore_read_handshake_finish_def SessionCore_read_handshake_def SessionCore_finish_handshake_def
          SessionCore_handshake_def st_simps fresh_session_def T2_def)
    show "TargetSession_write_finished N C T2 = (Inr f1, ?T3)"
      using s1 by (simp add: TargetSession_write_finished_def SessionCore_finish_result_def)
    show "BrokerSession_read_finished N C f1 B1 = (Inr (), ?B2)"
      using s1 by (simp add: BrokerSession_read_finished_def SessionCore_finish_result_def)
    show "BrokerSession_write_finished N C ?B2 = (Inr f2, ?B3)"
      using s2 by (simp add: BrokerSession_write_finished_def SessionCore_finish_result_def st_simps)
    show "TargetSession_read_finished N C f2 ?T3 = (Inr (), ?T4)"
      using s2 by (simp add: TargetSession_read_finished_def SessionCore_finish_result_def st_simps)
    show "session_ready chan ?B3 ?T4"
      using l2 p p' by (simp add: session_ready_def sess_idle_def sess_spare_def sess_sent_def sess_received_def
          T2_def B1_def fresh_session_def SessionLimits_default_def unat_of_nat)
  qed
qed

text \<open>A request and its response, through both role views.\<close>

lemma session_open_delivered:
  assumes ready: "session_ready chan br tg" and p: "p \<noteq> []" "length p \<le> 65536"
  obtains fs br' tg' where
    "BrokerSession_write_session_open N C p br = (Inr fs, br')"
    "run (TargetSession_read_application N C) fs tg = (replicate (length fs - 1) (Inr None) @ [Inr (Some p)], tg')"
    "fs \<noteq> []" "sess_linked chan tg' br'" "sess_idle tg'" "sess_idle br'" "\<not> sc_peer_turn tg'" "sc_peer_turn br'"
    "sc_first_application tg'" "handed_off br'" "handed_off tg'" "sess_spare (2 ^ 26) tg'"
    "rr_cap (sc_reassembly br') = 67108864"
proof -
  let ?a = "br\<lparr>sc_first_application := True\<rparr>"
  have pre: "sess_linked chan ?a tg" "sess_idle ?a" "sess_idle tg" "\<not> sc_peer_turn ?a" "sc_peer_turn tg"
    "sess_spare (length p) ?a" "length p \<le> rr_cap (sc_reassembly tg)" "length p \<le> 16777216" "(16777216 :: nat) < 2 ^ 32"
    using ready p by (auto simp: session_ready_def sess_linked_def sess_idle_def sess_spare_def SessionLimits_default_def)
  obtain fs ta tb ps rs where
    w: "SessionCore_write_application N C p 16777216 ?a = (Inr fs, (sess_sent ?a ta ps)\<lparr>sc_peer_turn := True\<rparr>)"
    and r: "run (SessionCore_read_application N C) fs tg = (replicate (length fs - 1) (Inr None) @ [Inr (Some p)],
       (sess_received tg tb rs ps)\<lparr>sc_peer_turn := False\<rparr>)" and ne: "fs \<noteq> []"
    and l: "sess_linked chan ((sess_sent ?a ta ps)\<lparr>sc_peer_turn := True\<rparr>) ((sess_received tg tb rs ps)\<lparr>sc_peer_turn := False\<rparr>)"
      (is "sess_linked chan ?a' ?b'")
    and idle: "sess_idle ((sess_sent ?a ta ps)\<lparr>sc_peer_turn := True\<rparr>)"
      "sess_idle ((sess_received tg tb rs ps)\<lparr>sc_peer_turn := False\<rparr>)"
    using message_delivered [OF pre(1-5) p(1) pre(8,9,7,6)] .
  have pass: "TargetSession_read_application N C f s = (Inr None, s')"
    if "SessionCore_read_application N C f s = (Inr None, s')" for f s s'
    using that by (simp add: TargetSession_read_application_def)
  obtain f s1 where last: "SessionCore_read_application N C f s1 = (Inr (Some p), ?b')"
    and run: "run (TargetSession_read_application N C) fs tg = (replicate (length fs - 1) (Inr None) @
      [fst (TargetSession_read_application N C f s1)], snd (TargetSession_read_application N C f s1))"
    by (rule run_wrapped [OF r ne, of "TargetSession_read_application N C"]) (use pass in auto)
  have tgf: "\<not> sc_first_application tg" "sc_limits tg = SessionLimits_default"
    using ready by (simp_all add: session_ready_def sess_idle_def)
  let ?rs = "rs\<lparr>rr_cap := 16777216\<rparr>"
  let ?t = "?b'\<lparr>sc_handoff := HandoffPossibleOrConfirmed, sc_first_application := True, sc_reassembly := ?rs\<rparr>"
  have lastT: "TargetSession_read_application N C f s1 = (Inr (Some p), ?t)"
    using last idle(2) tgf
    by (simp add: TargetSession_read_application_def RecordReassembler_set_cap_def sess_received_def sess_idle_def
        SessionLimits_default_def Let_def)
  let ?br = "?a'\<lparr>sc_handoff := HandoffPossibleOrConfirmed\<rparr>"
  show ?thesis
  proof (rule that)
    show "BrokerSession_write_session_open N C p br = (Inr fs, ?br)"
      using w p ready by (simp add: BrokerSession_write_session_open_def SessionCore_finish_result_def confirm_handoff_def
          st_simps session_ready_def sess_idle_def SessionLimits_default_def)
    show "run (TargetSession_read_application N C) fs tg = (replicate (length fs - 1) (Inr None) @ [Inr (Some p)], ?t)"
      using run lastT by simp
    show "sess_linked chan ?t ?br" using sess_linked_sym [OF l] by (simp add: sess_linked_def)
    show "sess_idle ?t" "sess_idle ?br" using idle by (simp_all add: sess_idle_def sess_received_def sess_sent_def)
    show "sess_spare (2 ^ 26) ?t" using ready by (simp add: session_ready_def sess_spare_def sess_received_def)
    show "rr_cap (sc_reassembly ?br) = 67108864" using ready by (simp add: session_ready_def sess_sent_def SessionLimits_default_def)
  qed (use ne in simp_all)
qed

lemma session_response_delivered:
  assumes link: "sess_linked chan tg br" and idle: "sess_idle tg" "sess_idle br"
    and turns: "\<not> sc_peer_turn tg" "sc_peer_turn br" and first: "sc_first_application tg"
    and spare: "sess_spare (2 ^ 26) tg" and cap: "rr_cap (sc_reassembly br) = 67108864"
    and p: "p \<noteq> []" "length p \<le> 67108864"
  obtains fs tg' br' where
    "TargetSession_write_application_response N C p tg = (Inr fs, tg')"
    "run (BrokerSession_read_application_response N C) fs br =
       (replicate (length fs - 1) (Inr None) @ [Inr (Some p)], br')"
    "sess_linked chan tg' br'" "sess_idle tg'" "sess_idle br'" "sc_peer_turn tg'" "\<not> sc_peer_turn br'"
proof -
  have cap': "(67108864 :: nat) < 2 ^ 32" "length p \<le> rr_cap (sc_reassembly br)" "sess_spare (length p) tg"
    using p cap spare by (simp_all add: sess_spare_def)
  obtain fs ta tb ps rs where
    w: "SessionCore_write_application N C p 67108864 tg = (Inr fs, (sess_sent tg ta ps)\<lparr>sc_peer_turn := True\<rparr>)"
    and r: "run (SessionCore_read_application N C) fs br = (replicate (length fs - 1) (Inr None) @ [Inr (Some p)],
       (sess_received br tb rs ps)\<lparr>sc_peer_turn := False\<rparr>)" and ne: "fs \<noteq> []"
    and l: "sess_linked chan ((sess_sent tg ta ps)\<lparr>sc_peer_turn := True\<rparr>) ((sess_received br tb rs ps)\<lparr>sc_peer_turn := False\<rparr>)"
      (is "sess_linked chan ?a' ?b'")
    and idle': "sess_idle ((sess_sent tg ta ps)\<lparr>sc_peer_turn := True\<rparr>)"
      "sess_idle ((sess_received br tb rs ps)\<lparr>sc_peer_turn := False\<rparr>)"
    using message_delivered [OF link idle turns p(1,2) cap'] .
  obtain f s1 where last: "SessionCore_read_application N C f s1 = (Inr (Some p), ?b')"
    and run: "run (BrokerSession_read_application_response N C) fs br = (replicate (length fs - 1) (Inr None) @
      [fst (BrokerSession_read_application_response N C f s1)], snd (BrokerSession_read_application_response N C f s1))"
    by (rule run_wrapped [OF r ne, of "BrokerSession_read_application_response N C"])
      (auto simp: BrokerSession_read_application_response_def SessionCore_finish_result_def)
  show ?thesis
  proof (rule that)
    show "TargetSession_write_application_response N C p tg = (Inr fs, ?a')"
      using w first idle(1) by (simp add: TargetSession_write_application_response_def SessionCore_finish_result_def
          st_simps sess_idle_def SessionLimits_default_def)
    show "run (BrokerSession_read_application_response N C) fs br =
        (replicate (length fs - 1) (Inr None) @ [Inr (Some p)], ?b')"
      using run last by (simp add: BrokerSession_read_application_response_def SessionCore_finish_result_def)
  qed (use l idle' in simp_all)
qed

lemma session_close_sealed:
  assumes link: "sess_linked chan a b" and spare: "sess_spare 100 a"
  obtains frame a' where "TargetSession_write_close N C reason handoff a = (Inr frame, a')"
proof -
  let ?h = "conservative_max (sc_handoff a) handoff"
  obtain p where p: "close_payload C reason ?h = Inr p" using payloads_total(1) by blast
  then obtain pt where pt: "res_bind (complete_record Close p) Record_encode = Inr pt" "length pt = 19"
    using close_payload_length [OF p]
    by (auto simp: complete_record_def Record_encode_def RECORD_DATA_MAX_def Let_def u16_to_be_def u32_to_be_def)
  from link obtain ta tb where live: "\<not> sc_closed a" and t: "sc_transport a = Some ta"
    and ch: "chan (unat (sc_sent_records a)) ta tb" "chan (unat (sc_sent_records b)) tb ta"
    by (auto simp: sess_linked_def)
  have "unat (sc_sent_records a) < 2 ^ 64 - 1" "length pt \<le> 65519" using spare pt(2) by (simp_all add: sess_spare_def)
  from transport_delivers [OF ch this] obtain frame ta' where "encrypt_transport N pt ta = (Inr frame, ta')" by metis
  with p pt live t spare that show ?thesis
    by (simp add: TargetSession_write_close_def SessionCore_finish_result_def SessionCore_write_close_def
        SessionCore_transport_def st_simps Let_def send_usage_eq set_sent_def sess_spare_def)
qed

end

section \<open>Properties\<close>

text \<open>C2: A session works. For one valid binding and one 32-byte secret, the nine handshake calls of the two
  roles succeed in turn; then any opening message up to 64 KiB that the Broker writes is read by the Target,
  frame by frame, as exactly those bytes, and any response up to 64 MiB that the Target writes is read by
  the Broker as exactly those bytes.\<close>

theorem session_round_trip:
  assumes "protected_link N chan keypair C" "wf_session_binding b" "SessionBinding_valid b" "length pbs = 32"
    "p \<noteq> []" "length p \<le> 65536" "q \<noteq> []" "length q \<le> 67108864"
  shows "\<exists>T0 B0 m1 T1 m2 B1 T2 f1 T3 B2 f2 B3 T4 fs B4 T5 gs T6 B5.
    TargetSession_new N C e1 b pbs = Inr T0 \<and> BrokerSession_new N C e2 b pbs = Inr B0 \<and>
    TargetSession_write_m1 N T0 = (Inr m1, T1) \<and> BrokerSession_read_m1_write_m2 N m1 B0 = (Inr m2, B1) \<and>
    TargetSession_read_m2 N m2 T1 = (Inr (), T2) \<and> TargetSession_write_finished N C T2 = (Inr f1, T3) \<and>
    BrokerSession_read_finished N C f1 B1 = (Inr (), B2) \<and> BrokerSession_write_finished N C B2 = (Inr f2, B3) \<and>
    TargetSession_read_finished N C f2 T3 = (Inr (), T4) \<and>
    BrokerSession_write_session_open N C p B3 = (Inr fs, B4) \<and>
    run (TargetSession_read_application N C) fs T4 = (replicate (length fs - 1) (Inr None) @ [Inr (Some p)], T5) \<and>
    TargetSession_write_application_response N C q T5 = (Inr gs, T6) \<and>
    run (BrokerSession_read_application_response N C) gs B4 = (replicate (length gs - 1) (Inr None) @ [Inr (Some q)], B5)"
proof -
  obtain T0 B0 m1 T1 m2 B1 T2 f1 T3 B2 f2 B3 T4 where h:
    "TargetSession_new N C e1 b pbs = Inr T0" "BrokerSession_new N C e2 b pbs = Inr B0"
    "TargetSession_write_m1 N T0 = (Inr m1, T1)" "BrokerSession_read_m1_write_m2 N m1 B0 = (Inr m2, B1)"
    "TargetSession_read_m2 N m2 T1 = (Inr (), T2)" "TargetSession_write_finished N C T2 = (Inr f1, T3)"
    "BrokerSession_read_finished N C f1 B1 = (Inr (), B2)" "BrokerSession_write_finished N C B2 = (Inr f2, B3)"
    "TargetSession_read_finished N C f2 T3 = (Inr (), T4)" and ready: "session_ready chan B3 T4"
    using protected_link.session_establishes [OF assms(1-4)] .
  obtain fs B4 T5 where o: "BrokerSession_write_session_open N C p B3 = (Inr fs, B4)"
    "run (TargetSession_read_application N C) fs T4 = (replicate (length fs - 1) (Inr None) @ [Inr (Some p)], T5)"
    and l: "sess_linked chan T5 B4" "sess_idle T5" "sess_idle B4" "\<not> sc_peer_turn T5" "sc_peer_turn B4"
      "sc_first_application T5" "sess_spare (2 ^ 26) T5" "rr_cap (sc_reassembly B4) = 67108864"
    using protected_link.session_open_delivered [OF assms(1) ready assms(5,6)] .
  obtain gs T6 B5 where r: "TargetSession_write_application_response N C q T5 = (Inr gs, T6)"
    "run (BrokerSession_read_application_response N C) gs B4 = (replicate (length gs - 1) (Inr None) @ [Inr (Some q)], B5)"
    using protected_link.session_response_delivered [OF assms(1) l assms(7,8)] .
  from h o r show ?thesis by blast
qed

theorem session_round_trip_witness:
  "\<exists>T0 B0 fs T4 T5 B3 B4. TargetSession_new clear_noise rfc_cbor [] demo_session_binding (replicate 32 9) = Inr T0 \<and>
     BrokerSession_new clear_noise rfc_cbor [] demo_session_binding (replicate 32 9) = Inr B0 \<and>
     BrokerSession_write_session_open clear_noise rfc_cbor [1, 2, 3] B3 = (Inr fs, B4) \<and>
     run (TargetSession_read_application clear_noise rfc_cbor) fs T4 =
       (replicate (length fs - 1) (Inr None) @ [Inr (Some [1, 2, 3])], T5)"
  using session_round_trip [OF clear_link.protected_link_axioms demo_bindings_wf(2,3), of "replicate 32 9" "[1, 2, 3]" "[4]"
      "[]" "[]"] by auto

text \<open>C23: A handed-over message is never denied. If a Target session delivered an application message in some
  sequence of calls, then a close record it writes afterwards seals the payload that says the handoff is
  possible or confirmed, whatever handoff state the caller asked for.\<close>

theorem handoff_never_understated:
  assumes "TargetSession_new N C e b pbs = Inr t"
    "Inr (S_message (Some m)) \<in> set (fst (run (target_session_op N C) cs t))"
    "TargetSession_write_close N C reason handoff (snd (run (target_session_op N C) cs t)) = (Inr frame, s')"
  shows "\<exists>p plaintext k k'. close_payload C reason HandoffPossibleOrConfirmed = Inr p \<and>
    res_bind (complete_record Close p) Record_encode = Inr plaintext \<and>
    sc_transport (snd (run (target_session_op N C) cs t)) = Some k \<and>
    encrypt_transport N plaintext k = (Inr frame, k')"
proof -
  have base: "sess_base t" using new_session_base(1) [OF assms(1)] by blast
  have h: "handed_off (snd (run (target_session_op N C) cs t))" using target_run_handoff [OF base assms(2)] .
  from assms(3) have "SessionCore_write_close N C reason handoff (snd (run (target_session_op N C) cs t)) = (Inr frame, s')"
    by (simp add: TargetSession_write_close_def finish_result_Inr)
  from write_close_Inr [OF this] h show ?thesis by (metis conservative_max.simps(1))
qed

lemma run_read_application:
  "run (target_session_op N C) (map TS_read_application fs) s =
     map_prod (map (map_sum id S_message)) id (run (TargetSession_read_application N C) fs s)"
  by (induction fs arbitrary: s) (simp_all add: answer_def map_prod_def case_prod_unfold)

theorem handoff_never_understated_witness:
  "\<exists>cs s' frame p k. Inr (S_message (Some [1, 2, 3])) \<in>
       set (fst (run (target_session_op clear_noise rfc_cbor) cs demo_target_session)) \<and>
     TargetSession_write_close clear_noise rfc_cbor Timeout NotHandedOff
       (snd (run (target_session_op clear_noise rfc_cbor) cs demo_target_session)) = (Inr frame, s') \<and>
     close_payload rfc_cbor Timeout HandoffPossibleOrConfirmed = Inr p \<and>
     sc_transport (snd (run (target_session_op clear_noise rfc_cbor) cs demo_target_session)) = Some k"
proof -
  obtain T0 B0 m1 T1 m2 B1 T2 f1 T3 B2 f2 B3 T4 where h:
    "TargetSession_new clear_noise rfc_cbor [] demo_session_binding (replicate 32 9) = Inr T0"
    "BrokerSession_new clear_noise rfc_cbor [] demo_session_binding (replicate 32 9) = Inr B0"
    "TargetSession_write_m1 clear_noise T0 = (Inr m1, T1)" "BrokerSession_read_m1_write_m2 clear_noise m1 B0 = (Inr m2, B1)"
    "TargetSession_read_m2 clear_noise m2 T1 = (Inr (), T2)"
    "TargetSession_write_finished clear_noise rfc_cbor T2 = (Inr f1, T3)"
    "BrokerSession_read_finished clear_noise rfc_cbor f1 B1 = (Inr (), B2)"
    "BrokerSession_write_finished clear_noise rfc_cbor B2 = (Inr f2, B3)"
    "TargetSession_read_finished clear_noise rfc_cbor f2 T3 = (Inr (), T4)" and ready: "session_ready clear_chan B3 T4"
    by (rule clear_link.session_establishes [of demo_session_binding "replicate 32 9" "[]" "[]"]) simp_all
  obtain fs B4 T5 where
    r: "run (TargetSession_read_application clear_noise rfc_cbor) fs T4 = (replicate (length fs - 1) (Inr None) @ [Inr (Some [1, 2, 3])], T5)"
    and l: "sess_linked clear_chan T5 B4" "sess_spare (2 ^ 26) T5"
    by (rule clear_link.session_open_delivered [OF ready, of "[1, 2, 3]"]) simp_all
  have T0: "T0 = demo_target_session" using h(1) demo_session_new(1) by simp
  define cs where "cs = [TS_write_m1, TS_read_m2 m2, TS_write_finished, TS_read_finished f2] @ map TS_read_application fs"
  have run: "snd (run (target_session_op clear_noise rfc_cbor) cs demo_target_session) = T5"
    "Inr (S_message (Some [1, 2, 3])) \<in> set (fst (run (target_session_op clear_noise rfc_cbor) cs demo_target_session))"
    using h(3,5,6,9) r by (simp_all add: cs_def T0 answer_def run_read_application)
  have "sess_spare 100 T5" using l(2) by (simp add: sess_spare_def)
  from clear_link.session_close_sealed [OF l(1) this] obtain frame s' where
    c: "TargetSession_write_close clear_noise rfc_cbor Timeout NotHandedOff T5 = (Inr frame, s')" .
  show ?thesis
    using handoff_never_understated [OF demo_session_new(1) run(2), of Timeout NotHandedOff frame s'] c run by metis
qed

end
