(* ===== verification/Bootstrap.thy ===== *)
theory Bootstrap
  imports Lease
begin

text \<open>
  The process bootstrap of \<^verbatim>\<open>transport/crypto-core/src/lib.rs\<close>: one Noise NK handshake between the
  Target (initiator) and the Broker (responder), by which the Broker hands over the process bootstrap
  secret, and the acknowledgement that turns both ends into lease connections. The values consumed by
  \<^verbatim>\<open>self\<close> in Rust are arguments that are not returned. The lemmas show that a bootstrap between two
  ends with one binding completes and leaves them in agreement, and what an accepted message implies.
\<close>

section \<open>The Target\<close>

record 'h TargetBootstrap =
  tb_state :: 'h
  tb_binding :: BootstrapBinding

record 't TargetBootstrapAckSender =
  as_transport :: "'t option"
  as_ack :: TargetBootstrapAck

definition TargetBootstrap_build ::
    "('h, 't) noise \<Rightarrow> cbor \<Rightarrow> bytes \<Rightarrow> BootstrapBinding \<Rightarrow> bytes \<Rightarrow> bytes option \<Rightarrow>
      error + 'h TargetBootstrap" where
  "TargetBootstrap_build N C entropy binding broker_static_public ephemeral =
     res_bind (bootstrap_prologue C binding) (\<lambda>prologue.
     if \<not> params_ok N ''Noise_NK_25519_ChaChaPoly_SHA256'' then Inl (Error_new InternalError)
     else res_bind (ok_or (Error_new AuthenticationFailed)
            (nk_initiator N entropy ephemeral broker_static_public prologue)) (\<lambda>state.
       Inr \<lparr>tb_state = state, tb_binding = binding\<rparr>))"

definition TargetBootstrap_new ::
    "('h, 't) noise \<Rightarrow> cbor \<Rightarrow> bytes \<Rightarrow> BootstrapBinding \<Rightarrow> bytes \<Rightarrow> error + 'h TargetBootstrap" where
  "TargetBootstrap_new N C entropy binding broker_static_public =
     TargetBootstrap_build N C entropy binding broker_static_public None"

definition TargetBootstrap_write_m1 ::
    "('h, 't) noise \<Rightarrow> cbor \<Rightarrow> ('h TargetBootstrap, error, bytes) step" where
  "TargetBootstrap_write_m1 N C s =
     (case m1_payload C (tb_binding s) of
        Inl e \<Rightarrow> (Inl e, s)
      | Inr payload \<Rightarrow> (let (r, state) = write_handshake N payload (tb_state s) in (r, s\<lparr>tb_state := state\<rparr>)))"

definition TargetBootstrap_read_m2 ::
    "('h, 't) noise \<Rightarrow> cbor \<Rightarrow> 'h TargetBootstrap \<Rightarrow> bytes \<Rightarrow> u64 \<Rightarrow> u64 \<Rightarrow>
      error + ('t TargetBootstrapAckSender \<times> bytes)" where
  "TargetBootstrap_read_m2 N C s outer process_generation listener_epoch =
     (if \<not> valid_generation process_generation \<or> listener_epoch \<noteq> 1 then Inl (Error_new BindingMismatch)
      else let (r, state) = read_handshake_mut N outer (tb_state s) in
        res_bind r (\<lambda>payload.
        let hash = hs_hash N state in
        res_bind (parse_m2 C (tb_binding s) payload) (\<lambda>secret.
        let ack = \<lparr>ack_target_reference_digest = bb_target_reference_digest (tb_binding s),
              ack_lease_id = bb_lease_id (tb_binding s), ack_process_generation = process_generation,
              ack_listener_epoch = listener_epoch, ack_nk_handshake_hash = hash\<rparr>
        in res_bind (ok_or (Error_new AuthenticationFailed) (hs_into_transport N state)) (\<lambda>transport.
           Inr (\<lparr>as_transport = Some transport, as_ack = ack\<rparr>, secret)))))"

definition TargetBootstrapAckSender_write_ack ::
    "('h, 't) noise \<Rightarrow> cbor \<Rightarrow> 't TargetBootstrapAckSender \<Rightarrow> error + (bytes \<times> 't LeaseCore)" where
  "TargetBootstrapAckSender_write_ack N C s =
     res_bind (bootstrap_ack_payload C (as_ack s)) (\<lambda>payload.
     res_bind (res_bind (complete_record Finished payload) Record_encode) (\<lambda>plaintext.
     res_bind (ok_or (Error_new SequenceViolation) (as_transport s)) (\<lambda>transport.
     let (r, transport) = encrypt_transport N plaintext transport in
     res_bind r (\<lambda>frame.
     Inr (frame, LeaseCore_new transport (LeaseBinding_from_ack (as_ack s)) 1 (of_nat (length plaintext)) 0 0)))))"

section \<open>The Broker\<close>

record 'h BrokerBootstrap =
  br_state :: 'h
  br_binding :: BootstrapBinding
  br_secret :: bytes

record 't BrokerBootstrapAckReceiver =
  ar_transport :: "'t option"
  ar_binding :: BootstrapBinding
  ar_nk_handshake_hash :: bytes

definition BrokerBootstrap_build ::
    "('h, 't) noise \<Rightarrow> cbor \<Rightarrow> bytes \<Rightarrow> BootstrapBinding \<Rightarrow> bytes \<Rightarrow> bytes \<Rightarrow> bytes option \<Rightarrow>
      error + 'h BrokerBootstrap" where
  "BrokerBootstrap_build N C entropy binding broker_static_private secret ephemeral =
     res_bind (bootstrap_prologue C binding) (\<lambda>prologue.
     if \<not> params_ok N ''Noise_NK_25519_ChaChaPoly_SHA256'' then Inl (Error_new InternalError)
     else res_bind (ok_or (Error_new AuthenticationFailed)
            (nk_responder N entropy ephemeral broker_static_private prologue)) (\<lambda>state.
       Inr \<lparr>br_state = state, br_binding = binding, br_secret = secret\<rparr>))"

definition BrokerBootstrap_new ::
    "('h, 't) noise \<Rightarrow> cbor \<Rightarrow> bytes \<Rightarrow> BootstrapBinding \<Rightarrow> bytes \<Rightarrow> bytes \<Rightarrow> error + 'h BrokerBootstrap" where
  "BrokerBootstrap_new N C entropy binding broker_static_private secret =
     BrokerBootstrap_build N C entropy binding broker_static_private secret None"

definition BrokerBootstrap_read_m1_write_m2 ::
    "('h, 't) noise \<Rightarrow> cbor \<Rightarrow> 'h BrokerBootstrap \<Rightarrow> bytes \<Rightarrow>
      error + (bytes \<times> 't BrokerBootstrapAckReceiver)" where
  "BrokerBootstrap_read_m1_write_m2 N C s outer =
     (let (r, state) = read_handshake_mut N outer (br_state s) in
      res_bind r (\<lambda>payload.
      res_bind (m1_payload C (br_binding s)) (\<lambda>expected.
      if payload \<noteq> expected then Inl (Error_new AuthenticationFailed)
      else res_bind (expected_m2 C (br_binding s) (br_secret s)) (\<lambda>m2_payload.
        let (r, state) = write_handshake N m2_payload state in
        res_bind r (\<lambda>m2.
        let hash = hs_hash N state in
        res_bind (ok_or (Error_new AuthenticationFailed) (hs_into_transport N state)) (\<lambda>transport.
        Inr (m2, \<lparr>ar_transport = Some transport, ar_binding = br_binding s,
                  ar_nk_handshake_hash = hash\<rparr>)))))))"

definition BrokerBootstrapAckReceiver_read_ack ::
    "('h, 't) noise \<Rightarrow> cbor \<Rightarrow> 't BrokerBootstrapAckReceiver \<Rightarrow> bytes \<Rightarrow>
      error + (TargetBootstrapAck \<times> 't LeaseCore)" where
  "BrokerBootstrapAckReceiver_read_ack N C s outer =
     res_bind (ok_or (Error_new SequenceViolation) (ar_transport s)) (\<lambda>transport.
     let (r, transport) = decrypt_transport N outer transport in
     res_bind r (\<lambda>plaintext.
     res_bind (Record_decode plaintext) (\<lambda>record.
     res_bind (validate_complete_record record Finished) (\<lambda>_.
     res_bind (parse_bootstrap_ack C (rec_data record) (ar_binding s) (ar_nk_handshake_hash s)) (\<lambda>ack.
     Inr (ack, LeaseCore_new transport (LeaseBinding_from_ack ack) 0 0 1 (of_nat (length plaintext))))))))"

section \<open>What an accepted message implies\<close>

lemma read_m2_Inr:
  assumes "TargetBootstrap_read_m2 N C s outer generation epoch = Inr (A, secret)"
  obtains payload state where "read_handshake_mut N outer (tb_state s) = (Inr payload, state)"
    "expected_m2 C (tb_binding s) secret = Inr payload" "length secret = 32"
    "valid_generation generation" "epoch = 1" "as_transport A = hs_into_transport N state"
    "as_ack A = \<lparr>ack_target_reference_digest = bb_target_reference_digest (tb_binding s),
       ack_lease_id = bb_lease_id (tb_binding s), ack_process_generation = generation,
       ack_listener_epoch = 1, ack_nk_handshake_hash = hs_hash N state\<rparr>"
  using assms unfolding TargetBootstrap_read_m2_def
  by (auto simp: Let_def split: if_splits prod.splits elim!: res_bindE dest!: parse_m2_canonical)

lemma read_ack_Inr:
  assumes "BrokerBootstrapAckReceiver_read_ack N C s outer = Inr (ack, lease)"
  obtains t t' plaintext r where "ar_transport s = Some t"
    "decrypt_transport N outer t = (Inr plaintext, t')" "Record_decode plaintext = Inr r"
    "validate_complete_record r Finished = Inr ()" "bootstrap_ack_payload C ack = Inr (rec_data r)"
    "wf_ack ack" "ack_for (ar_binding s) (ar_nk_handshake_hash s) ack"
    "lease = LeaseCore_new t' (LeaseBinding_from_ack ack) 0 0 1 (of_nat (length plaintext))"
  using assms unfolding BrokerBootstrapAckReceiver_read_ack_def
  by (auto simp: Let_def split: prod.splits elim!: res_bindE dest!: parse_bootstrap_ack_canonical)

section \<open>A bootstrap completes\<close>

context protected_link
begin

text \<open>Both constructors succeed on one binding and a matching key pair.\<close>

lemma bootstrap_start:
  assumes "keypair sk pk" "wf_bootstrap_binding b"
  obtains hi hr where "TargetBootstrap_new N C e1 b pk = Inr \<lparr>tb_state = hi, tb_binding = b\<rparr>"
    "BrokerBootstrap_new N C e2 b sk secret = Inr \<lparr>br_state = hr, br_binding = b, br_secret = secret\<rparr>"
    "hs_linked N chan hi hr"
proof -
  obtain pro where pro: "bootstrap_prologue C b = Inr pro"
    using payloads_total(3) [OF assms(2)] by blast
  obtain hi hr where "nk_initiator N e1 None pk pro = Some hi" "nk_responder N e2 None sk pro = Some hr"
    "hs_linked N chan hi hr"
    using nk [OF assms(1)] by blast
  with pro params that show ?thesis
    by (simp add: TargetBootstrap_new_def TargetBootstrap_build_def BrokerBootstrap_new_def
        BrokerBootstrap_build_def)
qed

text \<open>The acknowledgement: the last message of the bootstrap and the first record of the lease.\<close>

lemma bootstrap_ack_delivered:
  assumes ch: "chan 0 ti tr" "chan 0 tr ti" and wf: "wf_ack ack" and ack: "ack_for b hash ack"
  obtains frame tl bl where
    "TargetBootstrapAckSender_write_ack N C \<lparr>as_transport = Some ti, as_ack = ack\<rparr> = Inr (frame, tl)"
    "BrokerBootstrapAckReceiver_read_ack N C
       \<lparr>ar_transport = Some tr, ar_binding = b, ar_nk_handshake_hash = hash\<rparr> frame = Inr (ack, bl)"
    "lease_linked chan bl tl" "beats bl = (None, 0)" "beats tl = (None, 0)"
    "lease_spare bl" "lease_spare tl" "lc_binding tl = LeaseBinding_from_ack ack"
proof -
  obtain p where p: "bootstrap_ack_payload C ack = Inr p" using payloads_total(5) [OF wf] by blast
  have len: "length p \<le> 615" using payload_lengths(4) [OF p wf] .
  then obtain r where r: "complete_record Finished p = Inr r" "rec_data r = p"
      "validate_complete_record r Finished = Inr ()"
    by (auto simp: complete_record_def validate_complete_record_def unat_of_nat)
  obtain plaintext where enc: "Record_encode r = Inr plaintext"
    using r(2) len by (auto simp: Record_encode_def RECORD_DATA_MAX_def Let_def)
  then have pt: "Record_encode r = Inr plaintext" "length plaintext \<le> 627"
    using Record_encode_length [OF enc] r(2) len by simp_all
  have dec: "Record_decode plaintext = Inr r" using rec_codec.dec_of_enc [OF TrueI pt(1)] .
  have "(0 :: nat) < 2 ^ 64 - 1" "length plaintext \<le> 65519" using pt(2) by simp_all
  from transport_delivers [OF ch this] obtain frame ti' tr' where
    t: "encrypt_transport N plaintext ti = (Inr frame, ti')"
      "decrypt_transport N frame tr = (Inr plaintext, tr')"
    and ch': "chan (Suc 0) ti' tr'" "chan 0 tr' ti'" .
  let ?lb = "LeaseBinding_from_ack ack" and ?n = "of_nat (length plaintext) :: u64"
  show ?thesis
  proof (rule that [of frame "LeaseCore_new ti' ?lb 1 ?n 0 0" "LeaseCore_new tr' ?lb 0 0 1 ?n"])
    show "TargetBootstrapAckSender_write_ack N C \<lparr>as_transport = Some ti, as_ack = ack\<rparr> =
        Inr (frame, LeaseCore_new ti' ?lb 1 ?n 0 0)"
      using p r(1) pt(1) t(1) by (simp add: TargetBootstrapAckSender_write_ack_def)
    show "BrokerBootstrapAckReceiver_read_ack N C
        \<lparr>ar_transport = Some tr, ar_binding = b, ar_nk_handshake_hash = hash\<rparr> frame =
        Inr (ack, LeaseCore_new tr' ?lb 0 0 1 ?n)"
      using t(2) dec r parse_bootstrap_ack_payload [OF wf ack p]
      by (simp add: BrokerBootstrapAckReceiver_read_ack_def)
    show "lease_linked chan (LeaseCore_new tr' ?lb 0 0 1 ?n) (LeaseCore_new ti' ?lb 1 ?n 0 0)"
      using ch' wf by (simp add: lease_linked_def LeaseCore_new_def wf_binding_defs LeaseBinding_from_ack_def)
  qed (use pt(2) in \<open>simp_all add: beats_def LeaseCore_new_def lease_spare_def unat_of_nat\<close>)
qed

lemma bootstrap_completes:
  assumes key: "keypair sk pk" and wf: "wf_bootstrap_binding b" and secret: "length secret = 32"
    and gen: "valid_generation g"
  obtains T0 B0 m1 T1 m2 R A frame tl bl where
    "TargetBootstrap_new N C e1 b pk = Inr T0" "BrokerBootstrap_new N C e2 b sk secret = Inr B0"
    "TargetBootstrap_write_m1 N C T0 = (Inr m1, T1)"
    "BrokerBootstrap_read_m1_write_m2 N C B0 m1 = Inr (m2, R)"
    "TargetBootstrap_read_m2 N C T1 m2 g 1 = Inr (A, secret)"
    "TargetBootstrapAckSender_write_ack N C A = Inr (frame, tl)"
    "BrokerBootstrapAckReceiver_read_ack N C R frame = Inr (as_ack A, bl)"
    "ack_for b (ar_nk_handshake_hash R) (as_ack A)" "ack_process_generation (as_ack A) = g"
    "lease_linked chan bl tl" "beats bl = (None, 0)" "beats tl = (None, 0)"
    "lease_spare bl" "lease_spare tl" "lc_binding tl = LeaseBinding_from_ack (as_ack A)"
proof -
  obtain hi hr where start: "TargetBootstrap_new N C e1 b pk = Inr \<lparr>tb_state = hi, tb_binding = b\<rparr>"
    "BrokerBootstrap_new N C e2 b sk secret = Inr \<lparr>br_state = hr, br_binding = b, br_secret = secret\<rparr>"
    and link: "hs_linked N chan hi hr"
    using bootstrap_start [OF key wf] .
  obtain p1 where p1: "m1_payload C b = Inr p1" using payloads_total(2) [OF wf] by blast
  obtain p2 where p2: "expected_m2 C b secret = Inr p2" using payloads_total(4) [OF wf secret] by blast
  have len: "length p1 \<le> 65487" "length p2 \<le> 65487"
    using payload_lengths(2) [OF p1 wf] payload_lengths(3) [OF p2 wf secret] by simp_all
  obtain o1 o2 hi1 hr1 hr2 hi2 ti tr where
    hs: "write_handshake N p1 hi = (Inr o1, hi1)" "read_handshake_mut N o1 hr = (Inr p1, hr1)"
      "write_handshake N p2 hr1 = (Inr o2, hr2)" "read_handshake_mut N o2 hi1 = (Inr p2, hi2)"
    and hash: "hs_hash N hi2 = hs_hash N hr2" "length (hs_hash N hr2) = 32"
    and tr: "hs_into_transport N hi2 = Some ti" "hs_into_transport N hr2 = Some tr"
    and ch: "chan 0 ti tr" "chan 0 tr ti"
    using handshake_delivers [OF link len] .
  define ack where "ack = \<lparr>ack_target_reference_digest = bb_target_reference_digest b,
    ack_lease_id = bb_lease_id b, ack_process_generation = g, ack_listener_epoch = 1,
    ack_nk_handshake_hash = hs_hash N hr2\<rparr>"
  have ack: "wf_ack ack" "ack_for b (hs_hash N hr2) ack"
    using wf hash gen by (simp_all add: ack_def wf_binding_defs ack_for_def)
  obtain frame tl bl where a:
    "TargetBootstrapAckSender_write_ack N C \<lparr>as_transport = Some ti, as_ack = ack\<rparr> = Inr (frame, tl)"
    "BrokerBootstrapAckReceiver_read_ack N C
       \<lparr>ar_transport = Some tr, ar_binding = b, ar_nk_handshake_hash = hs_hash N hr2\<rparr> frame = Inr (ack, bl)"
    and l: "lease_linked chan bl tl" "beats bl = (None, 0)" "beats tl = (None, 0)"
      "lease_spare bl" "lease_spare tl" "lc_binding tl = LeaseBinding_from_ack ack"
    using bootstrap_ack_delivered [OF ch ack] .
  show ?thesis
  proof (rule that [OF start, of o1 "\<lparr>tb_state = hi1, tb_binding = b\<rparr>" o2
        "\<lparr>ar_transport = Some tr, ar_binding = b, ar_nk_handshake_hash = hs_hash N hr2\<rparr>"
        "\<lparr>as_transport = Some ti, as_ack = ack\<rparr>" frame tl bl])
    show "TargetBootstrap_write_m1 N C \<lparr>tb_state = hi, tb_binding = b\<rparr> =
        (Inr o1, \<lparr>tb_state = hi1, tb_binding = b\<rparr>)"
      using p1 hs(1) by (simp add: TargetBootstrap_write_m1_def)
    show "BrokerBootstrap_read_m1_write_m2 N C \<lparr>br_state = hr, br_binding = b, br_secret = secret\<rparr> o1 =
        Inr (o2, \<lparr>ar_transport = Some tr, ar_binding = b, ar_nk_handshake_hash = hs_hash N hr2\<rparr>)"
      using p1 p2 hs(2,3) tr(2) by (simp add: BrokerBootstrap_read_m1_write_m2_def)
    show "TargetBootstrap_read_m2 N C \<lparr>tb_state = hi1, tb_binding = b\<rparr> o2 g 1 =
        Inr (\<lparr>as_transport = Some ti, as_ack = ack\<rparr>, secret)"
      using gen hs(4) tr(1) hash(1) parse_expected_m2 [OF wf secret p2]
      by (simp add: TargetBootstrap_read_m2_def ack_def)
  qed (use a l ack in \<open>simp_all add: ack_def\<close>)
qed

end

section \<open>Properties\<close>

text \<open>C6: The bootstrap completes. For a matching Broker key pair and one well-formed binding, the five calls
  of the two roles succeed in turn; the Target receives exactly the Broker's secret, the Broker receives
  exactly the Target's acknowledgement, which carries the binding, the requested generation and the common
  handshake hash, and the two lease connections are linked, idle and far from their quotas.\<close>

theorem bootstrap_agreement:
  assumes "protected_link N chan keypair C" "keypair sk pk" "wf_bootstrap_binding b" "length secret = 32"
    "valid_generation g"
  shows "\<exists>T0 B0 m1 T1 m2 R A frame tl bl.
    TargetBootstrap_new N C e1 b pk = Inr T0 \<and> BrokerBootstrap_new N C e2 b sk secret = Inr B0 \<and>
    TargetBootstrap_write_m1 N C T0 = (Inr m1, T1) \<and>
    BrokerBootstrap_read_m1_write_m2 N C B0 m1 = Inr (m2, R) \<and>
    TargetBootstrap_read_m2 N C T1 m2 g 1 = Inr (A, secret) \<and>
    TargetBootstrapAckSender_write_ack N C A = Inr (frame, tl) \<and>
    BrokerBootstrapAckReceiver_read_ack N C R frame = Inr (as_ack A, bl) \<and>
    ack_for b (ar_nk_handshake_hash R) (as_ack A) \<and> ack_process_generation (as_ack A) = g \<and>
    lease_linked chan bl tl \<and> beats bl = (None, 0) \<and> beats tl = (None, 0) \<and>
    lease_spare bl \<and> lease_spare tl \<and> lc_binding tl = LeaseBinding_from_ack (as_ack A)"
  using protected_link.bootstrap_completes [OF assms, of e1 e2] by metis

theorem bootstrap_agreement_witness:
  "\<exists>T0 B0 m1 T1 m2 R A.
    TargetBootstrap_new clear_noise rfc_cbor [] demo_bootstrap_binding (replicate 32 7) = Inr T0 \<and>
    BrokerBootstrap_new clear_noise rfc_cbor [] demo_bootstrap_binding (replicate 32 7) (replicate 32 9) = Inr B0 \<and>
    TargetBootstrap_write_m1 clear_noise rfc_cbor T0 = (Inr m1, T1) \<and>
    BrokerBootstrap_read_m1_write_m2 clear_noise rfc_cbor B0 m1 = Inr (m2, R) \<and>
    TargetBootstrap_read_m2 clear_noise rfc_cbor T1 m2 77 1 = Inr (A, replicate 32 9)"
  using bootstrap_agreement [OF clear_link.protected_link_axioms refl demo_bindings_wf(1), of "replicate 32 9" 77
      "[]" "replicate 32 7" "[]"]
  by (auto simp: valid_generation_def)

text \<open>C33: The Target takes over a secret only from a second message that opens under its handshake and is
  the canonical encoding of that secret under the Target's own binding, and only for a generation in range
  and epoch one; what it will acknowledge is its binding with the hash of that handshake.\<close>

theorem target_secret_authentic:
  assumes "TargetBootstrap_read_m2 N C s outer generation epoch = Inr (A, secret)"
  shows "\<exists>payload state. read_handshake_mut N outer (tb_state s) = (Inr payload, state) \<and>
    expected_m2 C (tb_binding s) secret = Inr payload \<and> length secret = 32 \<and>
    valid_generation generation \<and> epoch = 1 \<and>
    as_ack A = \<lparr>ack_target_reference_digest = bb_target_reference_digest (tb_binding s),
      ack_lease_id = bb_lease_id (tb_binding s), ack_process_generation = generation,
      ack_listener_epoch = 1, ack_nk_handshake_hash = hs_hash N state\<rparr>"
  using read_m2_Inr [OF assms] by metis

theorem target_secret_authentic_witness:
  "\<exists>s outer A payload state. TargetBootstrap_read_m2 clear_noise rfc_cbor s outer 77 1 = Inr (A, replicate 32 9) \<and>
     read_handshake_mut clear_noise outer (tb_state s) = (Inr payload, state) \<and>
     expected_m2 rfc_cbor (tb_binding s) (replicate 32 9) = Inr payload"
proof -
  obtain T1 m2 A where r: "TargetBootstrap_read_m2 clear_noise rfc_cbor T1 m2 77 1 = Inr (A, replicate 32 9)"
    by (rule clear_link.bootstrap_completes [of "replicate 32 7" "replicate 32 7" demo_bootstrap_binding
          "replicate 32 9" 77 "[]" "[]"]) (simp_all add: valid_generation_def)
  from target_secret_authentic [OF r] r show ?thesis by blast
qed

text \<open>C34: The Broker opens a lease only for an acknowledgement that arrived as one complete Finished record on
  the handshake's own transport, is canonical, and carries the Broker's binding and handshake hash; the
  lease starts open, with that one record charged, and bound to what was acknowledged.\<close>

theorem broker_lease_authentic:
  assumes "BrokerBootstrapAckReceiver_read_ack N C s outer = Inr (ack, lease)"
  shows "\<exists>t t' plaintext r. ar_transport s = Some t \<and> decrypt_transport N outer t = (Inr plaintext, t') \<and>
    Record_decode plaintext = Inr r \<and> validate_complete_record r Finished = Inr () \<and>
    bootstrap_ack_payload C ack = Inr (rec_data r) \<and>
    ack_for (ar_binding s) (ar_nk_handshake_hash s) ack \<and>
    lease = LeaseCore_new t' (LeaseBinding_from_ack ack) 0 0 1 (of_nat (length plaintext))"
  using read_ack_Inr [OF assms] by metis

theorem broker_lease_authentic_witness:
  "\<exists>s outer ack lease. BrokerBootstrapAckReceiver_read_ack clear_noise rfc_cbor s outer = Inr (ack, lease) \<and>
     ack_for (ar_binding s) (ar_nk_handshake_hash s) ack"
proof -
  obtain R frame ack bl where r: "BrokerBootstrapAckReceiver_read_ack clear_noise rfc_cbor R frame = Inr (ack, bl)"
    by (rule clear_link.bootstrap_completes [of "replicate 32 7" "replicate 32 7" demo_bootstrap_binding
          "replicate 32 9" 77 "[]" "[]"]) (simp_all add: valid_generation_def)
  from broker_lease_authentic [OF r] r show ?thesis by blast
qed

end
