(* ===== verification/Descriptor.thy ===== *)
theory Descriptor
  imports Payloads
begin

text \<open>
  The launch descriptor. The Broker's host runtime writes it
  (\<^verbatim>\<open>host-runtime/src/raw_transport.rs\<close>, \<open>encode_launch_descriptor\<close>, with the endpoint of
  \<^verbatim>\<open>host-runtime/src/adapter.rs\<close>) and the Target reads it when its process starts
  (\<^verbatim>\<open>crypto-core/src/target_transport.rs\<close>, \<open>parse_descriptor\<close>). The parser is strict: it re-encodes
  what it read and compares. The theory proves it a \<open>wire_codec\<close> and shows when the descriptor of the
  host is one the Target accepts.
\<close>

section \<open>The Target's parser\<close>

datatype SupervisorError = InvalidArgument | WrongPhase | Internal

definition JSON_SAFE_MAX :: u64 where
  "JSON_SAFE_MAX = 9007199254740991"

definition DESCRIPTOR_MAX :: nat where
  "DESCRIPTOR_MAX = 8192"

datatype Endpoint = Ios u16 | Android bytes

record ParsedDescriptor =
  pd_binding :: BootstrapBinding
  pd_broker_public_key :: bytes
  pd_endpoint :: Endpoint

text \<open>\<^verbatim>\<open>.map_err(|_| SupervisorError::InvalidArgument)\<close> on a read of the CBOR library.\<close>

definition arg :: "'a option \<Rightarrow> SupervisorError + 'a" where
  "arg x = ok_or InvalidArgument x"

definition expect_key :: "cbor \<Rightarrow> u8 \<Rightarrow> bytes \<Rightarrow> SupervisorError + bytes" where
  "expect_key C key d =
     res_bind (arg (get_u8 C d)) (\<lambda>(v, d). if v = key then Inr d else Inl InvalidArgument)"

definition fixed_bytes :: "cbor \<Rightarrow> nat \<Rightarrow> bytes \<Rightarrow> SupervisorError + (bytes \<times> bytes)" where
  "fixed_bytes C n d =
     res_bind (arg (get_bytes C d)) (\<lambda>(x, d). if length x = n then Inr (x, d) else Inl InvalidArgument)"

definition expect_entries :: "cbor \<Rightarrow> u64 \<Rightarrow> bytes \<Rightarrow> SupervisorError + bytes" where
  "expect_entries C n d =
     res_bind (arg (get_map C d)) (\<lambda>(v, d). if v \<noteq> Some n then Inl InvalidArgument else Inr d)"

definition LOOPBACK :: bytes where
  "LOOPBACK = ascii ''127.0.0.1''"

definition parse_endpoint :: "cbor \<Rightarrow> u8 \<Rightarrow> bytes \<Rightarrow> SupervisorError + (Endpoint \<times> bytes)" where
  "parse_endpoint C platform d =
     (if platform = 0 then
        res_bind (expect_entries C 2 d) (\<lambda>d.
        res_bind (expect_key C 0 d) (\<lambda>d.
        res_bind (arg (get_str C d)) (\<lambda>(host, d).
        if host \<noteq> LOOPBACK then Inl InvalidArgument else
        res_bind (expect_key C 1 d) (\<lambda>d.
        res_bind (arg (get_u16 C d)) (\<lambda>(port, d).
        if \<not> (49152 \<le> port \<and> port \<le> 65535) then Inl InvalidArgument
        else Inr (Ios port, d))))))
      else if platform = 1 then
        res_bind (expect_entries C 1 d) (\<lambda>d.
        res_bind (expect_key C 0 d) (\<lambda>d.
        res_bind (arg (get_str C d)) (\<lambda>(name, d).
        if \<not> (32 \<le> length name \<and> length name \<le> 96) \<or> 0 \<in> set name then Inl InvalidArgument
        else Inr (Android name, d))))
      else Inl InvalidArgument)"

text \<open>The encoder: a chain of writer calls, each with \<^verbatim>\<open>.map_err(|_| SupervisorError::Internal)?\<close>.\<close>

definition put_platform :: "cbor \<Rightarrow> Endpoint \<Rightarrow> bytes option" where
  "put_platform C e = (case e of Ios _ \<Rightarrow> put_u8 C 0 | Android _ \<Rightarrow> put_u8 C 1)"

definition put_endpoint :: "cbor \<Rightarrow> Endpoint \<Rightarrow> bytes option list" where
  "put_endpoint C e =
     (case e of
        Ios port \<Rightarrow> [put_map C 2, put_u8 C 0, put_str C LOOPBACK, put_u8 C 1, put_u16 C port]
      | Android name \<Rightarrow> [put_map C 1, put_u8 C 0, put_str C name])"

definition encode_descriptor :: "cbor \<Rightarrow> ParsedDescriptor \<Rightarrow> SupervisorError + bytes" where
  "encode_descriptor C p =
     (let b = pd_binding p in ok_or Internal (put_all
       ([put_map C 9, put_u8 C 0, put_u8 C 1, put_u8 C 1, put_platform C (pd_endpoint p),
         put_u8 C 2, put_bytes C (bb_lease_id b), put_u8 C 3, put_bytes C (bb_target_nonce b),
         put_u8 C 4, put_bytes C (bb_app_artifact_digest b),
         put_u8 C 5, put_bytes C (pd_broker_public_key p), put_u8 C 6] @
        put_endpoint C (pd_endpoint p) @
        [put_u8 C 7, put_u64 C (bb_expiry_ms b),
         put_u8 C 8, put_bytes C (bb_target_reference_digest b)])))"

definition parse_descriptor :: "cbor \<Rightarrow> bytes \<Rightarrow> SupervisorError + ParsedDescriptor" where
  "parse_descriptor C input =
     (if input = [] \<or> length input > DESCRIPTOR_MAX then Inl InvalidArgument else
      res_bind (expect_entries C 9 input) (\<lambda>d.
      res_bind (expect_key C 0 d) (\<lambda>d.
      res_bind (arg (get_u8 C d)) (\<lambda>(version, d).
      if version \<noteq> 1 then Inl InvalidArgument else
      res_bind (expect_key C 1 d) (\<lambda>d.
      res_bind (arg (get_u8 C d)) (\<lambda>(platform, d).
      if \<not> (platform = 0 \<or> platform = 1) then Inl InvalidArgument else
      res_bind (expect_key C 2 d) (\<lambda>d.
      res_bind (fixed_bytes C 16 d) (\<lambda>(lease_id, d).
      res_bind (expect_key C 3 d) (\<lambda>d.
      res_bind (fixed_bytes C 32 d) (\<lambda>(target_nonce, d).
      res_bind (expect_key C 4 d) (\<lambda>d.
      res_bind (fixed_bytes C 32 d) (\<lambda>(app_artifact_digest, d).
      res_bind (expect_key C 5 d) (\<lambda>d.
      res_bind (fixed_bytes C 32 d) (\<lambda>(broker_public_key, d).
      res_bind (expect_key C 6 d) (\<lambda>d.
      res_bind (parse_endpoint C platform d) (\<lambda>(endpoint, d).
      res_bind (expect_key C 7 d) (\<lambda>d.
      res_bind (arg (get_u64 C d)) (\<lambda>(expiry_ms, d).
      if \<not> (1 \<le> expiry_ms \<and> expiry_ms \<le> JSON_SAFE_MAX) then Inl InvalidArgument else
      res_bind (expect_key C 8 d) (\<lambda>d.
      res_bind (fixed_bytes C 32 d) (\<lambda>(target_reference_digest, d).
      if d \<noteq> [] then Inl InvalidArgument else
      let parsed = \<lparr>
        pd_binding = \<lparr>bb_target_reference_digest = target_reference_digest, bb_lease_id = lease_id,
          bb_target_nonce = target_nonce, bb_app_artifact_digest = app_artifact_digest,
          bb_expiry_ms = expiry_ms\<rparr>,
        pd_broker_public_key = broker_public_key, pd_endpoint = endpoint\<rparr>
      in res_bind (encode_descriptor C parsed)
           (\<lambda>b. if b \<noteq> input then Inl InvalidArgument else Inr parsed)))))))))))))))))))))"

text \<open>The values the parser returns: the array lengths of the Rust type and the ranges it checks.\<close>

definition valid_endpoint :: "Endpoint \<Rightarrow> bool" where
  "valid_endpoint e =
     (case e of Ios port \<Rightarrow> 49152 \<le> port
      | Android name \<Rightarrow> 32 \<le> length name \<and> length name \<le> 96 \<and> 0 \<notin> set name \<and> utf8_valid name)"

definition valid_descriptor :: "ParsedDescriptor \<Rightarrow> bool" where
  "valid_descriptor p \<longleftrightarrow>
     wf_bootstrap_binding (pd_binding p) \<and> length (pd_broker_public_key p) = 32 \<and>
     1 \<le> bb_expiry_ms (pd_binding p) \<and> bb_expiry_ms (pd_binding p) \<le> JSON_SAFE_MAX \<and>
     valid_endpoint (pd_endpoint p)"

text \<open>What the Rust types say alone, with the longest name the host lets through.\<close>

definition typed_endpoint :: "Endpoint \<Rightarrow> bool" where
  "typed_endpoint e =
     (case e of Ios port \<Rightarrow> True | Android name \<Rightarrow> length name \<le> 96 \<and> utf8_valid name)"

definition typed_descriptor :: "ParsedDescriptor \<Rightarrow> bool" where
  "typed_descriptor p \<longleftrightarrow>
     wf_bootstrap_binding (pd_binding p) \<and> length (pd_broker_public_key p) = 32 \<and>
     typed_endpoint (pd_endpoint p)"

section \<open>The host's writer\<close>

datatype Platform = IosSimulator | AndroidEmulator

datatype LaunchEndpoint = IosLoopback u16 | AndroidLocalAbstract bytes

datatype PlatformFailureKind =
    PlatformTimedOut | PlatformCancelled | PlatformEof | PlatformUnavailable | Rejected
  | PlatformCleanupFailed | PlatformInternal

definition ios_loopback :: "u16 \<Rightarrow> PlatformFailureKind + LaunchEndpoint" where
  "ios_loopback port =
     (if \<not> (49152 \<le> port \<and> port \<le> 65535) then Inl Rejected else Inr (IosLoopback port))"

definition android_local_abstract :: "bytes \<Rightarrow> PlatformFailureKind + LaunchEndpoint" where
  "android_local_abstract name =
     (if \<not> (32 \<le> length name \<and> length name \<le> 96) then Inl Rejected
      else Inr (AndroidLocalAbstract name))"

fun ios_port :: "LaunchEndpoint \<Rightarrow> u16 option" where
  "ios_port (IosLoopback port) = Some port"
| "ios_port (AndroidLocalAbstract _) = None"

fun android_name :: "LaunchEndpoint \<Rightarrow> bytes option" where
  "android_name (IosLoopback _) = None"
| "android_name (AndroidLocalAbstract name) = Some name"

fun endpoint_matches_platform :: "Platform \<Rightarrow> LaunchEndpoint \<Rightarrow> bool" where
  "endpoint_matches_platform IosSimulator e = (ios_port e \<noteq> None)"
| "endpoint_matches_platform AndroidEmulator e = (android_name e \<noteq> None)"

text \<open>\<^verbatim>\<open>TransportFailure::new(CloseReason::BindingMismatch)\<close> is its close reason here. The two
  \<^verbatim>\<open>expect\<close> calls are on values the guard has shown present.\<close>

definition encode_launch_descriptor ::
    "Platform \<Rightarrow> LaunchEndpoint \<Rightarrow> bytes \<Rightarrow> bytes \<Rightarrow> bytes \<Rightarrow> bytes \<Rightarrow> u64 \<Rightarrow> bytes \<Rightarrow> CloseReason + bytes"
  where
  "encode_launch_descriptor platform endpoint lease_id target_nonce app_artifact_digest
       broker_static_public expiry_ms target_reference_digest =
     (if expiry_ms = 0 \<or> \<not> endpoint_matches_platform platform endpoint then Inl BindingMismatch
      else Inr (0xa9 # cbor_uint 0 @ cbor_uint 1 @ cbor_uint 1 @
        cbor_uint (case platform of IosSimulator \<Rightarrow> 0 | AndroidEmulator \<Rightarrow> 1) @
        cbor_uint 2 @ cbor_bytes lease_id @ cbor_uint 3 @ cbor_bytes target_nonce @
        cbor_uint 4 @ cbor_bytes app_artifact_digest @ cbor_uint 5 @ cbor_bytes broker_static_public @
        cbor_uint 6 @
        (case platform of
           IosSimulator \<Rightarrow> 0xa2 # cbor_uint 0 @ cbor_text LOOPBACK @ cbor_uint 1 @
             cbor_uint (ucast (the (ios_port endpoint)))
         | AndroidEmulator \<Rightarrow> 0xa1 # cbor_uint 0 @ cbor_text (the (android_name endpoint))) @
        cbor_uint 7 @ cbor_uint expiry_ms @ cbor_uint 8 @ cbor_bytes target_reference_digest))"

section \<open>The descriptor as a codec\<close>

lemma arg_Inr [simp]: "arg x = Inr v \<longleftrightarrow> x = Some v"
  by (simp add: arg_def)

lemma arg_Some [simp]: "arg (Some v) = Inr v"
  by (simp add: arg_def)

lemma set_ascii_loopback: "0 \<notin> set LOOPBACK" "length LOOPBACK = 9" "utf8_valid LOOPBACK"
  by (simp_all add: LOOPBACK_def ascii_def)

lemma parse_descriptor_encodes:
  assumes "parse_descriptor C input = Inr p"
  shows "encode_descriptor C p = Inr input"
  using assms unfolding parse_descriptor_def
  by (auto elim!: res_bindE simp: Let_def split: if_splits prod.splits)

text \<open>The canonical bytes of an endpoint, and that they are read back.\<close>

definition endpoint_bytes :: "Endpoint \<Rightarrow> bytes" where
  "endpoint_bytes e = (case e of
     Ios port \<Rightarrow> cbor_major_len 5 2 @ cbor_uint 0 @ cbor_text LOOPBACK @ cbor_uint 1 @ cbor_uint (ucast port)
   | Android name \<Rightarrow> cbor_major_len 5 1 @ cbor_uint 0 @ cbor_text name)"

definition platform_of :: "Endpoint \<Rightarrow> u8" where
  "platform_of e = (case e of Ios _ \<Rightarrow> 0 | Android _ \<Rightarrow> 1)"

context minicbor
begin

lemma parse_endpoint_valid:
  "parse_endpoint C platform d = Inr (e, d') \<Longrightarrow> valid_endpoint e"
  by (auto simp: parse_endpoint_def valid_endpoint_def elim!: res_bindE split: if_splits; erule get_str_utf8)

lemma parse_descriptor_valid:
  assumes "parse_descriptor C input = Inr p"
  shows "valid_descriptor p"
  using assms unfolding parse_descriptor_def
  by (auto elim!: res_bindE simp: Let_def fixed_bytes_def valid_descriptor_def wf_bootstrap_binding_def
      split: if_splits prod.splits) (erule parse_endpoint_valid)+

lemma arg_laws:
  "unat v < 2 ^ 8 \<Longrightarrow> get_u8 C (cbor_uint v @ r) = Some (ucast v, r)"
  "unat v < 2 ^ 8 \<Longrightarrow> expect_key C k (cbor_uint v @ r) = (if ucast v = k then Inr r else Inl InvalidArgument)"
  "expect_entries C m (cbor_major_len 5 n @ r) = (if n = m then Inr r else Inl InvalidArgument)"
  "length bs < 2 ^ 64 \<Longrightarrow> fixed_bytes C l (cbor_bytes bs @ r) = (if length bs = l then Inr (bs, r) else Inl InvalidArgument)"
  "length bs < 2 ^ 64 \<Longrightarrow> fixed_bytes C l (cbor_bytes bs) = (if length bs = l then Inr (bs, []) else Inl InvalidArgument)"
  using get_bytes [of bs "[]"]
  by (simp_all add: expect_key_def expect_entries_def fixed_bytes_def get_laws)

lemma parse_endpoint_bytes:
  assumes "typed_endpoint e"
  shows "parse_endpoint C (platform_of e) (endpoint_bytes e @ r) =
    (if valid_endpoint e then Inr (e, r) else Inl InvalidArgument)"
proof (cases e)
  case (Ios port)
  have "port \<le> 65535" using unat_bounds(2) [of port] by (simp add: word_le_nat_alt)
  with Ios assms show ?thesis
    by (simp add: platform_of_def endpoint_bytes_def parse_endpoint_def valid_endpoint_def arg_laws get_laws
        set_ascii_loopback unat_bounds cong: res_bind_weak_cong)
next
  case (Android name)
  with assms show ?thesis
    by (simp add: platform_of_def endpoint_bytes_def parse_endpoint_def valid_endpoint_def typed_endpoint_def
        arg_laws get_laws get_str [where r = "[]", simplified] cong: res_bind_weak_cong)
qed

lemma put_endpoint_bytes:
  assumes "typed_endpoint e"
  shows "put_all (put_endpoint C e @ ws) = map_option ((@) (endpoint_bytes e)) (put_all ws)"
    and "put_platform C e = Some (cbor_uint (ucast (platform_of e)))"
  using assms
  by (cases e; cases "put_all ws"; simp add: put_endpoint_def put_platform_def platform_of_def endpoint_bytes_def
      typed_endpoint_def put_laws set_ascii_loopback)+

lemma encode_descriptor_eq:
  assumes "typed_descriptor p"
  shows "encode_descriptor C p = Inr (cbor_major_len 5 9 @ cbor_uint 0 @ cbor_uint 1 @ cbor_uint 1 @
     cbor_uint (ucast (platform_of (pd_endpoint p))) @
     cbor_uint 2 @ cbor_bytes (bb_lease_id (pd_binding p)) @
     cbor_uint 3 @ cbor_bytes (bb_target_nonce (pd_binding p)) @
     cbor_uint 4 @ cbor_bytes (bb_app_artifact_digest (pd_binding p)) @
     cbor_uint 5 @ cbor_bytes (pd_broker_public_key p) @
     cbor_uint 6 @ endpoint_bytes (pd_endpoint p) @
     cbor_uint 7 @ cbor_uint (bb_expiry_ms (pd_binding p)) @
     cbor_uint 8 @ cbor_bytes (bb_target_reference_digest (pd_binding p)))"
  using assms
  by (simp add: encode_descriptor_def Let_def put_laws put_endpoint_bytes typed_descriptor_def
      wf_bootstrap_binding_def)

lemma endpoint_bytes_length: "typed_endpoint e \<Longrightarrow> length (endpoint_bytes e) \<le> 200"
  using cbor_length_bounds(1) [of 5 2] cbor_length_bounds(1) [of 5 1] cbor_length_bounds(2) [of 0]
    cbor_length_bounds(2) [of 1] cbor_length_bounds(2) [of "case e of Ios p \<Rightarrow> ucast p"]
    cbor_length_bounds(4) [of LOOPBACK] cbor_length_bounds(4) [of "case e of Android n \<Rightarrow> n"]
  by (cases e) (auto simp: endpoint_bytes_def typed_endpoint_def set_ascii_loopback)

lemma encode_descriptor_length:
  assumes "typed_descriptor p" "encode_descriptor C p = Inr b"
  shows "b \<noteq> [] \<and> length b \<le> DESCRIPTOR_MAX"
proof -
  have u: "length (cbor_uint v) \<le> 9" for v by (rule cbor_length_bounds)
  have y: "length x \<le> 32 \<Longrightarrow> length (cbor_bytes x) \<le> 41" for x
    using cbor_length_bounds(3) [of x] by linarith
  have m: "length (cbor_major_len 5 9) \<le> 9" by (rule cbor_length_bounds)
  show ?thesis
    using assms endpoint_bytes_length [of "pd_endpoint p"] m u [of 0] u [of 1] u [of 2] u [of 3] u [of 4] u [of 5]
      u [of 6] u [of 7] u [of 8] u [of "ucast (platform_of (pd_endpoint p))"] u [of "bb_expiry_ms (pd_binding p)"]
      y [of "bb_lease_id (pd_binding p)"] y [of "bb_target_nonce (pd_binding p)"]
      y [of "bb_app_artifact_digest (pd_binding p)"] y [of "pd_broker_public_key p"]
      y [of "bb_target_reference_digest (pd_binding p)"]
    by (simp add: encode_descriptor_eq DESCRIPTOR_MAX_def)
       (auto simp: typed_descriptor_def wf_bootstrap_binding_def)
qed

lemma parse_encoded_descriptor:
  assumes typed: "typed_descriptor p" and enc: "encode_descriptor C p = Inr input"
  shows "parse_descriptor C input = (if valid_descriptor p then Inr p else Inl InvalidArgument)"
proof -
  note len = encode_descriptor_length [OF typed enc]
  note input = enc [unfolded encode_descriptor_eq [OF typed], simplified, symmetric]
  have e: "typed_endpoint (pd_endpoint p)" "platform_of (pd_endpoint p) = 0 \<or> platform_of (pd_endpoint p) = 1"
    using typed by (simp_all add: typed_descriptor_def platform_of_def split: Endpoint.splits)
  obtain dg l n a x k ep where p: "p = \<lparr>pd_binding = \<lparr>bb_target_reference_digest = dg, bb_lease_id = l,
      bb_target_nonce = n, bb_app_artifact_digest = a, bb_expiry_ms = x\<rparr>, pd_broker_public_key = k, pd_endpoint = ep\<rparr>"
    by (metis BootstrapBinding.cases_scheme ParsedDescriptor.cases_scheme old.unit.exhaust)
  show ?thesis
    using typed len e enc parse_endpoint_bytes [OF e(1)]
    unfolding input
    by (simp add: parse_descriptor_def arg_laws get_laws typed_descriptor_def valid_descriptor_def
        wf_bootstrap_binding_def p unat_bounds Let_def cong: res_bind_weak_cong)
      blast
qed

lemma valid_typed: "valid_descriptor p \<Longrightarrow> typed_descriptor p"
  by (auto simp: valid_descriptor_def typed_descriptor_def valid_endpoint_def typed_endpoint_def split: Endpoint.splits)

lemma descriptor_codec: "wire_codec (encode_descriptor C) (parse_descriptor C) valid_descriptor"
  using parse_encoded_descriptor [OF valid_typed]
  by unfold_locales (auto intro: parse_descriptor_encodes parse_descriptor_valid)

end

section \<open>What the host sends\<close>

text \<open>The descriptor the host's arguments mean.\<close>

definition host_endpoint :: "LaunchEndpoint \<Rightarrow> Endpoint" where
  "host_endpoint e = (case e of IosLoopback port \<Rightarrow> Ios port | AndroidLocalAbstract name \<Rightarrow> Android name)"

lemma cbor_map_heads: "cbor_major_len 5 9 = [0xa9]" "cbor_major_len 5 2 = [0xa2]" "cbor_major_len 5 1 = [0xa1]"
  by (simp_all add: cbor_major_len_def push_bit_eq_mult)

context minicbor
begin

text \<open>The host's hand-written encoder and the Target's library encoder write the same bytes.\<close>

lemma launch_descriptor_encodes:
  assumes "encode_launch_descriptor platform e (bb_lease_id b) (bb_target_nonce b) (bb_app_artifact_digest b)
      key (bb_expiry_ms b) (bb_target_reference_digest b) = Inr bytes"
    and "typed_descriptor \<lparr>pd_binding = b, pd_broker_public_key = key, pd_endpoint = host_endpoint e\<rparr>"
  shows "encode_descriptor C \<lparr>pd_binding = b, pd_broker_public_key = key, pd_endpoint = host_endpoint e\<rparr> = Inr bytes"
  using assms(1) encode_descriptor_eq [OF assms(2)]
  by (cases platform; cases e)
    (auto simp: encode_launch_descriptor_def host_endpoint_def endpoint_bytes_def platform_of_def cbor_map_heads
      split: if_splits)

end


lemma launch_descriptor_parsed:
  assumes "minicbor C"
    and "ios_loopback port = Inr e \<or> utf8_valid name \<and> android_local_abstract name = Inr e"
    and "wf_bootstrap_binding b" "length key = 32"
    and "encode_launch_descriptor platform e (bb_lease_id b) (bb_target_nonce b) (bb_app_artifact_digest b)
      key (bb_expiry_ms b) (bb_target_reference_digest b) = Inr bytes"
  shows "parse_descriptor C bytes =
    (if bb_expiry_ms b \<le> JSON_SAFE_MAX \<and> (\<forall>name. android_name e = Some name \<longrightarrow> 0 \<notin> set name)
     then Inr \<lparr>pd_binding = b, pd_broker_public_key = key, pd_endpoint = host_endpoint e\<rparr>
     else Inl InvalidArgument)"
proof -
  let ?p = "\<lparr>pd_binding = b, pd_broker_public_key = key, pd_endpoint = host_endpoint e\<rparr>"
  have typed: "typed_descriptor ?p"
    using assms(2-4) by (auto simp: typed_descriptor_def typed_endpoint_def host_endpoint_def ios_loopback_def
        android_local_abstract_def split: if_splits)
  have "bb_expiry_ms b \<noteq> 0" using assms(5) by (auto simp: encode_launch_descriptor_def split: if_splits)
  then have "1 \<le> bb_expiry_ms b" by (simp add: word_le_nat_alt Suc_le_eq unat_gt_0)
  then have "valid_descriptor ?p \<longleftrightarrow>
      bb_expiry_ms b \<le> JSON_SAFE_MAX \<and> (\<forall>name. android_name e = Some name \<longrightarrow> 0 \<notin> set name)"
    using assms(2-4) by (auto simp: valid_descriptor_def valid_endpoint_def host_endpoint_def ios_loopback_def
        android_local_abstract_def split: if_splits)
  with minicbor.parse_encoded_descriptor [OF assms(1) typed
      minicbor.launch_descriptor_encodes [OF assms(1,5) typed]]
  show ?thesis by simp
qed

section \<open>Properties\<close>

text \<open>C38: The Target accepts a launch descriptor exactly when it is the canonical encoding of one whose
  fields have their lengths, whose expiry is in range and whose endpoint is allowed; the accepted value is
  the one encoded.\<close>

theorem descriptor_strict:
  assumes "minicbor C"
  shows "parse_descriptor C input = Inr p \<longleftrightarrow> valid_descriptor p \<and> encode_descriptor C p = Inr input"
  by (rule wire_codec.dec_iff [OF minicbor.descriptor_codec [OF assms]])

theorem descriptor_strict_witness:
  "parse_descriptor rfc_cbor [0xA9, 0] \<noteq> Inr \<lparr>pd_binding = demo_bootstrap_binding\<lparr>bb_expiry_ms := 0\<rparr>,
     pd_broker_public_key = replicate 32 6, pd_endpoint = Ios 50000\<rparr>"
  using descriptor_strict [OF rfc.minicbor_axioms, of "[0xA9, 0]"
      "\<lparr>pd_binding = demo_bootstrap_binding\<lparr>bb_expiry_ms := 0\<rparr>,
     pd_broker_public_key = replicate 32 6, pd_endpoint = Ios 50000\<rparr>"]
  by (simp add: valid_descriptor_def)

text \<open>C37: The Target reads back what the host sent. An endpoint the host's constructors admit, put into a
  launch descriptor, is parsed by the Target to the same binding, key and endpoint, unless the Android name
  holds a zero byte or the expiry exceeds the JSON-safe integers, which the host does not check: those the
  Target refuses as an invalid argument.\<close>

theorem launch_descriptor_read_back:
  assumes "minicbor C"
    and "ios_loopback port = Inr e \<or> utf8_valid name \<and> android_local_abstract name = Inr e"
    and "wf_bootstrap_binding b" "length key = 32"
    and "encode_launch_descriptor platform e (bb_lease_id b) (bb_target_nonce b) (bb_app_artifact_digest b)
      key (bb_expiry_ms b) (bb_target_reference_digest b) = Inr bytes"
  shows "parse_descriptor C bytes =
    (if bb_expiry_ms b \<le> JSON_SAFE_MAX \<and> (\<forall>name. android_name e = Some name \<longrightarrow> 0 \<notin> set name)
     then Inr \<lparr>pd_binding = b, pd_broker_public_key = key, pd_endpoint = host_endpoint e\<rparr>
     else Inl InvalidArgument)"
  using launch_descriptor_parsed [OF assms] .

theorem launch_descriptor_read_back_witness:
  "\<exists>bytes. encode_launch_descriptor IosSimulator (IosLoopback 50000) (bb_lease_id demo_bootstrap_binding)
     (bb_target_nonce demo_bootstrap_binding) (bb_app_artifact_digest demo_bootstrap_binding) (replicate 32 6)
     (bb_expiry_ms demo_bootstrap_binding) (bb_target_reference_digest demo_bootstrap_binding) = Inr bytes \<and>
   parse_descriptor rfc_cbor bytes = Inr \<lparr>pd_binding = demo_bootstrap_binding,
     pd_broker_public_key = replicate 32 6, pd_endpoint = Ios 50000\<rparr>"
proof -
  obtain bytes where enc: "encode_launch_descriptor IosSimulator (IosLoopback 50000)
     (bb_lease_id demo_bootstrap_binding) (bb_target_nonce demo_bootstrap_binding)
     (bb_app_artifact_digest demo_bootstrap_binding) (replicate 32 6)
     (bb_expiry_ms demo_bootstrap_binding) (bb_target_reference_digest demo_bootstrap_binding) = Inr bytes"
    by (simp add: encode_launch_descriptor_def demo_bootstrap_binding_def)
  have "ios_loopback 50000 = Inr (IosLoopback 50000)" by (simp add: ios_loopback_def)
  with launch_descriptor_read_back [OF rfc.minicbor_axioms _ demo_bindings_wf(1) _ enc, of 50000] enc show ?thesis
    by (simp add: JSON_SAFE_MAX_def demo_bootstrap_binding_def host_endpoint_def)
qed


end
