(* ===== verification/Supervisor.thy ===== *)
theory Supervisor
  imports Bootstrap Session Descriptor "HOL-Library.AList"
begin

unbundle bit_operations_syntax

text \<open>
  The Target's lifecycle supervisor, \<^verbatim>\<open>transport/crypto-core/src/target_transport.rs\<close>: one object per
  Target process that owns the bootstrap, the lease connection and the session children, and is driven
  by events of the platform shell (bytes, committed writes, accepted streams, timers). Every handler is
  a step on \<open>TargetTransport\<close> that returns an \<open>Outcome\<close> or a \<open>SupervisorError\<close>. A \<^verbatim>\<open>HashMap\<close> is an
  association list with distinct keys. \<^verbatim>\<open>std::mem::replace\<close> is written out: a handler that leaves early
  after it took the phase leaves \<open>Terminal_internal\<close> behind, and a child whose phase was taken is in
  \<open>C_Terminal\<close>. The entropy a Noise handshake draws is an argument of \<open>drive\<close>.
\<close>

section \<open>Events and outcomes\<close>

definition BOOTSTRAP_DEADLINE_MS :: u64 where "BOOTSTRAP_DEADLINE_MS = 10000"
definition SESSION_HANDSHAKE_DEADLINE_MS :: u64 where "SESSION_HANDSHAKE_DEADLINE_MS = 1000"
definition SESSION_OPEN_RESPONSE_DEADLINE_MS :: u64 where "SESSION_OPEN_RESPONSE_DEADLINE_MS = 2000"
definition FRAME_DEADLINE_MS :: u64 where "FRAME_DEADLINE_MS = 2000"
definition SESSION_IDLE_DEADLINE_MS :: u64 where "SESSION_IDLE_DEADLINE_MS = 30000"
definition LEASE_TICK_MS :: u64 where "LEASE_TICK_MS = 30000"

datatype EventTag =
    Ev_BootstrapConnected | Ev_StreamBytes | Ev_FullWriteCommitted | Ev_SessionAccepted
  | Ev_RuntimeResponse | Ev_StreamEof | Ev_StreamIoFailed | Ev_StreamCloseNormal | Ev_TimerFired
  | Ev_EligibilityLost | Ev_CleanupFailed | Ev_InternalError

record Event =
  ev_tag :: EventTag
  ev_flags :: u32
  ev_stream_id :: u64
  ev_write_token :: u64
  ev_bytes :: bytes

datatype OutcomeKind =
    K_EndpointReady | K_WriteFrames | K_Application | K_LeaseReady | K_NeedInput
  | K_SessionTerminal | K_LeaseTerminal | K_Closed

record Outcome =
  out_kind :: OutcomeKind
  out_flags :: u32
  out_stream_id :: u64
  out_write_token :: u64
  out_bytes :: "bytes option"
  out_value0 :: u64
  out_value1 :: u64
  out_next_deadline_ms :: u64
  out_close_reason :: CloseReason
  out_handoff :: HandoffState
  out_peer_close :: "(CloseReason \<times> HandoffState) option"

definition Outcome_new :: "OutcomeKind \<Rightarrow> Outcome" where
  "Outcome_new kind = \<lparr>out_kind = kind, out_flags = 0, out_stream_id = 0, out_write_token = 0,
     out_bytes = None, out_value0 = 0, out_value1 = 0, out_next_deadline_ms = 0,
     out_close_reason = Normal, out_handoff = NotHandedOff, out_peer_close = None\<rparr>"

definition Outcome_stream :: "u64 \<Rightarrow> Outcome \<Rightarrow> Outcome" where
  "Outcome_stream stream_id out = out\<lparr>out_stream_id := stream_id\<rparr>"

definition Outcome_values :: "u64 \<Rightarrow> u64 \<Rightarrow> Outcome \<Rightarrow> Outcome" where
  "Outcome_values value0 value1 out = out\<lparr>out_value0 := value0, out_value1 := value1\<rparr>"

definition Outcome_deadline :: "u64 \<Rightarrow> u64 \<Rightarrow> Outcome \<Rightarrow> Outcome" where
  "Outcome_deadline timer milliseconds out =
     (if out_write_token out = 0
      then out\<lparr>out_write_token := timer, out_flags := out_flags out OR 4,
             out_next_deadline_ms := milliseconds\<rparr>
      else out\<lparr>out_value0 := timer, out_flags := out_flags out OR 2,
             out_next_deadline_ms := milliseconds\<rparr>)"

definition Outcome_write :: "u64 \<Rightarrow> u64 \<Rightarrow> bytes \<Rightarrow> Outcome" where
  "Outcome_write stream_id write_token bytes =
     (Outcome_stream stream_id (Outcome_new K_WriteFrames))
       \<lparr>out_write_token := write_token, out_bytes := Some bytes\<rparr>"

definition Outcome_application :: "u64 \<Rightarrow> bytes \<Rightarrow> Outcome" where
  "Outcome_application stream_id bytes =
     (Outcome_stream stream_id (Outcome_new K_Application))
       \<lparr>out_handoff := HandoffPossibleOrConfirmed, out_bytes := Some bytes\<rparr>"

definition Outcome_terminal ::
    "OutcomeKind \<Rightarrow> u64 \<Rightarrow> CloseReason \<Rightarrow> HandoffState \<Rightarrow> (CloseReason \<times> HandoffState) option \<Rightarrow> Outcome" where
  "Outcome_terminal kind stream_id reason handoff peer =
     (Outcome_stream stream_id (Outcome_new kind))
       \<lparr>out_close_reason := reason, out_handoff := handoff, out_peer_close := peer\<rparr>"

text \<open>\<^verbatim>\<open>match frame_deadline { Some(timer) => outcome.deadline(timer, FRAME_DEADLINE_MS), None => outcome }\<close>.\<close>

definition with_frame_deadline :: "u64 option \<Rightarrow> Outcome \<Rightarrow> Outcome" where
  "with_frame_deadline frame_deadline out =
     (case frame_deadline of None \<Rightarrow> out | Some timer \<Rightarrow> Outcome_deadline timer FRAME_DEADLINE_MS out)"

definition concat_frames :: "bytes list \<Rightarrow> bytes" where
  "concat_frames frames = foldl (\<lambda>out frame. out @ frame) [] frames"

section \<open>The state\<close>

record Terminal =
  term_reason :: CloseReason
  term_handoff :: HandoffState
  term_peer_close :: "(CloseReason \<times> HandoffState) option"

definition Terminal_internal :: Terminal where
  "Terminal_internal = \<lparr>term_reason = InternalError, term_handoff = NotHandedOff, term_peer_close = None\<rparr>"

datatype TimerAction =
    T_Bootstrap | T_BootstrapFrame | T_LeaseTick | T_LeaseFrame
  | T_SessionPhase u64 | T_SessionIdle u64 | T_SessionFrame u64

datatype ('h, 't) ChildPhase =
    C_M1Pending "('h, 't) SessionCore" u64
  | C_AwaitM2 "('h, 't) SessionCore"
  | C_FinishedPending "('h, 't) SessionCore" u64
  | C_AwaitFinished "('h, 't) SessionCore"
  | C_AwaitApplication "('h, 't) SessionCore"
  | C_AwaitRuntime "('h, 't) SessionCore"
  | C_ResponsePending "('h, 't) SessionCore" u64
  | C_TerminalPending u64 Terminal
  | C_Terminal

record ('h, 't) Child =
  ch_phase :: "('h, 't) ChildPhase"
  ch_decoder :: OuterFrameDecoder
  ch_phase_timer :: "u64 option"
  ch_frame_timer :: "u64 option"
  ch_applications :: u64

record ('h, 't) Eligible =
  el_lease_stream :: u64
  el_lease :: "'t LeaseCore"
  el_pbs :: bytes
  el_session_binding :: SessionBinding
  el_lease_decoder :: OuterFrameDecoder
  el_lease_write :: "(u64 \<times> u64) option"
  el_lease_frame_timer :: "u64 option"
  el_lease_tick_timer :: "u64 option"
  el_lease_ticks :: u8
  el_missed_ticks :: u8
  el_children :: "(u64 \<times> ('h, 't) Child) list"

datatype ('h, 't) Phase =
    P_AwaitBootstrap BootstrapBinding bytes
  | P_BootstrapM1Pending u64 "'h TargetBootstrap" u64 OuterFrameDecoder "u64 option"
  | P_BootstrapM2 u64 "'h TargetBootstrap" OuterFrameDecoder "u64 option"
  | P_BootstrapAckPending u64 "'t LeaseCore" bytes SessionBinding u64 OuterFrameDecoder "u64 option"
  | P_Eligible "('h, 't) Eligible"
  | P_Terminal Terminal

record ('h, 't) TargetTransport =
  tt_phase :: "('h, 't) Phase"
  tt_generation :: u64
  tt_next_token :: u64
  tt_timers :: "(u64 \<times> TimerAction) list"

type_synonym ('h, 't, 'a) sup = "(('h, 't) TargetTransport, SupervisorError, 'a) step"

text \<open>\<^verbatim>\<open>Ok(f(&mut self))\<close> for a method that cannot fail.\<close>

definition st_out :: "('s \<Rightarrow> 'a \<times> 's) \<Rightarrow> ('s, 'e, 'a) step" where
  "st_out f s = (let (out, s) = f s in (Inr out, s))"

definition set_phase :: "('h, 't) Phase \<Rightarrow> ('h, 't) TargetTransport \<Rightarrow> ('h, 't) TargetTransport" where
  "set_phase p s = s\<lparr>tt_phase := p\<rparr>"

text \<open>Writing a child back through \<^verbatim>\<open>children.get_mut\<close>.\<close>

definition put_child :: "u64 \<Rightarrow> ('h, 't) Child \<Rightarrow> ('h, 't) Eligible \<Rightarrow> ('h, 't) Eligible" where
  "put_child stream_id child el = el\<lparr>el_children := AList.update stream_id child (el_children el)\<rparr>"

definition get_child :: "u64 \<Rightarrow> ('h, 't) Eligible \<Rightarrow> ('h, 't) Child option" where
  "get_child stream_id el = map_of (el_children el) stream_id"

section \<open>Tokens and timers\<close>

definition allocate_token :: "('h, 't, u64) sup" where
  "allocate_token s =
     (let token = tt_next_token s in
      case checked_add token 1 of
        None \<Rightarrow> (Inl Internal, s)
      | Some n \<Rightarrow> let s = s\<lparr>tt_next_token := n\<rparr> in
          if token = 0 then (Inl Internal, s) else (Inr token, s))"

definition schedule_timer :: "TimerAction \<Rightarrow> ('h, 't, u64) sup" where
  "schedule_timer action =
     st_bind allocate_token (\<lambda>token.
     st_bind (st_upd (\<lambda>s. s\<lparr>tt_timers := AList.update token action (tt_timers s)\<rparr>)) (\<lambda>_.
     st_ok token))"

definition remove_timer :: "u64 option \<Rightarrow> ('h, 't) TargetTransport \<Rightarrow> ('h, 't) TargetTransport" where
  "remove_timer slot s =
     (case slot of None \<Rightarrow> s | Some timer \<Rightarrow> s\<lparr>tt_timers := AList.delete timer (tt_timers s)\<rparr>)"

text \<open>The slot and the answer. On an error the slot is what it was.\<close>

definition update_frame_timer ::
    "bool \<Rightarrow> u64 option \<Rightarrow> TimerAction \<Rightarrow> ('h, 't, u64 option \<times> u64 option) sup" where
  "update_frame_timer incomplete slot action =
     (if incomplete then
        (if slot = None
         then st_bind (schedule_timer action) (\<lambda>timer. st_ok (Some timer, Some timer))
         else st_ok (slot, None))
      else st_bind (st_upd (remove_timer slot)) (\<lambda>_. st_ok (None, None)))"

definition cancel_action :: "(TimerAction \<Rightarrow> bool) \<Rightarrow> ('h, 't) TargetTransport \<Rightarrow> ('h, 't) TargetTransport" where
  "cancel_action predicate s =
     s\<lparr>tt_timers := filter (\<lambda>(_, action). \<not> predicate action) (tt_timers s)\<rparr>"

text \<open>\<^verbatim>\<open>replace_child_timer\<close> borrows the eligible state beside the token counter and the timers.\<close>

definition st_snd :: "('s, 'e, 'a) step \<Rightarrow> ('x \<times> 's, 'e, 'a) step" where
  "st_snd m = (\<lambda>(x, s). let (r, s) = m s in (r, x, s))"

definition replace_child_timer ::
    "u64 \<Rightarrow> TimerAction \<Rightarrow> (('h, 't) Eligible \<times> ('h, 't) TargetTransport, SupervisorError, u64) step" where
  "replace_child_timer stream_id action = st_with (\<lambda>(el, _).
     case get_child stream_id el of
       None \<Rightarrow> st_fail WrongPhase
     | Some child \<Rightarrow>
         st_bind (st_upd (\<lambda>(el, s). (put_child stream_id (child\<lparr>ch_phase_timer := None\<rparr>) el,
           remove_timer (ch_phase_timer child) s))) (\<lambda>_.
         st_bind (st_snd (schedule_timer action)) (\<lambda>timer.
         st_bind (st_upd (\<lambda>(el, s). (put_child stream_id (child\<lparr>ch_phase_timer := Some timer\<rparr>) el, s))) (\<lambda>_.
         st_ok timer))))"

definition reset_child_phase_timer ::
    "u64 \<Rightarrow> u64 \<Rightarrow> (('h, 't) Eligible \<times> ('h, 't) TargetTransport, SupervisorError, Outcome) step" where
  "reset_child_phase_timer stream_id deadline =
     st_bind (replace_child_timer stream_id (T_SessionIdle stream_id)) (\<lambda>timer.
     st_ok (Outcome_deadline timer deadline (Outcome_stream stream_id (Outcome_new K_NeedInput))))"

text \<open>The eligible state borrowed from \<^verbatim>\<open>self.phase\<close>: what a step does to it stays in the phase.\<close>

definition on_eligible ::
    "(('h, 't) Eligible \<times> ('h, 't) TargetTransport, SupervisorError, 'a) step \<Rightarrow> ('h, 't, 'a) sup" where
  "on_eligible m s =
     (case tt_phase s of
        P_Eligible el \<Rightarrow> let (r, el, s) = m (el, s) in (r, set_phase (P_Eligible el) s)
      | _ \<Rightarrow> (Inl WrongPhase, s))"

definition upd_child :: "u64 \<Rightarrow> ('h, 't) Child \<Rightarrow> ('h, 't, unit) sup" where
  "upd_child stream_id child = on_eligible (st_upd (\<lambda>(el, s). (put_child stream_id child el, s)))"

section \<open>Endings\<close>

definition has_application :: "('h, 't) Child \<Rightarrow> bool" where
  "has_application child \<longleftrightarrow> ch_applications child > 0"

definition lease_terminal ::
    "CloseReason \<Rightarrow> (CloseReason \<times> HandoffState) option \<Rightarrow> ('h, 't) TargetTransport \<Rightarrow>
      Outcome \<times> ('h, 't) TargetTransport" where
  "lease_terminal reason peer s =
     (let handoff = (case tt_phase s of
            P_Eligible el \<Rightarrow> if list_ex (\<lambda>(_, child). has_application child) (el_children el)
              then HandoffPossibleOrConfirmed else NotHandedOff
          | P_Terminal terminal \<Rightarrow> term_handoff terminal
          | _ \<Rightarrow> NotHandedOff)
      in (Outcome_terminal K_LeaseTerminal 0 reason handoff peer,
          s\<lparr>tt_timers := [], tt_phase := P_Terminal
             \<lparr>term_reason = reason, term_handoff = handoff, term_peer_close = peer\<rparr>\<rparr>))"

definition core_lease_error :: "error \<Rightarrow> ('h, 't) TargetTransport \<Rightarrow> Outcome \<times> ('h, 't) TargetTransport" where
  "core_lease_error e = lease_terminal (err_reason e) (err_peer_close e)"

definition child_terminal ::
    "u64 \<Rightarrow> CloseReason \<Rightarrow> (CloseReason \<times> HandoffState) option \<Rightarrow> ('h, 't) TargetTransport \<Rightarrow>
      Outcome \<times> ('h, 't) TargetTransport" where
  "child_terminal stream_id reason peer s =
     (case tt_phase s of
        P_Eligible el \<Rightarrow>
          (case get_child stream_id el of
             Some child \<Rightarrow>
               (Outcome_terminal K_SessionTerminal stream_id reason
                  (if has_application child then HandoffPossibleOrConfirmed else NotHandedOff) peer,
                remove_timer (ch_frame_timer child) (remove_timer (ch_phase_timer child)
                  (set_phase (P_Eligible (el\<lparr>el_children := AList.delete stream_id (el_children el)\<rparr>)) s)))
           | None \<Rightarrow> (Outcome_terminal K_SessionTerminal stream_id reason NotHandedOff peer, s))
      | _ \<Rightarrow> (Outcome_terminal K_SessionTerminal stream_id reason NotHandedOff peer, s))"

definition child_core_error :: "u64 \<Rightarrow> error \<Rightarrow> ('h, 't) TargetTransport \<Rightarrow> Outcome \<times> ('h, 't) TargetTransport" where
  "child_core_error stream_id e s =
     (let peer = err_peer_close e; reason = err_reason e in
      case fst (Error_take_close_frame e) of
        None \<Rightarrow> child_terminal stream_id reason peer s
      | Some frame \<Rightarrow>
          let handoff = (case tt_phase s of
                P_Eligible el \<Rightarrow> (case get_child stream_id el of
                    Some child \<Rightarrow> if has_application child then HandoffPossibleOrConfirmed else NotHandedOff
                  | None \<Rightarrow> NotHandedOff)
              | _ \<Rightarrow> NotHandedOff)
          in (case allocate_token s of
                (Inl _, s) \<Rightarrow> child_terminal stream_id InternalError None s
              | (Inr token, s) \<Rightarrow>
                  (case tt_phase s of
                     P_Eligible el \<Rightarrow>
                       (case get_child stream_id el of
                          Some child \<Rightarrow>
                            ((let out = Outcome_write stream_id token frame in
                              out\<lparr>out_flags := out_flags out OR 8, out_close_reason := reason,
                                  out_handoff := handoff, out_peer_close := peer\<rparr>),
                             set_phase (P_Eligible (put_child stream_id (child\<lparr>ch_phase := C_TerminalPending token
                               \<lparr>term_reason = reason, term_handoff = handoff, term_peer_close = peer\<rparr>\<rparr>) el)) s)
                        | None \<Rightarrow> child_terminal stream_id reason peer s)
                   | _ \<Rightarrow> child_terminal stream_id reason peer s)))"

definition eligibility_lost :: "('h, 't) TargetTransport \<Rightarrow> Outcome \<times> ('h, 't) TargetTransport" where
  "eligibility_lost s =
     (case tt_phase s of
        P_Eligible el \<Rightarrow>
          (case checked_add (sb_listener_epoch (el_session_binding el)) 1 of
             None \<Rightarrow> lease_terminal InternalError None s
           | Some next_epoch \<Rightarrow>
               if next_epoch > JSON_SAFE_MAX then lease_terminal InternalError None s
               else lease_terminal EligibilityLost None (set_phase (P_Eligible
                 (el\<lparr>el_session_binding := (el_session_binding el)\<lparr>sb_listener_epoch := next_epoch\<rparr>\<rparr>)) s))
      | _ \<Rightarrow> lease_terminal EligibilityLost None s)"

section \<open>Creation and closing\<close>

text \<open>\<^verbatim>\<open>generate_process_generation\<close> draws eight bytes until they fall below the rejection zone. The
  draws of the resolver's generator are a list, a failed draw \<open>None\<close>; the result is \<open>None\<close> when the
  loop is still running after them.\<close>

definition generation_zone :: u64 where
  "generation_zone = - 1 - ((- 1) mod JSON_SAFE_MAX)"

definition u64_of_le :: "bytes \<Rightarrow> u64" where
  "u64_of_le bs = of_nat (be_val (rev bs))"

fun generate_loop :: "bytes option list \<Rightarrow> (SupervisorError + u64) option" where
  "generate_loop [] = None"
| "generate_loop (None # draws) = Some (Inl Internal)"
| "generate_loop (Some bs # draws) =
     (if u64_of_le bs < generation_zone then Some (Inr (u64_of_le bs mod JSON_SAFE_MAX + 1))
      else generate_loop draws)"

definition generate_process_generation :: "bytes option list option \<Rightarrow> (SupervisorError + u64) option" where
  "generate_process_generation rng =
     (case rng of None \<Rightarrow> Some (Inl Internal) | Some draws \<Rightarrow> generate_loop draws)"

definition TargetTransport_create ::
    "cbor \<Rightarrow> bytes option list option \<Rightarrow> bytes \<Rightarrow>
      (SupervisorError + (('h, 't) TargetTransport \<times> Outcome)) option" where
  "TargetTransport_create C rng descriptor_cbor =
     (case parse_descriptor C descriptor_cbor of
        Inl e \<Rightarrow> Some (Inl e)
      | Inr parsed \<Rightarrow>
          map_option (\<lambda>r. res_bind r (\<lambda>generation.
            let (platform, endpoint_value, endpoint_bytes) = (case pd_endpoint parsed of
                  Ios port \<Rightarrow> (0, ucast port, None)
                | Android name \<Rightarrow> (1, 0, Some name));
              transport = \<lparr>tt_phase = P_AwaitBootstrap (pd_binding parsed) (pd_broker_public_key parsed),
                tt_generation = generation, tt_next_token = 1, tt_timers = []\<rparr>
            in Inr (transport, (Outcome_values platform endpoint_value (Outcome_new K_EndpointReady))
                 \<lparr>out_bytes := endpoint_bytes\<rparr>)))
            (generate_process_generation rng))"

definition TargetTransport_close :: "('h, 't) TargetTransport \<Rightarrow> Outcome \<times> ('h, 't) TargetTransport" where
  "TargetTransport_close s =
     (Outcome_new K_Closed,
      s\<lparr>tt_timers := [], tt_phase := P_Terminal
         \<lparr>term_reason = Normal, term_handoff = NotHandedOff, term_peer_close = None\<rparr>\<rparr>)"

definition terminate_internal_error :: "('h, 't) TargetTransport \<Rightarrow> ('h, 't) TargetTransport" where
  "terminate_internal_error s = snd (lease_terminal InternalError None s)"

definition terminal_reason :: "('h, 't) TargetTransport \<Rightarrow> CloseReason option" where
  "terminal_reason s = (case tt_phase s of P_Terminal terminal \<Rightarrow> Some (term_reason terminal) | _ \<Rightarrow> None)"

definition terminal_timer_tokens :: "('h, 't) TargetTransport \<Rightarrow> u64 list" where
  "terminal_timer_tokens s = map fst (filter (\<lambda>(token, action).
     case action of
       T_LeaseTick \<Rightarrow> (case tt_phase s of
           P_Eligible el \<Rightarrow> el_lease_tick_timer el = Some token \<and>
             (saturating_add8 (el_lease_ticks el) 1 \<ge> 30 \<or> saturating_add8 (el_missed_ticks el) 1 \<ge> 4)
         | _ \<Rightarrow> False)
     | _ \<Rightarrow> True) (tt_timers s))"

section \<open>Bootstrap\<close>

definition bootstrap_connected :: "('h, 't) noise \<Rightarrow> cbor \<Rightarrow> bytes \<Rightarrow> Event \<Rightarrow> ('h, 't, Outcome) sup" where
  "bootstrap_connected N C entropy ev =
     (if ev_stream_id ev = 0 \<or> ev_write_token ev \<noteq> 0 \<or> ev_bytes ev \<noteq> [] then st_fail InvalidArgument
      else st_with (\<lambda>s. case tt_phase s of
        P_AwaitBootstrap binding broker_public_key \<Rightarrow>
          st_bind (st_upd (set_phase (P_Terminal Terminal_internal))) (\<lambda>_.
          case TargetBootstrap_new N C entropy binding broker_public_key of
            Inl e \<Rightarrow> st_out (core_lease_error e)
          | Inr bootstrap \<Rightarrow>
              (case TargetBootstrap_write_m1 N C bootstrap of
                 (Inl e, _) \<Rightarrow> st_out (core_lease_error e)
               | (Inr frames, bootstrap) \<Rightarrow>
                   st_bind allocate_token (\<lambda>write_token.
                   st_bind (schedule_timer T_Bootstrap) (\<lambda>timer.
                   st_bind (st_upd (set_phase (P_BootstrapM1Pending (ev_stream_id ev) bootstrap write_token
                     OuterFrameDecoder_new None))) (\<lambda>_.
                   st_ok (Outcome_deadline timer BOOTSTRAP_DEADLINE_MS
                     (Outcome_write (ev_stream_id ev) write_token frames)))))))
      | _ \<Rightarrow> st_fail WrongPhase))"

definition bootstrap_bytes :: "('h, 't) noise \<Rightarrow> cbor \<Rightarrow> Event \<Rightarrow> ('h, 't, Outcome) sup" where
  "bootstrap_bytes N C ev = st_with (\<lambda>s. case tt_phase s of
     P_BootstrapM2 stream_id bootstrap decoder frame_timer \<Rightarrow>
       st_bind (st_upd (set_phase (P_Terminal Terminal_internal))) (\<lambda>_.
       case OuterFrameDecoder_push (ev_bytes ev) decoder of
         (Inl e, _) \<Rightarrow> st_out (core_lease_error e)
       | (Inr frames, decoder) \<Rightarrow>
           st_bind (update_frame_timer (OuterFrameDecoder_is_incomplete decoder) frame_timer T_BootstrapFrame)
             (\<lambda>(frame_timer, frame_deadline).
           if frames = [] then
             st_bind (st_upd (set_phase (P_BootstrapM2 stream_id bootstrap decoder frame_timer))) (\<lambda>_.
             st_ok (with_frame_deadline frame_deadline (Outcome_stream stream_id (Outcome_new K_NeedInput))))
           else if length frames \<noteq> 1 then st_out (lease_terminal SequenceViolation None)
           else (case TargetBootstrap_read_m2 N C bootstrap (frames ! 0) (tt_generation s) 1 of
               Inl e \<Rightarrow> st_out (core_lease_error e)
             | Inr (sender, pbs) \<Rightarrow>
                 let session_binding = \<lparr>sb_lease_id = ack_lease_id (as_ack sender),
                   sb_process_generation = ack_process_generation (as_ack sender),
                   sb_listener_epoch = ack_listener_epoch (as_ack sender),
                   sb_nk_handshake_hash = ack_nk_handshake_hash (as_ack sender)\<rparr>
                 in (case TargetBootstrapAckSender_write_ack N C sender of
                     Inl e \<Rightarrow> st_out (core_lease_error e)
                   | Inr (ack, lease) \<Rightarrow>
                       st_bind allocate_token (\<lambda>write_token.
                       st_bind (st_upd (set_phase (P_BootstrapAckPending stream_id lease pbs session_binding
                         write_token decoder frame_timer))) (\<lambda>_.
                       st_ok (with_frame_deadline frame_deadline
                         (Outcome_write stream_id write_token ack))))))))
   | _ \<Rightarrow> st_fail WrongPhase)"

section \<open>Committed writes\<close>

text \<open>While a child's write is committed the transport is in \<open>Terminal_internal\<close>: the eligible state is a
  local variable of \<open>full_write_committed\<close>, put back afterwards.\<close>

definition commit_child_write ::
    "u64 \<Rightarrow> u64 \<Rightarrow> (('h, 't) Eligible \<times> ('h, 't) TargetTransport, SupervisorError, Outcome) step" where
  "commit_child_write stream_id token = st_with (\<lambda>(el, _).
     case get_child stream_id el of
       None \<Rightarrow> st_fail WrongPhase
     | Some child \<Rightarrow>
         let set = (\<lambda>phase. st_upd (\<lambda>(el, s). (put_child stream_id (child\<lparr>ch_phase := phase\<rparr>) el, s)));
             need = Outcome_stream stream_id (Outcome_new K_NeedInput)
         in (case ch_phase child of
               C_M1Pending session write_token \<Rightarrow>
                 if write_token = token then st_bind (set (C_AwaitM2 session)) (\<lambda>_. st_ok need)
                 else st_fail WrongPhase
             | C_FinishedPending session write_token \<Rightarrow>
                 if write_token = token then st_bind (set (C_AwaitFinished session)) (\<lambda>_. st_ok need)
                 else st_fail WrongPhase
             | C_ResponsePending session write_token \<Rightarrow>
                 if write_token = token then st_bind (set (C_AwaitApplication session)) (\<lambda>_.
                   reset_child_phase_timer stream_id SESSION_IDLE_DEADLINE_MS)
                 else st_fail WrongPhase
             | C_TerminalPending write_token terminal \<Rightarrow>
                 if write_token = token then st_bind (set C_Terminal) (\<lambda>_.
                   st_snd (st_out (child_terminal stream_id (term_reason terminal) (term_peer_close terminal))))
                 else st_fail WrongPhase
             | _ \<Rightarrow> st_fail WrongPhase))"

definition full_write_committed :: "Event \<Rightarrow> ('h, 't, Outcome) sup" where
  "full_write_committed ev =
     (if ev_stream_id ev = 0 \<or> ev_write_token ev = 0 \<or> ev_bytes ev \<noteq> [] then st_fail InvalidArgument
      else st_with (\<lambda>s. case tt_phase s of
        P_BootstrapM1Pending stream_id bootstrap write_token decoder frame_timer \<Rightarrow>
          if stream_id = ev_stream_id ev \<and> write_token = ev_write_token ev then
            st_bind (st_upd (set_phase (P_BootstrapM2 stream_id bootstrap decoder frame_timer))) (\<lambda>_.
            st_ok (Outcome_stream stream_id (Outcome_new K_NeedInput)))
          else st_fail WrongPhase
      | P_BootstrapAckPending stream_id lease pbs session_binding write_token decoder frame_timer \<Rightarrow>
          if stream_id = ev_stream_id ev \<and> write_token = ev_write_token ev then
            st_bind (st_upd (\<lambda>s. cancel_action (\<lambda>action. action = T_Bootstrap)
              (set_phase (P_Terminal Terminal_internal) s))) (\<lambda>_.
            st_bind (schedule_timer T_LeaseTick) (\<lambda>tick.
            st_bind (st_upd (set_phase (P_Eligible \<lparr>el_lease_stream = stream_id, el_lease = lease, el_pbs = pbs,
              el_session_binding = session_binding, el_lease_decoder = decoder, el_lease_write = None,
              el_lease_frame_timer = frame_timer, el_lease_tick_timer = Some tick, el_lease_ticks = 0,
              el_missed_ticks = 0, el_children = []\<rparr>))) (\<lambda>_.
            st_ok (Outcome_deadline tick LEASE_TICK_MS
              (Outcome_values (sb_process_generation session_binding) (sb_listener_epoch session_binding)
                (Outcome_stream stream_id (Outcome_new K_LeaseReady)))))))
          else st_fail WrongPhase
      | P_Eligible el \<Rightarrow>
          if el_lease_stream el = ev_stream_id ev then
            (case el_lease_write el of
               Some (token, _) \<Rightarrow>
                 if token = ev_write_token ev then
                   st_bind (st_upd (set_phase (P_Eligible (el\<lparr>el_lease_write := None\<rparr>)))) (\<lambda>_.
                   st_ok (Outcome_stream (ev_stream_id ev) (Outcome_new K_NeedInput)))
                 else st_fail WrongPhase
             | None \<Rightarrow> st_fail WrongPhase)
          else (\<lambda>s.
            let (r, el, s) = commit_child_write (ev_stream_id ev) (ev_write_token ev)
                  (el, set_phase (P_Terminal Terminal_internal) s)
            in (r, set_phase (P_Eligible el) s))
      | _ \<Rightarrow> st_fail WrongPhase))"

section \<open>Sessions\<close>

definition session_accepted :: "('h, 't) noise \<Rightarrow> cbor \<Rightarrow> bytes \<Rightarrow> Event \<Rightarrow> ('h, 't, Outcome) sup" where
  "session_accepted N C entropy ev =
     (if ev_stream_id ev = 0 \<or> ev_write_token ev \<noteq> 0 \<or> ev_bytes ev \<noteq> [] then st_fail InvalidArgument
      else st_with (\<lambda>s. case tt_phase s of
        P_Eligible el \<Rightarrow>
          if ev_stream_id ev = el_lease_stream el \<or> get_child (ev_stream_id ev) el \<noteq> None
          then st_fail WrongPhase
          else (case TargetSession_new N C entropy (el_session_binding el) (el_pbs el) of
              Inl _ \<Rightarrow> st_fail Internal
            | Inr session \<Rightarrow>
                (case TargetSession_write_m1 N session of
                   (Inl _, _) \<Rightarrow> st_fail Internal
                 | (Inr frames, session) \<Rightarrow>
                     st_bind allocate_token (\<lambda>token.
                     st_bind (schedule_timer (T_SessionPhase (ev_stream_id ev))) (\<lambda>timer.
                     st_bind (upd_child (ev_stream_id ev) \<lparr>ch_phase = C_M1Pending session token,
                       ch_decoder = OuterFrameDecoder_new, ch_phase_timer = Some timer,
                       ch_frame_timer = None, ch_applications = 0\<rparr>) (\<lambda>_.
                     st_ok (Outcome_deadline timer SESSION_HANDSHAKE_DEADLINE_MS
                       (Outcome_write (ev_stream_id ev) token frames)))))))
      | _ \<Rightarrow> st_fail WrongPhase))"

definition runtime_response :: "('h, 't) noise \<Rightarrow> cbor \<Rightarrow> Event \<Rightarrow> ('h, 't, Outcome) sup" where
  "runtime_response N C ev =
     (if ev_stream_id ev = 0 \<or> ev_write_token ev \<noteq> 0 \<or> ev_bytes ev = [] then st_fail InvalidArgument
      else st_with (\<lambda>s. case tt_phase s of
        P_Eligible el \<Rightarrow>
          (case get_child (ev_stream_id ev) el of
             None \<Rightarrow> st_fail WrongPhase
           | Some child \<Rightarrow>
               (case ch_phase child of
                  C_AwaitRuntime session \<Rightarrow>
                    st_bind (upd_child (ev_stream_id ev) (child\<lparr>ch_phase := C_Terminal\<rparr>)) (\<lambda>_.
                    case TargetSession_write_application_response N C (ev_bytes ev) session of
                      (Inl e, _) \<Rightarrow> st_out (child_core_error (ev_stream_id ev) e)
                    | (Inr frame_parts, session) \<Rightarrow>
                        st_bind allocate_token (\<lambda>token.
                        st_bind (upd_child (ev_stream_id ev) (child\<lparr>ch_phase := C_ResponsePending session token\<rparr>)) (\<lambda>_.
                        st_ok (Outcome_write (ev_stream_id ev) token (concat_frames frame_parts)))))
                | _ \<Rightarrow> st_fail WrongPhase))
      | _ \<Rightarrow> st_fail WrongPhase))"

text \<open>The loop over the frames of one read: the session reads each, one application message at most.\<close>

datatype app_stop = CoreError error | SecondApplication

fun read_applications ::
    "('h, 't) noise \<Rightarrow> cbor \<Rightarrow> bytes list \<Rightarrow> bytes option \<Rightarrow>
      (('h, 't) SessionCore, app_stop, bytes option) step" where
  "read_applications N C [] application session = (Inr application, session)"
| "read_applications N C (frame # frames) application session =
     (case TargetSession_read_application N C frame session of
        (Inr (Some bytes), session) \<Rightarrow>
          if application = None then read_applications N C frames (Some bytes) session
          else (Inl SecondApplication, session)
      | (Inr None, session) \<Rightarrow> read_applications N C frames application session
      | (Inl e, session) \<Rightarrow> (Inl (CoreError e), session))"

text \<open>What both reading branches do with the result; \<open>child\<close> is the child with its phase taken.\<close>

definition session_deliver ::
    "u64 \<Rightarrow> u64 option \<Rightarrow> ('h, 't) Child \<Rightarrow> ('h, 't) SessionCore \<Rightarrow> bytes option \<Rightarrow> ('h, 't, Outcome) sup" where
  "session_deliver stream_id frame_deadline child session application =
     (case application of
        Some bytes \<Rightarrow>
          (case checked_add (ch_applications child) 1 of
             None \<Rightarrow> st_fail Internal
           | Some applications \<Rightarrow>
               let child = child\<lparr>ch_applications := applications, ch_phase := C_AwaitRuntime session\<rparr>;
                   deadline = (if applications = 1 then SESSION_OPEN_RESPONSE_DEADLINE_MS
                     else SESSION_IDLE_DEADLINE_MS)
               in (case frame_deadline of
                     Some timer \<Rightarrow>
                       st_bind (upd_child stream_id (child\<lparr>ch_phase_timer := None\<rparr>)) (\<lambda>_.
                       st_bind (st_upd (remove_timer (ch_phase_timer child))) (\<lambda>_.
                       st_ok (Outcome_deadline timer FRAME_DEADLINE_MS (Outcome_application stream_id bytes))))
                   | None \<Rightarrow>
                       st_bind (upd_child stream_id child) (\<lambda>_.
                       st_bind (on_eligible (replace_child_timer stream_id (T_SessionPhase stream_id))) (\<lambda>timer.
                       st_ok (Outcome_deadline timer deadline (Outcome_application stream_id bytes))))))
      | None \<Rightarrow>
          st_bind (upd_child stream_id (child\<lparr>ch_phase := C_AwaitApplication session\<rparr>)) (\<lambda>_.
          st_ok (with_frame_deadline frame_deadline (Outcome_stream stream_id (Outcome_new K_NeedInput)))))"

definition session_await_m2 ::
    "('h, 't) noise \<Rightarrow> cbor \<Rightarrow> u64 \<Rightarrow> bytes list \<Rightarrow> u64 option \<Rightarrow> ('h, 't) Child \<Rightarrow> ('h, 't) SessionCore \<Rightarrow>
      ('h, 't, Outcome) sup" where
  "session_await_m2 N C stream_id frames frame_deadline child session =
     (if length frames \<noteq> 1 then st_out (child_terminal stream_id SequenceViolation None)
      else case TargetSession_read_m2 N (frames ! 0) session of
        (Inl e, _) \<Rightarrow> st_out (child_core_error stream_id e)
      | (Inr _, session) \<Rightarrow>
          (case TargetSession_write_finished N C session of
             (Inl e, _) \<Rightarrow> st_out (child_core_error stream_id e)
           | (Inr finished_frame, session) \<Rightarrow>
               st_bind allocate_token (\<lambda>token.
               st_bind (upd_child stream_id (child\<lparr>ch_phase := C_FinishedPending session token\<rparr>)) (\<lambda>_.
               st_ok (with_frame_deadline frame_deadline (Outcome_write stream_id token finished_frame))))))"

definition session_await_application ::
    "('h, 't) noise \<Rightarrow> cbor \<Rightarrow> u64 \<Rightarrow> bytes list \<Rightarrow> u64 option \<Rightarrow> ('h, 't) Child \<Rightarrow> ('h, 't) SessionCore \<Rightarrow>
      ('h, 't, Outcome) sup" where
  "session_await_application N C stream_id frames frame_deadline child session =
     (case read_applications N C frames None session of
        (Inl SecondApplication, _) \<Rightarrow> st_out (child_terminal stream_id SequenceViolation None)
      | (Inl (CoreError e), _) \<Rightarrow> st_out (child_core_error stream_id e)
      | (Inr application, session) \<Rightarrow> session_deliver stream_id frame_deadline child session application)"

definition session_await_finished ::
    "('h, 't) noise \<Rightarrow> cbor \<Rightarrow> u64 \<Rightarrow> bytes list \<Rightarrow> u64 option \<Rightarrow> ('h, 't) Child \<Rightarrow> ('h, 't) SessionCore \<Rightarrow>
      ('h, 't, Outcome) sup" where
  "session_await_finished N C stream_id frames frame_deadline child session =
     (case frames of
        [] \<Rightarrow> st_fail Internal
      | finished_frame # application_frames \<Rightarrow>
          (case TargetSession_read_finished N C finished_frame session of
             (Inl e, _) \<Rightarrow> st_out (child_core_error stream_id e)
           | (Inr _, session) \<Rightarrow>
               session_await_application N C stream_id application_frames frame_deadline child session))"

definition session_bytes :: "('h, 't) noise \<Rightarrow> cbor \<Rightarrow> Event \<Rightarrow> ('h, 't, Outcome) sup" where
  "session_bytes N C ev = st_with (\<lambda>s. case tt_phase s of
     P_Eligible el \<Rightarrow>
       (case get_child (ev_stream_id ev) el of
          None \<Rightarrow> st_fail WrongPhase
        | Some child \<Rightarrow>
            (case OuterFrameDecoder_push (ev_bytes ev) (ch_decoder child) of
               (Inl e, decoder) \<Rightarrow>
                 st_bind (upd_child (ev_stream_id ev) (child\<lparr>ch_decoder := decoder\<rparr>)) (\<lambda>_.
                 st_out (child_core_error (ev_stream_id ev) e))
             | (Inr frames, decoder) \<Rightarrow>
                 let child = child\<lparr>ch_decoder := decoder\<rparr> in
                 st_bind (upd_child (ev_stream_id ev) child) (\<lambda>_.
                 st_bind (update_frame_timer (OuterFrameDecoder_is_incomplete decoder) (ch_frame_timer child)
                   (T_SessionFrame (ev_stream_id ev))) (\<lambda>(frame_timer, frame_deadline).
                 let child = child\<lparr>ch_frame_timer := frame_timer\<rparr> in
                 st_bind (upd_child (ev_stream_id ev) child) (\<lambda>_.
                 if frames = [] then st_ok (with_frame_deadline frame_deadline
                   (Outcome_stream (ev_stream_id ev) (Outcome_new K_NeedInput)))
                 else
                   let taken = child\<lparr>ch_phase := C_Terminal\<rparr> in
                   st_bind (upd_child (ev_stream_id ev) taken) (\<lambda>_.
                   case ch_phase child of
                     C_AwaitM2 session \<Rightarrow>
                       session_await_m2 N C (ev_stream_id ev) frames frame_deadline taken session
                   | C_AwaitFinished session \<Rightarrow>
                       session_await_finished N C (ev_stream_id ev) frames frame_deadline taken session
                   | C_AwaitApplication session \<Rightarrow>
                       session_await_application N C (ev_stream_id ev) frames frame_deadline taken session
                   | _ \<Rightarrow> st_bind (upd_child (ev_stream_id ev) child) (\<lambda>_. st_fail WrongPhase)))))))
   | _ \<Rightarrow> st_fail WrongPhase)"

section \<open>The lease\<close>

definition lease_bytes :: "('h, 't) noise \<Rightarrow> cbor \<Rightarrow> Event \<Rightarrow> ('h, 't, Outcome) sup" where
  "lease_bytes N C ev = st_with (\<lambda>s. case tt_phase s of
     P_Eligible el \<Rightarrow>
       if el_lease_write el \<noteq> None then st_fail WrongPhase
       else (case OuterFrameDecoder_push (ev_bytes ev) (el_lease_decoder el) of
           (Inl e, _) \<Rightarrow> st_out (core_lease_error e)
         | (Inr frames, decoder) \<Rightarrow>
             let el = el\<lparr>el_lease_decoder := decoder\<rparr> in
             st_bind (st_upd (set_phase (P_Eligible el))) (\<lambda>_.
             st_bind (update_frame_timer (OuterFrameDecoder_is_incomplete decoder) (el_lease_frame_timer el)
               T_LeaseFrame) (\<lambda>(frame_timer, frame_deadline).
             let el = el\<lparr>el_lease_frame_timer := frame_timer\<rparr> in
             st_bind (st_upd (set_phase (P_Eligible el))) (\<lambda>_.
             if frames = [] then st_ok (with_frame_deadline frame_deadline
               (Outcome_stream (ev_stream_id ev) (Outcome_new K_NeedInput)))
             else if length frames \<noteq> 1 then st_out (lease_terminal SequenceViolation None)
             else (case TargetLease_read_heartbeat_request N C (frames ! 0) (el_lease el) of
                 (Inl e, _) \<Rightarrow> st_out (core_lease_error e)
               | (Inr counter, lease) \<Rightarrow>
                   (case TargetLease_write_heartbeat_reply N C counter lease of
                      (Inl e, _) \<Rightarrow> st_out (core_lease_error e)
                    | (Inr reply, lease) \<Rightarrow>
                        let el = el\<lparr>el_lease := lease, el_missed_ticks := 0\<rparr> in
                        st_bind (st_upd (set_phase (P_Eligible el))) (\<lambda>_.
                        st_bind allocate_token (\<lambda>token.
                        st_bind (st_upd (set_phase (P_Eligible (el\<lparr>el_lease_write := Some (token, counter)\<rparr>)))) (\<lambda>_.
                        st_ok (with_frame_deadline frame_deadline
                          (Outcome_write (ev_stream_id ev) token reply)))))))))))
   | _ \<Rightarrow> st_fail WrongPhase)"

definition stream_bytes :: "('h, 't) noise \<Rightarrow> cbor \<Rightarrow> Event \<Rightarrow> ('h, 't, Outcome) sup" where
  "stream_bytes N C ev =
     (if ev_stream_id ev = 0 \<or> ev_write_token ev \<noteq> 0 \<or> ev_bytes ev = [] then st_fail InvalidArgument
      else st_with (\<lambda>s. case tt_phase s of
        P_BootstrapM2 stream_id _ _ _ \<Rightarrow>
          if stream_id = ev_stream_id ev then bootstrap_bytes N C ev else st_fail WrongPhase
      | P_Eligible el \<Rightarrow>
          if el_lease_stream el = ev_stream_id ev then lease_bytes N C ev
          else if get_child (ev_stream_id ev) el \<noteq> None then session_bytes N C ev
          else st_fail WrongPhase
      | _ \<Rightarrow> st_fail WrongPhase))"


section \<open>Stream ends and timers\<close>

text \<open>\<^verbatim>\<open>Child::eof_error\<close>: the answer and the child, whose decoder and session have seen the end.\<close>

definition map_session ::
    "(('h, 't) SessionCore, error, unit) step \<Rightarrow> ('h, 't) ChildPhase \<Rightarrow>
      (error + unit) option \<times> ('h, 't) ChildPhase" where
  "map_session m phase =
     (case phase of
        C_M1Pending session t \<Rightarrow> map_prod Some (\<lambda>session. C_M1Pending session t) (m session)
      | C_AwaitM2 session \<Rightarrow> map_prod Some C_AwaitM2 (m session)
      | C_FinishedPending session t \<Rightarrow> map_prod Some (\<lambda>session. C_FinishedPending session t) (m session)
      | C_AwaitFinished session \<Rightarrow> map_prod Some C_AwaitFinished (m session)
      | C_AwaitApplication session \<Rightarrow> map_prod Some C_AwaitApplication (m session)
      | C_AwaitRuntime session \<Rightarrow> map_prod Some C_AwaitRuntime (m session)
      | C_ResponsePending session t \<Rightarrow> map_prod Some (\<lambda>session. C_ResponsePending session t) (m session)
      | C_TerminalPending _ _ \<Rightarrow> (None, phase)
      | C_Terminal \<Rightarrow> (None, phase))"

definition Child_eof_error :: "('h, 't) Child \<Rightarrow> error option \<times> ('h, 't) Child" where
  "Child_eof_error child =
     (case OuterFrameDecoder_eof (ch_decoder child) of
        (Inl e, decoder) \<Rightarrow> (Some e, child\<lparr>ch_decoder := decoder\<rparr>)
      | (Inr _, decoder) \<Rightarrow>
          let (result, phase) = map_session TargetSession_eof (ch_phase child);
              child = child\<lparr>ch_decoder := decoder, ch_phase := phase\<rparr>
          in (case result of
                Some (Inl e) \<Rightarrow> if err_reason e \<noteq> PeerClosed then (Some e, child) else (None, child)
              | _ \<Rightarrow> (None, child)))"

text \<open>The two halves of \<^verbatim>\<open>stream_closed\<close>. The first answers when the end of the stream is an error of a
  decoder or of a child, the second ends what the stream belongs to.\<close>

definition stream_eof :: "Event \<Rightarrow> ('h, 't, Outcome option) sup" where
  "stream_eof ev = st_with (\<lambda>s.
     let stop = (\<lambda>f. st_bind (st_out f) (\<lambda>out. st_ok (Some out)));
         bootstrap = (\<lambda>stream_id decoder put.
           if stream_id = ev_stream_id ev then
             (case OuterFrameDecoder_eof decoder of
                (Inl e, _) \<Rightarrow> stop (core_lease_error e)
              | (Inr _, decoder) \<Rightarrow> st_bind (st_upd (set_phase (put decoder))) (\<lambda>_. st_ok None))
           else st_ok None)
     in case tt_phase s of
       P_BootstrapM1Pending stream_id bs write_token decoder frame_timer \<Rightarrow>
         bootstrap stream_id decoder (\<lambda>d. P_BootstrapM1Pending stream_id bs write_token d frame_timer)
     | P_BootstrapM2 stream_id bs decoder frame_timer \<Rightarrow>
         bootstrap stream_id decoder (\<lambda>d. P_BootstrapM2 stream_id bs d frame_timer)
     | P_BootstrapAckPending stream_id lease pbs binding write_token decoder frame_timer \<Rightarrow>
         bootstrap stream_id decoder
           (\<lambda>d. P_BootstrapAckPending stream_id lease pbs binding write_token d frame_timer)
     | P_Eligible el \<Rightarrow>
         if el_lease_stream el = ev_stream_id ev then
           (case OuterFrameDecoder_eof (el_lease_decoder el) of
              (Inl e, _) \<Rightarrow> stop (core_lease_error e)
            | (Inr _, decoder) \<Rightarrow>
                st_bind (st_upd (set_phase (P_Eligible (el\<lparr>el_lease_decoder := decoder\<rparr>)))) (\<lambda>_. st_ok None))
         else (case get_child (ev_stream_id ev) el of
             None \<Rightarrow> st_ok None
           | Some child \<Rightarrow>
               let (eof, child) = Child_eof_error child in
               st_bind (upd_child (ev_stream_id ev) child) (\<lambda>_.
               case eof of None \<Rightarrow> st_ok None | Some e \<Rightarrow> stop (child_core_error (ev_stream_id ev) e)))
     | _ \<Rightarrow> st_ok None)"

definition stream_end :: "Event \<Rightarrow> CloseReason \<Rightarrow> ('h, 't, Outcome) sup" where
  "stream_end ev reason = st_with (\<lambda>s.
     let bootstrap = (\<lambda>stream_id.
           if stream_id = ev_stream_id ev then st_out (lease_terminal reason None) else st_fail WrongPhase)
     in case tt_phase s of
       P_BootstrapM1Pending stream_id _ _ _ _ \<Rightarrow> bootstrap stream_id
     | P_BootstrapM2 stream_id _ _ _ \<Rightarrow> bootstrap stream_id
     | P_BootstrapAckPending stream_id _ _ _ _ _ _ \<Rightarrow> bootstrap stream_id
     | P_Eligible el \<Rightarrow>
         if el_lease_stream el = ev_stream_id ev then st_out (lease_terminal BrokerLost None)
         else if get_child (ev_stream_id ev) el \<noteq> None
         then st_out (child_terminal (ev_stream_id ev) reason None)
         else st_fail WrongPhase
     | _ \<Rightarrow> st_fail WrongPhase)"

definition stream_closed :: "Event \<Rightarrow> ('h, 't, Outcome) sup" where
  "stream_closed ev =
     (if ev_stream_id ev = 0 \<or> ev_write_token ev \<noteq> 0 \<or> ev_bytes ev \<noteq> [] then st_fail InvalidArgument
      else let reason = (if ev_tag ev = Ev_StreamCloseNormal then Normal else PeerClosed) in
        if ev_tag ev \<noteq> Ev_StreamIoFailed then
          st_bind (stream_eof ev) (\<lambda>ended.
          case ended of Some out \<Rightarrow> st_ok out | None \<Rightarrow> stream_end ev reason)
        else stream_end ev reason)"

definition lease_tick :: "u64 \<Rightarrow> ('h, 't, Outcome) sup" where
  "lease_tick token = st_with (\<lambda>s. case tt_phase s of
     P_Eligible el \<Rightarrow>
       if el_lease_tick_timer el \<noteq> Some token then st_ok (Outcome_new K_NeedInput)
       else
         let el = el\<lparr>el_lease_ticks := saturating_add8 (el_lease_ticks el) 1,
               el_missed_ticks := saturating_add8 (el_missed_ticks el) 1\<rparr> in
         st_bind (st_upd (set_phase (P_Eligible el))) (\<lambda>_.
         if el_lease_ticks el \<ge> 30 then st_out (lease_terminal Stale None)
         else if el_missed_ticks el \<ge> 4 then st_out (lease_terminal BrokerLost None)
         else st_bind (schedule_timer T_LeaseTick) (\<lambda>timer.
           st_bind (st_upd (set_phase (P_Eligible (el\<lparr>el_lease_tick_timer := Some timer\<rparr>)))) (\<lambda>_.
           st_ok (Outcome_deadline timer LEASE_TICK_MS (Outcome_new K_NeedInput)))))
   | _ \<Rightarrow> st_ok (Outcome_new K_NeedInput))"

definition child_timeout :: "u64 \<Rightarrow> CloseReason \<Rightarrow> ('h, 't, Outcome) sup" where
  "child_timeout stream_id reason = st_with (\<lambda>s. case tt_phase s of
     P_Eligible el \<Rightarrow>
       if get_child stream_id el \<noteq> None then st_out (child_terminal stream_id reason None)
       else st_ok (Outcome_new K_NeedInput)
   | _ \<Rightarrow> st_ok (Outcome_new K_NeedInput))"

definition timer_fired :: "Event \<Rightarrow> ('h, 't, Outcome) sup" where
  "timer_fired ev =
     (if ev_stream_id ev \<noteq> 0 \<or> ev_write_token ev = 0 \<or> ev_bytes ev \<noteq> [] then st_fail InvalidArgument
      else st_with (\<lambda>s. case map_of (tt_timers s) (ev_write_token ev) of
        None \<Rightarrow> st_ok (Outcome_new K_NeedInput)
      | Some action \<Rightarrow>
          st_bind (st_upd (remove_timer (Some (ev_write_token ev)))) (\<lambda>_.
          case action of
            T_Bootstrap \<Rightarrow> st_out (lease_terminal Timeout None)
          | T_BootstrapFrame \<Rightarrow> st_out (lease_terminal Timeout None)
          | T_LeaseFrame \<Rightarrow> st_out (lease_terminal Timeout None)
          | T_LeaseTick \<Rightarrow> lease_tick (ev_write_token ev)
          | T_SessionPhase stream_id \<Rightarrow> child_timeout stream_id Timeout
          | T_SessionFrame stream_id \<Rightarrow> child_timeout stream_id Timeout
          | T_SessionIdle stream_id \<Rightarrow> child_timeout stream_id Stale)))"

section \<open>The event loop\<close>

definition drive :: "('h, 't) noise \<Rightarrow> cbor \<Rightarrow> bytes \<Rightarrow> Event \<Rightarrow> ('h, 't, Outcome) sup" where
  "drive N C entropy ev = st_with (\<lambda>s. case tt_phase s of
     P_Terminal terminal \<Rightarrow> st_ok (Outcome_terminal K_LeaseTerminal 0 (term_reason terminal)
       (term_handoff terminal) (term_peer_close terminal))
   | _ \<Rightarrow>
     if ev_flags ev \<noteq> 0 then st_fail InvalidArgument
     else
       let global = (\<lambda>f. if ev_stream_id ev \<noteq> 0 \<or> ev_write_token ev \<noteq> 0 \<or> ev_bytes ev \<noteq> []
             then st_fail InvalidArgument else st_out f)
       in case ev_tag ev of
         Ev_EligibilityLost \<Rightarrow> global eligibility_lost
       | Ev_CleanupFailed \<Rightarrow> global (lease_terminal CleanupFailed None)
       | Ev_InternalError \<Rightarrow> global (lease_terminal InternalError None)
       | Ev_TimerFired \<Rightarrow> timer_fired ev
       | Ev_BootstrapConnected \<Rightarrow> bootstrap_connected N C entropy ev
       | Ev_FullWriteCommitted \<Rightarrow> full_write_committed ev
       | Ev_SessionAccepted \<Rightarrow> session_accepted N C entropy ev
       | Ev_RuntimeResponse \<Rightarrow> runtime_response N C ev
       | Ev_StreamBytes \<Rightarrow> stream_bytes N C ev
       | Ev_StreamEof \<Rightarrow> stream_closed ev
       | Ev_StreamIoFailed \<Rightarrow> stream_closed ev
       | Ev_StreamCloseNormal \<Rightarrow> stream_closed ev)"

text \<open>A run of the supervisor: events with the entropy drawn while each is handled.\<close>

definition drive_op :: "('h, 't) noise \<Rightarrow> cbor \<Rightarrow> bytes \<times> Event \<Rightarrow> ('h, 't, Outcome) sup" where
  "drive_op N C i = drive N C (fst i) (snd i)"


end
