(* ===== verification/Supervisor_Life.thy ===== *)
theory Supervisor_Life
  imports Supervisor
begin

text \<open>
  The life of the supervisor. The theory holds the verification conditions of steps (\<open>wp\<close>), shows that
  an event never moves the phase backwards, which outcomes belong to which phase, that the end of the
  lease is final, and which process generation the draws of the generator give.
\<close>

section \<open>Verification conditions of steps\<close>

named_theorems wp_simps \<open>verification conditions of the step combinators\<close>

definition wp :: "('s, 'e, 'a) step \<Rightarrow> ('e + 'a \<Rightarrow> 's \<Rightarrow> bool) \<Rightarrow> 's \<Rightarrow> bool" where
  "wp m Q s \<longleftrightarrow> Q (fst (m s)) (snd (m s))"

lemma wp_basic [wp_simps]:
  "wp (st_ok v) Q s = Q (Inr v) s"
  "wp (st_fail e) Q s = Q (Inl e) s"
  "wp (st_upd g) Q' s = Q' (Inr ()) (g s)"
  "wp (st_with f) Q s = wp (f s) Q s"
  "wp (st_out h) Q s = Q (Inr (fst (h s))) (snd (h s))"
  by (simp_all add: wp_def st_simps st_out_def split: prod.split)

lemma wp_bind [wp_simps]:
  "wp (st_bind m f) Q s = wp m (\<lambda>r s'. case r of Inl e \<Rightarrow> Q (Inl e) s' | Inr v \<Rightarrow> wp (f v) Q s') s"
  by (auto simp: wp_def st_simps split: prod.splits sum.splits)

lemma wp_snd [wp_simps]: "wp (st_snd m) Q (x, s) = wp m (\<lambda>r s'. Q r (x, s')) s"
  by (simp add: wp_def st_snd_def split: prod.split)

lemma wp_mono: "wp m Q s \<Longrightarrow> (\<And>r s'. Q r s' \<Longrightarrow> Q' r s') \<Longrightarrow> wp m Q' s"
  by (simp add: wp_def)

lemma wp_D: "wp m Q s \<Longrightarrow> m s = (r, s') \<Longrightarrow> Q r s'"
  by (simp add: wp_def)

lemma wp_allocate_token [wp_simps]:
  "wp allocate_token Q s =
     (case checked_add (tt_next_token s) 1 of
        None \<Rightarrow> Q (Inl Internal) s
      | Some n \<Rightarrow> if tt_next_token s = 0 then Q (Inl Internal) (s\<lparr>tt_next_token := n\<rparr>)
          else Q (Inr (tt_next_token s)) (s\<lparr>tt_next_token := n\<rparr>))"
  by (simp add: wp_def allocate_token_def Let_def split: option.split)

lemma wp_schedule_timer [wp_simps]:
  "wp (schedule_timer a) Q s =
     wp allocate_token (\<lambda>r s'. case r of Inl e \<Rightarrow> Q (Inl e) s'
       | Inr t \<Rightarrow> Q (Inr t) (s'\<lparr>tt_timers := AList.update t a (tt_timers s')\<rparr>)) s"
  by (simp add: schedule_timer_def wp_bind wp_basic cong: sum.case_cong)

lemma wp_on_eligible [wp_simps]:
  "wp (on_eligible m) Q s =
     (case tt_phase s of
        P_Eligible el \<Rightarrow> wp m (\<lambda>r es. Q r (set_phase (P_Eligible (fst es)) (snd es))) (el, s)
      | _ \<Rightarrow> Q (Inl WrongPhase) s)"
  by (auto simp: wp_def on_eligible_def split: Phase.split prod.split)

lemma wp_upd_child [wp_simps]:
  "wp (upd_child k c) Q s =
     (case tt_phase s of
        P_Eligible el \<Rightarrow> Q (Inr ()) (set_phase (P_Eligible (put_child k c el)) s)
      | _ \<Rightarrow> Q (Inl WrongPhase) s)"
  by (simp add: upd_child_def wp_on_eligible wp_basic split: Phase.split)

section \<open>Phases in order\<close>

fun stage :: "('h, 't) Phase \<Rightarrow> nat" where
  "stage (P_AwaitBootstrap _ _) = 0"
| "stage (P_BootstrapM1Pending _ _ _ _ _) = 1"
| "stage (P_BootstrapM2 _ _ _ _) = 2"
| "stage (P_BootstrapAckPending _ _ _ _ _ _ _) = 3"
| "stage (P_Eligible _) = 4"
| "stage (P_Terminal _) = 5"

definition terminal_outcome :: "Terminal \<Rightarrow> Outcome" where
  "terminal_outcome t = Outcome_terminal K_LeaseTerminal 0 (term_reason t) (term_handoff t) (term_peer_close t)"

text \<open>What an answer says of the phase it leaves. \<open>n\<close> is the stage before the event.\<close>

definition answers :: "nat \<Rightarrow> SupervisorError + Outcome \<Rightarrow> ('h, 't) Phase \<Rightarrow> bool" where
  "answers n r p \<longleftrightarrow> n \<le> stage p \<and>
     (n < 4 \<and> stage p = 4 \<longrightarrow> (\<exists>x. r = Inr x \<and> out_kind x = K_LeaseReady)) \<and>
     (case r of
        Inl e \<Rightarrow> True
      | Inr out \<Rightarrow>
          (case out_kind out of
             K_LeaseReady \<Rightarrow> n = 3 \<and> stage p = 4
           | K_Application \<Rightarrow> n = 4 \<and> stage p = 4
           | K_SessionTerminal \<Rightarrow> n = 4
           | K_LeaseTerminal \<Rightarrow> (\<exists>t. p = P_Terminal t \<and> out = terminal_outcome t)
           | K_EndpointReady \<Rightarrow> False
           | K_Closed \<Rightarrow> False
           | _ \<Rightarrow> True))"

lemma answers_Inl [simp]: "answers n (Inl e) p \<longleftrightarrow> n \<le> stage p \<and> (n < 4 \<longrightarrow> stage p \<noteq> 4)"
  by (auto simp: answers_def)

lemma out_kind_simps [simp]:
  "out_kind (Outcome_new k) = k" "out_kind (Outcome_stream i x) = out_kind x"
  "out_kind (Outcome_values v w x) = out_kind x" "out_kind (Outcome_deadline t ms x) = out_kind x"
  "out_kind (Outcome_write i t b) = K_WriteFrames" "out_kind (Outcome_application i b) = K_Application"
  "out_kind (Outcome_terminal k i r h p) = k" "out_kind (with_frame_deadline d x) = out_kind x"
  by (simp_all add: Outcome_new_def Outcome_stream_def Outcome_values_def Outcome_deadline_def Outcome_write_def
      Outcome_application_def Outcome_terminal_def with_frame_deadline_def split: option.split)

lemma tt_phase_simps [simp]:
  "tt_phase (set_phase p s) = p" "tt_phase (remove_timer t s) = tt_phase s"
  "tt_phase (cancel_action q s) = tt_phase s"
  by (simp_all add: set_phase_def remove_timer_def cancel_action_def split: option.split)

text \<open>The children as a map.\<close>

lemma get_put_child [simp]: "get_child j (put_child k c el) = (if j = k then Some c else get_child j el)"
  by (simp add: get_child_def put_child_def update_conv')

lemma put_put_child [simp]: "put_child k c (put_child k c' el) = put_child k c el"
  by (simp add: put_child_def update_last)

lemma put_child_sel [simp]:
  "el_lease_stream (put_child k c el) = el_lease_stream el"
  "el_lease_frame_timer (put_child k c el) = el_lease_frame_timer el"
  "el_lease_tick_timer (put_child k c el) = el_lease_tick_timer el"
  "el_lease_ticks (put_child k c el) = el_lease_ticks el"
  "el_missed_ticks (put_child k c el) = el_missed_ticks el"
  "el_session_binding (put_child k c el) = el_session_binding el"
  by (simp_all add: put_child_def)

section \<open>A judgement for handlers\<close>

text \<open>From phase \<open>p\<close> the step \<open>m\<close> gives an answer and leaves a phase that are related by \<open>R\<close>. The rules
  follow the code. With \<open>answers n\<close> for \<open>R\<close>, the step is part of the handling of an event that found stage
  \<open>n\<close>, and it answers for the phase it leaves.\<close>

definition phased ::
    "(SupervisorError + Outcome \<Rightarrow> ('h, 't) Phase \<Rightarrow> bool) \<Rightarrow> ('h, 't) Phase \<Rightarrow> ('h, 't, Outcome) sup \<Rightarrow> bool" where
  "phased R p m \<longleftrightarrow> (\<forall>s. tt_phase s = p \<longrightarrow> R (fst (m s)) (tt_phase (snd (m s))))"

abbreviation fits :: "('h, 't) Phase \<Rightarrow> ('h, 't, Outcome) sup \<Rightarrow> nat \<Rightarrow> bool" where
  "fits p m n \<equiv> phased (answers n) p m"

named_theorems phased_rules \<open>introduction rules of the judgement that hold for every relation\<close>
named_theorems fits_rules \<open>introduction rules of the judgement for \<open>answers\<close>\<close>

text \<open>A step that keeps the phase.\<close>

definition phase_still :: "('h, 't, 'a) sup \<Rightarrow> bool" where
  "phase_still m \<longleftrightarrow> (\<forall>s. tt_phase (snd (m s)) = tt_phase s)"

lemma phase_still_steps:
  "phase_still allocate_token" "phase_still (schedule_timer a)" "phase_still (update_frame_timer i slot a)"
  "phase_still (st_upd (remove_timer t))"
  by (auto simp: phase_still_def schedule_timer_def update_frame_timer_def allocate_token_def st_simps Let_def
      split: option.splits)

lemma fits_ok [fits_rules]:
  "n \<le> stage p \<Longrightarrow> out_kind x \<in> {K_NeedInput, K_WriteFrames} \<and> (n < 4 \<longrightarrow> stage p \<noteq> 4) \<or> out_kind x = K_Application \<and> n = 4 \<and> stage p = 4
     \<or> out_kind x = K_LeaseReady \<and> n = 3 \<and> stage p = 4 \<Longrightarrow> fits p (st_ok x) n"
  by (auto simp: phased_def answers_def st_simps)

lemma fits_fail [fits_rules]: "n \<le> stage p \<Longrightarrow> n < 4 \<longrightarrow> stage p \<noteq> 4 \<Longrightarrow> fits p (st_fail e) n"
  by (auto simp: phased_def answers_def st_simps)

lemma phased_still:
  fixes p :: "('h, 't) Phase"
  assumes still: "phase_still m" and err: "\<And>e. R (Inl e) p" and f: "\<And>v. phased R p (f v)"
  shows "phased R p (st_bind m f)"
  unfolding phased_def
proof (intro allI impI)
  fix s :: "('h, 't) TargetTransport"
  assume p: "tt_phase s = p"
  obtain r s' where m: "m s = (r, s')" by fastforce
  then have s': "tt_phase s' = p" using still p by (metis phase_still_def snd_conv)
  show "R (fst (st_bind m f s)) (tt_phase (snd (st_bind m f s)))"
  proof (cases r)
    case (Inl e)
    with m s' err [of e] show ?thesis by (simp add: st_simps)
  next
    case (Inr v)
    with m s' f [of v] show ?thesis by (simp add: st_simps phased_def)
  qed
qed

lemmas phased_keep [phased_rules] = phase_still_steps [THEN phased_still]

lemma phased_set_phase [phased_rules]: "phased R q (f ()) \<Longrightarrow> phased R p (st_bind (st_upd (set_phase q)) f)"
  by (simp add: phased_def st_simps)

lemma phased_upd_child [phased_rules]:
  "phased R (P_Eligible (put_child k c el)) (f ()) \<Longrightarrow> phased R (P_Eligible el) (st_bind (upd_child k c) f)"
  by (simp add: phased_def upd_child_def on_eligible_def st_simps)

lemma fits_replace_timer [fits_rules]:
  "n = 4 \<Longrightarrow> (\<And>v el. fits (P_Eligible el) (f v) n) \<Longrightarrow>
     fits (P_Eligible el) (st_bind (on_eligible (replace_child_timer k a)) f) n"
  by (fastforce simp: phased_def on_eligible_def answers_def st_simps split: prod.splits sum.splits)

lemma phased_with: "(\<And>s. tt_phase s = p \<Longrightarrow> phased R p (f s)) \<Longrightarrow> phased R p (st_with f)"
  by (simp add: phased_def st_simps)

lemma phased_cases [phased_rules]:
  "(c \<Longrightarrow> phased R p a) \<Longrightarrow> (\<not> c \<Longrightarrow> phased R p b) \<Longrightarrow> phased R p (if c then a else b)"
  "(\<And>y z. x2 = (y, z) \<Longrightarrow> phased R p (f2 y z)) \<Longrightarrow> phased R p (case x2 of (y, z) \<Rightarrow> f2 y z)"
  "(\<And>e. x3 = Inl e \<Longrightarrow> phased R p (f3 e)) \<Longrightarrow> (\<And>v. x3 = Inr v \<Longrightarrow> phased R p (g3 v)) \<Longrightarrow>
     phased R p (case x3 of Inl e \<Rightarrow> f3 e | Inr v \<Rightarrow> g3 v)"
  "(x4 = None \<Longrightarrow> phased R p a) \<Longrightarrow> (\<And>v. x4 = Some v \<Longrightarrow> phased R p (g4 v)) \<Longrightarrow>
     phased R p (case x4 of None \<Rightarrow> a | Some v \<Rightarrow> g4 v)"
  "(x5 = [] \<Longrightarrow> phased R p a) \<Longrightarrow> (\<And>y z. x5 = y # z \<Longrightarrow> phased R p (f5 y z)) \<Longrightarrow>
     phased R p (case x5 of [] \<Rightarrow> a | y # z \<Rightarrow> f5 y z)"
  "phased R p (f6 x6) \<Longrightarrow> phased R p (let y = x6 in f6 y)"
  by (simp_all split: prod.split sum.split option.split list.split)

lemma phased_stop_cases [phased_rules]:
  "(\<And>e. phased R p (f e)) \<Longrightarrow> phased R p b \<Longrightarrow> phased R p (case x of CoreError e \<Rightarrow> f e | SecondApplication \<Rightarrow> b)"
  by (simp split: app_stop.split)

lemma fits_lease_end [fits_rules]:
  "n \<le> 5 \<Longrightarrow> fits p (st_out (lease_terminal r peer)) n" "n \<le> 5 \<Longrightarrow> fits p (st_out (core_lease_error e)) n"
  by (auto simp: phased_def answers_def st_out_def core_lease_error_def lease_terminal_def Let_def terminal_outcome_def)

lemma child_terminal_kind:
  "out_kind (fst (child_terminal k r p s)) = K_SessionTerminal"
  "stage (tt_phase (snd (child_terminal k r p s))) = stage (tt_phase s)"
  by (auto simp: child_terminal_def split: Phase.split option.split)

lemma allocate_token_phase: "allocate_token s = (r, s') \<Longrightarrow> tt_phase s' = tt_phase s"
  using phase_still_steps(1) by (metis phase_still_def snd_conv)

lemma child_core_error_kind:
  "out_kind (fst (child_core_error k e s)) \<in> {K_SessionTerminal, K_WriteFrames} \<and>
   stage (tt_phase (snd (child_core_error k e s))) = stage (tt_phase s)"
proof -
  obtain r s1 where a: "allocate_token s = (r, s1)" by fastforce
  from a allocate_token_phase [OF a] show ?thesis
    by (auto simp: child_core_error_def child_terminal_kind Let_def Outcome_write_def Outcome_stream_def
        Outcome_new_def split: option.split sum.split Phase.split)
qed

lemma fits_child_end [fits_rules]:
  "n = 4 \<Longrightarrow> fits (P_Eligible el) (st_out (child_terminal k r peer)) n"
  "n = 4 \<Longrightarrow> fits (P_Eligible el) (st_out (child_core_error k e)) n"
proof -
  have "answers 4 (Inr (fst (child_terminal k r peer s))) (tt_phase (snd (child_terminal k r peer s)))"
    "answers 4 (Inr (fst (child_core_error k e s))) (tt_phase (snd (child_core_error k e s)))"
    if "tt_phase s = P_Eligible el" for s
    using that child_core_error_kind [of k e s] child_terminal_kind [of k r peer s] by (auto simp: answers_def)
  then show "n = 4 \<Longrightarrow> fits (P_Eligible el) (st_out (child_terminal k r peer)) n"
    "n = 4 \<Longrightarrow> fits (P_Eligible el) (st_out (child_core_error k e)) n"
    by (simp_all add: phased_def st_out_def split_beta Let_def)
qed

section \<open>Every handler answers for its phase\<close>

lemma bootstrap_connected_fits: "fits p (bootstrap_connected N C entropy ev) (stage p)"
  unfolding bootstrap_connected_def
  by (rule phased_cases, simp add: fits_fail, rule phased_with, cases p;
      simp split del: if_split; intro fits_rules phased_rules; simp)

lemma bootstrap_bytes_fits: "fits p (bootstrap_bytes N C ev) (stage p)"
  unfolding bootstrap_bytes_def
  by (rule phased_with, cases p; simp split del: if_split; intro fits_rules phased_rules; simp)

lemma lease_bytes_fits: "fits p (lease_bytes N C ev) (stage p)"
  unfolding lease_bytes_def
  by (rule phased_with, cases p; simp split del: if_split; intro fits_rules phased_rules; simp)

lemma session_accepted_fits: "fits p (session_accepted N C entropy ev) (stage p)"
  unfolding session_accepted_def
  by (rule phased_cases, simp add: fits_fail, rule phased_with, cases p;
      simp split del: if_split; intro fits_rules phased_rules; simp)

lemma phased_ChildPhase [phased_rules]:
  assumes "\<And>s t. phased R p (f1 s t)" "\<And>s. phased R p (f2 s)" "\<And>s t. phased R p (f3 s t)" "\<And>s. phased R p (f4 s)"
    "\<And>s. phased R p (f5 s)" "\<And>s. phased R p (f6 s)" "\<And>s t. phased R p (f7 s t)" "\<And>t r. phased R p (f8 t r)"
    "phased R p f9"
  shows "phased R p (case x of C_M1Pending s t \<Rightarrow> f1 s t | C_AwaitM2 s \<Rightarrow> f2 s | C_FinishedPending s t \<Rightarrow> f3 s t
    | C_AwaitFinished s \<Rightarrow> f4 s | C_AwaitApplication s \<Rightarrow> f5 s | C_AwaitRuntime s \<Rightarrow> f6 s
    | C_ResponsePending s t \<Rightarrow> f7 s t | C_TerminalPending t r \<Rightarrow> f8 t r | C_Terminal \<Rightarrow> f9)"
  using assms by (simp split: ChildPhase.split)

lemma runtime_response_fits: "fits p (runtime_response N C ev) (stage p)"
  unfolding runtime_response_def
  by (rule phased_cases, simp add: fits_fail, rule phased_with, cases p;
      simp split del: if_split; intro fits_rules phased_rules; simp)

lemma session_deliver_fits [fits_rules]:
  "n = 4 \<Longrightarrow> fits (P_Eligible el) (session_deliver k fd c session app) n"
  unfolding session_deliver_def by (intro fits_rules phased_rules; simp)

lemma session_branches_fit [fits_rules]:
  "n = 4 \<Longrightarrow> fits (P_Eligible el) (session_await_application N C k fs fd c session) n"
  unfolding session_await_application_def by (intro fits_rules phased_rules; simp)

lemma session_await_m2_fits [fits_rules]:
  "n = 4 \<Longrightarrow> fits (P_Eligible el) (session_await_m2 N C k fs fd c session) n"
  unfolding session_await_m2_def by (intro fits_rules phased_rules; simp)

lemma session_await_finished_fits [fits_rules]:
  "n = 4 \<Longrightarrow> fits (P_Eligible el) (session_await_finished N C k fs fd c session) n"
  unfolding session_await_finished_def by (intro fits_rules phased_rules; simp)

lemma session_bytes_fits: "fits p (session_bytes N C ev) (stage p)"
  unfolding session_bytes_def
  by (rule phased_with, cases p; simp split del: if_split; intro fits_rules phased_rules; simp)

lemma stream_bytes_fits: "fits p (stream_bytes N C ev) (stage p)"
  unfolding stream_bytes_def
  by (rule phased_cases, simp add: fits_fail, rule phased_with, cases p;
      simp split del: if_split; intro fits_rules phased_rules bootstrap_bytes_fits [of "P_BootstrapM2 _ _ _ _", simplified]
        lease_bytes_fits [of "P_Eligible _", simplified] session_bytes_fits [of "P_Eligible _", simplified]; simp)

lemma commit_child_write_kind:
  "commit_child_write k t es = (r, es') \<Longrightarrow> r = Inr x \<Longrightarrow> out_kind x \<in> {K_NeedInput, K_SessionTerminal}"
  by (auto simp: commit_child_write_def reset_child_phase_timer_def st_simps st_snd_def st_out_def Let_def
      child_terminal_kind split: prod.splits option.splits ChildPhase.splits if_splits sum.splits)
     (metis child_terminal_kind(1) fst_conv)

lemma fits_commit [fits_rules]:
  "n = 4 \<Longrightarrow> fits p (\<lambda>s. let (r, el, s) = commit_child_write k t (el, set_phase q s)
     in (r, set_phase (P_Eligible el) s)) n"
  by (auto simp: phased_def answers_def split_beta Let_def split: sum.split dest!: commit_child_write_kind [OF prod.collapse [symmetric]])

lemma phased_cancel [phased_rules]:
  "phased R q (f ()) \<Longrightarrow> phased R p (st_bind (st_upd (\<lambda>s. cancel_action a (set_phase q s))) f)"
  by (simp add: phased_def st_simps)

lemma full_write_committed_fits: "fits p (full_write_committed ev) (stage p)"
  unfolding full_write_committed_def
  by (rule phased_cases, simp add: fits_fail, rule phased_with, cases p;
      simp split del: if_split; intro fits_rules phased_rules; simp)


text \<open>The end of a stream: either it is not an error and the stage stays, or the answer is final.\<close>

lemma child_core_error_answers:
  "tt_phase s = P_Eligible el \<Longrightarrow> child_core_error k e s = (x, s') \<Longrightarrow> answers 4 (Inr x) (tt_phase s')"
  using child_core_error_kind [of k e s] by (auto simp: answers_def)

lemma core_lease_error_end:
  "core_lease_error e s = (x, s') \<Longrightarrow> \<exists>t. tt_phase s' = P_Terminal t \<and> x = terminal_outcome t"
  by (auto simp: core_lease_error_def lease_terminal_def terminal_outcome_def Let_def)

lemma terminal_answers: "n \<le> 5 \<Longrightarrow> answers n (Inr (terminal_outcome t)) (P_Terminal t)"
  by (simp add: answers_def terminal_outcome_def)

lemma stream_eof_result:
  assumes "stream_eof ev s = (r, s')"
  shows "r = Inr None \<and> stage (tt_phase s') = stage (tt_phase s) \<or>
    (\<exists>x. r = Inr (Some x) \<and> answers (stage (tt_phase s)) (Inr x) (tt_phase s'))"
  using assms
  by (auto simp: stream_eof_def Let_def st_simps st_out_def upd_child_def on_eligible_def terminal_answers
      split: Phase.splits prod.splits sum.splits option.splits if_splits
      dest!: core_lease_error_end dest: child_core_error_answers [rotated])

lemma fits_stream_eof [fits_rules]:
  assumes "n = stage p" "\<And>q. stage q = n \<Longrightarrow> fits q m n"
  shows "fits p (st_bind (stream_eof ev) (\<lambda>ended. case ended of Some x \<Rightarrow> st_ok x | None \<Rightarrow> m)) n"
  unfolding phased_def
proof (intro allI impI)
  fix s :: "('a, 'b) TargetTransport"
  assume p: "tt_phase s = p"
  obtain r s' where m: "stream_eof ev s = (r, s')" by fastforce
  from stream_eof_result [OF m] p assms m
  show "answers n (fst (st_bind (stream_eof ev) (\<lambda>ended. case ended of Some x \<Rightarrow> st_ok x | None \<Rightarrow> m) s))
    (tt_phase (snd (st_bind (stream_eof ev) (\<lambda>ended. case ended of Some x \<Rightarrow> st_ok x | None \<Rightarrow> m) s)))"
    by (auto simp: st_simps phased_def)
qed

lemma stream_end_fits: "fits p (stream_end ev reason) (stage p)"
  unfolding stream_end_def
  by (rule phased_with, cases p; simp add: Let_def split del: if_split; intro fits_rules phased_rules; simp)

lemma stream_closed_fits: "fits p (stream_closed ev) (stage p)"
  unfolding stream_closed_def Let_def
  by (intro fits_rules phased_rules; simp add: stream_end_fits; metis stream_end_fits)

lemma lease_tick_fits: "fits p (lease_tick t) (stage p)"
  unfolding lease_tick_def
  by (rule phased_with, cases p; simp split del: if_split; intro fits_rules phased_rules; simp)

lemma child_timeout_fits: "fits p (child_timeout k reason) (stage p)"
  unfolding child_timeout_def
  by (rule phased_with, cases p; simp split del: if_split; intro fits_rules phased_rules; simp)

lemma timer_fired_fits: "fits p (timer_fired ev) (stage p)"
proof -
  have "stage p \<le> 5" by (cases p) simp_all
  then show ?thesis
    unfolding timer_fired_def
    by (rule_tac phased_cases(1), simp add: fits_fail, rule_tac phased_with; intro fits_rules phased_rules;
        simp add: fits_lease_end lease_tick_fits child_timeout_fits split: TimerAction.split)
qed

lemma eligibility_lost_fits: "fits p (st_out eligibility_lost) (stage p)"
  by (auto simp: phased_def answers_def st_out_def eligibility_lost_def lease_terminal_def Let_def terminal_outcome_def
      set_phase_def split: Phase.split option.split)

lemma live_phase_case:
  "(\<And>t. p \<noteq> P_Terminal t) \<Longrightarrow>
    (case p of P_AwaitBootstrap _ _ \<Rightarrow> b | P_BootstrapM1Pending _ _ _ _ _ \<Rightarrow> b | P_BootstrapM2 _ _ _ _ \<Rightarrow> b
     | P_BootstrapAckPending _ _ _ _ _ _ _ \<Rightarrow> b | P_Eligible _ \<Rightarrow> b | P_Terminal t \<Rightarrow> f t) = b"
  by (cases p) auto

lemmas handlers_fit = timer_fired_fits bootstrap_connected_fits full_write_committed_fits session_accepted_fits
  runtime_response_fits stream_bytes_fits stream_closed_fits eligibility_lost_fits

lemma drive_fits: "fits p (drive N C entropy ev) (stage p)"
proof (cases "\<exists>t. p = P_Terminal t")
  case True
  then show ?thesis
    by (auto simp: phased_def drive_def st_simps terminal_outcome_def [symmetric] terminal_answers)
next
  case False
  have "stage p \<le> 5" by (cases p) simp_all
  with False show ?thesis
    unfolding drive_def
    by (intro phased_with, cases "ev_tag ev"; simp add: live_phase_case Let_def handlers_fit fits_fail fits_lease_end)
qed

section \<open>Runs\<close>

lemma drive_answers:
  "answers (stage (tt_phase s)) (fst (drive_op N C i s)) (tt_phase (snd (drive_op N C i s)))"
  using drive_fits [of "tt_phase s" N C "fst i" "snd i"] by (simp add: phased_def drive_op_def)

lemma drive_stage: "stage (tt_phase s) \<le> stage (tt_phase (snd (drive_op N C i s)))"
  using drive_answers [of s N C i] by (simp add: answers_def)

lemma drive_terminal: "tt_phase s = P_Terminal t \<Longrightarrow> drive_op N C i s = (Inr (terminal_outcome t), s)"
  by (simp add: drive_op_def drive_def st_simps terminal_outcome_def)

lemma run_terminal:
  assumes "tt_phase (run_state (drive_op N C) evs s k) = P_Terminal t" "k \<le> l" "l \<le> length evs"
  shows "run_state (drive_op N C) evs s l = run_state (drive_op N C) evs s k"
  using assms(2,3)
  by (induction l rule: dec_induct) (simp_all add: run_state_Suc drive_terminal assms(1))

text \<open>C28: The end of the lease is final. Once an event is answered with the end of the lease, every later
  event is answered with the same outcome: reason, handoff and peer close do not change and nothing else is
  ever reported again.\<close>

theorem supervisor_end_final:
  assumes "i < j" "j < length evs"
    "fst (run (drive_op N C) evs s) ! i = Inr x" "out_kind x = K_LeaseTerminal"
  shows "fst (run (drive_op N C) evs s) ! j = Inr x"
proof -
  let ?st = "run_state (drive_op N C) evs s"
  obtain t where t: "tt_phase (?st (Suc i)) = P_Terminal t" "x = terminal_outcome t"
    using drive_answers [of "?st i" N C "evs ! i"] assms by (auto simp: answers_def run_nth run_state_Suc)
  then have "?st j = ?st (Suc i)" using run_terminal [of N C evs s "Suc i" t j] assms by simp
  with t assms show ?thesis by (simp add: run_nth drive_terminal)
qed

definition fresh_transport :: "BootstrapBinding \<Rightarrow> bytes \<Rightarrow> u64 \<Rightarrow> ('h, 't) TargetTransport" where
  "fresh_transport b key generation =
     \<lparr>tt_phase = P_AwaitBootstrap b key, tt_generation = generation, tt_next_token = 1, tt_timers = []\<rparr>"

definition global_event :: "EventTag \<Rightarrow> Event" where
  "global_event tag = \<lparr>ev_tag = tag, ev_flags = 0, ev_stream_id = 0, ev_write_token = 0, ev_bytes = []\<rparr>"

theorem supervisor_end_final_witness:
  "fst (run (drive_op clear_noise rfc_cbor) [([], global_event Ev_EligibilityLost), ([], global_event Ev_CleanupFailed)]
     (fresh_transport demo_bootstrap_binding (replicate 32 6) 77)) ! 1 =
   Inr (Outcome_terminal K_LeaseTerminal 0 EligibilityLost NotHandedOff None)"
  by (rule supervisor_end_final [of 0])
    (simp_all add: drive_op_def drive_def fresh_transport_def global_event_def st_simps st_out_def eligibility_lost_def
      lease_terminal_def)

section \<open>The process generation\<close>

lemma generation_zone_value: "unat generation_zone = 2048 * 9007199254740991"
  by (simp add: generation_zone_def JSON_SAFE_MAX_def)

lemma generate_loop_range:
  "generate_loop draws = Some (Inr g) \<Longrightarrow> 1 \<le> unat g \<and> g \<le> JSON_SAFE_MAX"
proof (induction draws rule: generate_loop.induct)
  case (3 bs draws)
  show ?case
  proof (cases "u64_of_le bs < generation_zone")
    case True
    have "unat (u64_of_le bs mod JSON_SAFE_MAX) < 9007199254740991"
      by (simp add: unat_mod JSON_SAFE_MAX_def)
    moreover from this have "unat (u64_of_le bs mod JSON_SAFE_MAX + 1) = unat (u64_of_le bs mod JSON_SAFE_MAX) + 1"
      by (simp add: unat_word_ariths)
    ultimately show ?thesis using 3 True by (auto simp: word_le_nat_alt JSON_SAFE_MAX_def)
  qed (use 3 in simp)
qed simp_all

lemma create_fresh:
  assumes "TargetTransport_create C rng d = Some (Inr (s, out))"
  obtains parsed g where "parse_descriptor C d = Inr parsed" "valid_generation g"
    "s = fresh_transport (pd_binding parsed) (pd_broker_public_key parsed) g"
  using assms generate_loop_range
  by (fastforce simp: TargetTransport_create_def fresh_transport_def generate_process_generation_def Let_def valid_generation_def
      word_le_nat_alt JSON_SAFE_MAX_def split: sum.splits option.splits Endpoint.splits elim!: res_bindE)

lemma generate_loop_rejected:
  "\<forall>x \<in> set pre. \<exists>bs. x = Some bs \<and> \<not> u64_of_le bs < generation_zone \<Longrightarrow>
     generate_loop (pre @ draws) = generate_loop draws"
  by (induction pre) auto

lemma first_decisive_draw:
  assumes "d \<in> set draws" "d = None \<or> (\<exists>bs. d = Some bs \<and> u64_of_le bs < generation_zone)"
  obtains pre d' rest where "draws = pre @ d' # rest" "d' = None \<or> (\<exists>bs. d' = Some bs \<and> u64_of_le bs < generation_zone)"
    "\<forall>x \<in> set pre. \<exists>bs. x = Some bs \<and> \<not> u64_of_le bs < generation_zone"
proof -
  let ?P = "\<lambda>d. d = None \<or> (\<exists>bs. d = Some bs \<and> u64_of_le bs < generation_zone)"
  from assms have "\<exists>d \<in> set draws. ?P d" by blast
  from split_list_first_propE [OF this] obtain pre d' rest
    where "draws = pre @ d' # rest" "?P d'" "\<forall>x \<in> set pre. \<not> ?P x" by blast
  with that show ?thesis by (metis not_None_eq)
qed

text \<open>C39: The process generation. The rejection loop returns with the first draw below the zone or the first
  failed draw, whichever comes first, however many draws were rejected before it: a failed draw is an
  internal error, a draw \<open>v\<close> below the zone gives \<open>v mod (2 ^ 53 - 1) + 1\<close>. A generation that is returned is one
  the binding accepts, from one to the largest JSON-safe integer.\<close>

theorem generation_terminates_in_range:
  assumes "d \<in> set draws" "d = None \<or> (\<exists>bs. d = Some bs \<and> u64_of_le bs < generation_zone)"
  shows "\<exists>pre first rest r. draws = pre @ first # rest \<and>
    (\<forall>x \<in> set pre. \<exists>bs. x = Some bs \<and> generation_zone \<le> u64_of_le bs) \<and>
    generate_process_generation (Some draws) = Some r \<and>
    (case first of
       None \<Rightarrow> r = Inl Internal
     | Some bs \<Rightarrow> u64_of_le bs < generation_zone \<and> (\<exists>g. r = Inr g \<and> valid_generation g \<and>
         unat g = unat (u64_of_le bs) mod (2 ^ 53 - 1) + 1))"
proof -
  obtain pre first rest where split: "draws = pre @ first # rest"
    and first: "first = None \<or> (\<exists>bs. first = Some bs \<and> u64_of_le bs < generation_zone)"
    and pre: "\<forall>x \<in> set pre. \<exists>bs. x = Some bs \<and> \<not> u64_of_le bs < generation_zone"
    using first_decisive_draw [OF assms] .
  have loop: "generate_process_generation (Some draws) = generate_loop (first # rest)"
    by (simp add: generate_process_generation_def split generate_loop_rejected [OF pre])
  have val: "valid_generation (v mod JSON_SAFE_MAX + 1) \<and> unat (v mod JSON_SAFE_MAX + 1) = unat v mod (2 ^ 53 - 1) + 1" for v
  proof -
    have "unat (v mod JSON_SAFE_MAX) = unat v mod 9007199254740991" by (simp add: unat_mod JSON_SAFE_MAX_def)
    moreover from this have "unat (v mod JSON_SAFE_MAX) < 9007199254740991" by simp
    ultimately show ?thesis by (simp add: unat_word_ariths valid_generation_def word_le_nat_alt)
  qed
  from first show ?thesis
  proof (elim disjE exE conjE)
    assume "first = None"
    with loop split pre show ?thesis by (intro exI [of _ pre] exI [of _ first] exI [of _ rest]) (auto simp: not_less)
  next
    fix bs
    assume "first = Some bs" "u64_of_le bs < generation_zone"
    with loop split pre val [of "u64_of_le bs"] show ?thesis
      by (intro exI [of _ pre] exI [of _ first] exI [of _ rest]) (auto simp: not_less)
  qed
qed

theorem generation_terminates_in_range_witness:
  "generate_process_generation (Some [Some (replicate 8 255), Some [5, 0, 0, 0, 0, 0, 0, 0]]) = Some (Inr 6)"
proof -
  have ones: "replicate 8 (255 :: u8) = [255, 255, 255, 255, 255, 255, 255, 255]" by (simp add: eval_nat_numeral)
  have v: "u64_of_le [5, 0, 0, 0, 0, 0, 0, 0] = 5" "\<not> u64_of_le (replicate 8 255) < generation_zone"
    "(5 :: u64) < generation_zone"
    unfolding ones by (simp_all add: u64_of_le_def be_val_def word_less_nat_alt generation_zone_value)
  obtain pre first rest r where *: "[Some (replicate 8 255), Some [5, 0, 0, 0, 0, 0, 0, 0]] = pre @ first # rest"
    "generate_process_generation (Some [Some (replicate 8 255), Some [5, 0, 0, 0, 0, 0, 0, 0]]) = Some r"
    "case first of None \<Rightarrow> r = Inl Internal | Some bs \<Rightarrow> u64_of_le bs < generation_zone \<and>
       (\<exists>g. r = Inr g \<and> valid_generation g \<and> unat g = unat (u64_of_le bs) mod (2 ^ 53 - 1) + 1)"
    using generation_terminates_in_range [of "Some [5, 0, 0, 0, 0, 0, 0, 0]"
        "[Some (replicate 8 255), Some [5, 0, 0, 0, 0, 0, 0, 0]]"] v by auto
  then have "first = Some [5, 0, 0, 0, 0, 0, 0, 0]" using v(2) by (cases pre; cases "tl pre") auto
  with * v(1) obtain g where "r = Inr g" "unat g = 6" by auto
  moreover from this have "g = 6" by (simp add: word_unat_eq_iff)
  ultimately show ?thesis using *(2) by simp
qed

end
