(* ===== verification/Supervisor_Inv.thy ===== *)
theory Supervisor_Inv
  imports Supervisor_Life
begin

text \<open>
  The supervisor's timers and sessions. The invariant says that every armed timer belongs to the slot of
  a live object and every slot to an armed timer, that the bootstrap, the lease and every session that
  waits for its peer have a deadline, and that the lease's counters are within their bounds. The
  isolation lemmas say that what happens on one session's stream leaves the lease, the other sessions and
  their timers as they were.
\<close>

section \<open>The invariant\<close>

text \<open>The armed timers as a function.\<close>

definition armed :: "('h, 't) TargetTransport \<Rightarrow> u64 \<rightharpoonup> TimerAction" where
  "armed s = map_of (tt_timers s)"

definition exhausted :: "u64 \<Rightarrow> bool" where
  "exhausted n \<longleftrightarrow> checked_add n 1 = None"

definition slot_armed :: "(u64 \<rightharpoonup> TimerAction) \<Rightarrow> u64 option \<Rightarrow> TimerAction set \<Rightarrow> bool" where
  "slot_armed T slot A \<longleftrightarrow> (\<forall>t. slot = Some t \<longrightarrow> (\<exists>a \<in> A. T t = Some a))"

definition child_armed :: "(u64 \<rightharpoonup> TimerAction) \<Rightarrow> u64 \<Rightarrow> ('h, 't) Child \<Rightarrow> bool" where
  "child_armed T k c \<longleftrightarrow> slot_armed T (ch_phase_timer c) {T_SessionPhase k, T_SessionIdle k} \<and>
     slot_armed T (ch_frame_timer c) {T_SessionFrame k}"

fun waits_for_peer :: "('h, 't) ChildPhase \<Rightarrow> bool" where
  "waits_for_peer (C_M1Pending _ _) = True"
| "waits_for_peer (C_AwaitM2 _) = True"
| "waits_for_peer (C_FinishedPending _ _) = True"
| "waits_for_peer (C_AwaitFinished _) = True"
| "waits_for_peer (C_AwaitApplication _) = True"
| "waits_for_peer _ = False"

text \<open>The slot that owns a timer.\<close>

fun owned :: "('h, 't) Eligible \<Rightarrow> u64 \<Rightarrow> TimerAction \<Rightarrow> bool" where
  "owned el t T_Bootstrap = False"
| "owned el t T_BootstrapFrame = (el_lease_frame_timer el = Some t)"
| "owned el t T_LeaseFrame = (el_lease_frame_timer el = Some t)"
| "owned el t T_LeaseTick = (el_lease_tick_timer el = Some t)"
| "owned el t (T_SessionPhase k) = (\<exists>c. get_child k el = Some c \<and> ch_phase_timer c = Some t)"
| "owned el t (T_SessionIdle k) = (\<exists>c. get_child k el = Some c \<and> ch_phase_timer c = Some t)"
| "owned el t (T_SessionFrame k) = (\<exists>c. get_child k el = Some c \<and> ch_frame_timer c = Some t)"

definition children_ok :: "u64 \<Rightarrow> (u64 \<rightharpoonup> TimerAction) \<Rightarrow> ('h, 't) Eligible \<Rightarrow> bool" where
  "children_ok n T el \<longleftrightarrow> distinct (map fst (el_children el)) \<and> get_child (el_lease_stream el) el = None \<and>
     (\<forall>k c. get_child k el = Some c \<longrightarrow> child_armed T k c \<and>
        (waits_for_peer (ch_phase c) \<longrightarrow> ch_phase_timer c \<noteq> None \<or> exhausted n))"

definition lease_ok :: "u64 \<Rightarrow> (u64 \<rightharpoonup> TimerAction) \<Rightarrow> ('h, 't) Eligible \<Rightarrow> bool" where
  "lease_ok n T el \<longleftrightarrow> slot_armed T (el_lease_frame_timer el) {T_LeaseFrame, T_BootstrapFrame} \<and>
     (\<exists>t. el_lease_tick_timer el = Some t \<and> (T t = Some T_LeaseTick \<or> exhausted n)) \<and>
     el_lease_ticks el < 30 \<and> el_missed_ticks el < 4"

definition boot_ok :: "(u64 \<rightharpoonup> TimerAction) \<Rightarrow> u64 option \<Rightarrow> bool" where
  "boot_ok T frame_timer \<longleftrightarrow> slot_armed T frame_timer {T_BootstrapFrame} \<and>
     (\<exists>t. T t = Some T_Bootstrap) \<and>
     (\<forall>t a. T t = Some a \<longrightarrow> a = T_Bootstrap \<or> a = T_BootstrapFrame \<and> frame_timer = Some t)"

fun phase_ok :: "u64 \<Rightarrow> (u64 \<rightharpoonup> TimerAction) \<Rightarrow> ('h, 't) Phase \<Rightarrow> bool" where
  "phase_ok n T (P_AwaitBootstrap _ _) = (T = Map.empty)"
| "phase_ok n T (P_BootstrapM1Pending _ _ _ _ frame_timer) = boot_ok T frame_timer"
| "phase_ok n T (P_BootstrapM2 _ _ _ frame_timer) = boot_ok T frame_timer"
| "phase_ok n T (P_BootstrapAckPending _ _ _ _ _ _ frame_timer) = boot_ok T frame_timer"
| "phase_ok n T (P_Eligible el) =
     (children_ok n T el \<and> lease_ok n T el \<and> (\<forall>t a. T t = Some a \<longrightarrow> owned el t a))"
| "phase_ok n T (P_Terminal _) = True"

definition timers_ok :: "('h, 't) TargetTransport \<Rightarrow> bool" where
  "timers_ok s \<longleftrightarrow> distinct (map fst (tt_timers s)) \<and> 0 < tt_next_token s \<and>
     (\<forall>t a. armed s t = Some a \<longrightarrow> 0 < t \<and> t < tt_next_token s)"

definition sup_inv :: "('h, 't) TargetTransport \<Rightarrow> bool" where
  "sup_inv s \<longleftrightarrow> timers_ok s \<and> phase_ok (tt_next_token s) (armed s) (tt_phase s)"

section \<open>Tokens and timers\<close>

lemma next_token_bump:
  assumes "checked_add n 1 = Some m"
  shows "n < m" "0 < m" "t < n \<Longrightarrow> t < m" "\<not> exhausted n" "unat m = Suc (unat n)"
  using checked_add_SomeD [OF assms] assms by (auto simp: word_less_nat_alt exhausted_def)

text \<open>Freshness: the token handed out is not armed.\<close>

lemma fresh_token: "timers_ok s \<Longrightarrow> armed s (tt_next_token s) = None"
  unfolding timers_ok_def by (metis less_irrefl not_None_eq)

lemma armed_simps [simp]:
  "armed (remove_timer slot s) = (case slot of None \<Rightarrow> armed s | Some t \<Rightarrow> (armed s)(t := None))"
  "armed (set_phase p s) = armed s" "armed (s\<lparr>tt_next_token := n\<rparr>) = armed s"
  "armed (s\<lparr>tt_timers := AList.update t a (tt_timers s)\<rparr>) = (armed s)(t \<mapsto> a)"
  by (simp_all add: armed_def remove_timer_def set_phase_def delete_conv' update_conv' split: option.split)

lemma armed_schedule [simp]:
  "armed (s\<lparr>tt_next_token := n, tt_timers := AList.update t a (tt_timers s)\<rparr>) = (armed s)(t \<mapsto> a)"
  by (simp add: armed_def update_conv')

lemma remove_timer_sel [simp]: "tt_next_token (remove_timer slot s) = tt_next_token s"
  by (simp add: remove_timer_def split: option.split)

lemma timers_ok_remove:
  assumes "timers_ok s"
  shows "timers_ok (remove_timer slot s)"
proof -
  have "distinct (map fst (tt_timers (remove_timer slot s)))"
    using assms by (simp add: timers_ok_def remove_timer_def distinct_delete split: option.split)
  with assms show ?thesis by (auto simp: timers_ok_def split: option.splits if_splits)
qed

lemma timers_ok_bump:
  "timers_ok s \<Longrightarrow> checked_add (tt_next_token s) 1 = Some n \<Longrightarrow> timers_ok (s\<lparr>tt_next_token := n\<rparr>)"
  by (auto simp: timers_ok_def dest: next_token_bump)

lemma timers_ok_schedule:
  assumes "timers_ok s" "checked_add (tt_next_token s) 1 = Some n"
  shows "timers_ok (s\<lparr>tt_next_token := n, tt_timers := AList.update (tt_next_token s) a (tt_timers s)\<rparr>)"
proof -
  have "distinct (map fst (AList.update (tt_next_token s) a (tt_timers s)))"
    using assms by (simp add: timers_ok_def distinct_update)
  with assms next_token_bump [OF assms(2)] show ?thesis by (auto simp: timers_ok_def split: if_splits)
qed

lemma timers_ok_phase [simp]: "timers_ok (set_phase p s) = timers_ok s"
  by (simp add: timers_ok_def armed_def set_phase_def)

lemma set_phase_sel [simp]:
  "tt_timers (set_phase p s) = tt_timers s" "tt_next_token (set_phase p s) = tt_next_token s"
  "tt_generation (set_phase p s) = tt_generation s"
  by (simp_all add: set_phase_def)

section \<open>Children\<close>

lemma distinct_put_child:
  "distinct (map fst (el_children el)) \<Longrightarrow> distinct (map fst (el_children (put_child k c el)))"
  by (simp add: put_child_def distinct_update)

definition drop_child :: "u64 \<Rightarrow> ('h, 't) Eligible \<Rightarrow> ('h, 't) Eligible" where
  "drop_child k el = el\<lparr>el_children := AList.delete k (el_children el)\<rparr>"

lemma get_drop_child [simp]: "get_child j (drop_child k el) = (if j = k then None else get_child j el)"
  by (simp add: get_child_def drop_child_def delete_conv)

lemma distinct_drop_child:
  "distinct (map fst (el_children el)) \<Longrightarrow> distinct (map fst (el_children (drop_child k el)))"
  by (simp add: drop_child_def distinct_delete)

lemma drop_child_sel [simp]:
  "el_lease_stream (drop_child k el) = el_lease_stream el"
  "el_lease_frame_timer (drop_child k el) = el_lease_frame_timer el"
  "el_lease_tick_timer (drop_child k el) = el_lease_tick_timer el"
  by (simp_all add: drop_child_def)

text \<open>Two states that differ at most in session \<open>k\<close>.\<close>

fun session_of :: "TimerAction \<Rightarrow> u64 option" where
  "session_of (T_SessionPhase k) = Some k"
| "session_of (T_SessionIdle k) = Some k"
| "session_of (T_SessionFrame k) = Some k"
| "session_of _ = None"

definition others_alike :: "u64 \<Rightarrow> ('h, 't) TargetTransport \<Rightarrow> ('h, 't) TargetTransport \<Rightarrow> bool" where
  "others_alike k s s' \<longleftrightarrow> (\<exists>el el'. tt_phase s = P_Eligible el \<and> tt_phase s' = P_Eligible el' \<and>
     el\<lparr>el_children := []\<rparr> = el'\<lparr>el_children := []\<rparr> \<and>
     (\<forall>j. j \<noteq> k \<longrightarrow> get_child j el = get_child j el') \<and>
     (\<forall>t a. session_of a \<noteq> Some k \<longrightarrow>
        (armed s t = Some a \<longleftrightarrow> armed s' t = Some a)))"

section \<open>Changing one session\<close>

fun child_owns :: "('h, 't) Child \<Rightarrow> u64 \<Rightarrow> TimerAction \<Rightarrow> bool" where
  "child_owns c t (T_SessionPhase _) = (ch_phase_timer c = Some t)"
| "child_owns c t (T_SessionIdle _) = (ch_phase_timer c = Some t)"
| "child_owns c t (T_SessionFrame _) = (ch_frame_timer c = Some t)"
| "child_owns c t _ = False"

lemma owned_session: "session_of a = Some k \<Longrightarrow> owned el t a \<longleftrightarrow> (\<exists>c. get_child k el = Some c \<and> child_owns c t a)"
  by (cases a) auto

lemma owned_other:
  assumes "session_of a \<noteq> Some k"
  shows "owned (put_child k c el) t a = owned el t a" "owned (drop_child k el) t a = owned el t a"
  using assms by (cases a; simp)+

lemma slot_armed_alike:
  assumes "slot_armed T slot A" "\<And>t a. a \<in> A \<Longrightarrow> T t = Some a \<Longrightarrow> T' t = Some a"
  shows "slot_armed T' slot A"
  using assms unfolding slot_armed_def by blast

definition alike_but :: "u64 \<Rightarrow> (u64 \<rightharpoonup> TimerAction) \<Rightarrow> (u64 \<rightharpoonup> TimerAction) \<Rightarrow> bool" where
  "alike_but k T T' \<longleftrightarrow> (\<forall>t a. session_of a \<noteq> Some k \<longrightarrow> (T t = Some a \<longleftrightarrow> T' t = Some a))"

lemma child_armed_alike: "child_armed T j c \<Longrightarrow> alike_but k T T' \<Longrightarrow> j \<noteq> k \<Longrightarrow> child_armed T' j c"
  unfolding child_armed_def alike_but_def by (auto intro: slot_armed_alike)

lemma lease_fields_alike:
  assumes "el\<lparr>el_children := []\<rparr> = el'\<lparr>el_children := []\<rparr>"
  shows "el_lease_stream el = el_lease_stream el'" "el_lease_frame_timer el = el_lease_frame_timer el'"
    "el_lease_tick_timer el = el_lease_tick_timer el'" "el_lease_ticks el = el_lease_ticks el'"
    "el_missed_ticks el = el_missed_ticks el'"
  using arg_cong [OF assms, of el_lease_stream] arg_cong [OF assms, of el_lease_frame_timer]
    arg_cong [OF assms, of el_lease_tick_timer] arg_cong [OF assms, of el_lease_ticks]
    arg_cong [OF assms, of el_missed_ticks] by simp_all

lemma lease_ok_alike:
  assumes ok: "lease_ok n T el" and T: "alike_but k T T'" and n: "exhausted n \<longrightarrow> exhausted n'"
    and el: "el\<lparr>el_children := []\<rparr> = el'\<lparr>el_children := []\<rparr>"
  shows "lease_ok n' T' el'"
proof -
  note eq = lease_fields_alike [OF el]
  have 1: "slot_armed T' (el_lease_frame_timer el) {T_LeaseFrame, T_BootstrapFrame}"
    using ok T unfolding lease_ok_def alike_but_def by (auto intro: slot_armed_alike)
  have 2: "T t = Some T_LeaseTick \<Longrightarrow> T' t = Some T_LeaseTick" for t
    using T by (simp add: alike_but_def)
  show ?thesis using ok 1 2 n unfolding lease_ok_def eq by blast
qed

text \<open>The two ways a session changes: it has a new state with its timers, or it is gone with them.\<close>

lemma eligible_put:
  assumes ok: "phase_ok n T (P_Eligible el)" and k: "k \<noteq> el_lease_stream el" and T: "alike_but k T T'"
    and n: "exhausted n \<longrightarrow> exhausted n'"
    and c: "child_armed T' k c" "waits_for_peer (ch_phase c) \<longrightarrow> ch_phase_timer c \<noteq> None \<or> exhausted n'"
    and own: "\<And>t a. session_of a = Some k \<Longrightarrow> T' t = Some a \<Longrightarrow> child_owns c t a"
  shows "phase_ok n' T' (P_Eligible (put_child k c el))"
proof -
  have "children_ok n' T' (put_child k c el)"
    using ok k T n c unfolding children_ok_def phase_ok.simps
    by (auto simp: distinct_put_child intro: child_armed_alike)
  moreover have "lease_ok n' T' (put_child k c el)"
    using ok by (auto intro!: lease_ok_alike [OF _ T n] simp: put_child_def)
  moreover have "owned (put_child k c el) t a" if "T' t = Some a" for t a
  proof (cases "session_of a = Some k")
    case True
    with own that show ?thesis by (simp add: owned_session)
  next
    case False
    with ok T that show ?thesis by (auto simp: owned_other alike_but_def)
  qed
  ultimately show ?thesis by simp
qed

lemma eligible_drop:
  assumes ok: "phase_ok n T (P_Eligible el)" and T: "alike_but k T T'"
    and own: "\<And>t a. session_of a = Some k \<Longrightarrow> T' t \<noteq> Some a"
  shows "phase_ok n T' (P_Eligible (drop_child k el))"
proof -
  have "children_ok n T' (drop_child k el)"
    using ok T unfolding children_ok_def phase_ok.simps
    by (auto simp: distinct_drop_child intro: child_armed_alike)
  moreover have "lease_ok n T' (drop_child k el)"
    using ok by (auto intro!: lease_ok_alike [OF _ T] simp: drop_child_def)
  moreover have "owned (drop_child k el) t a" if "T' t = Some a" for t a
    using ok T own [of a t] that by (cases "session_of a = Some k") (auto simp: owned_other alike_but_def)
  ultimately show ?thesis by simp
qed


section \<open>A judgement for session handlers\<close>

definition good :: "u64 \<Rightarrow> ('h, 't) TargetTransport \<Rightarrow> ('h, 't) TargetTransport \<Rightarrow> bool" where
  "good k s0 s \<longleftrightarrow> sup_inv s \<and> others_alike k s0 s"

text \<open>Within the handling of an event on session \<open>k\<close> that found \<open>s0\<close>: session \<open>k\<close> is \<open>c\<close> now, and, when
  \<open>w\<close>, it has a phase timer.\<close>

definition holds :: "bool \<Rightarrow> u64 \<Rightarrow> ('h, 't) Child \<Rightarrow> ('h, 't) TargetTransport \<Rightarrow> ('h, 't) TargetTransport \<Rightarrow> bool" where
  "holds w k c s0 s \<longleftrightarrow> good k s0 s \<and> (\<exists>el. tt_phase s = P_Eligible el \<and> get_child k el = Some c) \<and>
     (w \<longrightarrow> ch_phase_timer c \<noteq> None \<or> exhausted (tt_next_token s))"

definition isolates :: "bool \<Rightarrow> u64 \<Rightarrow> ('h, 't) Child \<Rightarrow> ('h, 't) TargetTransport \<Rightarrow> ('h, 't, 'a) sup \<Rightarrow> bool" where
  "isolates w k c s0 m \<longleftrightarrow> (\<forall>s. holds w k c s0 s \<longrightarrow> good k s0 (snd (m s)))"

named_theorems iso_rules \<open>introduction rules of the isolation judgement\<close>

lemma others_alike_step:
  assumes "others_alike k s0 s" "tt_phase s = P_Eligible el" "tt_phase s' = P_Eligible el'"
    "el\<lparr>el_children := []\<rparr> = el'\<lparr>el_children := []\<rparr>" "\<And>j. j \<noteq> k \<Longrightarrow> get_child j el = get_child j el'"
    "alike_but k (armed s) (armed s')"
  shows "others_alike k s0 s'"
proof -
  obtain el0 where "tt_phase s0 = P_Eligible el0" "el0\<lparr>el_children := []\<rparr> = el\<lparr>el_children := []\<rparr>"
    "\<forall>j. j \<noteq> k \<longrightarrow> get_child j el0 = get_child j el"
    "\<forall>t a. session_of a \<noteq> Some k \<longrightarrow> (armed s0 t = Some a \<longleftrightarrow> armed s t = Some a)"
    using assms(1,2) by (auto simp: others_alike_def)
  then show ?thesis
    using assms(3-6) unfolding others_alike_def alike_but_def by auto
qed

lemma put_child_fields: "el\<lparr>el_children := []\<rparr> = (put_child k c el)\<lparr>el_children := []\<rparr>"
  "el\<lparr>el_children := []\<rparr> = (drop_child k el)\<lparr>el_children := []\<rparr>"
  by (simp_all add: put_child_def drop_child_def)

text \<open>A new state of session \<open>k\<close> with its timers.\<close>

lemma holds_put:
  assumes h: "holds w k c s0 s" and p: "tt_phase s = P_Eligible el"
    and s': "timers_ok s'" "tt_phase s' = P_Eligible (put_child k c' el)"
    and T: "alike_but k (armed s) (armed s')"
    and n: "exhausted (tt_next_token s) \<longrightarrow> exhausted (tt_next_token s')"
    and c': "child_armed (armed s') k c'"
    and w: "waits_for_peer (ch_phase c') \<or> w' \<longrightarrow> ch_phase_timer c' \<noteq> None \<or> exhausted (tt_next_token s')"
    and own: "\<And>t a. session_of a = Some k \<Longrightarrow> armed s' t = Some a \<Longrightarrow> child_owns c' t a"
  shows "holds w' k c' s0 s'"
proof -
  have inv: "phase_ok (tt_next_token s) (armed s) (P_Eligible el)" "get_child k el = Some c" "others_alike k s0 s"
    using h p by (auto simp: holds_def good_def sup_inv_def)
  then have k: "k \<noteq> el_lease_stream el" by (auto simp: children_ok_def)
  have "phase_ok (tt_next_token s') (armed s') (P_Eligible (put_child k c' el))"
    using w by (intro eligible_put [OF inv(1) k T n c' _ own]) auto
  moreover have "others_alike k s0 s'"
    by (rule others_alike_step [OF inv(3) p s'(2) put_child_fields(1) _ T]) simp
  ultimately show ?thesis using s' w by (auto simp: holds_def good_def sup_inv_def)
qed

lemma holds_inv:
  assumes "holds w k c s0 s"
  obtains el where "tt_phase s = P_Eligible el" "get_child k el = Some c" "timers_ok s"
    "phase_ok (tt_next_token s) (armed s) (P_Eligible el)" "child_armed (armed s) k c"
    "\<And>t a. session_of a = Some k \<Longrightarrow> armed s t = Some a \<Longrightarrow> child_owns c t a"
    "w \<longrightarrow> ch_phase_timer c \<noteq> None \<or> exhausted (tt_next_token s)"
proof -
  obtain el where "tt_phase s = P_Eligible el" "get_child k el = Some c"
    using assms by (auto simp: holds_def)
  moreover from this assms have ok: "phase_ok (tt_next_token s) (armed s) (P_Eligible el)" "timers_ok s"
    by (auto simp: holds_def good_def sup_inv_def)
  moreover have "child_owns c t a" if "session_of a = Some k" "armed s t = Some a" for t a
    using ok(1) that \<open>get_child k el = Some c\<close> owned_session [OF that(1), of el t] by simp
  moreover have "child_armed (armed s) k c"
    using ok(1) \<open>get_child k el = Some c\<close> by (simp add: children_ok_def)
  ultimately show ?thesis using assms that by (simp add: holds_def)
qed

lemma alike_but_refl [simp]: "alike_but k T T"
  by (simp add: alike_but_def)

text \<open>The token counter moves on.\<close>

lemma holds_bump:
  assumes "holds w k c s0 s" "checked_add (tt_next_token s) 1 = Some n"
  shows "holds w k c s0 (s\<lparr>tt_next_token := n\<rparr>)"
proof -
  obtain el where el: "tt_phase s = P_Eligible el" "get_child k el = Some c" "timers_ok s"
    "phase_ok (tt_next_token s) (armed s) (P_Eligible el)"
    using holds_inv [OF assms(1)] by metis
  have fresh: "\<not> exhausted (tt_next_token s)" using next_token_bump [OF assms(2)] by simp
  with el have "phase_ok n (armed s) (P_Eligible el)"
    by (fastforce simp: children_ok_def lease_ok_def)
  moreover have "others_alike k s0 (s\<lparr>tt_next_token := n\<rparr>)"
    using assms(1) by (simp add: holds_def good_def others_alike_def)
  ultimately show ?thesis
    using assms el fresh timers_ok_bump by (auto simp: holds_def good_def sup_inv_def)
qed

lemma holds_good: "holds w k c s0 s \<Longrightarrow> good k s0 s"
  by (simp add: holds_def)

lemma holds_token_pos: "holds w k c s0 s \<Longrightarrow> tt_next_token s \<noteq> 0"
  by (auto simp: holds_def good_def sup_inv_def timers_ok_def)

lemma iso_ok [iso_rules]: "isolates w k c s0 (st_ok v)" "isolates w k c s0 (st_fail e)"
  by (auto simp: isolates_def st_simps holds_good)

lemma iso_alloc [iso_rules]:
  assumes "\<And>t. isolates w k c s0 (f t)"
  shows "isolates w k c s0 (st_bind allocate_token f)"
  using assms holds_bump holds_token_pos holds_good
  by (fastforce simp: isolates_def st_simps allocate_token_def Let_def split: option.splits)

lemma iso_upd [iso_rules]:
  assumes "isolates w k c' s0 (f ())" "ch_phase_timer c' = ch_phase_timer c" "ch_frame_timer c' = ch_frame_timer c"
    "waits_for_peer (ch_phase c') \<longrightarrow> w"
  shows "isolates w k c s0 (st_bind (upd_child k c') f)"
  unfolding isolates_def
proof (intro allI impI)
  fix s :: "('a, 'b) TargetTransport"
  assume h: "holds w k c s0 s"
  from holds_inv [OF h] obtain el where el: "tt_phase s = P_Eligible el" "timers_ok s" "child_armed (armed s) k c"
    "\<And>t a. session_of a = Some k \<Longrightarrow> armed s t = Some a \<Longrightarrow> child_owns c t a"
    "w \<longrightarrow> ch_phase_timer c \<noteq> None \<or> exhausted (tt_next_token s)" by metis
  have own: "child_owns c' t a" if "child_owns c t a" for t a
    using that assms(2,3) by (cases a) auto
  have "holds w k c' s0 (set_phase (P_Eligible (put_child k c' el)) s)"
    using el assms(2-4) by (intro holds_put [OF h el(1)]) (auto simp: child_armed_def own)
  with assms(1) el(1) show "good k s0 (snd (st_bind (upd_child k c') f s))"
    by (simp add: isolates_def upd_child_def on_eligible_def st_simps)
qed


text \<open>A slot of the session is filled with a fresh timer, or emptied with its timer.\<close>

lemma holds_schedule:
  assumes h: "holds w k c s0 s" and p: "tt_phase s = P_Eligible el"
    and n: "checked_add (tt_next_token s) 1 = Some n" and a: "session_of a = Some k"
    and c': "a = T_SessionFrame k \<and> ch_frame_timer c = None \<and> ch_frame_timer c' = Some (tt_next_token s) \<and>
        ch_phase_timer c' = ch_phase_timer c \<or>
      a \<noteq> T_SessionFrame k \<and> ch_phase_timer c = None \<and> ch_phase_timer c' = Some (tt_next_token s) \<and>
        ch_frame_timer c' = ch_frame_timer c"
    and w: "waits_for_peer (ch_phase c') \<or> w' \<longrightarrow> w \<or> ch_phase_timer c' \<noteq> None"
  shows "holds w' k c' s0 (set_phase (P_Eligible (put_child k c' el))
    (s\<lparr>tt_next_token := n, tt_timers := AList.update (tt_next_token s) a (tt_timers s)\<rparr>))"
proof -
  from holds_inv [OF h] obtain ok: "timers_ok s" "child_armed (armed s) k c"
    "\<And>t a. session_of a = Some k \<Longrightarrow> armed s t = Some a \<Longrightarrow> child_owns c t a"
    "w \<longrightarrow> ch_phase_timer c \<noteq> None \<or> exhausted (tt_next_token s)" by metis
  note fresh = fresh_token [OF ok(1)] next_token_bump [OF n]
  have T: "alike_but k (armed s) ((armed s)(tt_next_token s \<mapsto> a))"
    using fresh a by (auto simp: alike_but_def)
  have a': "a \<in> {T_SessionPhase k, T_SessionIdle k, T_SessionFrame k}" using a by (cases a) auto
  have armed: "child_armed ((armed s)(tt_next_token s \<mapsto> a)) k c'"
    using ok(2) c' a' fresh(1)
    by (cases "ch_phase_timer c"; cases "ch_frame_timer c") (auto simp: child_armed_def slot_armed_def)
  have own: "child_owns c' t b" if "session_of b = Some k" "((armed s)(tt_next_token s \<mapsto> a)) t = Some b" for t b
    using ok(3) [OF that(1), of t] that c' a' fresh(1) by (cases b) (auto split: if_splits)
  have w'': "waits_for_peer (ch_phase c') \<or> w' \<longrightarrow> ch_phase_timer c' \<noteq> None \<or> exhausted n"
    using w c' ok(4) fresh by auto
  show ?thesis
    by (rule holds_put [OF h p])
      (use T armed own w'' fresh in \<open>auto simp: timers_ok_schedule [OF ok(1) n] simp del: fun_upd_apply\<close>)
qed

lemma holds_unschedule:
  assumes h: "holds w k c s0 s" and p: "tt_phase s = P_Eligible el"
    and c': "slot = ch_frame_timer c \<and> ch_frame_timer c' = None \<and> ch_phase_timer c' = ch_phase_timer c \<or>
      slot = ch_phase_timer c \<and> ch_phase_timer c' = None \<and> ch_frame_timer c' = ch_frame_timer c"
    and w: "waits_for_peer (ch_phase c') \<or> w' \<longrightarrow> w \<and> ch_phase_timer c' = ch_phase_timer c \<or> exhausted (tt_next_token s)"
  shows "holds w' k c' s0 (set_phase (P_Eligible (put_child k c' el)) (remove_timer slot s))"
proof -
  from holds_inv [OF h] obtain ok: "timers_ok s" "child_armed (armed s) k c"
    "\<And>t a. session_of a = Some k \<Longrightarrow> armed s t = Some a \<Longrightarrow> child_owns c t a"
    "w \<longrightarrow> ch_phase_timer c \<noteq> None \<or> exhausted (tt_next_token s)" by metis
  let ?T = "armed (remove_timer slot s)"
  have slot: "\<exists>a. session_of a = Some k \<and> armed s t = Some a" if "slot = Some t" for t
    using that ok(2) c'
    by (cases "ch_phase_timer c"; cases "ch_frame_timer c") (auto simp: child_armed_def slot_armed_def)
  then have T: "alike_but k (armed s) ?T"
    by (fastforce simp: alike_but_def split: option.split)
  have armed: "child_armed ?T k c'"
    using ok(2) c' by (fastforce simp: child_armed_def slot_armed_def split: option.split)
  have own: "child_owns c' t b" if "session_of b = Some k" "?T t = Some b" for t b
    using ok(3) [OF that(1), of t] that c' by (cases b) (auto split: option.splits if_splits)
  have w'': "waits_for_peer (ch_phase c') \<or> w' \<longrightarrow> ch_phase_timer c' \<noteq> None \<or> exhausted (tt_next_token s)"
    using w ok(4) by auto
  show ?thesis
    by (rule holds_put [OF h p])
      (use T armed own w'' in \<open>auto simp: timers_ok_remove [OF ok(1)] simp del: armed_simps(1)\<close>)
qed


lemma iso_frame [iso_rules]:
  assumes "\<And>ft fd. isolates w k (c\<lparr>ch_frame_timer := ft\<rparr>) s0 (g (c\<lparr>ch_frame_timer := ft\<rparr>) fd)"
    and "slot = ch_frame_timer c" "waits_for_peer (ch_phase c) \<longrightarrow> w"
  shows "isolates w k c s0 (st_bind (update_frame_timer i slot (T_SessionFrame k)) (\<lambda>(ft, fd).
    let c' = c\<lparr>ch_frame_timer := ft\<rparr> in st_bind (upd_child k c') (\<lambda>_. g c' fd)))"
  unfolding isolates_def
proof (intro allI impI)
  fix s :: "('a, 'b) TargetTransport"
  assume h: "holds w k c s0 s"
  then obtain el where p: "tt_phase s = P_Eligible el" by (auto simp: holds_def)
  have pos: "tt_next_token s \<noteq> 0" by (rule holds_token_pos [OF h])
  have go: "good k s0 (snd (g (c\<lparr>ch_frame_timer := ft\<rparr>) fd s'))" if "holds w k (c\<lparr>ch_frame_timer := ft\<rparr>) s0 s'" for ft fd s'
    using assms(1) that by (simp add: isolates_def)
  have same: "holds w k (c\<lparr>ch_frame_timer := ch_frame_timer c\<rparr>) s0
      (set_phase (P_Eligible (put_child k (c\<lparr>ch_frame_timer := ch_frame_timer c\<rparr>) el)) s)"
    using holds_inv [OF h] assms(3) by (intro holds_put [OF h p]) (auto simp: p)
  show "good k s0 (snd (st_bind (update_frame_timer i slot (T_SessionFrame k)) (\<lambda>(ft, fd).
    let c' = c\<lparr>ch_frame_timer := ft\<rparr> in st_bind (upd_child k c') (\<lambda>_. g c' fd)) s))"
    using p pos go [OF same] assms(2,3) holds_good [OF h]
    by (auto simp: update_frame_timer_def schedule_timer_def allocate_token_def upd_child_def on_eligible_def
        st_simps Let_def split: option.split
        intro!: go holds_schedule [OF h p] holds_unschedule [OF h p])
qed

lemma iso_replace [iso_rules]:
  assumes "\<And>t. isolates w k (c\<lparr>ch_phase_timer := Some t\<rparr>) s0 (f t)" "session_of a = Some k" "a \<noteq> T_SessionFrame k"
    "\<not> waits_for_peer (ch_phase c) \<and> \<not> w"
  shows "isolates w k c s0 (st_bind (on_eligible (replace_child_timer k a)) f)"
  unfolding isolates_def
proof (intro allI impI)
  fix s :: "('a, 'b) TargetTransport"
  assume h: "holds w k c s0 s"
  then obtain el where p: "tt_phase s = P_Eligible el" "get_child k el = Some c" by (auto simp: holds_def)
  let ?c = "c\<lparr>ch_phase_timer := None\<rparr>"
  let ?s = "set_phase (P_Eligible (put_child k ?c el)) (remove_timer (ch_phase_timer c) s)"
  have h1: "holds w k ?c s0 ?s"
    using assms(4) by (intro holds_unschedule [OF h p(1)]) auto
  have "good k s0 (snd (f t s'))" if "holds w k (?c\<lparr>ch_phase_timer := Some t\<rparr>) s0 s'" for t s'
    using assms(1) that by (simp add: isolates_def)
  moreover have "holds w k (?c\<lparr>ch_phase_timer := Some (tt_next_token ?s)\<rparr>) s0
      (set_phase (P_Eligible (put_child k (?c\<lparr>ch_phase_timer := Some (tt_next_token ?s)\<rparr>) (put_child k ?c el)))
        (?s\<lparr>tt_next_token := n, tt_timers := AList.update (tt_next_token ?s) a (tt_timers ?s)\<rparr>))"
    if "checked_add (tt_next_token ?s) 1 = Some n" for n
    using assms(2-4) that by (intro holds_schedule [OF h1]) auto
  ultimately show "good k s0 (snd (st_bind (on_eligible (replace_child_timer k a)) f s))"
    using holds_good [OF h1] holds_token_pos [OF h] p
    by (auto simp: on_eligible_def replace_child_timer_def schedule_timer_def allocate_token_def st_snd_def st_simps
        Let_def set_phase_def split: option.split)
qed

lemma iso_drop_timer [iso_rules]:
  assumes "isolates w k c' s0 (f ())" "slot = ch_phase_timer c" "ch_phase_timer c' = None"
    "ch_frame_timer c' = ch_frame_timer c" "\<not> waits_for_peer (ch_phase c') \<and> \<not> w"
  shows "isolates w k c s0 (st_bind (upd_child k c') (\<lambda>_. st_bind (st_upd (remove_timer slot)) f))"
  unfolding isolates_def
proof (intro allI impI)
  fix s :: "('a, 'b) TargetTransport"
  assume h: "holds w k c s0 s"
  then obtain el where p: "tt_phase s = P_Eligible el" "get_child k el = Some c" by (auto simp: holds_def)
  have "holds w k c' s0 (set_phase (P_Eligible (put_child k c' el)) (remove_timer slot s))"
    using assms(2-5) by (intro holds_unschedule [OF h p(1)]) auto
  moreover have "set_phase q (remove_timer slot s) = remove_timer slot (set_phase q s)" for q
    by (simp add: set_phase_def remove_timer_def split: option.split)
  ultimately show "good k s0 (snd (st_bind (upd_child k c') (\<lambda>_. st_bind (st_upd (remove_timer slot)) f) s))"
    using assms(1) p by (simp add: isolates_def upd_child_def on_eligible_def st_simps)
qed


lemma iso_weaken: "isolates False k c s0 m \<Longrightarrow> isolates w k c s0 m"
  by (auto simp: isolates_def holds_def)

lemma good_child_terminal:
  assumes h: "holds w k c s0 s"
  shows "good k s0 (snd (child_terminal k r peer s))"
proof -
  from holds_inv [OF h] obtain el where el: "tt_phase s = P_Eligible el" "get_child k el = Some c" "timers_ok s"
    "phase_ok (tt_next_token s) (armed s) (P_Eligible el)" "child_armed (armed s) k c"
    "\<And>t a. session_of a = Some k \<Longrightarrow> armed s t = Some a \<Longrightarrow> child_owns c t a" by metis
  let ?s = "remove_timer (ch_frame_timer c) (remove_timer (ch_phase_timer c) s)"
  have slots: "\<exists>a. session_of a = Some k \<and> armed s t = Some a"
    if "ch_frame_timer c = Some t \<or> ch_phase_timer c = Some t" for t
    using that el(5) by (auto simp: child_armed_def slot_armed_def)
  have T: "alike_but k (armed s) (armed ?s)"
    using slots by (fastforce simp: alike_but_def split: option.split)
  have gone: "armed ?s t \<noteq> Some a" if "session_of a = Some k" for t a
    using el(6) [OF that, of t] that by (cases a) (auto split: option.splits)
  have "phase_ok (tt_next_token s) (armed ?s) (P_Eligible (drop_child k el))"
    by (rule eligible_drop [OF el(4) T]) (rule gone)
  moreover have "others_alike k s0 (set_phase (P_Eligible (drop_child k el)) ?s)"
  proof (rule others_alike_step [OF _ el(1) _ put_child_fields(2)])
    show "others_alike k s0 s" using h by (simp add: holds_def good_def)
  qed (use T in \<open>auto simp del: armed_simps(1)\<close>)
  moreover have "snd (child_terminal k r peer s) = set_phase (P_Eligible (drop_child k el)) ?s"
    using el by (simp add: child_terminal_def drop_child_def set_phase_def remove_timer_def split: option.split)
  ultimately show ?thesis
    using el(3) by (simp add: good_def sup_inv_def timers_ok_remove)
qed

lemma good_child_core_error:
  assumes h: "holds w k c s0 s"
  shows "good k s0 (snd (child_core_error k e s))"
proof (cases "err_close_frame e")
  case None
  with h show ?thesis by (simp add: child_core_error_def Error_take_close_frame_def good_child_terminal)
next
  case (Some frame)
  obtain el where p: "tt_phase s = P_Eligible el" "get_child k el = Some c" using h by (auto simp: holds_def)
  show ?thesis
  proof (cases "checked_add (tt_next_token s) 1")
    case None
    with Some h p show ?thesis
      by (simp add: child_core_error_def Error_take_close_frame_def allocate_token_def Let_def good_child_terminal)
  next
    case (Some n)
    let ?s = "s\<lparr>tt_next_token := n\<rparr>"
    have h1: "holds w k c s0 ?s" by (rule holds_bump [OF h Some])
    have "good k s0 (set_phase (P_Eligible (put_child k (c\<lparr>ch_phase := C_TerminalPending t x\<rparr>) el)) ?s)" for t x
      using iso_upd [of False k "c\<lparr>ch_phase := C_TerminalPending t x\<rparr>" s0 "\<lambda>_. st_ok ()" c] h1 p
      by (auto simp: isolates_def iso_ok st_simps upd_child_def on_eligible_def holds_def)
    with \<open>err_close_frame e = Some frame\<close> Some p holds_token_pos [OF h] show ?thesis
      by (simp add: child_core_error_def Error_take_close_frame_def allocate_token_def Let_def)
  qed
qed

lemma iso_ends [iso_rules]:
  "isolates w k c s0 (st_out (child_terminal k r peer))" "isolates w k c s0 (st_out (child_core_error k e))"
  using good_child_terminal good_child_core_error by (auto simp: isolates_def st_out_def Let_def split_beta)

lemma iso_cases [iso_rules]:
  "(c0 \<Longrightarrow> isolates w k c s0 a) \<Longrightarrow> (\<not> c0 \<Longrightarrow> isolates w k c s0 b) \<Longrightarrow> isolates w k c s0 (if c0 then a else b)"
  "(\<And>y z. x2 = (y, z) \<Longrightarrow> isolates w k c s0 (f2 y z)) \<Longrightarrow> isolates w k c s0 (case x2 of (y, z) \<Rightarrow> f2 y z)"
  "(\<And>e. x3 = Inl e \<Longrightarrow> isolates w k c s0 (f3 e)) \<Longrightarrow> (\<And>v. x3 = Inr v \<Longrightarrow> isolates w k c s0 (g3 v)) \<Longrightarrow>
     isolates w k c s0 (case x3 of Inl e \<Rightarrow> f3 e | Inr v \<Rightarrow> g3 v)"
  "(x4 = None \<Longrightarrow> isolates w k c s0 a) \<Longrightarrow> (\<And>v. x4 = Some v \<Longrightarrow> isolates w k c s0 (g4 v)) \<Longrightarrow>
     isolates w k c s0 (case x4 of None \<Rightarrow> a | Some v \<Rightarrow> g4 v)"
  "(x5 = [] \<Longrightarrow> isolates w k c s0 a) \<Longrightarrow> (\<And>y z. x5 = y # z \<Longrightarrow> isolates w k c s0 (f5 y z)) \<Longrightarrow>
     isolates w k c s0 (case x5 of [] \<Rightarrow> a | y # z \<Rightarrow> f5 y z)"
  "isolates w k c s0 (f6 x6) \<Longrightarrow> isolates w k c s0 (let y = x6 in f6 y)"
  "(\<And>e. isolates w k c s0 (f7 e)) \<Longrightarrow> isolates w k c s0 b \<Longrightarrow>
     isolates w k c s0 (case x7 of CoreError e \<Rightarrow> f7 e | SecondApplication \<Rightarrow> b)"
  by (simp_all split: prod.split sum.split option.split list.split app_stop.split)

lemma session_deliver_iso [iso_rules]: "isolates True k c s0 (session_deliver k fd c session app)"
proof (cases app)
  case None
  then show ?thesis unfolding session_deliver_def by simp (intro iso_rules; simp)
next
  case (Some bytes)
  then show ?thesis unfolding session_deliver_def
    by simp (rule iso_weaken, intro iso_rules; simp)
qed

lemma session_await_application_iso [iso_rules]:
  "isolates True k c s0 (session_await_application N C k fs fd c session)"
  unfolding session_await_application_def by (intro iso_rules; simp)

lemma session_await_m2_iso [iso_rules]: "isolates True k c s0 (session_await_m2 N C k fs fd c session)"
  unfolding session_await_m2_def by (intro iso_rules; simp)

lemma session_await_finished_iso [iso_rules]: "isolates True k c s0 (session_await_finished N C k fs fd c session)"
  unfolding session_await_finished_def by (intro iso_rules; simp)


section \<open>Every session event is isolated\<close>

lemma iso_ChildPhase [iso_rules]:
  assumes "\<And>s t. x = C_M1Pending s t \<Longrightarrow> isolates w k c s0 (f1 s t)"
    "\<And>s. x = C_AwaitM2 s \<Longrightarrow> isolates w k c s0 (f2 s)"
    "\<And>s t. x = C_FinishedPending s t \<Longrightarrow> isolates w k c s0 (f3 s t)"
    "\<And>s. x = C_AwaitFinished s \<Longrightarrow> isolates w k c s0 (f4 s)"
    "\<And>s. x = C_AwaitApplication s \<Longrightarrow> isolates w k c s0 (f5 s)"
    "\<And>s. x = C_AwaitRuntime s \<Longrightarrow> isolates w k c s0 (f6 s)"
    "\<And>s t. x = C_ResponsePending s t \<Longrightarrow> isolates w k c s0 (f7 s t)"
    "\<And>t r. x = C_TerminalPending t r \<Longrightarrow> isolates w k c s0 (f8 t r)" "x = C_Terminal \<Longrightarrow> isolates w k c s0 f9"
  shows "isolates w k c s0 (case x of C_M1Pending s t \<Rightarrow> f1 s t | C_AwaitM2 s \<Rightarrow> f2 s | C_FinishedPending s t \<Rightarrow> f3 s t
    | C_AwaitFinished s \<Rightarrow> f4 s | C_AwaitApplication s \<Rightarrow> f5 s | C_AwaitRuntime s \<Rightarrow> f6 s
    | C_ResponsePending s t \<Rightarrow> f7 s t | C_TerminalPending t r \<Rightarrow> f8 t r | C_Terminal \<Rightarrow> f9)"
  using assms by (simp split: ChildPhase.split)

lemma holds_start:
  assumes "sup_inv s" "tt_phase s = P_Eligible el" "get_child k el = Some c" "w \<longrightarrow> waits_for_peer (ch_phase c)"
  shows "holds w k c s s"
  using assms by (auto simp: holds_def good_def others_alike_def sup_inv_def children_ok_def)

lemma isolates_start:
  assumes "sup_inv s" "tt_phase s = P_Eligible el" "get_child k el = Some c"
    "isolates (waits_for_peer (ch_phase c)) k c s m"
  shows "good k s (snd (m s))"
  using assms holds_start [OF assms(1-3)] by (auto simp: isolates_def)

lemma good_self: "sup_inv s \<Longrightarrow> tt_phase s = P_Eligible el \<Longrightarrow> good k s s"
  by (simp add: good_def others_alike_def)

text \<open>The opening of the handlers: the session is looked up and found as it is.\<close>

lemma iso_get [iso_rules]:
  "isolates w k c s0 (F c) \<Longrightarrow> isolates w k c s0 (st_with (\<lambda>s. case tt_phase s of
     P_Eligible el \<Rightarrow> (case get_child k el of None \<Rightarrow> st_fail WrongPhase | Some child \<Rightarrow> F child)
   | _ \<Rightarrow> st_fail WrongPhase))"
  by (auto simp: isolates_def holds_def st_simps)

lemma runtime_response_good:
  assumes "sup_inv s" "tt_phase s = P_Eligible el"
  shows "good (ev_stream_id ev) s (snd (runtime_response N C ev s))"
proof (cases "get_child (ev_stream_id ev) el")
  case None
  with assms good_self show ?thesis by (auto simp: runtime_response_def st_simps)
next
  case (Some c)
  show ?thesis
    unfolding runtime_response_def by (rule isolates_start [OF assms Some]) (intro iso_rules; simp)
qed

lemma session_bytes_good:
  assumes "sup_inv s" "tt_phase s = P_Eligible el"
  shows "good (ev_stream_id ev) s (snd (session_bytes N C ev s))"
proof (cases "get_child (ev_stream_id ev) el")
  case None
  with assms good_self show ?thesis by (auto simp: session_bytes_def st_simps)
next
  case (Some c)
  show ?thesis
    unfolding session_bytes_def
    by (rule isolates_start [OF assms Some], cases "waits_for_peer (ch_phase c)"; simp only:; intro iso_rules; simp)
qed

lemma child_timeout_good:
  assumes "sup_inv s" "tt_phase s = P_Eligible el"
  shows "good k s (snd (child_timeout k reason s))"
proof (cases "get_child k el")
  case None
  with assms good_self show ?thesis by (auto simp: child_timeout_def st_simps)
next
  case (Some c)
  with good_child_terminal [OF holds_start [OF assms Some, of False]] assms(2) show ?thesis
    by (simp add: child_timeout_def st_simps st_out_def split_beta Let_def)
qed

text \<open>The end of a session's stream.\<close>

lemma map_session_waits: "map_session m p = (r, p') \<Longrightarrow> waits_for_peer p' = waits_for_peer p"
  by (cases p) (auto simp: map_session_def map_prod_def split: prod.splits)

lemma Child_eof_error_keeps:
  assumes "Child_eof_error c = (x, c')"
  shows "ch_phase_timer c' = ch_phase_timer c" "ch_frame_timer c' = ch_frame_timer c"
    "waits_for_peer (ch_phase c') = waits_for_peer (ch_phase c)" "ch_applications c' = ch_applications c"
  using assms
  by (auto simp: Child_eof_error_def Let_def dest: map_session_waits
      split: prod.splits sum.splits option.splits if_splits)

lemma stream_end_good:
  assumes "holds w k c s0 s" "ev_stream_id ev = k"
  shows "good k s0 (snd (stream_end ev reason s))"
proof -
  obtain el where "tt_phase s = P_Eligible el" "get_child k el = Some c" "k \<noteq> el_lease_stream el"
    using holds_inv [OF assms(1)] by (metis children_ok_def option.distinct(1) phase_ok.simps(5))
  with good_child_terminal [OF assms(1)] assms(2) show ?thesis
    by (simp add: stream_end_def st_simps st_out_def split_beta Let_def)
qed

lemma stream_closed_good:
  assumes "sup_inv s" "tt_phase s = P_Eligible el" "ev_stream_id ev \<noteq> el_lease_stream el"
  shows "good (ev_stream_id ev) s (snd (stream_closed ev s))"
proof (cases "get_child (ev_stream_id ev) el")
  case None
  with assms good_self [OF assms(1,2)] show ?thesis
    by (auto simp: stream_closed_def stream_eof_def stream_end_def st_simps Let_def)
next
  case (Some c)
  let ?k = "ev_stream_id ev"
  obtain x c' where eof: "Child_eof_error c = (x, c')" by fastforce
  have h0: "holds False ?k c s s" by (rule holds_start [OF assms(1,2) Some]) simp
  have h1: "holds (waits_for_peer (ch_phase c)) ?k c' s (set_phase (P_Eligible (put_child ?k c' el)) s)" (is "holds _ _ _ _ ?s1")
  proof (rule holds_put [OF h0 assms(2)])
    have h: "holds (waits_for_peer (ch_phase c)) ?k c s s" by (rule holds_start [OF assms(1,2) Some]) simp
    note inv = holds_inv [OF h]
    note keeps = Child_eof_error_keeps [OF eof]
    show "child_armed (armed ?s1) ?k c'" using inv keeps by (auto simp: child_armed_def)
    show "child_owns c' t a" if "session_of a = Some ?k" "armed ?s1 t = Some a" for t a
    proof -
      have "child_owns c t a" using inv that by (metis armed_simps(2))
      with keeps show ?thesis by (cases a) auto
    qed
    show "waits_for_peer (ch_phase c') \<or> waits_for_peer (ch_phase c) \<longrightarrow>
      ch_phase_timer c' \<noteq> None \<or> exhausted (tt_next_token ?s1)"
      using inv keeps by (metis set_phase_sel(2))
  qed (use assms in \<open>auto simp: sup_inv_def\<close>)
  note ends = stream_end_good [OF h1] good_child_core_error [OF h1] stream_end_good [OF h0]
  show ?thesis
    using assms Some ends eof good_self [OF assms(1,2)]
    by (cases x) (auto simp: stream_closed_def stream_eof_def st_simps st_out_def upd_child_def on_eligible_def Let_def split_beta)
qed

text \<open>A session timer: it is taken out before the session ends, which would take it out as well.\<close>

lemma child_terminal_fired:
  assumes "tt_phase s = P_Eligible el" "get_child k el = Some c"
    "ch_phase_timer c = Some t \<or> ch_frame_timer c = Some t"
  shows "child_terminal k r peer (remove_timer (Some t) s) = child_terminal k r peer s"
proof -
  have "remove_timer (ch_frame_timer c) (remove_timer (ch_phase_timer c) (set_phase p (remove_timer (Some t) s))) =
    remove_timer (ch_frame_timer c) (remove_timer (ch_phase_timer c) (set_phase p s))" for p
    using assms(3) by (auto simp: remove_timer_def set_phase_def delete_twist delete_idem split: option.split)
  with assms show ?thesis by (simp add: child_terminal_def)
qed

lemma child_timer_good:
  assumes inv: "sup_inv s" "tt_phase s = P_Eligible el" and t: "armed s t = Some a" "session_of a = Some k"
  shows "good k s (snd (child_timeout k reason (remove_timer (Some t) s)))"
proof -
  obtain c where c: "get_child k el = Some c" "child_owns c t a"
    using assms owned_session [OF t(2), of el t] by (auto simp: sup_inv_def)
  then have "ch_phase_timer c = Some t \<or> ch_frame_timer c = Some t" by (cases a) auto
  with child_terminal_fired [OF inv(2) c(1) this] good_child_terminal [OF holds_start [OF inv c(1), of False]] inv(2) c(1)
  show ?thesis by (simp add: child_timeout_def st_simps st_out_def split_beta Let_def)
qed


text \<open>A committed write on a session's stream.\<close>

lemma set_phase_simps [simp]:
  "set_phase p (set_phase q s) = set_phase p s"
  "remove_timer slot (set_phase p s) = set_phase p (remove_timer slot s)"
  "(set_phase p s)\<lparr>tt_next_token := n\<rparr> = set_phase p (s\<lparr>tt_next_token := n\<rparr>)"
  "(set_phase p s)\<lparr>tt_timers := T\<rparr> = set_phase p (s\<lparr>tt_timers := T\<rparr>)"
  by (simp_all add: set_phase_def remove_timer_def split: option.split)

lemma set_phase_self: "tt_phase s = p \<Longrightarrow> set_phase p s = s"
  by (cases s) (simp add: set_phase_def)

lemma child_terminal_dead: "child_terminal k r peer (set_phase (P_Terminal t) s) =
    (Outcome_terminal K_SessionTerminal k r NotHandedOff peer, set_phase (P_Terminal t) s)"
  by (simp add: child_terminal_def)

lemma commit_phase_good:
  assumes inv: "sup_inv s" "tt_phase s = P_Eligible el" and c: "get_child k el = Some c"
    and w: "waits_for_peer p \<longrightarrow> waits_for_peer (ch_phase c)"
  shows "good k s (set_phase (P_Eligible (put_child k (c\<lparr>ch_phase := p\<rparr>) el)) s)"
proof -
  have "isolates (waits_for_peer (ch_phase c)) k c s (st_bind (upd_child k (c\<lparr>ch_phase := p\<rparr>)) (\<lambda>_. st_ok ()))"
    using w by (intro iso_rules) simp_all
  from isolates_start [OF inv c this] inv(2) show ?thesis
    by (simp add: upd_child_def on_eligible_def st_simps)
qed

lemma commit_response_good:
  assumes inv: "sup_inv s" "tt_phase s = P_Eligible el" and c: "get_child k el = Some c"
    and reset: "reset_child_phase_timer k d
      (put_child k (c\<lparr>ch_phase := C_AwaitApplication session\<rparr>) el, set_phase q s) = (r, el', s')"
  shows "good k s (set_phase (P_Eligible el') s')"
proof -
  let ?a = "T_SessionIdle k" and ?c1 = "c\<lparr>ch_phase := C_AwaitApplication session\<rparr>"
  have h: "holds False k c s s" by (rule holds_start [OF inv c]) simp
  have h2: "holds False k (c\<lparr>ch_phase_timer := None, ch_phase := C_Terminal\<rparr>) s
      (set_phase (P_Eligible (put_child k (c\<lparr>ch_phase_timer := None, ch_phase := C_Terminal\<rparr>) el)) (remove_timer (ch_phase_timer c) s))"
    by (rule holds_unschedule [OF h inv(2)]) auto
  show ?thesis
  proof (cases "checked_add (tt_next_token s) 1")
    case None
    have "holds False k (?c1\<lparr>ch_phase_timer := None\<rparr>) s
        (set_phase (P_Eligible (put_child k (?c1\<lparr>ch_phase_timer := None\<rparr>) el)) (remove_timer (ch_phase_timer c) s))"
      using None by (intro holds_unschedule [OF h inv(2)]) (auto simp: exhausted_def)
    with reset None show ?thesis
      by (auto simp: reset_child_phase_timer_def replace_child_timer_def schedule_timer_def allocate_token_def
          st_snd_def st_simps Let_def dest: holds_good)
  next
    case (Some n)
    have "holds False k (?c1\<lparr>ch_phase_timer := Some (tt_next_token s)\<rparr>) s
        (set_phase (P_Eligible (put_child k (?c1\<lparr>ch_phase_timer := Some (tt_next_token s)\<rparr>) el))
          ((remove_timer (ch_phase_timer c) s)\<lparr>tt_next_token := n,
            tt_timers := AList.update (tt_next_token s) ?a (tt_timers (remove_timer (ch_phase_timer c) s))\<rparr>))"
      using holds_schedule [OF h2, of _ n ?a "?c1\<lparr>ch_phase_timer := Some (tt_next_token s)\<rparr>" False] Some by simp
    with reset Some holds_token_pos [OF h] show ?thesis
      by (auto simp: reset_child_phase_timer_def replace_child_timer_def schedule_timer_def allocate_token_def
          st_snd_def st_simps Let_def dest: holds_good)
  qed
qed

lemma commit_child_write_good:
  assumes inv: "sup_inv s" "tt_phase s = P_Eligible el"
    and commit: "commit_child_write k t (el, set_phase (P_Terminal x) s) = (r, el', s')"
  shows "good k s (set_phase (P_Eligible el') s')"
proof (cases "get_child k el")
  case None
  with commit inv good_self [OF inv] show ?thesis
    by (auto simp: commit_child_write_def st_simps set_phase_self)
next
  case (Some c)
  note put = commit_phase_good [OF inv Some]
  show ?thesis
  proof (cases "\<exists>session. ch_phase c = C_ResponsePending session t")
    case True
    with commit Some commit_response_good [OF inv Some] show ?thesis
      by (auto simp: commit_child_write_def st_simps Let_def)
  next
    case False
    with commit Some put [of "C_AwaitM2 _"] put [of "C_AwaitFinished _"] put [of C_Terminal] inv good_self [OF inv]
    show ?thesis
      by (cases "ch_phase c")
        (auto simp: commit_child_write_def st_simps Let_def set_phase_self st_snd_def st_out_def child_terminal_dead
          split: if_splits)
  qed
qed


text \<open>A new session.\<close>

lemma sup_inv_bump:
  assumes "sup_inv s" "checked_add (tt_next_token s) 1 = Some n"
  shows "sup_inv (s\<lparr>tt_next_token := n\<rparr>)"
proof -
  have "\<not> exhausted (tt_next_token s)" using next_token_bump [OF assms(2)] by simp
  then have "phase_ok n (armed s) (tt_phase s)"
    using assms(1) by (cases "tt_phase s") (fastforce simp: sup_inv_def children_ok_def lease_ok_def)+
  with assms timers_ok_bump show ?thesis by (auto simp: sup_inv_def)
qed

lemma good_bump:
  assumes "sup_inv s" "tt_phase s = P_Eligible el" "checked_add (tt_next_token s) 1 = Some n"
  shows "good k s (s\<lparr>tt_next_token := n\<rparr>)"
  using sup_inv_bump [OF assms(1,3)] assms(2) by (simp add: good_def others_alike_def)

lemma new_child_good:
  assumes inv: "sup_inv s" "tt_phase s = P_Eligible el" and k: "k \<noteq> el_lease_stream el" "get_child k el = None"
    and n: "checked_add (tt_next_token s) 1 = Some n"
    and c: "ch_phase_timer c = Some (tt_next_token s)" "ch_frame_timer c = None"
  shows "good k s (set_phase (P_Eligible (put_child k c el))
    (s\<lparr>tt_next_token := n, tt_timers := AList.update (tt_next_token s) (T_SessionPhase k) (tt_timers s)\<rparr>))"
proof -
  have ok: "timers_ok s" "phase_ok (tt_next_token s) (armed s) (P_Eligible el)"
    using inv by (auto simp: sup_inv_def)
  let ?T = "(armed s)(tt_next_token s \<mapsto> T_SessionPhase k)"
  note fresh = fresh_token [OF ok(1)] next_token_bump [OF n]
  have T: "alike_but k (armed s) ?T" using fresh by (auto simp: alike_but_def)
  have none: "armed s t \<noteq> Some a" if "session_of a = Some k" for t a
    using ok(2) k(2) owned_session [OF that, of el t] by auto
  have "phase_ok n ?T (P_Eligible (put_child k c el))"
  proof (rule eligible_put [OF ok(2) k(1) T])
    show "child_owns c t a" if "session_of a = Some k" "?T t = Some a" for t a
      using that none c by (auto split: if_splits)
  qed (use c fresh in \<open>auto simp: child_armed_def slot_armed_def\<close>)
  moreover have "others_alike k s (set_phase (P_Eligible (put_child k c el))
      (s\<lparr>tt_next_token := n, tt_timers := AList.update (tt_next_token s) (T_SessionPhase k) (tt_timers s)\<rparr>))"
    by (rule others_alike_step [OF _ inv(2) _ put_child_fields(1)])
      (use inv(2) T in \<open>auto simp: others_alike_def simp del: fun_upd_apply\<close>)
  ultimately show ?thesis
    using timers_ok_schedule [OF ok(1) n] by (simp add: good_def sup_inv_def)
qed

lemma session_accepted_good:
  assumes "sup_inv s" "tt_phase s = P_Eligible el" "ev_stream_id ev \<noteq> el_lease_stream el"
  shows "good (ev_stream_id ev) s (snd (session_accepted N C entropy ev s))"
proof -
  let ?k = "ev_stream_id ev"
  have pos: "tt_next_token s \<noteq> 0" using assms(1) by (auto simp: sup_inv_def timers_ok_def)
  note self = good_self [OF assms(1,2)]
  have step: "good ?k s (snd (st_bind allocate_token (\<lambda>token.
      st_bind (schedule_timer (T_SessionPhase ?k)) (\<lambda>timer.
      st_bind (upd_child ?k (new timer token)) (\<lambda>_. st_ok (out timer token)))) s))"
    if new: "get_child ?k el = None" "\<And>timer token. ch_phase_timer (new timer token) = Some timer \<and> ch_frame_timer (new timer token) = None"
    for new and out :: "u64 \<Rightarrow> u64 \<Rightarrow> Outcome"
  proof (cases "checked_add (tt_next_token s) 1")
    case None
    with self show ?thesis by (simp add: st_simps allocate_token_def)
  next
    case (Some n)
    let ?s = "s\<lparr>tt_next_token := n\<rparr>"
    have good1: "good ?k s ?s" by (rule good_bump [OF assms(1,2) Some])
    have inv1: "sup_inv ?s" "n \<noteq> 0" using good1 by (auto simp: good_def sup_inv_def timers_ok_def)
    show ?thesis
    proof (cases "checked_add n 1")
      case None
      with Some pos good1 inv1 show ?thesis by (simp add: st_simps allocate_token_def schedule_timer_def)
    next
      case (Some m)
      have "good ?k ?s (set_phase (P_Eligible (put_child ?k (new n (tt_next_token s)) el))
        (?s\<lparr>tt_next_token := m, tt_timers := AList.update n (T_SessionPhase ?k) (tt_timers ?s)\<rparr>))"
        using new_child_good [OF inv1(1), of el ?k m "new n (tt_next_token s)"] assms(2,3) Some new by simp
      then have "good ?k s (set_phase (P_Eligible (put_child ?k (new n (tt_next_token s)) el))
        (s\<lparr>tt_next_token := m, tt_timers := AList.update n (T_SessionPhase ?k) (tt_timers s)\<rparr>))"
        by (simp add: good_def others_alike_def)
      with \<open>checked_add (tt_next_token s) 1 = Some n\<close> Some pos inv1 assms(2) show ?thesis
        by (simp add: st_simps allocate_token_def schedule_timer_def upd_child_def on_eligible_def)
    qed
  qed
  show ?thesis
    using assms(2,3) self
    by (auto simp: session_accepted_def st_with_apply st_fail_apply split: sum.split prod.split intro!: step)
qed


section \<open>The bootstrap and the lease\<close>

definition inv_from :: "(('h, 't) TargetTransport \<Rightarrow> bool) \<Rightarrow> ('h, 't, 'a) sup \<Rightarrow> bool" where
  "inv_from P m \<longleftrightarrow> (\<forall>s. P s \<longrightarrow> sup_inv (snd (m s)))"

named_theorems inv_rules \<open>introduction rules of the invariant judgement\<close>

text \<open>The bootstrap's data is in local variables while a handler works on it, and the phase is terminal.\<close>

definition boot_at :: "u64 option \<Rightarrow> ('h, 't) TargetTransport \<Rightarrow> bool" where
  "boot_at ft s \<longleftrightarrow> timers_ok s \<and> boot_ok (armed s) ft \<and> (\<exists>t. tt_phase s = P_Terminal t)"

definition elig_at :: "('h, 't) Eligible \<Rightarrow> ('h, 't) TargetTransport \<Rightarrow> bool" where
  "elig_at el s \<longleftrightarrow> sup_inv s \<and> tt_phase s = P_Eligible el"

lemma at_inv: "boot_at ft s \<Longrightarrow> sup_inv s" "elig_at el s \<Longrightarrow> sup_inv s"
  "boot_at ft s \<Longrightarrow> timers_ok s" "elig_at el s \<Longrightarrow> timers_ok s"
  by (auto simp: boot_at_def elig_at_def sup_inv_def)

lemma lease_terminal_inv: "timers_ok s \<Longrightarrow> sup_inv (snd (lease_terminal r p s))"
  by (simp add: lease_terminal_def Let_def sup_inv_def timers_ok_def armed_def)

lemma inv_simple [inv_rules]:
  "inv_from (boot_at ft) (st_ok v)" "inv_from (elig_at el) (st_ok v)"
  "inv_from (boot_at ft) (st_fail e)" "inv_from (elig_at el) (st_fail e)"
  by (auto simp: inv_from_def st_simps at_inv)

lemma inv_ends [inv_rules]:
  "inv_from (boot_at ft) (st_out (lease_terminal r p))" "inv_from (elig_at el) (st_out (lease_terminal r p))"
  "inv_from (boot_at ft) (st_out (core_lease_error e))" "inv_from (elig_at el) (st_out (core_lease_error e))"
  by (auto simp: inv_from_def st_out_def split_beta Let_def core_lease_error_def lease_terminal_inv at_inv)

lemma at_bump:
  "boot_at ft s \<Longrightarrow> checked_add (tt_next_token s) 1 = Some n \<Longrightarrow> boot_at ft (s\<lparr>tt_next_token := n\<rparr>)"
  "elig_at el s \<Longrightarrow> checked_add (tt_next_token s) 1 = Some n \<Longrightarrow> elig_at el (s\<lparr>tt_next_token := n\<rparr>)"
  by (auto simp: boot_at_def elig_at_def timers_ok_bump sup_inv_bump)

lemma timers_ok_pos: "timers_ok s \<Longrightarrow> tt_next_token s \<noteq> 0"
  by (auto simp: timers_ok_def)

lemma inv_alloc [inv_rules]:
  "(\<And>t. inv_from (boot_at ft) (f t)) \<Longrightarrow> inv_from (boot_at ft) (st_bind allocate_token f)"
  "(\<And>t. inv_from (elig_at el) (f t)) \<Longrightarrow> inv_from (elig_at el) (st_bind allocate_token f)"
  using at_bump at_inv timers_ok_pos
  by (fastforce simp: inv_from_def st_simps allocate_token_def Let_def split: option.split)+

lemma inv_cases [inv_rules]:
  "(c \<Longrightarrow> inv_from P a) \<Longrightarrow> (\<not> c \<Longrightarrow> inv_from P b) \<Longrightarrow> inv_from P (if c then a else b)"
  "(\<And>y z. x2 = (y, z) \<Longrightarrow> inv_from P (f2 y z)) \<Longrightarrow> inv_from P (case x2 of (y, z) \<Rightarrow> f2 y z)"
  "(\<And>e. x3 = Inl e \<Longrightarrow> inv_from P (f3 e)) \<Longrightarrow> (\<And>v. x3 = Inr v \<Longrightarrow> inv_from P (g3 v)) \<Longrightarrow>
     inv_from P (case x3 of Inl e \<Rightarrow> f3 e | Inr v \<Rightarrow> g3 v)"
  "inv_from P (f6 x6) \<Longrightarrow> inv_from P (let y = x6 in f6 y)"
  by (simp_all split: prod.split sum.split)

text \<open>The bootstrap frame timer.\<close>

lemma boot_schedule:
  assumes "timers_ok s" "boot_ok (armed s) None"
  shows "boot_ok ((armed s)(tt_next_token s \<mapsto> T_BootstrapFrame)) (Some (tt_next_token s))"
proof -
  note fresh = fresh_token [OF assms(1)]
  obtain t where t: "armed s t = Some T_Bootstrap" using assms(2) by (auto simp: boot_ok_def)
  with fresh have "((armed s)(tt_next_token s \<mapsto> T_BootstrapFrame)) t = Some T_Bootstrap" by auto
  then have "\<exists>t. ((armed s)(tt_next_token s \<mapsto> T_BootstrapFrame)) t = Some T_Bootstrap" by blast
  with assms(2) fresh show ?thesis unfolding boot_ok_def by (auto simp: slot_armed_def simp del: ex_simps)
qed

lemma boot_unschedule:
  assumes "boot_ok T ft"
  shows "boot_ok (case ft of None \<Rightarrow> T | Some t \<Rightarrow> T(t := None)) None"
proof (cases ft)
  case (Some t)
  obtain b where "T b = Some T_Bootstrap" using assms by (auto simp: boot_ok_def)
  moreover have "T t = Some T_BootstrapFrame" using assms Some by (simp add: boot_ok_def slot_armed_def)
  ultimately have "(T(t := None)) b = Some T_Bootstrap" by auto
  then have "\<exists>b. (T(t := None)) b = Some T_Bootstrap" by blast
  moreover have "a = T_Bootstrap" if "(T(t := None)) b = Some a" for a b
    using assms that Some by (auto simp: boot_ok_def split: if_splits)
  ultimately show ?thesis using Some by (simp add: boot_ok_def slot_armed_def)
qed (use assms in simp)

lemma inv_boot_frame [inv_rules]:
  assumes "\<And>ft' fd. inv_from (boot_at ft') (f ft' fd)"
  shows "inv_from (boot_at ft) (st_bind (update_frame_timer i ft T_BootstrapFrame) (\<lambda>(ft, fd). f ft fd))"
  unfolding inv_from_def
proof (intro allI impI)
  fix s :: "('a, 'b) TargetTransport"
  assume at: "boot_at ft s"
  have go: "sup_inv (snd (f ft' fd s'))" if "boot_at ft' s'" for ft' fd s'
    using assms that by (simp add: inv_from_def)
  have un: "boot_at None (remove_timer ft s)"
    using at boot_unschedule [of "armed s" ft] by (auto simp: boot_at_def timers_ok_remove)
  have sched: "boot_at (Some (tt_next_token s))
      (s\<lparr>tt_next_token := n, tt_timers := AList.update (tt_next_token s) T_BootstrapFrame (tt_timers s)\<rparr>)"
    if "ft = None" "checked_add (tt_next_token s) 1 = Some n" for n
    using at that boot_schedule [of s] timers_ok_schedule [of s n]
    by (auto simp: boot_at_def simp del: fun_upd_apply)
  show "sup_inv (snd (st_bind (update_frame_timer i ft T_BootstrapFrame) (\<lambda>(ft, fd). f ft fd) s))"
    using at_inv(1) [OF at] timers_ok_pos [OF at_inv(3) [OF at]] go [OF at] go [OF un] go [OF sched]
    by (auto simp: update_frame_timer_def schedule_timer_def allocate_token_def st_simps Let_def split: option.split)
qed

lemma inv_boot_phase [inv_rules]:
  "inv_from (boot_at ft) (st_bind (st_upd (set_phase (P_BootstrapM2 a b d ft))) (\<lambda>_. st_ok v))"
  "inv_from (boot_at ft) (st_bind (st_upd (set_phase (P_BootstrapM1Pending a b t d ft))) (\<lambda>_. st_ok v))"
  "inv_from (boot_at ft) (st_bind (st_upd (set_phase (P_BootstrapAckPending a l q sb t d ft))) (\<lambda>_. st_ok v))"
  by (auto simp: inv_from_def st_simps boot_at_def sup_inv_def)

lemma inv_fromD: "inv_from P m \<Longrightarrow> P s \<Longrightarrow> sup_inv (snd (m s))"
  by (simp add: inv_from_def)

lemma inv_take:
  "inv_from P (f ()) \<Longrightarrow> P (set_phase q s) \<Longrightarrow> sup_inv (snd (st_bind (st_upd (set_phase q)) f s))"
  by (simp add: inv_from_def st_simps)

lemma bootstrap_bytes_inv: "sup_inv s \<Longrightarrow> sup_inv (snd (bootstrap_bytes N C ev s))"
proof (cases "tt_phase s")
  case (P_BootstrapM2 k b d ft)
  assume "sup_inv s"
  with P_BootstrapM2 have at: "boot_at ft (set_phase (P_Terminal Terminal_internal) s)"
    by (simp add: boot_at_def sup_inv_def)
  show ?thesis
    unfolding bootstrap_bytes_def st_with_apply P_BootstrapM2 Phase.case
    by (rule inv_take [where P = "boot_at ft", OF _ at]) (intro inv_rules)
qed (auto simp: bootstrap_bytes_def st_simps)

lemma bootstrap_connected_inv:
  assumes "sup_inv s"
  shows "sup_inv (snd (bootstrap_connected N C entropy ev s))"
proof (cases "tt_phase s")
  case (P_AwaitBootstrap b key)
  let ?s = "set_phase (P_Terminal Terminal_internal) s"
  have T: "timers_ok ?s" "armed ?s = Map.empty" using assms P_AwaitBootstrap by (simp_all add: sup_inv_def)
  have dead: "sup_inv ?s" using T by (simp add: sup_inv_def)
  have step: "sup_inv (snd (st_bind allocate_token (\<lambda>t. st_bind (schedule_timer T_Bootstrap) (\<lambda>timer.
      st_bind (st_upd (set_phase (P_BootstrapM1Pending k bs t d None))) (\<lambda>_. st_ok (out t timer)))) ?s))" for k bs d out
  proof (cases "checked_add (tt_next_token s) 1")
    case None
    with dead show ?thesis by (simp add: st_simps allocate_token_def)
  next
    case (Some n)
    let ?s1 = "?s\<lparr>tt_next_token := n\<rparr>"
    have inv1: "sup_inv ?s1" using sup_inv_bump [OF dead, of n] Some by simp
    then have n: "n \<noteq> 0" "timers_ok ?s1" by (auto simp: sup_inv_def timers_ok_def)
    show ?thesis
    proof (cases "checked_add n 1")
      case None
      with Some inv1 n timers_ok_pos [OF T(1)] show ?thesis by (simp add: st_simps allocate_token_def schedule_timer_def)
    next
      case (Some m)
      have "timers_ok (?s1\<lparr>tt_next_token := m, tt_timers := AList.update n T_Bootstrap (tt_timers ?s1)\<rparr>)"
        using timers_ok_schedule [OF n(2), of m T_Bootstrap] Some by simp
      moreover have "boot_ok [n \<mapsto> T_Bootstrap] None" by (auto simp: boot_ok_def slot_armed_def)
      ultimately show ?thesis
        using Some \<open>checked_add (tt_next_token s) 1 = Some n\<close> n timers_ok_pos [OF T(1)] T(2)
        by (simp add: st_simps allocate_token_def schedule_timer_def sup_inv_def)
    qed
  qed
  show ?thesis
    using P_AwaitBootstrap assms lease_terminal_inv [OF T(1)] step
    by (auto simp: bootstrap_connected_def st_with_apply st_fail_apply st_out_def core_lease_error_def split_beta Let_def
        st_bind_apply [of "st_upd _"] st_upd_apply split: sum.split prod.split)
qed (use assms in \<open>auto simp: bootstrap_connected_def st_simps\<close>)

text \<open>The lease: fields that the invariant reads stay, or a frame timer comes or goes.\<close>

definition same_slots :: "('h, 't) Eligible \<Rightarrow> ('h, 't) Eligible \<Rightarrow> bool" where
  "same_slots el el' \<longleftrightarrow> el_children el' = el_children el \<and> el_lease_stream el' = el_lease_stream el \<and>
     el_lease_frame_timer el' = el_lease_frame_timer el \<and> el_lease_tick_timer el' = el_lease_tick_timer el"

lemma owned_cong:
  assumes "el_children el' = el_children el"
    "session_of a = None \<longrightarrow> el_lease_frame_timer el' = el_lease_frame_timer el \<or> a = T_LeaseTick"
    "a = T_LeaseTick \<longrightarrow> el_lease_tick_timer el' = el_lease_tick_timer el"
  shows "owned el' t a = owned el t a"
  using assms by (cases a) (auto simp: get_child_def)

lemma elig_same:
  assumes "phase_ok n T (P_Eligible el)" "same_slots el el'" "el_lease_ticks el' < 30" "el_missed_ticks el' < 4"
  shows "phase_ok n T (P_Eligible el')"
proof -
  have "owned el' t a = owned el t a" for t a
    using assms(2) by (intro owned_cong) (auto simp: same_slots_def)
  with assms show ?thesis
    by (auto simp: same_slots_def children_ok_def lease_ok_def get_child_def)
qed

lemma children_ok_mono:
  assumes ok: "children_ok n T el" and el: "el_children el' = el_children el" "el_lease_stream el' = el_lease_stream el"
    and T: "\<And>t a. T t = Some a \<Longrightarrow> session_of a \<noteq> None \<Longrightarrow> T' t = Some a" and n: "exhausted n \<longrightarrow> exhausted n'"
  shows "children_ok n' T' el'"
proof -
  have get: "get_child k el' = get_child k el" for k using el by (simp add: get_child_def)
  have "child_armed T' k c" if "child_armed T k c" for k c
    using that T unfolding child_armed_def slot_armed_def
    by (metis empty_iff insert_iff option.distinct(1) session_of.simps(1-3))
  with ok n show ?thesis unfolding children_ok_def get el by blast
qed

lemma inv_elig_set [inv_rules]:
  assumes "inv_from (elig_at el') (f ())" "same_slots el el'" "el_lease_ticks el' = el_lease_ticks el"
    "el_missed_ticks el' = el_missed_ticks el \<or> el_missed_ticks el' = 0"
  shows "inv_from (elig_at el) (st_bind (st_upd (set_phase (P_Eligible el'))) f)"
  unfolding inv_from_def
proof (intro allI impI)
  fix s :: "('a, 'b) TargetTransport"
  assume at: "elig_at el s"
  then have "phase_ok (tt_next_token s) (armed s) (P_Eligible el)" by (auto simp: elig_at_def sup_inv_def)
  moreover from this have "el_lease_ticks el < 30" "el_missed_ticks el < 4" by (simp_all add: lease_ok_def)
  ultimately have "phase_ok (tt_next_token s) (armed s) (P_Eligible el')"
    using assms(2-4) by (auto intro: elig_same [of _ _ el] simp del: phase_ok.simps)
  with at have "elig_at el' (set_phase (P_Eligible el') s)" by (simp add: elig_at_def sup_inv_def)
  with assms(1) show "sup_inv (snd (st_bind (st_upd (set_phase (P_Eligible el'))) f s))"
    by (simp add: inv_from_def st_simps)
qed

lemma lease_frame_schedule:
  assumes "timers_ok s" "phase_ok (tt_next_token s) (armed s) (P_Eligible el)" "el_lease_frame_timer el = None"
    "checked_add (tt_next_token s) 1 = Some n"
  shows "phase_ok n ((armed s)(tt_next_token s \<mapsto> T_LeaseFrame))
    (P_Eligible (el\<lparr>el_lease_frame_timer := Some (tt_next_token s)\<rparr>))" (is "phase_ok n ?T (P_Eligible ?el)")
proof -
  note fresh = fresh_token [OF assms(1)] next_token_bump [OF assms(4)]
  have get: "get_child k ?el = get_child k el" for k by (simp add: get_child_def)
  have keep: "?T t = Some a" if "armed s t = Some a" for t a using fresh(1) that by auto
  have "children_ok n ?T ?el"
    by (rule children_ok_mono [of "tt_next_token s" "armed s" el]) (use assms(2) fresh in \<open>auto intro!: keep\<close>)
  moreover have "lease_ok n ?T ?el"
    using assms(2) fresh keep unfolding phase_ok.simps lease_ok_def by (auto simp: slot_armed_def)
  moreover have "owned ?el t a" if "?T t = Some a" for t a
  proof (cases "t = tt_next_token s")
    case False
    then have "owned el t a" using assms(2) that by simp
    with assms(3) show ?thesis by (cases a) (auto simp: get)
  qed (use that in auto)
  ultimately show ?thesis by simp
qed

lemma lease_frame_unschedule:
  assumes "phase_ok n T (P_Eligible el)"
  shows "phase_ok n (case el_lease_frame_timer el of None \<Rightarrow> T | Some t \<Rightarrow> T(t := None))
    (P_Eligible (el\<lparr>el_lease_frame_timer := None\<rparr>))" (is "phase_ok n ?T (P_Eligible ?el)")
proof -
  have get: "get_child k ?el = get_child k el" for k by (simp add: get_child_def)
  have frame: "T t = Some T_LeaseFrame \<or> T t = Some T_BootstrapFrame" if "el_lease_frame_timer el = Some t" for t
    using assms that by (auto simp: lease_ok_def slot_armed_def)
  have keep: "?T t = Some a" if "T t = Some a" "a \<notin> {T_LeaseFrame, T_BootstrapFrame}" for t a
    using frame that by (auto split: option.split)
  have "children_ok n ?T ?el"
    by (rule children_ok_mono [of n T el]) (use assms in \<open>auto intro!: keep\<close>)
  moreover have "lease_ok n ?T ?el"
    using assms keep unfolding phase_ok.simps lease_ok_def by (auto simp: slot_armed_def)
  moreover have "owned ?el t a" if "?T t = Some a" for t a
  proof -
    have T: "T t = Some a" "el_lease_frame_timer el \<noteq> Some t" using that by (auto split: option.splits if_splits)
    then have "owned el t a" using assms by simp
    with T show ?thesis by (cases a) (auto simp: get)
  qed
  ultimately show ?thesis by simp
qed

lemma inv_lease_frame [inv_rules]:
  assumes "\<And>ft fd. inv_from (elig_at (el\<lparr>el_lease_frame_timer := ft\<rparr>)) (g (el\<lparr>el_lease_frame_timer := ft\<rparr>) fd)"
    "slot = el_lease_frame_timer el"
  shows "inv_from (elig_at el) (st_bind (update_frame_timer i slot T_LeaseFrame) (\<lambda>(ft, fd).
    let el' = el\<lparr>el_lease_frame_timer := ft\<rparr> in st_bind (st_upd (set_phase (P_Eligible el'))) (\<lambda>_. g el' fd)))"
  unfolding inv_from_def
proof (intro allI impI)
  fix s :: "('a, 'b) TargetTransport"
  assume at: "elig_at el s"
  then have ok: "timers_ok s" "phase_ok (tt_next_token s) (armed s) (P_Eligible el)"
    by (auto simp: elig_at_def sup_inv_def)
  let ?put = "\<lambda>ft s. set_phase (P_Eligible (el\<lparr>el_lease_frame_timer := ft\<rparr>)) s"
  have go: "sup_inv (snd (g (el\<lparr>el_lease_frame_timer := ft\<rparr>) fd s'))"
    if "elig_at (el\<lparr>el_lease_frame_timer := ft\<rparr>) s'" for ft fd s'
    using assms(1) that by (simp add: inv_from_def)
  have same: "elig_at (el\<lparr>el_lease_frame_timer := slot\<rparr>) (?put slot s)"
    using at assms(2) by (auto simp: elig_at_def sup_inv_def)
  have un: "elig_at (el\<lparr>el_lease_frame_timer := None\<rparr>) (?put None (remove_timer slot s))"
    using lease_frame_unschedule [OF ok(2)] timers_ok_remove [OF ok(1)] assms(2) by (simp add: elig_at_def sup_inv_def)
  have sched: "elig_at (el\<lparr>el_lease_frame_timer := Some (tt_next_token s)\<rparr>) (?put (Some (tt_next_token s))
      (s\<lparr>tt_next_token := n, tt_timers := AList.update (tt_next_token s) T_LeaseFrame (tt_timers s)\<rparr>))"
    if "slot = None" "checked_add (tt_next_token s) 1 = Some n" for n
    using lease_frame_schedule [OF ok] timers_ok_schedule [OF ok(1) that(2)] that assms(2)
    by (simp add: elig_at_def sup_inv_def del: phase_ok.simps fun_upd_apply)
  show "sup_inv (snd (st_bind (update_frame_timer i slot T_LeaseFrame) (\<lambda>(ft, fd).
    let el' = el\<lparr>el_lease_frame_timer := ft\<rparr> in st_bind (st_upd (set_phase (P_Eligible el'))) (\<lambda>_. g el' fd)) s))"
    using at_inv(2) [OF at] timers_ok_pos [OF ok(1)] go [OF same] go [OF un] go [OF sched]
    by (auto simp: update_frame_timer_def schedule_timer_def allocate_token_def st_simps Let_def split: option.split)
qed

lemma lease_bytes_inv: "sup_inv s \<Longrightarrow> sup_inv (snd (lease_bytes N C ev s))"
proof (cases "tt_phase s")
  case (P_Eligible el)
  assume "sup_inv s"
  with P_Eligible have at: "elig_at el s" by (simp add: elig_at_def)
  show ?thesis
    unfolding lease_bytes_def st_with_apply P_Eligible Phase.case
    by (rule inv_fromD [where P = "elig_at el", OF _ at]) (intro inv_rules; simp add: same_slots_def)
qed (auto simp: lease_bytes_def st_simps)


text \<open>A tick: the fired timer is replaced by a fresh one, unless the lease ends.\<close>

lemma tick_unschedule:
  assumes ok: "phase_ok n T (P_Eligible el)" and t: "el_lease_tick_timer el = Some t" "T t = Some T_LeaseTick"
  shows "children_ok n (T(t := None)) el" "slot_armed (T(t := None)) (el_lease_frame_timer el) {T_LeaseFrame, T_BootstrapFrame}"
    "(T(t := None)) u = Some a \<Longrightarrow> owned el u a \<and> a \<noteq> T_LeaseTick"
proof -
  show "children_ok n (T(t := None)) el"
    by (rule children_ok_mono [of n T el]) (use ok t in auto)
  show "slot_armed (T(t := None)) (el_lease_frame_timer el) {T_LeaseFrame, T_BootstrapFrame}"
    using ok t(2) by (auto simp: lease_ok_def slot_armed_def)
  assume a: "(T(t := None)) u = Some a"
  then have "T u = Some a" "u \<noteq> t" by (auto split: if_splits)
  then have "owned el u a" using ok by simp
  with t(1) \<open>u \<noteq> t\<close> show "owned el u a \<and> a \<noteq> T_LeaseTick" by auto
qed

lemma lease_tick_inv:
  assumes inv: "sup_inv s" "tt_phase s = P_Eligible el" and t: "armed s t = Some T_LeaseTick"
  shows "sup_inv (snd (lease_tick t (remove_timer (Some t) s)))"
proof -
  let ?s = "remove_timer (Some t) s" and ?T = "(armed s)(t := None)"
  have ok: "timers_ok s" "phase_ok (tt_next_token s) (armed s) (P_Eligible el)" using inv by (auto simp: sup_inv_def)
  have "owned el t T_LeaseTick" using ok(2) t unfolding phase_ok.simps by blast
  then have tick: "el_lease_tick_timer el = Some t" by simp
  note un = tick_unschedule [OF ok(2) tick t]
  define el1 where "el1 = el\<lparr>el_lease_ticks := saturating_add8 (el_lease_ticks el) 1,
      el_missed_ticks := saturating_add8 (el_missed_ticks el) 1\<rparr>"
  have un1: "children_ok n' T' el1" if "children_ok n' T' el" for n' T'
    by (rule children_ok_mono [OF that]) (simp_all add: el1_def)
  have ok1: "timers_ok ?s" by (rule timers_ok_remove [OF ok(1)])
  show ?thesis
  proof (cases "el_lease_ticks el1 \<ge> 30 \<or> el_missed_ticks el1 \<ge> 4")
    case True
    then show ?thesis
      using inv(2) tick ok1
      by (auto simp: lease_terminal_inv lease_tick_def st_simps st_out_def split_beta Let_def el1_def [symmetric])
  next
    case False
    then have low: "el_lease_ticks el1 < 30" "el_missed_ticks el1 < 4" by auto
    show ?thesis
    proof (cases "checked_add (tt_next_token s) 1")
      case None
      then have "lease_ok (tt_next_token s) ?T el1"
        using un(2) low tick by (simp add: lease_ok_def el1_def exhausted_def)
      moreover have "owned el1 u a" if "?T u = Some a" for u a
      proof -
        have "owned el1 u a = owned el u a" by (rule owned_cong) (simp_all add: el1_def)
        with un(3) [OF that] show ?thesis by simp
      qed
      ultimately have "sup_inv (set_phase (P_Eligible el1) ?s)"
        using ok1 un1 [OF un(1)] by (simp add: sup_inv_def)
      with False None inv(2) tick show ?thesis
        by (simp add: lease_tick_def st_simps allocate_token_def schedule_timer_def Let_def el1_def [symmetric])
    next
      case (Some n)
      let ?n = "tt_next_token s" and ?el = "el1\<lparr>el_lease_tick_timer := Some (tt_next_token s)\<rparr>"
      let ?T2 = "?T(?n \<mapsto> T_LeaseTick)"
      have fresh: "?T ?n = None" using fresh_token [OF ok(1)] by simp
      have "children_ok n ?T2 ?el"
        by (rule children_ok_mono [OF un(1)]) (use fresh next_token_bump [OF Some] in \<open>auto simp: el1_def\<close>)
      moreover have "lease_ok n ?T2 ?el"
        using un(2) fresh low by (auto simp: lease_ok_def slot_armed_def el1_def)
      moreover have "owned ?el u a" if "?T2 u = Some a" for u a
      proof (cases "u = ?n")
        case True
        with that show ?thesis by simp
      next
        case False
        with that have a: "owned el u a" "a \<noteq> T_LeaseTick" using un(3) [of u a] by auto
        have "owned ?el u a = owned el u a" by (rule owned_cong) (use a(2) in \<open>simp_all add: el1_def\<close>)
        with a show ?thesis by simp
      qed
      ultimately have "sup_inv (set_phase (P_Eligible ?el)
          (?s\<lparr>tt_next_token := n, tt_timers := AList.update ?n T_LeaseTick (tt_timers ?s)\<rparr>))"
        using timers_ok_schedule [OF ok1, of n T_LeaseTick] Some by (simp add: sup_inv_def)
      with False Some inv(2) tick timers_ok_pos [OF ok(1)] show ?thesis
        by (simp add: lease_tick_def st_simps allocate_token_def schedule_timer_def Let_def el1_def [symmetric])
    qed
  qed
qed

lemma boot_ok_actions: "boot_ok T ft \<Longrightarrow> T t = Some a \<Longrightarrow> session_of a = None \<and> a \<noteq> T_LeaseTick"
  unfolding boot_ok_def by (metis TimerAction.distinct(3,13) session_of.simps(4,5))

lemma timer_fired_inv:
  assumes "sup_inv s"
  shows "sup_inv (snd (timer_fired ev s))"
proof (cases "armed s (ev_write_token ev)")
  case None
  with assms show ?thesis by (simp add: timer_fired_def st_simps armed_def)
next
  case (Some a)
  let ?s = "remove_timer (Some (ev_write_token ev)) s"
  have ok: "timers_ok s" "timers_ok ?s" using assms timers_ok_remove by (auto simp: sup_inv_def)
  have dead: "sup_inv (snd (lease_terminal r p ?s))" for r p by (rule lease_terminal_inv [OF ok(2)])
  have still: "sup_inv ?s" if "\<And>el. tt_phase s \<noteq> P_Eligible el" "session_of a \<noteq> None \<or> a = T_LeaseTick"
    using that assms ok(2) Some
    by (cases "tt_phase s") (auto simp: sup_inv_def dest: boot_ok_actions [where t = "ev_write_token ev"])
  have session: "sup_inv (snd (child_timeout k r ?s))" if "session_of a = Some k" for k r
    using child_timer_good [OF assms _ Some that, of _ r] still that
    by (cases "tt_phase s") (auto simp: good_def child_timeout_def st_simps)
  have tick: "sup_inv (snd (lease_tick (ev_write_token ev) ?s))" if "a = T_LeaseTick"
    using lease_tick_inv [OF assms] Some still that by (cases "tt_phase s") (auto simp: lease_tick_def st_simps)
  show ?thesis
    using assms Some dead session tick
    by (cases a) (simp_all add: timer_fired_def st_simps armed_def st_out_def split_beta Let_def)
qed


text \<open>The end of the bootstrap: the lease is eligible, with its tick as the only deadline of its own.\<close>

lemma armed_cancel: "timers_ok s \<Longrightarrow> armed (cancel_action P s) t = Some a \<longleftrightarrow> armed s t = Some a \<and> \<not> P a"
  by (auto simp: armed_def cancel_action_def timers_ok_def distinct_map_filter)

lemma timers_ok_cancel: "timers_ok s \<Longrightarrow> timers_ok (cancel_action P s)"
  using armed_cancel [of s P]
  by (auto simp: timers_ok_def cancel_action_def distinct_map_filter)

lemma eligible_start:
  assumes ok: "timers_ok s" "boot_ok (armed s) ft" and n: "checked_add (tt_next_token s) 1 = Some n"
    and el: "el_children el = []" "el_lease_frame_timer el = ft" "el_lease_tick_timer el = Some (tt_next_token s)"
      "el_lease_ticks el = 0" "el_missed_ticks el = 0"
  shows "phase_ok n ((armed (cancel_action (\<lambda>a. a = T_Bootstrap) s))(tt_next_token s \<mapsto> T_LeaseTick)) (P_Eligible el)"
    (is "phase_ok n (?T(_ \<mapsto> _)) _")
proof -
  have T: "?T t = Some a \<longleftrightarrow> a = T_BootstrapFrame \<and> armed s t = Some a" for t a
    using armed_cancel [OF ok(1), of "\<lambda>a. a = T_Bootstrap" t a] ok(2) by (auto simp: boot_ok_def)
  have fresh: "?T (tt_next_token s) = None"
    using T fresh_token [OF ok(1)] by (metis not_None_eq)
  have "children_ok n (?T(tt_next_token s \<mapsto> T_LeaseTick)) el"
    using el by (simp add: children_ok_def get_child_def)
  moreover have "lease_ok n (?T(tt_next_token s \<mapsto> T_LeaseTick)) el"
    using el ok(2) T fresh fresh_token [OF ok(1)] by (auto simp: lease_ok_def slot_armed_def boot_ok_def)
  moreover have "owned el t a" if "(?T(tt_next_token s \<mapsto> T_LeaseTick)) t = Some a" for t a
    using that T ok(2) el by (auto simp: boot_ok_def split: if_splits)
  ultimately show ?thesis by simp
qed

lemma full_write_committed_inv:
  assumes "sup_inv s"
  shows "sup_inv (snd (full_write_committed ev s))"
proof (cases "tt_phase s")
  case (P_BootstrapAckPending k l q sb t d ft)
  let ?s = "cancel_action (\<lambda>a. a = T_Bootstrap) (set_phase (P_Terminal Terminal_internal) s)"
  have ok: "timers_ok s" "boot_ok (armed s) ft" using assms P_BootstrapAckPending by (auto simp: sup_inv_def)
  have eq: "?s = set_phase (P_Terminal Terminal_internal) (cancel_action (\<lambda>a. a = T_Bootstrap) s)"
    by (simp add: cancel_action_def set_phase_def)
  have ok1: "timers_ok ?s" using timers_ok_cancel [OF ok(1)] by (simp add: eq)
  have nxt: "tt_next_token ?s = tt_next_token s" "tt_timers ?s = tt_timers (cancel_action (\<lambda>a. a = T_Bootstrap) s)"
    by (simp_all add: cancel_action_def)
  show ?thesis
  proof (cases "checked_add (tt_next_token s) 1")
    case None
    then have "sup_inv ?s" using ok1 by (simp add: sup_inv_def)
    with None assms P_BootstrapAckPending nxt(1) show ?thesis
      by (simp add: full_write_committed_def st_simps schedule_timer_def allocate_token_def)
  next
    case (Some n)
    have "timers_ok (?s\<lparr>tt_next_token := n, tt_timers := AList.update (tt_next_token ?s) T_LeaseTick (tt_timers ?s)\<rparr>)"
      using Some nxt(1) by (intro timers_ok_schedule [OF ok1]) simp
    with Some assms P_BootstrapAckPending nxt(1) timers_ok_pos [OF ok(1)] show ?thesis
      by (auto simp: full_write_committed_def st_simps schedule_timer_def allocate_token_def Let_def sup_inv_def eq
          simp del: phase_ok.simps intro!: eligible_start [OF ok Some])
  qed
next
  case (P_Eligible el)
  show ?thesis
  proof (cases "el_lease_stream el = ev_stream_id ev")
    case True
    have "phase_ok (tt_next_token s) (armed s) (P_Eligible (el\<lparr>el_lease_write := None\<rparr>))"
      by (rule elig_same [of _ _ el]) (use assms P_Eligible in \<open>auto simp: sup_inv_def same_slots_def lease_ok_def\<close>)
    with True P_Eligible assms show ?thesis
      by (auto simp: full_write_committed_def st_simps sup_inv_def split: option.split)
  next
    case False
    with P_Eligible assms commit_child_write_good [OF assms P_Eligible] show ?thesis
      by (fastforce simp: full_write_committed_def st_simps good_def split: prod.split)
  qed
qed (use assms in \<open>auto simp: full_write_committed_def st_simps sup_inv_def\<close>)


section \<open>Every event keeps the invariant\<close>

lemma inv_timers_ok: "sup_inv s \<Longrightarrow> timers_ok s"
  by (simp add: sup_inv_def)

lemma elig_decoder: "sup_inv s \<Longrightarrow> tt_phase s = P_Eligible el \<Longrightarrow>
    sup_inv (set_phase (P_Eligible (el\<lparr>el_lease_decoder := d\<rparr>)) s)"
  using elig_same [of "tt_next_token s" "armed s" el "el\<lparr>el_lease_decoder := d\<rparr>"]
  by (auto simp: sup_inv_def same_slots_def lease_ok_def)

lemma lease_end_inv: "sup_inv s \<Longrightarrow> sup_inv (snd (lease_terminal r p s))" "sup_inv s \<Longrightarrow> sup_inv (snd (core_lease_error e s))"
  by (simp_all add: core_lease_error_def lease_terminal_inv inv_timers_ok)

lemma stream_closed_inv:
  assumes inv: "sup_inv s"
  shows "sup_inv (snd (stream_closed ev s))"
proof (cases "tt_phase s")
  case (P_Eligible el)
  show ?thesis
  proof (cases "ev_stream_id ev = el_lease_stream el")
    case True
    with P_Eligible inv elig_decoder [OF inv P_Eligible] lease_end_inv show ?thesis
      by (auto simp: stream_closed_def stream_eof_def stream_end_def st_simps st_out_def split_beta Let_def
          split: prod.split sum.split)
  next
    case False
    with stream_closed_good [OF inv P_Eligible] show ?thesis by (simp add: good_def)
  qed
next
  case (P_BootstrapM1Pending k b t d ft)
  then have "sup_inv (set_phase (P_BootstrapM1Pending k b t d' ft) s)" for d' using inv by (simp add: sup_inv_def)
  with P_BootstrapM1Pending inv lease_end_inv show ?thesis
    by (auto simp: stream_closed_def stream_eof_def stream_end_def st_simps st_out_def split_beta Let_def
        split: prod.split sum.split)
next
  case (P_BootstrapM2 k b d ft)
  then have "sup_inv (set_phase (P_BootstrapM2 k b d' ft) s)" for d' using inv by (simp add: sup_inv_def)
  with P_BootstrapM2 inv lease_end_inv show ?thesis
    by (auto simp: stream_closed_def stream_eof_def stream_end_def st_simps st_out_def split_beta Let_def
        split: prod.split sum.split)
next
  case (P_BootstrapAckPending k l q sb t d ft)
  then have "sup_inv (set_phase (P_BootstrapAckPending k l q sb t d' ft) s)" for d' using inv by (simp add: sup_inv_def)
  with P_BootstrapAckPending inv lease_end_inv show ?thesis
    by (auto simp: stream_closed_def stream_eof_def stream_end_def st_simps st_out_def split_beta Let_def
        split: prod.split sum.split)
qed (use inv in \<open>auto simp: stream_closed_def stream_eof_def stream_end_def st_simps Let_def\<close>)

lemma stream_bytes_inv: "sup_inv s \<Longrightarrow> sup_inv (snd (stream_bytes N C ev s))"
  using session_bytes_good [of s]
  by (cases "tt_phase s") (auto simp: stream_bytes_def st_simps bootstrap_bytes_inv lease_bytes_inv good_def)

lemma session_accepted_inv:
  assumes "sup_inv s"
  shows "sup_inv (snd (session_accepted N C entropy ev s))"
proof (cases "\<exists>el. tt_phase s = P_Eligible el \<and> ev_stream_id ev \<noteq> el_lease_stream el")
  case True
  with session_accepted_good [OF assms] show ?thesis by (auto simp: good_def)
next
  case False
  with assms show ?thesis by (cases "tt_phase s") (auto simp: session_accepted_def st_simps)
qed

lemma runtime_response_inv: "sup_inv s \<Longrightarrow> sup_inv (snd (runtime_response N C ev s))"
  using runtime_response_good [of s]
  by (cases "tt_phase s") (auto simp: runtime_response_def st_simps good_def)

lemma eligibility_lost_inv: "sup_inv s \<Longrightarrow> sup_inv (snd (eligibility_lost s))"
  by (auto simp: eligibility_lost_def sup_inv_def split: Phase.split option.split intro!: lease_terminal_inv [unfolded sup_inv_def])

lemma drive_inv:
  assumes "sup_inv s"
  shows "sup_inv (snd (drive_op N C i s))"
proof (cases "\<exists>t. tt_phase s = P_Terminal t")
  case True
  with assms show ?thesis by (auto simp: drive_terminal)
next
  case False
  with assms show ?thesis
    by (cases "ev_tag (snd i)")
      (simp_all add: drive_op_def drive_def st_simps live_phase_case Let_def st_out_def split_beta timer_fired_inv
        bootstrap_connected_inv full_write_committed_inv session_accepted_inv runtime_response_inv stream_bytes_inv
        stream_closed_inv eligibility_lost_inv lease_end_inv)
qed

lemma run_inv: "sup_inv s \<Longrightarrow> sup_inv (snd (run (drive_op N C) evs s))"
  by (rule run_pres) (simp_all add: st_pres_def drive_inv)

lemma fresh_transport_inv [simp]: "sup_inv (fresh_transport b key g)"
  by (simp add: sup_inv_def timers_ok_def fresh_transport_def armed_def)

end
