(* ===== verification/Supervisor_Link.thy ===== *)
theory Supervisor_Link
  imports Session_Link Supervisor_Life
begin

text \<open>
  The supervisor at work. Its events are connected to the Broker's side of the protocol: the bootstrap
  makes a fresh supervisor eligible, and a session it accepts comes up, delivers an application message
  to the runtime and carries the response back. The lemmas give, event by event, the answer of the
  supervisor and the child it leaves.
\<close>

section \<open>What is read is a frame\<close>

definition is_frame :: "bytes \<Rightarrow> bool" where
  "is_frame f \<longleftrightarrow> (\<exists>p. encode_outer p = Inr f)"

lemma one_outer_frame: "one_outer f = Inr p \<Longrightarrow> is_frame f"
  using outer.dec_iff by (auto simp: is_frame_def)

lemma decrypt_frame: "decrypt_transport N f t = (Inr p, t') \<Longrightarrow> is_frame f"
  using one_outer_frame by (fastforce simp: decrypt_transport_def split: sum.splits)

lemma handshake_frame: "read_handshake_mut N f h = (Inr p, h') \<Longrightarrow> is_frame f"
  using one_outer_frame by (fastforce simp: read_handshake_mut_def split: sum.splits)

lemma frame_not_empty: "is_frame f \<Longrightarrow> f \<noteq> []"
  by (auto simp: is_frame_def encode_outer_def u16_to_be_def split: if_splits)

lemma counted_frame: "decrypt_counted N C f s = (Inr p, s') \<Longrightarrow> is_frame f"
  using decrypt_frame
  by (fastforce simp: decrypt_counted_def SessionCore_transport_def st_simps Let_def split: if_splits option.splits prod.splits sum.splits)

lemma read_application_frame: "SessionCore_read_application N C f s = (Inr x, s') \<Longrightarrow> is_frame f"
  using counted_frame
  by (fastforce simp: SessionCore_read_application_def st_simps split: if_splits prod.splits sum.splits)

lemma target_read_application_frame: "TargetSession_read_application N C f s = (Inr x, s') \<Longrightarrow> is_frame f"
  using read_application_frame
  by (fastforce simp: TargetSession_read_application_def split: prod.splits sum.splits option.splits)

lemma target_read_finished_frame: "TargetSession_read_finished N C f s = (Inr x, s') \<Longrightarrow> is_frame f"
  using counted_frame
  by (fastforce simp: TargetSession_read_finished_def SessionCore_read_finished_def SessionCore_finish_result_def st_simps
      split: if_splits prod.splits sum.splits)

lemma target_read_m2_frame: "TargetSession_read_m2 N f s = (Inr x, s') \<Longrightarrow> is_frame f"
  using handshake_frame
  by (fastforce simp: TargetSession_read_m2_def SessionCore_read_handshake_finish_def SessionCore_finish_result_def
      SessionCore_read_handshake_def SessionCore_handshake_def st_simps split: if_splits prod.splits sum.splits option.splits)

lemma frames_encoded: "list_all is_frame fs \<Longrightarrow> \<exists>ps. list_all2 (\<lambda>p f. encode_outer p = Inr f) ps fs"
  by (induction fs) (auto simp: is_frame_def list_all2_Cons2)

lemma push_frames:
  "list_all is_frame fs \<Longrightarrow> OuterFrameDecoder_push (concat fs) OuterFrameDecoder_new = (Inr fs, OuterFrameDecoder_new)"
  using frames_encoded push_new_frames by blast

lemma push_frame: "is_frame f \<Longrightarrow> OuterFrameDecoder_push f OuterFrameDecoder_new = (Inr [f], OuterFrameDecoder_new)"
  using push_frames [of "[f]"] by simp

lemma new_complete [simp]: "OuterFrameDecoder_is_incomplete OuterFrameDecoder_new = False"
  by (simp add: OuterFrameDecoder_is_incomplete_def OuterFrameDecoder_new_def)

text \<open>The frames of one message, read by the loop over one read of the supervisor.\<close>

lemma run_reads_message:
  assumes "run (TargetSession_read_application N C) fs s = (replicate (length fs - 1) (Inr None) @ [Inr (Some p)], s')"
    "fs \<noteq> []"
  shows "read_applications N C fs None s = (Inr (Some p), s') \<and> list_all is_frame fs"
  using assms
proof (induction fs arbitrary: s)
  case (Cons f fs)
  obtain r s1 where r: "TargetSession_read_application N C f s = (r, s1)" by fastforce
  show ?case
  proof (cases fs)
    case Nil
    with Cons.prems r target_read_application_frame [of N C f s] show ?thesis by simp
  next
    case (Cons g gs)
    with Cons.prems(1) r have "r = Inr None"
      "run (TargetSession_read_application N C) fs s1 = (replicate (length fs - 1) (Inr None) @ [Inr (Some p)], s')"
      by (auto split: prod.splits)
    with Cons.IH [of s1] Cons r target_read_application_frame [of N C f s] show ?thesis by simp
  qed
qed simp


section \<open>The bootstrap of the supervisor\<close>

definition event :: "EventTag \<Rightarrow> u64 \<Rightarrow> u64 \<Rightarrow> bytes \<Rightarrow> Event" where
  "event tag stream token bs = \<lparr>ev_tag = tag, ev_flags = 0, ev_stream_id = stream, ev_write_token = token, ev_bytes = bs\<rparr>"

lemma event_simps [simp]:
  "ev_tag (event tag k t bs) = tag" "ev_flags (event tag k t bs) = 0" "ev_stream_id (event tag k t bs) = k"
  "ev_write_token (event tag k t bs) = t" "ev_bytes (event tag k t bs) = bs"
  by (simp_all add: event_def)

definition binding_of_ack :: "TargetBootstrapAck \<Rightarrow> SessionBinding" where
  "binding_of_ack a = \<lparr>sb_lease_id = ack_lease_id a, sb_process_generation = ack_process_generation a,
     sb_listener_epoch = ack_listener_epoch a, sb_nk_handshake_hash = ack_nk_handshake_hash a\<rparr>"

text \<open>The state of a supervisor whose lease has just become ready on stream \<open>k\<close>.\<close>

definition ready_transport ::
    "u64 \<Rightarrow> u64 \<Rightarrow> 't LeaseCore \<Rightarrow> bytes \<Rightarrow> SessionBinding \<Rightarrow> ('h, 't) TargetTransport" where
  "ready_transport g k lease pbs sb = \<lparr>tt_phase = P_Eligible \<lparr>el_lease_stream = k, el_lease = lease, el_pbs = pbs,
       el_session_binding = sb, el_lease_decoder = OuterFrameDecoder_new, el_lease_write = None,
       el_lease_frame_timer = None, el_lease_tick_timer = Some 4, el_lease_ticks = 0, el_missed_ticks = 0,
       el_children = []\<rparr>, tt_generation = g, tt_next_token = 5, tt_timers = [(4, T_LeaseTick)]\<rparr>"

lemmas drive_simps = drive_op_def drive_def st_simps st_out_def Let_def allocate_token_def schedule_timer_def
  update_frame_timer_def set_phase_def remove_timer_def cancel_action_def checked_add_def with_frame_deadline_def
  upd_child_def on_eligible_def

text \<open>The whole bootstrap as the supervisor sees it: the events, and its answers.\<close>

definition bootstrap_events :: "u64 \<Rightarrow> bytes \<Rightarrow> Event list" where
  "bootstrap_events k m2 = [event Ev_BootstrapConnected k 0 [], event Ev_FullWriteCommitted k 1 [],
     event Ev_StreamBytes k 0 m2, event Ev_FullWriteCommitted k 3 []]"

definition bootstrap_answers :: "u64 \<Rightarrow> bytes \<Rightarrow> bytes \<Rightarrow> u64 \<Rightarrow> Outcome list" where
  "bootstrap_answers k m1 ack g = [Outcome_deadline 2 BOOTSTRAP_DEADLINE_MS (Outcome_write k 1 m1),
     Outcome_stream k (Outcome_new K_NeedInput), Outcome_write k 3 ack,
     Outcome_deadline 4 LEASE_TICK_MS (Outcome_values g 1 (Outcome_stream k (Outcome_new K_LeaseReady)))]"

lemma bootstrap_conversation:
  assumes "TargetBootstrap_new N C e b pk = Inr T0" "TargetBootstrap_write_m1 N C T0 = (Inr m1, T1)"
    "TargetBootstrap_read_m2 N C T1 m2 g 1 = Inr (A, secret)" "TargetBootstrapAckSender_write_ack N C A = Inr (ack, lease)"
    "k \<noteq> 0"
  shows "run (drive_op N C) (map (Pair e) (bootstrap_events k m2)) (fresh_transport b pk g) =
    (map Inr (bootstrap_answers k m1 ack g), ready_transport g k lease secret (binding_of_ack (as_ack A)))"
proof -
  obtain payload h where r: "read_handshake_mut N m2 (tb_state T1) = (Inr payload, h)"
    and A: "ack_process_generation (as_ack A) = g" "ack_listener_epoch (as_ack A) = 1"
    by (rule read_m2_Inr [OF assms(3)]) auto
  have m2: "is_frame m2" by (rule handshake_frame [OF r])
  with assms A frame_not_empty [OF m2] show ?thesis
    by (simp add: drive_simps fresh_transport_def bootstrap_connected_def full_write_committed_def stream_bytes_def
        bootstrap_bytes_def push_frame ready_transport_def binding_of_ack_def bootstrap_events_def bootstrap_answers_def)
qed

context protected_link
begin

text \<open>A fresh supervisor and a Broker with the matching key and binding complete the bootstrap.\<close>

lemma supervisor_becomes_ready:
  assumes key: "keypair sk pk" and wf: "wf_bootstrap_binding b" and secret: "length secret = 32"
    and gen: "valid_generation g" and k: "k \<noteq> 0"
  obtains B0 m1 m2 R ack A bl lease where
    "BrokerBootstrap_new N C e2 b sk secret = Inr B0" "BrokerBootstrap_read_m1_write_m2 N C B0 m1 = Inr (m2, R)"
    "BrokerBootstrapAckReceiver_read_ack N C R ack = Inr (A, bl)" "lease_linked chan bl lease"
    "run (drive_op N C) (map (Pair e) (bootstrap_events k m2)) (fresh_transport b pk g) =
      (map Inr (bootstrap_answers k m1 ack g), ready_transport g k lease secret (binding_of_ack A))"
    "wf_session_binding (binding_of_ack A)" "SessionBinding_valid (binding_of_ack A)"
    "sb_lease_id (binding_of_ack A) = bb_lease_id b"
proof -
  obtain T0 B0 m1 T1 m2 R A frame tl bl where h:
    "TargetBootstrap_new N C e b pk = Inr T0" "BrokerBootstrap_new N C e2 b sk secret = Inr B0"
    "TargetBootstrap_write_m1 N C T0 = (Inr m1, T1)" "BrokerBootstrap_read_m1_write_m2 N C B0 m1 = Inr (m2, R)"
    "TargetBootstrap_read_m2 N C T1 m2 g 1 = Inr (A, secret)" "TargetBootstrapAckSender_write_ack N C A = Inr (frame, tl)"
    "BrokerBootstrapAckReceiver_read_ack N C R frame = Inr (as_ack A, bl)" "ack_for b (ar_nk_handshake_hash R) (as_ack A)"
    and l: "lease_linked chan bl tl"
    using bootstrap_completes [OF key wf secret gen] by metis
  have ack: "wf_ack (as_ack A)" using read_ack_Inr [OF h(7)] by metis
  show ?thesis
  proof (rule that [OF h(2,4,7) l bootstrap_conversation [OF h(1,3,5,6) k]])
    show "wf_session_binding (binding_of_ack (as_ack A))" using ack by (simp add: wf_binding_defs binding_of_ack_def)
    show "SessionBinding_valid (binding_of_ack (as_ack A))" "sb_lease_id (binding_of_ack (as_ack A)) = bb_lease_id b"
      using h(8) by (simp_all add: ack_for_def SessionBinding_valid_def binding_of_ack_def valid_generation_def)
  qed
qed

end

section \<open>A heartbeat of the supervisor\<close>

lemma heartbeat_frame: "TargetLease_read_heartbeat_request N C f s = (Inr c, s') \<Longrightarrow> is_frame f"
  using decrypt_frame
  by (fastforce simp: TargetLease_read_heartbeat_request_def LeaseCore_finish_result_def LeaseCore_read_heartbeat_def
      LeaseCore_decrypt_counted_def LeaseCore_transport_def st_simps Let_def
      split: if_splits option.splits prod.splits sum.splits)

lemma heartbeat_conversation:
  assumes el: "tt_phase s = P_Eligible el" "el_lease_stream el \<noteq> 0" "el_lease_write el = None" "el_lease_frame_timer el = None"
      "el_lease_decoder el = OuterFrameDecoder_new"
    and n: "tt_next_token s = n" "0 < n" "n < 2 ^ 64 - 1"
    and h: "TargetLease_read_heartbeat_request N C request (el_lease el) = (Inr counter, t1)"
      "TargetLease_write_heartbeat_reply N C counter t1 = (Inr reply, t2)"
  shows "run (drive_op N C) [(e, event Ev_StreamBytes (el_lease_stream el) 0 request),
      (e, event Ev_FullWriteCommitted (el_lease_stream el) n [])] s =
    ([Inr (Outcome_write (el_lease_stream el) n reply), Inr (Outcome_stream (el_lease_stream el) (Outcome_new K_NeedInput))],
     s\<lparr>tt_phase := P_Eligible (el\<lparr>el_lease := t2, el_missed_ticks := 0\<rparr>), tt_next_token := n + 1\<rparr>)"
proof -
  have f: "is_frame request" by (rule heartbeat_frame [OF h(1)])
  have c: "checked_add n 1 = Some (n + 1)" using n(3) by (simp add: checked_add_def word_less_nat_alt)
  show ?thesis
    using assms c push_frame [OF f] frame_not_empty [OF f]
    by (simp add: drive_op_def drive_def st_simps Let_def stream_bytes_def lease_bytes_def update_frame_timer_def
        remove_timer_def set_phase_def allocate_token_def with_frame_deadline_def full_write_committed_def)
qed

section \<open>A session of the supervisor\<close>

text \<open>The supervisor serves session \<open>j\<close>, between two frames of it; \<open>n\<close> is the next token.\<close>

definition serving :: "('h, 't) TargetTransport \<Rightarrow> u64 \<Rightarrow> ('h, 't) Child \<Rightarrow> nat \<Rightarrow> bool" where
  "serving s j c n \<longleftrightarrow> tt_next_token s = of_nat n \<and> 0 < n \<and> j \<noteq> 0 \<and> ch_decoder c = OuterFrameDecoder_new \<and>
     ch_frame_timer c = None \<and>
     (\<exists>el. tt_phase s = P_Eligible el \<and> j \<noteq> el_lease_stream el \<and> get_child j el = Some c)"

lemma next_token [simp]:
  assumes "0 < n" "n < 2 ^ 64 - 1"
  shows "checked_add (of_nat n) 1 = Some (of_nat (Suc n))" "(of_nat n :: u64) \<noteq> 0"
proof -
  have "unat (of_nat n :: u64) = n" using assms(2) by (simp add: unat_of_nat)
  with assms show "checked_add (of_nat n) 1 = Some (of_nat (Suc n))" "(of_nat n :: u64) \<noteq> 0"
    by (auto simp: checked_add_def add.commute)
qed

lemmas session_simps = drive_op_def drive_def st_simps st_out_def Let_def allocate_token_def schedule_timer_def
  update_frame_timer_def set_phase_def remove_timer_def with_frame_deadline_def
  upd_child_def on_eligible_def session_accepted_def full_write_committed_def commit_child_write_def stream_bytes_def
  session_bytes_def session_await_m2_def session_await_finished_def session_await_application_def session_deliver_def
  runtime_response_def replace_child_timer_def reset_child_phase_timer_def st_snd_def

lemma serve_accept:
  assumes "tt_phase s = P_Eligible el" "j \<noteq> 0" "j \<noteq> el_lease_stream el" "get_child j el = None"
    "tt_next_token s = of_nat n" "0 < n" "n < 2 ^ 64 - 2"
    "TargetSession_new N C e (el_session_binding el) (el_pbs el) = Inr T0" "TargetSession_write_m1 N T0 = (Inr m1, T1)"
  obtains s' out where "drive N C e (event Ev_SessionAccepted j 0 []) s = (Inr out, s')"
    "out = Outcome_deadline (of_nat (Suc n)) SESSION_HANDSHAKE_DEADLINE_MS (Outcome_write j (of_nat n) m1)"
    "serving s' j \<lparr>ch_phase = C_M1Pending T1 (of_nat n), ch_decoder = OuterFrameDecoder_new,
       ch_phase_timer = Some (of_nat (Suc n)), ch_frame_timer = None, ch_applications = 0\<rparr> (Suc (Suc n))"
  using assms by (simp add: session_simps serving_def del: of_nat_Suc)

lemma serve_commit:
  assumes "serving s j c n" "ch_phase c = C_M1Pending T t \<and> p = C_AwaitM2 T \<or> ch_phase c = C_FinishedPending T t \<and> p = C_AwaitFinished T"
    "t \<noteq> 0"
  obtains s' where "drive N C e (event Ev_FullWriteCommitted j t []) s = (Inr (Outcome_stream j (Outcome_new K_NeedInput)), s')"
    "serving s' j (c\<lparr>ch_phase := p\<rparr>) n"
  using assms by (auto simp: session_simps serving_def)

lemma serve_m2:
  assumes "serving s j c n" "ch_phase c = C_AwaitM2 T1" "n < 2 ^ 64 - 1"
    "TargetSession_read_m2 N m2 T1 = (Inr (), T2)" "TargetSession_write_finished N C T2 = (Inr f1, T3)"
  obtains s' where "drive N C e (event Ev_StreamBytes j 0 m2) s = (Inr (Outcome_write j (of_nat n) f1), s')"
    "serving s' j (c\<lparr>ch_phase := C_FinishedPending T3 (of_nat n)\<rparr>) (Suc n)"
  using assms push_frame [OF target_read_m2_frame [OF assms(4)]] frame_not_empty [OF target_read_m2_frame [OF assms(4)]]
  by (auto simp: session_simps serving_def simp del: of_nat_Suc)

lemma serve_finished:
  assumes "serving s j c n" "ch_phase c = C_AwaitFinished T3" "TargetSession_read_finished N C f2 T3 = (Inr (), T4)"
  obtains s' where "drive N C e (event Ev_StreamBytes j 0 f2) s = (Inr (Outcome_stream j (Outcome_new K_NeedInput)), s')"
    "serving s' j (c\<lparr>ch_phase := C_AwaitApplication T4\<rparr>) n"
  using assms push_frame [OF target_read_finished_frame [OF assms(3)]] frame_not_empty [OF target_read_finished_frame [OF assms(3)]]
  by (auto simp: session_simps serving_def)


lemma serve_application:
  assumes "serving s j c n" "ch_phase c = C_AwaitApplication T4" "n < 2 ^ 64 - 1" "ch_applications c < 2 ^ 64 - 1"
    "run (TargetSession_read_application N C) fs T4 = (replicate (length fs - 1) (Inr None) @ [Inr (Some p)], T5)" "fs \<noteq> []"
  obtains s' where "drive N C e (event Ev_StreamBytes j 0 (concat fs)) s = (Inr (Outcome_deadline (of_nat n)
      (if ch_applications c = 0 then SESSION_OPEN_RESPONSE_DEADLINE_MS else SESSION_IDLE_DEADLINE_MS)
      (Outcome_application j p)), s')"
    "serving s' j (c\<lparr>ch_phase := C_AwaitRuntime T5, ch_applications := ch_applications c + 1,
       ch_phase_timer := Some (of_nat n)\<rparr>) (Suc n)"
proof -
  have r: "read_applications N C fs None T4 = (Inr (Some p), T5)" and f: "list_all is_frame fs"
    using run_reads_message [OF assms(5,6)] by blast+
  define b where "b = concat fs"
  have b: "b \<noteq> []" "OuterFrameDecoder_push b OuterFrameDecoder_new = (Inr fs, OuterFrameDecoder_new)"
    using f assms(6) frame_not_empty push_frames [OF f] by (cases fs; auto simp: b_def)+
  have "checked_add (ch_applications c) 1 = Some (ch_applications c + 1)"
    using assms(4) by (simp add: checked_add_def word_less_nat_alt)
  with b r assms(1-3,6) have "\<exists>s'. drive N C e (event Ev_StreamBytes j 0 b) s = (Inr (Outcome_deadline (of_nat n)
      (if ch_applications c = 0 then SESSION_OPEN_RESPONSE_DEADLINE_MS else SESSION_IDLE_DEADLINE_MS)
      (Outcome_application j p)), s') \<and>
    serving s' j (c\<lparr>ch_phase := C_AwaitRuntime T5, ch_applications := ch_applications c + 1,
       ch_phase_timer := Some (of_nat n)\<rparr>) (Suc n)"
    by (cases "ch_phase_timer c") (auto simp: session_simps serving_def simp del: of_nat_Suc)
  with that show ?thesis unfolding b_def by blast
qed

lemma serve_response:
  assumes "serving s j c n" "ch_phase c = C_AwaitRuntime T5" "n < 2 ^ 64 - 1" "q \<noteq> []"
    "TargetSession_write_application_response N C q T5 = (Inr gs, T6)"
  obtains s' where "drive N C e (event Ev_RuntimeResponse j 0 q) s = (Inr (Outcome_write j (of_nat n) (concat gs)), s')"
    "serving s' j (c\<lparr>ch_phase := C_ResponsePending T6 (of_nat n)\<rparr>) (Suc n)"
proof -
  have "foldl (\<lambda>out frame. out @ frame) a gs = a @ concat gs" for a
    by (induction gs arbitrary: a) simp_all
  then have "concat_frames gs = concat gs" by (simp add: concat_frames_def)
  with that assms show ?thesis by (auto simp: session_simps serving_def simp del: of_nat_Suc)
qed

lemma serve_responded:
  assumes "serving s j c n" "ch_phase c = C_ResponsePending T6 t" "n < 2 ^ 64 - 1" "t \<noteq> 0"
  obtains s' where "drive N C e (event Ev_FullWriteCommitted j t []) s =
      (Inr (Outcome_deadline (of_nat n) SESSION_IDLE_DEADLINE_MS (Outcome_stream j (Outcome_new K_NeedInput))), s')"
    "serving s' j (c\<lparr>ch_phase := C_AwaitApplication T6, ch_phase_timer := Some (of_nat n)\<rparr>) (Suc n)"
  using assms by (cases "ch_phase_timer c") (auto simp: session_simps serving_def simp del: of_nat_Suc)


text \<open>A whole session as the supervisor sees it: the events, and its answers. \<open>n\<close> is the next token.\<close>

definition session_events :: "u64 \<Rightarrow> u64 \<Rightarrow> bytes \<Rightarrow> bytes \<Rightarrow> bytes list \<Rightarrow> bytes \<Rightarrow> Event list" where
  "session_events j n m2 f2 fs q = [event Ev_SessionAccepted j 0 [], event Ev_FullWriteCommitted j n [],
     event Ev_StreamBytes j 0 m2, event Ev_FullWriteCommitted j (n + 2) [], event Ev_StreamBytes j 0 f2,
     event Ev_StreamBytes j 0 (concat fs), event Ev_RuntimeResponse j 0 q, event Ev_FullWriteCommitted j (n + 4) []]"

definition session_answers :: "u64 \<Rightarrow> u64 \<Rightarrow> bytes \<Rightarrow> bytes \<Rightarrow> bytes \<Rightarrow> bytes list \<Rightarrow> Outcome list" where
  "session_answers j n m1 f1 p gs =
     (let need = Outcome_stream j (Outcome_new K_NeedInput) in
      [Outcome_deadline (n + 1) SESSION_HANDSHAKE_DEADLINE_MS (Outcome_write j n m1), need,
       Outcome_write j (n + 2) f1, need, need,
       Outcome_deadline (n + 3) SESSION_OPEN_RESPONSE_DEADLINE_MS (Outcome_application j p),
       Outcome_write j (n + 4) (concat gs), Outcome_deadline (n + 5) SESSION_IDLE_DEADLINE_MS need])"

lemma session_conversation:
  assumes el: "tt_phase s = P_Eligible el" and j: "j \<noteq> 0" "j \<noteq> el_lease_stream el" "get_child j el = None"
    and n: "tt_next_token s = n" "0 < n" "n < 2 ^ 64 - 8" and q: "q \<noteq> []"
    and h: "TargetSession_new N C e (el_session_binding el) (el_pbs el) = Inr T0" "TargetSession_write_m1 N T0 = (Inr m1, T1)"
      "TargetSession_read_m2 N m2 T1 = (Inr (), T2)" "TargetSession_write_finished N C T2 = (Inr f1, T3)"
      "TargetSession_read_finished N C f2 T3 = (Inr (), T4)"
    and o: "run (TargetSession_read_application N C) fs T4 = (replicate (length fs - 1) (Inr None) @ [Inr (Some p)], T5)" "fs \<noteq> []"
    and r: "TargetSession_write_application_response N C q T5 = (Inr gs, T6)"
  shows "\<exists>s' el' c. run (drive_op N C) (map (Pair e) (session_events j n m2 f2 fs q)) s =
      (map Inr (session_answers j n m1 f1 p gs), s') \<and>
    tt_phase s' = P_Eligible el' \<and> j \<noteq> el_lease_stream el' \<and> get_child j el' = Some c \<and>
    ch_phase c = C_AwaitApplication T6 \<and> ch_applications c = 1"
proof -
  define k where "k = unat n"
  have k: "tt_next_token s = of_nat k" "0 < k" "k < 2 ^ 64 - 8" "n = of_nat k"
    using n by (simp_all add: k_def unat_gt_0 word_less_nat_alt)
  let ?k1 = "Suc k" and ?k2 = "Suc (Suc k)" and ?k3 = "Suc (Suc (Suc k))" and ?k4 = "Suc (Suc (Suc (Suc k)))"
    and ?k5 = "Suc (Suc (Suc (Suc (Suc k))))"
  have lim: "k < 2 ^ 64 - 2" "?k2 < 2 ^ 64 - 1" "?k3 < 2 ^ 64 - 1" "?k4 < 2 ^ 64 - 1" "?k5 < 2 ^ 64 - 1" using k(3) by simp_all
  have t: "of_nat k \<noteq> (0 :: u64)" "of_nat ?k2 \<noteq> (0 :: u64)" "of_nat ?k4 \<noteq> (0 :: u64)"
    using next_token(2) [of k] next_token(2) [of ?k2] next_token(2) [of ?k4] k(2) lim by (simp_all del: of_nat_Suc)
  obtain s1 where s1: "drive N C e (event Ev_SessionAccepted j 0 []) s =
      (Inr (Outcome_deadline (of_nat ?k1) SESSION_HANDSHAKE_DEADLINE_MS (Outcome_write j (of_nat k) m1)), s1)"
    and v1: "serving s1 j \<lparr>ch_phase = C_M1Pending T1 (of_nat k), ch_decoder = OuterFrameDecoder_new,
       ch_phase_timer = Some (of_nat ?k1), ch_frame_timer = None, ch_applications = 0\<rparr> ?k2" (is "serving s1 j ?c _")
    using serve_accept [OF el j k(1,2) lim(1) h(1,2)] by blast
  obtain s2 where s2: "drive N C e (event Ev_FullWriteCommitted j (of_nat k) []) s1 =
      (Inr (Outcome_stream j (Outcome_new K_NeedInput)), s2)" and v2: "serving s2 j (?c\<lparr>ch_phase := C_AwaitM2 T1\<rparr>) ?k2"
    by (rule serve_commit [OF v1 _ t(1), of T1 "C_AwaitM2 T1"]) simp_all
  obtain s3 where s3: "drive N C e (event Ev_StreamBytes j 0 m2) s2 = (Inr (Outcome_write j (of_nat ?k2) f1), s3)"
    and v3: "serving s3 j (?c\<lparr>ch_phase := C_FinishedPending T3 (of_nat ?k2)\<rparr>) ?k3"
    by (rule serve_m2 [OF v2 _ lim(2) h(3,4)]) simp_all
  obtain s4 where s4: "drive N C e (event Ev_FullWriteCommitted j (of_nat ?k2) []) s3 =
      (Inr (Outcome_stream j (Outcome_new K_NeedInput)), s4)" and v4: "serving s4 j (?c\<lparr>ch_phase := C_AwaitFinished T3\<rparr>) ?k3"
    by (rule serve_commit [OF v3 _ t(2), of T3 "C_AwaitFinished T3"]) simp_all
  obtain s5 where s5: "drive N C e (event Ev_StreamBytes j 0 f2) s4 = (Inr (Outcome_stream j (Outcome_new K_NeedInput)), s5)"
    and v5: "serving s5 j (?c\<lparr>ch_phase := C_AwaitApplication T4\<rparr>) ?k3"
    by (rule serve_finished [OF v4 _ h(5)]) simp_all
  obtain s6 where s6: "drive N C e (event Ev_StreamBytes j 0 (concat fs)) s5 = (Inr (Outcome_deadline (of_nat ?k3)
      SESSION_OPEN_RESPONSE_DEADLINE_MS (Outcome_application j p)), s6)"
    and v6: "serving s6 j (?c\<lparr>ch_phase := C_AwaitRuntime T5, ch_applications := 1, ch_phase_timer := Some (of_nat ?k3)\<rparr>) ?k4"
    by (rule serve_application [OF v5 _ lim(3) _ o]) simp_all
  obtain s7 c7 where s7: "drive N C e (event Ev_RuntimeResponse j 0 q) s6 = (Inr (Outcome_write j (of_nat ?k4) (concat gs)), s7)"
    and v7: "serving s7 j c7 ?k5" "ch_phase c7 = C_ResponsePending T6 (of_nat ?k4)" "ch_applications c7 = 1"
    by (rule serve_response [OF v6 _ lim(4) q r, of e]) (simp, fastforce)
  obtain s8 where s8: "drive N C e (event Ev_FullWriteCommitted j (of_nat ?k4) []) s7 =
      (Inr (Outcome_deadline (of_nat ?k5) SESSION_IDLE_DEADLINE_MS (Outcome_stream j (Outcome_new K_NeedInput))), s8)"
    and v8: "serving s8 j (c7\<lparr>ch_phase := C_AwaitApplication T6, ch_phase_timer := Some (of_nat ?k5)\<rparr>) (Suc ?k5)"
    by (rule serve_responded [OF v7(1,2) lim(5) t(3)])
  have "run (drive_op N C) (map (Pair e) (session_events j n m2 f2 fs q)) s = (map Inr (session_answers j n m1 f1 p gs), s8)"
    using s1 s2 s3 s4 s5 s6 s7 s8
    by (simp add: drive_op_def k(4) add.commute session_events_def session_answers_def Let_def)
  with v8 v7(3) show ?thesis by (auto simp: serving_def)
qed

context protected_link
begin

lemma session_served:
  assumes el: "tt_phase s = P_Eligible el"
    and b: "wf_session_binding (el_session_binding el)" "SessionBinding_valid (el_session_binding el)" "length (el_pbs el) = 32"
    and j: "j \<noteq> 0" "j \<noteq> el_lease_stream el" "get_child j el = None"
    and n: "tt_next_token s = n" "0 < n" "n < 2 ^ 64 - 8"
    and p: "p \<noteq> []" "length p \<le> 65536" and q: "q \<noteq> []" "length q \<le> 67108864"
  shows "\<exists>B0 m1 m2 B1 f1 B2 f2 B3 fs B4 gs B5 s'.
    BrokerSession_new N C e2 (el_session_binding el) (el_pbs el) = Inr B0 \<and>
    BrokerSession_read_m1_write_m2 N m1 B0 = (Inr m2, B1) \<and> BrokerSession_read_finished N C f1 B1 = (Inr (), B2) \<and>
    BrokerSession_write_finished N C B2 = (Inr f2, B3) \<and> BrokerSession_write_session_open N C p B3 = (Inr fs, B4) \<and>
    run (BrokerSession_read_application_response N C) gs B4 =
      (replicate (length gs - 1) (Inr None) @ [Inr (Some q)], B5) \<and>
    run (drive_op N C) (map (Pair e) (session_events j n m2 f2 fs q)) s = (map Inr (session_answers j n m1 f1 p gs), s')"
proof -
  obtain T0 B0 m1 T1 m2 B1 T2 f1 T3 B2 f2 B3 T4 where h:
    "TargetSession_new N C e (el_session_binding el) (el_pbs el) = Inr T0"
    "BrokerSession_new N C e2 (el_session_binding el) (el_pbs el) = Inr B0"
    "TargetSession_write_m1 N T0 = (Inr m1, T1)" "BrokerSession_read_m1_write_m2 N m1 B0 = (Inr m2, B1)"
    "TargetSession_read_m2 N m2 T1 = (Inr (), T2)" "TargetSession_write_finished N C T2 = (Inr f1, T3)"
    "BrokerSession_read_finished N C f1 B1 = (Inr (), B2)" "BrokerSession_write_finished N C B2 = (Inr f2, B3)"
    "TargetSession_read_finished N C f2 T3 = (Inr (), T4)" and ready: "session_ready chan B3 T4"
    using session_establishes [OF b, of e e2] .
  obtain fs B4 T5 where o: "BrokerSession_write_session_open N C p B3 = (Inr fs, B4)"
    "run (TargetSession_read_application N C) fs T4 = (replicate (length fs - 1) (Inr None) @ [Inr (Some p)], T5)" "fs \<noteq> []"
    and l: "sess_linked chan T5 B4" "sess_idle T5" "sess_idle B4" "\<not> sc_peer_turn T5" "sc_peer_turn B4"
      "sc_first_application T5" "sess_spare (2 ^ 26) T5" "rr_cap (sc_reassembly B4) = 67108864"
    using session_open_delivered [OF ready p] .
  obtain gs T6 B5 where r: "TargetSession_write_application_response N C q T5 = (Inr gs, T6)"
    "run (BrokerSession_read_application_response N C) gs B4 = (replicate (length gs - 1) (Inr None) @ [Inr (Some q)], B5)"
    using session_response_delivered [OF l q] .
  obtain s' where "run (drive_op N C) (map (Pair e) (session_events j n m2 f2 fs q)) s =
      (map Inr (session_answers j n m1 f1 p gs), s')"
    using session_conversation [OF el j n q(1) h(1,3,5,6,9) o(2,3) r(1)] by blast
  with h o r show ?thesis by blast
qed

end

text \<open>The heartbeat of a Broker whose lease connection is linked to the one of the supervisor.\<close>

lemma heartbeat_answered:
  assumes "protected_link N chan keypair C" "tt_phase s = P_Eligible el" "el_lease_stream el \<noteq> 0"
    "el_lease_write el = None" "el_lease_frame_timer el = None" "el_lease_decoder el = OuterFrameDecoder_new"
    "tt_next_token s = n" "0 < n" "n < 2 ^ 64 - 1"
    "lease_linked chan bl (el_lease el)" "lease_spare bl" "lease_spare (el_lease el)"
    "beats bl = (None, m)" "beats (el_lease el) = (None, m)" "m < counter"
  shows "\<exists>request b1 reply b2 t2.
    BrokerLease_write_heartbeat_request N C counter bl = (Inr request, b1) \<and>
    BrokerLease_read_heartbeat_reply N C reply b1 = (Inr counter, b2) \<and>
    lease_linked chan b2 t2 \<and> beats b2 = (None, counter) \<and> beats t2 = (None, counter) \<and>
    run (drive_op N C) [(e, event Ev_StreamBytes (el_lease_stream el) 0 request),
        (e, event Ev_FullWriteCommitted (el_lease_stream el) n [])] s =
      ([Inr (Outcome_write (el_lease_stream el) n reply), Inr (Outcome_stream (el_lease_stream el) (Outcome_new K_NeedInput))],
       s\<lparr>tt_phase := P_Eligible (el\<lparr>el_lease := t2, el_missed_ticks := 0\<rparr>), tt_next_token := n + 1\<rparr>)"
proof -
  obtain request b1 t1 reply t2 b2 where h: "BrokerLease_write_heartbeat_request N C counter bl = (Inr request, b1)"
    "TargetLease_read_heartbeat_request N C request (el_lease el) = (Inr counter, t1)"
    "TargetLease_write_heartbeat_reply N C counter t1 = (Inr reply, t2)"
    "BrokerLease_read_heartbeat_reply N C reply b1 = (Inr counter, b2)"
    and l: "lease_linked chan b2 t2" "beats b2 = (None, counter)" "beats t2 = (None, counter)"
    using protected_link.lease_heartbeat_exchange [OF assms(1,10-15)] by metis
  show ?thesis
    using h(1,4) l heartbeat_conversation [OF assms(2-9) h(2,3), of e] by blast
qed

section \<open>A concrete run\<close>

text \<open>A supervisor created from a real descriptor, and brought to readiness by a Broker.\<close>

definition demo_draws :: "bytes option list option" where
  "demo_draws = Some [Some [5, 0, 0, 0, 0, 0, 0, 0]]"

lemma demo_generation: "generate_process_generation demo_draws = Some (Inr 6)"
  by (simp add: demo_draws_def generate_process_generation_def u64_of_le_def be_val_def generation_zone_value
      word_less_nat_alt JSON_SAFE_MAX_def)

lemma demo_create:
  obtains d out where "TargetTransport_create rfc_cbor demo_draws d =
    Some (Inr (fresh_transport demo_bootstrap_binding (replicate 32 6) 6, out))"
proof -
  let ?p = "\<lparr>pd_binding = demo_bootstrap_binding, pd_broker_public_key = replicate 32 6, pd_endpoint = Ios 50000\<rparr>"
  have valid: "valid_descriptor ?p"
    by (simp add: valid_descriptor_def valid_endpoint_def JSON_SAFE_MAX_def)
      (simp add: demo_bootstrap_binding_def)
  obtain d where "encode_descriptor rfc_cbor ?p = Inr d"
    using rfc.encode_descriptor_eq [OF rfc.valid_typed [OF valid]] by simp
  with valid have "parse_descriptor rfc_cbor d = Inr ?p"
    using wire_codec.dec_iff [OF rfc.descriptor_codec] by blast
  with demo_generation have "\<exists>out. TargetTransport_create rfc_cbor demo_draws d =
      Some (Inr (fresh_transport demo_bootstrap_binding (replicate 32 6) 6, out))"
    by (simp add: TargetTransport_create_def fresh_transport_def Let_def)
  with that show ?thesis by blast
qed

lemma demo_ready_run:
  obtains m1 m2 ack lease sb where "run (drive_op clear_noise rfc_cbor) (map (Pair []) (bootstrap_events 1 m2))
      (fresh_transport demo_bootstrap_binding (replicate 32 6) 6) =
      (map Inr (bootstrap_answers 1 m1 ack 6), ready_transport 6 1 lease (replicate 32 9) sb)"
    "wf_session_binding sb" "SessionBinding_valid sb"
proof -
  obtain m1 m2 ack A and lease :: "clear_tr LeaseCore" where
    "run (drive_op clear_noise rfc_cbor) (map (Pair []) (bootstrap_events 1 m2))
      (fresh_transport demo_bootstrap_binding (replicate 32 6) 6) =
      (map Inr (bootstrap_answers 1 m1 ack 6), ready_transport 6 1 lease (replicate 32 9) (binding_of_ack A))"
    "wf_session_binding (binding_of_ack A)" "SessionBinding_valid (binding_of_ack A)"
    by (rule clear_link.supervisor_becomes_ready [of "replicate 32 6" "replicate 32 6" demo_bootstrap_binding
          "replicate 32 9" 6 1 "[]" "[]"]) (simp_all add: valid_generation_def)
  with that show ?thesis by blast
qed

lemma demo_ready:
  obtains evs lease sb where "snd (run (drive_op clear_noise rfc_cbor) evs
      (fresh_transport demo_bootstrap_binding (replicate 32 6) 6)) = ready_transport 6 1 lease (replicate 32 9) sb"
    "wf_session_binding sb" "SessionBinding_valid sb"
  using demo_ready_run that by (metis snd_conv)

lemma ready_phase:
  obtains el where "tt_phase (ready_transport g k lease pbs sb) = P_Eligible el" "el_lease_stream el = k" "el_pbs el = pbs"
    "el_session_binding el = sb" "el_children el = []" "tt_next_token (ready_transport g k lease pbs sb) = 5"
    "el_lease_ticks el = 0" "el_missed_ticks el = 0" "tt_timers (ready_transport g k lease pbs sb) = [(4, T_LeaseTick)]"
  by (simp add: ready_transport_def)

lemma demo_eligible:
  obtains d s0 out evs lease sb where "TargetTransport_create rfc_cbor demo_draws d = Some (Inr (s0, out))"
    "ready_transport 6 1 lease (replicate 32 9) sb = snd (run (drive_op clear_noise rfc_cbor) evs s0)"
proof -
  obtain d out where d: "TargetTransport_create rfc_cbor demo_draws d =
      Some (Inr (fresh_transport demo_bootstrap_binding (replicate 32 6) 6 :: (clear_hs, clear_tr) TargetTransport, out))"
    by (rule demo_create)
  obtain evs lease sb where "snd (run (drive_op clear_noise rfc_cbor) evs
      (fresh_transport demo_bootstrap_binding (replicate 32 6) 6)) = ready_transport 6 1 lease (replicate 32 9) sb"
    by (rule demo_ready)
  from that [OF d this [symmetric]] show ?thesis .
qed

text \<open>After the bootstrap and one whole session: stream 2 has delivered one message.\<close>

lemma demo_served:
  obtains m1 m2 ack m1' m2' f1 f2 fs gs s el c where
    "run (drive_op clear_noise rfc_cbor) (map (Pair []) (bootstrap_events 1 m2 @ session_events 2 5 m2' f2 fs [4]))
       (fresh_transport demo_bootstrap_binding (replicate 32 6) 6 :: (clear_hs, clear_tr) TargetTransport) =
     (map Inr (bootstrap_answers 1 m1 ack 6 @ session_answers 2 5 m1' f1 [1, 2, 3] gs), s)"
    "tt_phase s = P_Eligible el" "2 \<noteq> el_lease_stream el" "get_child 2 el = Some c" "ch_applications c = 1"
proof -
  obtain m1 m2 ack and lease :: "clear_tr LeaseCore" and sb where boot:
    "run (drive_op clear_noise rfc_cbor) (map (Pair []) (bootstrap_events 1 m2))
      (fresh_transport demo_bootstrap_binding (replicate 32 6) 6 :: (clear_hs, clear_tr) TargetTransport) =
      (map Inr (bootstrap_answers 1 m1 ack 6), ready_transport 6 1 lease (replicate 32 9) sb)"
    and sb: "wf_session_binding sb" "SessionBinding_valid sb" by (rule demo_ready_run)
  obtain el where el: "tt_phase (ready_transport 6 1 lease (replicate 32 9) sb :: (clear_hs, clear_tr) TargetTransport) = P_Eligible el"
    "el_lease_stream el = 1" "el_pbs el = replicate 32 9" "el_session_binding el = sb" "el_children el = []"
    "tt_next_token (ready_transport 6 1 lease (replicate 32 9) sb :: (clear_hs, clear_tr) TargetTransport) = 5"
    by (rule ready_phase)
  obtain T0 m1' T1 m2' T2 f1 T3 f2 T4 B3 where h:
    "TargetSession_new clear_noise rfc_cbor [] sb (replicate 32 9) = Inr T0" "TargetSession_write_m1 clear_noise T0 = (Inr m1', T1)"
    "TargetSession_read_m2 clear_noise m2' T1 = (Inr (), T2)" "TargetSession_write_finished clear_noise rfc_cbor T2 = (Inr f1, T3)"
    "TargetSession_read_finished clear_noise rfc_cbor f2 T3 = (Inr (), T4)" and ready: "session_ready clear_chan B3 T4"
    by (rule clear_link.session_establishes [OF sb, of "replicate 32 9" "[]" "[]"]) simp_all
  obtain fs B4 T5 where o: "run (TargetSession_read_application clear_noise rfc_cbor) fs T4 =
      (replicate (length fs - 1) (Inr None) @ [Inr (Some [1, 2, 3])], T5)" "fs \<noteq> []"
    and l: "sess_linked clear_chan T5 B4" "sess_idle T5" "sess_idle B4" "\<not> sc_peer_turn T5" "sc_peer_turn B4"
      "sc_first_application T5" "sess_spare (2 ^ 26) T5" "rr_cap (sc_reassembly B4) = 67108864"
    by (rule clear_link.session_open_delivered [OF ready, of "[1, 2, 3]"]) simp_all
  obtain gs T6 where r: "TargetSession_write_application_response clear_noise rfc_cbor [4] T5 = (Inr gs, T6)"
    by (rule clear_link.session_response_delivered [OF l, of "[4]"]) simp_all
  have "get_child 2 el = None" using el(5) by (simp add: get_child_def)
  then obtain s' el' c where
    "run (drive_op clear_noise rfc_cbor) (map (Pair []) (session_events 2 5 m2' f2 fs [4]))
       (ready_transport 6 1 lease (replicate 32 9) sb) = (map Inr (session_answers 2 5 m1' f1 [1, 2, 3] gs), s')"
    "tt_phase s' = P_Eligible el'" "2 \<noteq> el_lease_stream el'" "get_child 2 el' = Some c" "ch_applications c = 1"
    using session_conversation [OF el(1) _ _ _ el(6) _ _ _ h(1) [folded el(3,4)] h(2-5) o r, of 2] el(2) by fastforce
  with boot show ?thesis by (intro that [of m2 m2' f2 fs m1 ack m1' f1 gs s']) (simp_all add: run_append)
qed

section \<open>Properties\<close>

text \<open>C5: The supervisor serves a session. In an eligible state, on a fresh stream, eight events carry a whole
  session: the supervisor answers the accepted stream with the first handshake message, the Broker's second
  message with the Finished record, the Broker's opening message with exactly those bytes for the runtime,
  and the runtime's response with frames that the Broker reads back as exactly that response.\<close>

theorem supervisor_serves_session:
  assumes link: "protected_link N chan keypair C" and el: "tt_phase s = P_Eligible el"
    and b: "wf_session_binding (el_session_binding el)" "SessionBinding_valid (el_session_binding el)" "length (el_pbs el) = 32"
    and j: "j \<noteq> 0" "j \<noteq> el_lease_stream el" "get_child j el = None"
    and n: "tt_next_token s = n" "0 < n" "n < 2 ^ 64 - 8"
    and p: "p \<noteq> []" "length p \<le> 65536" and q: "q \<noteq> []" "length q \<le> 67108864"
  shows "\<exists>B0 m1 m2 B1 f1 B2 f2 B3 fs B4 gs B5 s'.
    BrokerSession_new N C e2 (el_session_binding el) (el_pbs el) = Inr B0 \<and>
    BrokerSession_read_m1_write_m2 N m1 B0 = (Inr m2, B1) \<and> BrokerSession_read_finished N C f1 B1 = (Inr (), B2) \<and>
    BrokerSession_write_finished N C B2 = (Inr f2, B3) \<and> BrokerSession_write_session_open N C p B3 = (Inr fs, B4) \<and>
    run (BrokerSession_read_application_response N C) gs B4 =
      (replicate (length gs - 1) (Inr None) @ [Inr (Some q)], B5) \<and>
    run (drive_op N C) (map (Pair e) (session_events j n m2 f2 fs q)) s = (map Inr (session_answers j n m1 f1 p gs), s')"
  using protected_link.session_served [OF link el b j n p q] .

theorem supervisor_serves_session_witness:
  "\<exists>(s :: (clear_hs, clear_tr) TargetTransport) el m2 f2 fs m1 f1 gs s'. tt_phase s = P_Eligible el \<and>
     run (drive_op clear_noise rfc_cbor) (map (Pair []) (session_events 2 5 m2 f2 fs [4])) s =
       (map Inr (session_answers 2 5 m1 f1 [1, 2, 3] gs), s')"
proof -
  obtain lease :: "clear_tr LeaseCore" and sb where sb: "wf_session_binding sb" "SessionBinding_valid sb"
    by (rule demo_ready)
  obtain el where el: "tt_phase (ready_transport 6 1 lease (replicate 32 9) sb :: (clear_hs, clear_tr) TargetTransport) = P_Eligible el"
    "el_lease_stream el = 1" "el_pbs el = replicate 32 9" "el_session_binding el = sb" "el_children el = []"
    "tt_next_token (ready_transport 6 1 lease (replicate 32 9) sb :: (clear_hs, clear_tr) TargetTransport) = 5"
    by (rule ready_phase)
  have "get_child 2 el = None" using el(5) by (simp add: get_child_def)
  from supervisor_serves_session [OF clear_link.protected_link_axioms el(1) _ _ _ _ _ this el(6), of "[1, 2, 3]" "[4]" "[]" "[]"]
  obtain m2 f2 fs m1 f1 gs s' where "run (drive_op clear_noise rfc_cbor) (map (Pair []) (session_events 2 5 m2 f2 fs [4]))
      (ready_transport 6 1 lease (replicate 32 9) sb) = (map Inr (session_answers 2 5 m1 f1 [1, 2, 3] gs), s')"
    using el sb by auto
  with el(1) show ?thesis by blast
qed

text \<open>C29: Order of life. From a freshly created supervisor, the lease becomes ready at most once, an
  application message reaches the runtime only after that, and every session that is reported ended
  belongs to the time after it.\<close>

theorem supervisor_ready_before_use:
  assumes "stage (tt_phase s) = 0" "j < length evs"
    "fst (run (drive_op N C) evs s) ! j = Inr y"
    "out_kind y \<in> {K_LeaseReady, K_Application, K_SessionTerminal}"
  shows "(\<exists>i \<le> j. \<exists>x. fst (run (drive_op N C) evs s) ! i = Inr x \<and> out_kind x = K_LeaseReady) \<and>
    (\<forall>i < j. \<forall>x. fst (run (drive_op N C) evs s) ! i = Inr x \<and> out_kind x = K_LeaseReady \<longrightarrow>
       out_kind y \<noteq> K_LeaseReady)"
proof -
  let ?st = "\<lambda>k. run_state (drive_op N C) evs s k"
  have step: "answers (stage (tt_phase (?st k))) (fst (run (drive_op N C) evs s) ! k) (tt_phase (?st (Suc k)))"
    if "k < length evs" for k
    using drive_answers [of "?st k" N C "evs ! k"] that by (simp add: run_nth run_state_Suc)
  have reach: "\<exists>i < k. \<exists>x. fst (run (drive_op N C) evs s) ! i = Inr x \<and> out_kind x = K_LeaseReady"
    if "stage (tt_phase (?st k)) = 4" "k \<le> length evs" for k
    using that
  proof (induction k)
    case (Suc k)
    show ?case
    proof (cases "stage (tt_phase (?st k)) = 4")
      case True
      with Suc show ?thesis using less_Suc_eq by auto
    next
      case False
      with step [of k] Suc.prems have "\<exists>x. fst (run (drive_op N C) evs s) ! k = Inr x \<and> out_kind x = K_LeaseReady"
        by (auto simp: answers_def)
      then show ?thesis by blast
    qed
  qed (simp add: assms(1))
  have mono: "stage (tt_phase (?st k)) \<le> stage (tt_phase (?st l))" if "k \<le> l" "l \<le> length evs" for k l
    by (rule run_state_mono [where g = "\<lambda>s. stage (tt_phase s)", OF drive_stage that])
  have "out_kind y = K_LeaseReady \<or> stage (tt_phase (?st j)) = 4"
    using step [OF assms(2)] assms(3,4) by (auto simp: answers_def)
  then have "\<exists>i \<le> j. \<exists>x. fst (run (drive_op N C) evs s) ! i = Inr x \<and> out_kind x = K_LeaseReady"
    using reach [of j] assms(2,3) by (auto intro: less_imp_le)
  moreover have False if "i < j" "fst (run (drive_op N C) evs s) ! i = Inr x" "out_kind x = K_LeaseReady"
    "out_kind y = K_LeaseReady" for i x
    using step [of i] step [OF assms(2)] that assms(2,3) mono [of "Suc i" j] by (simp add: answers_def)
  ultimately show ?thesis by blast
qed




theorem supervisor_ready_before_use_witness:
  "\<exists>m2 y i x. fst (run (drive_op clear_noise rfc_cbor) (map (Pair []) (bootstrap_events 1 m2))
       (fresh_transport demo_bootstrap_binding (replicate 32 6) 6)) ! 3 = Inr y \<and> out_kind y = K_LeaseReady \<and> i \<le> 3 \<and>
     fst (run (drive_op clear_noise rfc_cbor) (map (Pair []) (bootstrap_events 1 m2))
       (fresh_transport demo_bootstrap_binding (replicate 32 6) 6)) ! i = Inr x \<and> out_kind x = K_LeaseReady"
proof -
  obtain m1 m2 ack A and lease :: "clear_tr LeaseCore" where
    r: "run (drive_op clear_noise rfc_cbor) (map (Pair []) (bootstrap_events 1 m2))
      (fresh_transport demo_bootstrap_binding (replicate 32 6) 6) =
      (map Inr (bootstrap_answers 1 m1 ack 6), ready_transport 6 1 lease (replicate 32 9) (binding_of_ack A))"
    by (rule clear_link.supervisor_becomes_ready [of "replicate 32 6" "replicate 32 6" demo_bootstrap_binding
          "replicate 32 9" 6 1 "[]" "[]"]) (simp_all add: valid_generation_def)
  define y where "y = bootstrap_answers 1 m1 ack 6 ! 3"
  have y: "fst (run (drive_op clear_noise rfc_cbor) (map (Pair []) (bootstrap_events 1 m2))
      (fresh_transport demo_bootstrap_binding (replicate 32 6) 6)) ! 3 = Inr y" "out_kind y = K_LeaseReady"
    by (simp_all add: r y_def bootstrap_answers_def)
  have "stage (tt_phase (fresh_transport demo_bootstrap_binding (replicate 32 6) 6 :: (clear_hs, clear_tr) TargetTransport)) = 0"
    by (simp add: fresh_transport_def)
  moreover have "3 < length (map (Pair []) (bootstrap_events 1 m2))" by (simp add: bootstrap_events_def)
  ultimately show ?thesis using supervisor_ready_before_use [OF _ _ y(1)] y by blast
qed

end
