(* ===== verification/Supervisor_Ends.thy ===== *)
theory Supervisor_Ends
  imports Supervisor_Link
begin

text \<open>
  Three relations between the answer to an event and the phase it leaves, proved with the judgement of
  \<open>Supervisor_Life\<close>: what the supervisor is bound to never changes, the end of a session reports its count of
  application messages, and over the history of a supervisor that count says truthfully whether a message of
  the session reached the runtime.
\<close>

section \<open>What the supervisor is bound to\<close>

definition bound_keys :: "BootstrapBinding \<Rightarrow> bytes \<Rightarrow> SessionBinding \<Rightarrow> bool" where
  "bound_keys b pbs sb \<longleftrightarrow> length pbs = 32 \<and> sb_lease_id sb = bb_lease_id b \<and> SessionBinding_valid sb \<and>
     sb_listener_epoch sb = 1"

fun bound :: "BootstrapBinding \<Rightarrow> ('h, 't) Phase \<Rightarrow> bool" where
  "bound b (P_AwaitBootstrap b' _) = (b' = b)"
| "bound b (P_BootstrapM1Pending _ tb _ _ _) = (tb_binding tb = b)"
| "bound b (P_BootstrapM2 _ tb _ _) = (tb_binding tb = b)"
| "bound b (P_BootstrapAckPending _ _ pbs sb _ _ _) = bound_keys b pbs sb"
| "bound b (P_Eligible el) = bound_keys b (el_pbs el) (el_session_binding el)"
| "bound b (P_Terminal _) = True"

abbreviation stays_bound :: "BootstrapBinding \<Rightarrow> ('h, 't) Phase \<Rightarrow> ('h, 't, Outcome) sup \<Rightarrow> bool" where
  "stays_bound b \<equiv> phased (\<lambda>_. bound b)"

lemma put_child_keeps [simp]:
  "el_pbs (put_child k c el) = el_pbs el" "el_session_binding (put_child k c el) = el_session_binding el"
  by (simp_all add: put_child_def)

text \<open>Ending a session, or replacing its timer, changes no field of the lease.\<close>

definition children_only :: "('h, 't) Eligible \<Rightarrow> ('h, 't) Phase \<Rightarrow> bool" where
  "children_only el q \<longleftrightarrow> (\<exists>cs. q = P_Eligible (el\<lparr>el_children := cs\<rparr>))"

lemma children_only_put: "children_only el (P_Eligible (put_child k c el))" "children_only el (P_Eligible el)"
  by (auto simp: children_only_def put_child_def intro: exI [of _ "el_children el"])

lemma child_terminal_phase:
  "tt_phase s = P_Eligible el \<Longrightarrow> children_only el (tt_phase (snd (child_terminal k r p s)))"
  using children_only_put(2) [of el]
  by (auto simp: child_terminal_def children_only_def split: option.split)

lemma child_core_error_phase:
  assumes "tt_phase s = P_Eligible el"
  shows "children_only el (tt_phase (snd (child_core_error k e s)))"
proof -
  obtain r s1 where a: "allocate_token s = (r, s1)" by fastforce
  with assms allocate_token_phase [OF a] child_terminal_phase [of s el] child_terminal_phase [of s1 el] show ?thesis
    by (auto simp: child_core_error_def Let_def children_only_put split: option.split sum.split)
qed

lemma bound_children_only: "bound b (P_Eligible el) \<Longrightarrow> children_only el q \<Longrightarrow> bound b q"
  by (auto simp: children_only_def)

named_theorems bound_rules \<open>introduction rules of the judgement for \<open>bound\<close>\<close>

lemma bound_end [bound_rules]:
  "bound b p \<Longrightarrow> stays_bound b p (st_ok x)" "bound b p \<Longrightarrow> stays_bound b p (st_fail e)"
  "stays_bound b p (st_out (lease_terminal r peer))" "stays_bound b p (st_out (core_lease_error err))"
  by (simp_all add: phased_def st_simps st_out_def lease_terminal_def core_lease_error_def Let_def)

lemma bound_child_end [bound_rules]:
  assumes "bound b (P_Eligible el)"
  shows "stays_bound b (P_Eligible el) (st_out (child_terminal k r peer))"
    and "stays_bound b (P_Eligible el) (st_out (child_core_error k e))"
  using bound_children_only [OF assms child_terminal_phase] bound_children_only [OF assms child_core_error_phase]
  by (simp_all add: phased_def st_out_def split_beta Let_def)

lemma replace_timer_phase:
  "on_eligible (replace_child_timer k a) s = (r, s') \<Longrightarrow> tt_phase s = P_Eligible el \<Longrightarrow> children_only el (tt_phase s')"
  by (auto simp: on_eligible_def replace_child_timer_def st_simps st_snd_def children_only_put
      split: option.splits sum.splits prod.splits)

lemma bound_replace_timer [bound_rules]:
  assumes "bound b (P_Eligible el)" "\<And>v q. bound b q \<Longrightarrow> stays_bound b q (f v)"
  shows "stays_bound b (P_Eligible el) (st_bind (on_eligible (replace_child_timer k a)) f)"
  unfolding phased_def
proof (intro allI impI)
  fix s :: "('a, 'b) TargetTransport"
  assume p: "tt_phase s = P_Eligible el"
  obtain r s' where m: "on_eligible (replace_child_timer k a) s = (r, s')" by fastforce
  then have "bound b (tt_phase s')" using bound_children_only [OF assms(1) replace_timer_phase [OF _ p]] by blast
  with m assms(2) show "bound b (tt_phase (snd (st_bind (on_eligible (replace_child_timer k a)) f s)))"
    by (cases r) (simp_all add: st_simps phased_def)
qed

section \<open>Every handler stays bound\<close>

lemma new_binding: "TargetBootstrap_new N C e b pk = Inr T \<Longrightarrow> tb_binding T = b"
  by (auto simp: TargetBootstrap_new_def TargetBootstrap_build_def split: if_splits elim!: res_bindE)

lemma write_m1_binding: "TargetBootstrap_write_m1 N C T = (r, T') \<Longrightarrow> tb_binding T' = tb_binding T"
  by (auto simp: TargetBootstrap_write_m1_def split: sum.splits prod.splits)

lemma read_m2_bound:
  assumes "TargetBootstrap_read_m2 N C T m2 g 1 = Inr (A, secret)"
  shows "bound_keys (tb_binding T) secret (binding_of_ack (as_ack A))"
  by (rule read_m2_Inr [OF assms])
    (simp add: bound_keys_def binding_of_ack_def SessionBinding_valid_def valid_generation_def)

lemma bootstrap_connected_bound: "bound b p \<Longrightarrow> stays_bound b p (bootstrap_connected N C e ev)"
  unfolding bootstrap_connected_def
  by (rule phased_cases, simp add: bound_end, rule phased_with, cases p;
      simp split del: if_split; intro bound_rules phased_rules; simp add: new_binding write_m1_binding)

lemma bootstrap_bytes_bound: "bound b p \<Longrightarrow> stays_bound b p (bootstrap_bytes N C ev)"
  unfolding bootstrap_bytes_def
  by (rule phased_with, cases p;
      simp split del: if_split; intro bound_rules phased_rules; auto simp: binding_of_ack_def dest!: read_m2_bound)

lemma lease_bytes_bound: "bound b p \<Longrightarrow> stays_bound b p (lease_bytes N C ev)"
  unfolding lease_bytes_def
  by (rule phased_with, cases p; simp split del: if_split; intro bound_rules phased_rules; simp)

lemma session_accepted_bound: "bound b p \<Longrightarrow> stays_bound b p (session_accepted N C e ev)"
  unfolding session_accepted_def
  by (rule phased_cases, simp add: bound_end, rule phased_with, cases p;
      simp split del: if_split; intro bound_rules phased_rules; simp)

lemma runtime_response_bound: "bound b p \<Longrightarrow> stays_bound b p (runtime_response N C ev)"
  unfolding runtime_response_def
  by (rule phased_cases, simp add: bound_end, rule phased_with, cases p;
      simp split del: if_split; intro bound_rules phased_rules; simp)

lemma session_deliver_bound [bound_rules]:
  "bound b (P_Eligible el) \<Longrightarrow> stays_bound b (P_Eligible el) (session_deliver k fd c session app)"
  unfolding session_deliver_def by (intro bound_rules phased_rules; simp)

lemma session_await_application_bound [bound_rules]:
  "bound b (P_Eligible el) \<Longrightarrow> stays_bound b (P_Eligible el) (session_await_application N C k fs fd c session)"
  unfolding session_await_application_def by (intro bound_rules phased_rules; simp)

lemma session_await_bound [bound_rules]:
  "bound b (P_Eligible el) \<Longrightarrow> stays_bound b (P_Eligible el) (session_await_m2 N C k fs fd c session)"
  "bound b (P_Eligible el) \<Longrightarrow> stays_bound b (P_Eligible el) (session_await_finished N C k fs fd c session)"
  unfolding session_await_m2_def session_await_finished_def by (intro bound_rules phased_rules; simp)+

lemma session_bytes_bound: "bound b p \<Longrightarrow> stays_bound b p (session_bytes N C ev)"
  unfolding session_bytes_def
  by (rule phased_with, cases p; simp split del: if_split; intro bound_rules phased_rules; simp)


lemma stream_bytes_bound: "bound b p \<Longrightarrow> stays_bound b p (stream_bytes N C ev)"
  unfolding stream_bytes_def
  by (rule phased_cases, simp add: bound_end, rule phased_with, cases p;
      simp split del: if_split; intro bound_rules phased_rules bootstrap_bytes_bound lease_bytes_bound session_bytes_bound; simp)

lemma commit_child_write_keeps:
  assumes "commit_child_write k t (el, s) = (r, el', s')"
  shows "el_pbs el' = el_pbs el \<and> el_session_binding el' = el_session_binding el"
  using assms
  by (auto simp: commit_child_write_def reset_child_phase_timer_def replace_child_timer_def st_simps st_snd_def st_out_def
      Let_def split: prod.splits option.splits ChildPhase.splits if_splits sum.splits)

lemma bound_commit [bound_rules]:
  "bound b (P_Eligible el) \<Longrightarrow> stays_bound b p (\<lambda>s. let (r, el, s) = commit_child_write k t (el, set_phase q s)
     in (r, set_phase (P_Eligible el) s))"
  using commit_child_write_keeps by (fastforce simp: phased_def split: prod.split)

lemma full_write_committed_bound: "bound b p \<Longrightarrow> stays_bound b p (full_write_committed ev)"
  unfolding full_write_committed_def
  by (rule phased_cases, simp add: bound_end, rule phased_with, cases p;
      simp split del: if_split; intro bound_rules phased_rules; simp)

lemma stream_eof_bound:
  assumes "stream_eof ev s = (r, s')" "bound b (tt_phase s)"
  shows "bound b (tt_phase s')"
proof (cases "tt_phase s")
  case (P_Eligible el)
  have "bound b (tt_phase (snd (child_core_error k e t)))" if "tt_phase t = P_Eligible (put_child k' c el)" for k k' c e t
    using bound_children_only [OF _ child_core_error_phase [OF that]] assms(2) P_Eligible by simp
  with P_Eligible assms show ?thesis
    by (auto simp: stream_eof_def Let_def st_simps st_out_def upd_child_def on_eligible_def core_lease_error_def lease_terminal_def
        split: prod.splits sum.splits option.splits if_splits) (metis snd_conv tt_phase_simps(1))+
qed (use assms in \<open>auto simp: stream_eof_def Let_def st_simps st_out_def core_lease_error_def lease_terminal_def
        split: prod.splits sum.splits if_splits\<close>)

lemma stream_end_bound: "bound b p \<Longrightarrow> stays_bound b p (stream_end ev reason)"
  unfolding stream_end_def
  by (rule phased_with, cases p; simp add: Let_def split del: if_split; intro bound_rules phased_rules; simp)

lemma stream_closed_bound: "bound b p \<Longrightarrow> stays_bound b p (stream_closed ev)"
  using stream_end_bound [of b _ ev]
  by (auto simp: stream_closed_def Let_def phased_def st_simps split: prod.split sum.split option.split dest!: stream_eof_bound)

lemma lease_tick_bound: "bound b p \<Longrightarrow> stays_bound b p (lease_tick t)"
  unfolding lease_tick_def
  by (rule phased_with, cases p; simp split del: if_split; intro bound_rules phased_rules; simp)

lemma child_timeout_bound: "bound b p \<Longrightarrow> stays_bound b p (child_timeout k reason)"
  unfolding child_timeout_def
  by (rule phased_with, cases p; simp split del: if_split; intro bound_rules phased_rules; simp)

lemma timer_fired_bound: "bound b p \<Longrightarrow> stays_bound b p (timer_fired ev)"
  unfolding timer_fired_def
  by (rule phased_cases(1), simp add: bound_end, rule phased_with; intro phased_rules;
      simp add: bound_end lease_tick_bound child_timeout_bound split: TimerAction.split)

lemma eligibility_lost_bound: "stays_bound b p (st_out eligibility_lost)"
  by (auto simp: phased_def st_out_def eligibility_lost_def lease_terminal_def Let_def split: Phase.split option.split)

lemma drive_bound:
  assumes "bound b (tt_phase s)"
  shows "bound b (tt_phase (snd (drive_op N C i s)))"
proof (cases "\<exists>t. tt_phase s = P_Terminal t")
  case False
  have "stays_bound b (tt_phase s) (drive N C (fst i) (snd i))"
    unfolding drive_def
    using False assms
    by (intro phased_with, cases "ev_tag (snd i)"; simp add: live_phase_case Let_def bound_end timer_fired_bound
        bootstrap_connected_bound full_write_committed_bound session_accepted_bound runtime_response_bound
        stream_bytes_bound stream_closed_bound eligibility_lost_bound)
  then show ?thesis by (simp add: phased_def drive_op_def)
qed (use assms in \<open>auto simp: drive_terminal\<close>)


section \<open>The end of a session\<close>

definition handoff_of :: "('h, 't) Child \<Rightarrow> HandoffState" where
  "handoff_of c = (if has_application c then HandoffPossibleOrConfirmed else NotHandedOff)"

text \<open>Seen from the eligible state \<open>el\<close> before the event: a reported end names a child of it, says whether
  that child had an application message, and leaves no such child.\<close>

definition truthful :: "('h, 't) Eligible \<Rightarrow> SupervisorError + Outcome \<Rightarrow> ('h, 't) Phase \<Rightarrow> bool" where
  "truthful el r q \<longleftrightarrow> (\<forall>x. r = Inr x \<and> out_kind x = K_SessionTerminal \<longrightarrow>
     (\<exists>c el'. get_child (out_stream_id x) el = Some c \<and> out_handoff x = handoff_of c \<and>
        q = P_Eligible el' \<and> get_child (out_stream_id x) el' = None))"

lemma truthful_simps [simp]:
  "truthful el (Inl e) q" "out_kind x \<noteq> K_SessionTerminal \<Longrightarrow> truthful el (Inr x) q"
  by (simp_all add: truthful_def)

definition child_like :: "('h, 't) Eligible \<Rightarrow> u64 \<Rightarrow> ('h, 't) Eligible \<Rightarrow> bool" where
  "child_like el k el1 \<longleftrightarrow> (\<exists>c c1. get_child k el = Some c \<and> get_child k el1 = Some c1 \<and>
     ch_applications c1 = ch_applications c)"

lemma get_child_decoder [simp]: "get_child k (el\<lparr>el_lease_decoder := d\<rparr>) = get_child k el"
  by (simp add: get_child_def)

lemma child_like_simps:
  "get_child k el = Some c \<Longrightarrow> child_like el k (el\<lparr>el_lease_decoder := d\<rparr>)"
  "get_child k el = Some c \<Longrightarrow> child_like el k el"
  "get_child k el = Some c \<Longrightarrow> ch_applications c1 = ch_applications c \<Longrightarrow> child_like el k (put_child k c1 el1)"
  by (simp_all add: child_like_def)

lemma child_terminal_truthful:
  assumes "tt_phase s = P_Eligible el1" "child_like el k el1"
  shows "truthful el (Inr (fst (child_terminal k r p s))) (tt_phase (snd (child_terminal k r p s)))"
  using assms
  by (auto simp: child_terminal_def child_like_def truthful_def handoff_of_def has_application_def Outcome_terminal_def
      Outcome_stream_def Outcome_new_def get_child_def delete_conv')

lemma child_core_error_truthful:
  assumes "tt_phase s = P_Eligible el1" "child_like el k el1"
  shows "truthful el (Inr (fst (child_core_error k e s))) (tt_phase (snd (child_core_error k e s)))"
proof -
  obtain r s1 where a: "allocate_token s = (r, s1)" by fastforce
  from assms a allocate_token_phase [OF a] child_terminal_truthful [OF assms]
    child_terminal_truthful [of s1, OF _ assms(2)] show ?thesis
    by (auto simp: child_core_error_def Let_def child_like_def truthful_def Outcome_write_def Outcome_stream_def
        Outcome_new_def split: option.split sum.split)
qed

named_theorems truth_rules \<open>introduction rules of the judgement for \<open>truthful\<close>\<close>

lemma truth_end [truth_rules]:
  "out_kind x \<noteq> K_SessionTerminal \<Longrightarrow> phased (truthful el) p (st_ok x)" "phased (truthful el) p (st_fail e)"
  "phased (truthful el) p (st_out (lease_terminal r peer))" "phased (truthful el) p (st_out (core_lease_error err))"
  by (simp_all add: phased_def st_simps st_out_def lease_terminal_def core_lease_error_def Let_def)

lemma truth_child_end [truth_rules]:
  assumes "child_like el k el1"
  shows "phased (truthful el) (P_Eligible el1) (st_out (child_terminal k r peer))"
    and "phased (truthful el) (P_Eligible el1) (st_out (child_core_error k e))"
  using child_terminal_truthful [OF _ assms] child_core_error_truthful [OF _ assms]
  by (simp_all add: phased_def st_out_def split_beta Let_def)

lemma truth_replace_timer [truth_rules]:
  assumes "\<And>v q. phased (truthful el) q (f v)"
  shows "phased (truthful el) (P_Eligible el1) (st_bind (on_eligible (replace_child_timer k a)) f)"
  using assms by (auto simp: phased_def st_simps split: prod.split sum.split)

lemma session_deliver_truth [truth_rules]:
  "phased (truthful el) (P_Eligible el1) (session_deliver k fd c session app)"
  unfolding session_deliver_def by (intro truth_rules phased_rules; simp)

lemma session_await_application_truth [truth_rules]:
  "child_like el k el1 \<Longrightarrow> phased (truthful el) (P_Eligible el1) (session_await_application N C k fs fd c session)"
  unfolding session_await_application_def by (intro truth_rules phased_rules; simp)

lemma session_await_truth [truth_rules]:
  "child_like el k el1 \<Longrightarrow> phased (truthful el) (P_Eligible el1) (session_await_m2 N C k fs fd c session)"
  "child_like el k el1 \<Longrightarrow> phased (truthful el) (P_Eligible el1) (session_await_finished N C k fs fd c session)"
  unfolding session_await_m2_def session_await_finished_def by (intro truth_rules phased_rules; simp)+

lemma session_bytes_truth: "phased (truthful el) (P_Eligible el) (session_bytes N C ev)"
  unfolding session_bytes_def
  by (rule phased_with; simp split del: if_split; intro truth_rules phased_rules; simp add: child_like_simps Let_def)

lemma runtime_response_truth: "phased (truthful el) (P_Eligible el) (runtime_response N C ev)"
  unfolding runtime_response_def
  by (rule phased_cases, simp add: truth_end, rule phased_with;
      simp split del: if_split; intro truth_rules phased_rules; simp add: child_like_simps)


lemma lease_bytes_truth: "phased (truthful el) (P_Eligible el) (lease_bytes N C ev)"
  unfolding lease_bytes_def
  by (rule phased_with; simp split del: if_split; intro truth_rules phased_rules; simp)

lemma stream_bytes_truth: "phased (truthful el) (P_Eligible el) (stream_bytes N C ev)"
  unfolding stream_bytes_def
  by (rule phased_cases, simp add: truth_end, rule phased_with;
      simp split del: if_split; intro truth_rules phased_rules lease_bytes_truth session_bytes_truth)

lemma session_accepted_truth: "phased (truthful el) (P_Eligible el) (session_accepted N C e ev)"
  unfolding session_accepted_def
  by (rule phased_cases, simp add: truth_end, rule phased_with;
      simp split del: if_split; intro truth_rules phased_rules; simp)

lemma stream_eof_truth:
  assumes "stream_eof ev s = (r, s')" "tt_phase s = P_Eligible el"
  shows "(\<exists>x. r = Inr (Some x) \<and> truthful el (Inr x) (tt_phase s')) \<or>
    r = Inr None \<and> (\<exists>el1. tt_phase s' = P_Eligible el1 \<and>
      (get_child (ev_stream_id ev) el \<noteq> None \<longrightarrow> child_like el (ev_stream_id ev) el1) \<and>
      (get_child (ev_stream_id ev) el = None \<longrightarrow> get_child (ev_stream_id ev) el1 = None))"
proof -
  have eof: "ch_applications c' = ch_applications c" if "Child_eof_error c = (r, c')" for r and c c' :: "('a, 'b) Child"
    using that by (auto simp: Child_eof_error_def Let_def split: prod.splits sum.splits option.splits if_splits)
  have err: "truthful el (Inr x) (tt_phase t')"
    if "child_core_error (ev_stream_id ev) e t = (x, t')" "tt_phase t = P_Eligible (put_child (ev_stream_id ev) c' el)"
      "get_child (ev_stream_id ev) el = Some c" "ch_applications c' = ch_applications c" for x e t t' c c'
    using child_core_error_truthful [OF that(2) child_like_simps(3) [OF that(3,4)], of e] that(1) by simp
  show ?thesis
    using assms
    by (auto simp: stream_eof_def Let_def st_simps st_out_def upd_child_def on_eligible_def core_lease_error_def lease_terminal_def
        child_like_simps
        dest: eof dest!: err split: prod.splits sum.splits option.splits if_splits)
qed


lemma stream_end_truth:
  assumes "tt_phase s = P_Eligible el1" "get_child (ev_stream_id ev) el \<noteq> None \<longrightarrow> child_like el (ev_stream_id ev) el1"
    "get_child (ev_stream_id ev) el = None \<longrightarrow> get_child (ev_stream_id ev) el1 = None"
  shows "truthful el (fst (stream_end ev reason s)) (tt_phase (snd (stream_end ev reason s)))"
  using assms child_terminal_truthful [OF assms(1)]
  by (auto simp: stream_end_def st_simps st_out_def Let_def lease_terminal_def split_beta)

lemma stream_closed_truth: "phased (truthful el) (P_Eligible el) (stream_closed ev)"
  unfolding phased_def
proof (intro allI impI)
  fix s :: "('a, 'b) TargetTransport"
  assume p: "tt_phase s = P_Eligible el"
  obtain r s' where e: "stream_eof ev s = (r, s')" by fastforce
  have io: "truthful el (fst (stream_end ev reason s)) (tt_phase (snd (stream_end ev reason s)))" for reason
    by (rule stream_end_truth [OF p]) (auto simp: child_like_simps)
  from stream_eof_truth [OF e p] show "truthful el (fst (stream_closed ev s)) (tt_phase (snd (stream_closed ev s)))"
    using e io by (auto simp: stream_closed_def st_simps Let_def intro!: stream_end_truth)
qed

lemma timer_fired_truth: "phased (truthful el) (P_Eligible el) (timer_fired ev)"
proof -
  have "phased (truthful el) (P_Eligible el) (lease_tick t)" for t
    unfolding lease_tick_def by (rule phased_with; simp split del: if_split; intro truth_rules phased_rules; simp)
  moreover have "phased (truthful el) (P_Eligible el) (child_timeout k reason)" for k reason
    unfolding child_timeout_def
    by (rule phased_with; simp split del: if_split; intro truth_rules phased_rules; auto simp: child_like_simps)
  ultimately show ?thesis
    unfolding timer_fired_def
    by (intro phased_cases(1), simp add: truth_end, rule_tac phased_with; intro phased_rules;
        simp add: truth_end split: TimerAction.split)
qed

lemma drive_truth:
  assumes "ev_tag ev \<noteq> Ev_FullWriteCommitted"
  shows "phased (truthful el) (P_Eligible el) (drive N C e ev)"
proof -
  have "phased (truthful el) (P_Eligible el) (bootstrap_connected N C e ev)"
    unfolding bootstrap_connected_def by (intro phased_cases(1) phased_with; simp add: truth_end)
  moreover have "phased (truthful el) (P_Eligible el) (st_out eligibility_lost)"
    by (auto simp: phased_def st_out_def eligibility_lost_def lease_terminal_def Let_def split: option.split)
  ultimately show ?thesis
    unfolding drive_def using assms
    by (intro phased_with, cases "ev_tag ev"; simp add: Let_def truth_end timer_fired_truth session_accepted_truth
        runtime_response_truth stream_bytes_truth stream_closed_truth)
qed


section \<open>What the runtime was given\<close>

text \<open>The history of a supervisor: its events, in order, with their answers. A stream is accepted for a
  session, a message of the session is delivered to the runtime, and a delivery may be cut short: the
  message was counted, and then there was no token left for the timer of the runtime's answer.\<close>

type_synonym answered = "Event \<times> (SupervisorError + Outcome)"

definition accepts :: "u64 \<Rightarrow> answered \<Rightarrow> bool" where
  "accepts k a \<longleftrightarrow> ev_tag (fst a) = Ev_SessionAccepted \<and> ev_stream_id (fst a) = k \<and> \<not> is_err (snd a)"

fun delivers :: "u64 \<Rightarrow> answered \<Rightarrow> bool" where
  "delivers k (ev, Inl e) = False"
| "delivers k (ev, Inr x) = (out_kind x = K_Application \<and> out_stream_id x = k)"

definition cuts_short :: "u64 \<Rightarrow> answered \<Rightarrow> bool" where
  "cuts_short k a \<longleftrightarrow> ev_tag (fst a) = Ev_StreamBytes \<and> ev_stream_id (fst a) = k \<and> snd a = Inl Internal"

text \<open>The part of the history since the stream was last accepted, and what happened in it.\<close>

definition this_session :: "u64 \<Rightarrow> answered list \<Rightarrow> answered list" where
  "this_session k hist = takeWhile (\<lambda>a. \<not> accepts k a) (rev hist)"

definition was_delivered :: "u64 \<Rightarrow> answered list \<Rightarrow> bool" where
  "was_delivered k hist \<longleftrightarrow> list_ex (delivers k) (this_session k hist)"

definition was_cut_short :: "u64 \<Rightarrow> answered list \<Rightarrow> bool" where
  "was_cut_short k hist \<longleftrightarrow> list_ex (cuts_short k) (this_session k hist)"

lemma history_snoc:
  "was_delivered k (hist @ [a]) \<longleftrightarrow> \<not> accepts k a \<and> (delivers k a \<or> was_delivered k hist)"
  "was_cut_short k (hist @ [a]) \<longleftrightarrow> \<not> accepts k a \<and> (cuts_short k a \<or> was_cut_short k hist)"
  by (simp_all add: was_delivered_def was_cut_short_def this_session_def)

text \<open>The counters of the sessions, and how an event moves them: an accepted stream begins at zero, a
  delivery makes its counter positive, and only a delivery does, or one that was cut short.\<close>

fun apps :: "('h, 't) Phase \<Rightarrow> u64 \<Rightarrow> u64 option" where
  "apps (P_Eligible el) k = map_option ch_applications (get_child k el)"
| "apps _ k = None"

definition counted :: "('h, 't) Phase \<Rightarrow> Event \<Rightarrow> SupervisorError + Outcome \<Rightarrow> ('h, 't) Phase \<Rightarrow> bool" where
  "counted p ev r q \<longleftrightarrow> (\<forall>k n. apps q k = Some n \<longrightarrow>
     (if accepts k (ev, r) then n = 0
      else \<not> delivers k (ev, r) \<and> apps p k = Some n \<or>
        (delivers k (ev, r) \<or> cuts_short k (ev, r)) \<and> apps p k \<noteq> None \<and> 0 < n))"

text \<open>A phase in which sessions may have ended, and nothing else happened to the counters.\<close>

definition kept :: "('h, 't) Phase \<Rightarrow> ('h, 't) Phase \<Rightarrow> bool" where
  "kept p q \<longleftrightarrow> (\<forall>k. apps q k = None \<or> apps q k = apps p k)"

lemma kept_simps [simp]:
  "kept p p" "kept p (P_AwaitBootstrap b1 b2)" "kept p (P_BootstrapM1Pending c1 c2 c3 c4 c5)"
  "kept p (P_BootstrapM2 d1 d2 d3 d4)" "kept p (P_BootstrapAckPending e1 e2 e3 e4 e5 e6 e7)" "kept p (P_Terminal t)"
  by (simp_all add: kept_def)

lemma kept_trans: "kept p q \<Longrightarrow> kept q r \<Longrightarrow> kept p r"
  unfolding kept_def by metis

lemma apps_sel [simp]:
  "apps (P_Eligible (el\<lparr>el_lease_decoder := d\<rparr>)) = apps (P_Eligible el)"
  "apps (P_Eligible (el\<lparr>el_lease_write := w\<rparr>)) = apps (P_Eligible el)"
  "apps (P_Eligible (el\<lparr>el_lease_frame_timer := t\<rparr>)) = apps (P_Eligible el)"
  "apps (P_Eligible (el\<lparr>el_lease_tick_timer := t\<rparr>)) = apps (P_Eligible el)"
  "apps (P_Eligible (el\<lparr>el_lease_ticks := n\<rparr>)) = apps (P_Eligible el)"
  "apps (P_Eligible (el\<lparr>el_missed_ticks := n\<rparr>)) = apps (P_Eligible el)"
  "apps (P_Eligible (el\<lparr>el_lease := l\<rparr>)) = apps (P_Eligible el)"
  by (auto simp: get_child_def)

lemma apps_put [simp]:
  "apps (P_Eligible (put_child k c el)) = (apps (P_Eligible el))(k \<mapsto> ch_applications c)"
  by auto

lemma kept_put: "kept p (P_Eligible el) \<Longrightarrow> apps p k = Some (ch_applications c) \<Longrightarrow> kept p (P_Eligible (put_child k c el))"
  by (simp add: kept_def)

lemma counted_kept:
  assumes "kept p q"
  shows "counted p ev (Inl e) q"
    and "out_kind x \<noteq> K_Application \<Longrightarrow> ev_tag ev \<noteq> Ev_SessionAccepted \<Longrightarrow> counted p ev (Inr x) q"
proof -
  have "apps p k = Some n" if "apps q k = Some n" for k n
    using assms that by (metis kept_def option.simps(3))
  then show "counted p ev (Inl e) q"
    "out_kind x \<noteq> K_Application \<Longrightarrow> ev_tag ev \<noteq> Ev_SessionAccepted \<Longrightarrow> counted p ev (Inr x) q"
    by (simp_all add: counted_def accepts_def)
qed

lemma counted_none: "(\<And>k. apps q k = None) \<Longrightarrow> counted p ev r q"
  by (simp add: counted_def)

named_theorems count_rules \<open>introduction rules of the judgement for \<open>counted\<close>\<close>

lemma count_end [count_rules]:
  "kept p0 p \<Longrightarrow> phased (counted p0 ev) p (st_fail e)"
  "kept p0 p \<Longrightarrow> out_kind x \<noteq> K_Application \<Longrightarrow> ev_tag ev \<noteq> Ev_SessionAccepted \<Longrightarrow> phased (counted p0 ev) p (st_ok x)"
  "phased (counted p0 ev) p (st_out (lease_terminal r peer))" "phased (counted p0 ev) p (st_out (core_lease_error err))"
  by (simp_all add: phased_def st_simps counted_kept st_out_def lease_terminal_def core_lease_error_def Let_def counted_none)

lemma count_error [count_rules]: "kept p0 p \<Longrightarrow> counted p0 ev (Inl e) p"
  by (rule counted_kept)

lemma child_terminal_kept:
  "kept (tt_phase s) (tt_phase (snd (child_terminal k r peer s)))"
  by (auto simp: child_terminal_def kept_def get_child_def delete_conv' split: Phase.split option.split)

lemma child_core_error_kept: "kept (tt_phase s) (tt_phase (snd (child_core_error k e s)))"
proof -
  obtain r s1 where a: "allocate_token s = (r, s1)" by fastforce
  from a allocate_token_phase [OF a] child_terminal_kept [of s] child_terminal_kept [of s1] show ?thesis
    by (auto simp: child_core_error_def Let_def intro!: kept_put split: option.split sum.split Phase.split)
qed

lemma count_child_end [count_rules]:
  assumes "kept p0 p" "ev_tag ev \<noteq> Ev_SessionAccepted"
  shows "phased (counted p0 ev) p (st_out (child_terminal k r peer))"
    and "phased (counted p0 ev) p (st_out (child_core_error k e))"
proof -
  have "out_kind (fst (child_terminal k r peer s)) \<noteq> K_Application" "out_kind (fst (child_core_error k e s)) \<noteq> K_Application"
    for s :: "('a, 'b) TargetTransport"
    using child_core_error_kind [of k e s] by (auto simp: child_terminal_kind)
  moreover have "kept p0 (tt_phase (snd (child_terminal k r peer s)))" "kept p0 (tt_phase (snd (child_core_error k e s)))"
    if "tt_phase s = p" for s
    using that assms(1) kept_trans [OF _ child_terminal_kept] kept_trans [OF _ child_core_error_kept] by blast+
  ultimately show "phased (counted p0 ev) p (st_out (child_terminal k r peer))"
    "phased (counted p0 ev) p (st_out (child_core_error k e))"
    using assms(2) by (simp_all add: phased_def st_out_def split_beta Let_def counted_kept)
qed

lemma replace_timer_apps:
  assumes "on_eligible (replace_child_timer k a) s = (r, s')" "tt_phase s = P_Eligible el" "get_child k el = Some c"
  shows "apps (tt_phase s') = apps (P_Eligible el)" "r = Inl e \<Longrightarrow> e = Internal"
proof -
  show "apps (tt_phase s') = apps (P_Eligible el)"
    using assms by (auto simp: on_eligible_def replace_child_timer_def st_simps st_snd_def
        split: option.splits sum.splits prod.splits)
  show "r = Inl e \<Longrightarrow> e = Internal"
    using assms by (auto simp: on_eligible_def replace_child_timer_def schedule_timer_def allocate_token_def st_simps st_snd_def
        Let_def split: option.splits sum.splits prod.splits if_splits)
qed

text \<open>The delivery itself.\<close>

lemma checked_add_pos: "checked_add x 1 = Some n \<Longrightarrow> 0 < n"
  by (drule checked_add_SomeD) (simp add: word_less_nat_alt)

lemma counted_delivery:
  assumes "kept p0 (P_Eligible el)" "apps p0 k \<noteq> None" "0 < n"
    "apps q = (apps (P_Eligible el))(k \<mapsto> n)" "ev_tag ev = Ev_StreamBytes" "ev_stream_id ev = k"
    "r = Inl Internal \<or> (\<exists>x. r = Inr x \<and> out_kind x = K_Application \<and> out_stream_id x = k)"
  shows "counted p0 ev r q"
proof -
  have "apps p0 j = Some m" if "apps (P_Eligible el) j = Some m" for j m
    using assms(1) that by (metis kept_def option.simps(3))
  with assms(2-7) show ?thesis by (auto simp: counted_def accepts_def cuts_short_def)
qed

lemma out_stream_id_simps [simp]:
  "out_stream_id (Outcome_deadline t ms x) = out_stream_id x" "out_stream_id (Outcome_application k b) = k"
  by (simp_all add: Outcome_deadline_def Outcome_application_def Outcome_stream_def)

lemma session_deliver_count [count_rules]:
  assumes kept: "kept p0 (P_Eligible el)" and c: "apps p0 k = Some (ch_applications c)"
    and ev: "ev_tag ev = Ev_StreamBytes" "ev_stream_id ev = k"
  shows "phased (counted p0 ev) (P_Eligible el) (session_deliver k fd c session app)"
proof -
  have timer: "phased (counted p0 ev) (P_Eligible (put_child k (c\<lparr>ch_applications := n, ch_phase := ph\<rparr>) el))
      (st_bind (on_eligible (replace_child_timer k a)) (\<lambda>timer. st_ok (Outcome_deadline timer ms (Outcome_application k b))))"
    if n: "0 < n" for n ph a ms b
    unfolding phased_def
  proof (intro allI impI)
    fix s :: "('a, 'b) TargetTransport"
    assume p: "tt_phase s = P_Eligible (put_child k (c\<lparr>ch_applications := n, ch_phase := ph\<rparr>) el)"
    obtain r s' where m: "on_eligible (replace_child_timer k a) s = (r, s')" by fastforce
    note apps = replace_timer_apps [OF m p, of "c\<lparr>ch_applications := n, ch_phase := ph\<rparr>"]
    have "counted p0 ev r' (tt_phase s')"
      if "r' = Inl Internal \<or> (\<exists>x. r' = Inr x \<and> out_kind x = K_Application \<and> out_stream_id x = k)" for r'
      by (rule counted_delivery [OF kept _ n _ ev that]) (use apps c in simp_all)
    with m apps(2) show "counted p0 ev (fst (st_bind (on_eligible (replace_child_timer k a))
        (\<lambda>timer. st_ok (Outcome_deadline timer ms (Outcome_application k b))) s))
      (tt_phase (snd (st_bind (on_eligible (replace_child_timer k a))
        (\<lambda>timer. st_ok (Outcome_deadline timer ms (Outcome_application k b))) s)))"
      by (cases r) (simp_all add: st_simps)
  qed
  have framed: "phased (counted p0 ev) (P_Eligible (put_child k (c\<lparr>ch_applications := n, ch_phase := ph, ch_phase_timer := None\<rparr>) el))
      (st_bind (st_upd (remove_timer t)) (\<lambda>_. st_ok (Outcome_deadline timer ms (Outcome_application k b))))"
    if n: "0 < n" for n ph t timer ms b
    using counted_delivery [OF kept _ n _ ev] c by (simp add: phased_def st_simps)
  show ?thesis
    unfolding session_deliver_def Let_def
    by (intro phased_cases phased_upd_child; (drule checked_add_pos)?;
        simp add: timer framed count_rules kept kept_put c ev)
qed

lemma session_await_application_count [count_rules]:
  "kept p0 (P_Eligible el) \<Longrightarrow> apps p0 k = Some (ch_applications c) \<Longrightarrow> ev_tag ev = Ev_StreamBytes \<Longrightarrow> ev_stream_id ev = k \<Longrightarrow>
     phased (counted p0 ev) (P_Eligible el) (session_await_application N C k fs fd c session)"
  unfolding session_await_application_def by (intro count_rules phased_rules; simp)

lemma session_await_count [count_rules]:
  "kept p0 (P_Eligible el) \<Longrightarrow> apps p0 k = Some (ch_applications c) \<Longrightarrow> ev_tag ev = Ev_StreamBytes \<Longrightarrow> ev_stream_id ev = k \<Longrightarrow>
     phased (counted p0 ev) (P_Eligible el) (session_await_m2 N C k fs fd c session)"
  "kept p0 (P_Eligible el) \<Longrightarrow> apps p0 k = Some (ch_applications c) \<Longrightarrow> ev_tag ev = Ev_StreamBytes \<Longrightarrow> ev_stream_id ev = k \<Longrightarrow>
     phased (counted p0 ev) (P_Eligible el) (session_await_finished N C k fs fd c session)"
  unfolding session_await_m2_def session_await_finished_def by (intro count_rules phased_rules; simp add: kept_put)+

lemma session_bytes_count: "ev_tag ev = Ev_StreamBytes \<Longrightarrow> phased (counted p ev) p (session_bytes N C ev)"
  unfolding session_bytes_def
  by (rule phased_with, cases p; simp split del: if_split; intro count_rules phased_rules; simp add: kept_put Let_def)

lemma runtime_response_count: "ev_tag ev = Ev_RuntimeResponse \<Longrightarrow> phased (counted p ev) p (runtime_response N C ev)"
  unfolding runtime_response_def
  by (rule phased_cases, simp add: count_end, rule phased_with, cases p;
      simp split del: if_split; intro count_rules phased_rules; simp add: kept_put)

lemma bootstrap_bytes_count: "ev_tag ev = Ev_StreamBytes \<Longrightarrow> phased (counted p ev) p (bootstrap_bytes N C ev)"
  unfolding bootstrap_bytes_def
  by (rule phased_with, cases p; simp split del: if_split; intro count_rules phased_rules; simp)

lemma bootstrap_connected_count:
  "ev_tag ev = Ev_BootstrapConnected \<Longrightarrow> phased (counted p ev) p (bootstrap_connected N C e ev)"
  unfolding bootstrap_connected_def
  by (rule phased_cases, simp add: count_end, rule phased_with, cases p;
      simp split del: if_split; intro count_rules phased_rules; simp)

lemma kept_apps: "apps q = apps p \<Longrightarrow> kept p q"
  by (simp add: kept_def)

lemma lease_bytes_count: "ev_tag ev = Ev_StreamBytes \<Longrightarrow> phased (counted p ev) p (lease_bytes N C ev)"
  unfolding lease_bytes_def
  by (rule phased_with, cases p; simp split del: if_split; intro count_rules phased_rules; simp add: kept_apps)

lemma stream_bytes_count: "ev_tag ev = Ev_StreamBytes \<Longrightarrow> phased (counted p ev) p (stream_bytes N C ev)"
  unfolding stream_bytes_def
  by (rule phased_cases, simp add: count_end, rule phased_with, cases p; simp split del: if_split;
      intro count_rules phased_rules bootstrap_bytes_count lease_bytes_count session_bytes_count; simp)

lemma count_accepted:
  assumes "ev_tag ev = Ev_SessionAccepted" "ev_stream_id ev = k" "get_child k el = None" "ch_applications c = 0"
    "out_kind x \<noteq> K_Application"
  shows "phased (counted (P_Eligible el) ev) (P_Eligible (put_child k c el)) (st_ok x)"
  using assms by (auto simp: phased_def st_simps counted_def accepts_def)

lemma session_accepted_count: "ev_tag ev = Ev_SessionAccepted \<Longrightarrow> phased (counted p ev) p (session_accepted N C e ev)"
  unfolding session_accepted_def
  by (rule phased_cases, simp add: count_end, rule phased_with, cases p;
      simp split del: if_split; intro phased_rules count_end(1) count_error count_accepted; simp)

lemma commit_child_write_apps:
  assumes "commit_child_write k t (el, s) = (r, el', s')"
  shows "kept (P_Eligible el) (P_Eligible el')"
  using assms
  by (auto simp: commit_child_write_def reset_child_phase_timer_def replace_child_timer_def st_simps st_snd_def st_out_def
      Let_def kept_def split: prod.splits option.splits ChildPhase.splits if_splits sum.splits)

lemma count_commit [count_rules]:
  assumes "kept p0 (P_Eligible el)" "ev_tag ev \<noteq> Ev_SessionAccepted"
  shows "phased (counted p0 ev) p (\<lambda>s. let (r, el, s) = commit_child_write k t (el, set_phase q s)
     in (r, set_phase (P_Eligible el) s))"
  unfolding phased_def
proof (intro allI impI)
  fix s :: "('a, 'b) TargetTransport"
  obtain r el' s' where m: "commit_child_write k t (el, set_phase q s) = (r, el', s')" by (metis prod.collapse)
  have "kept p0 (P_Eligible el')" using kept_trans [OF assms(1) commit_child_write_apps [OF m]] .
  moreover have "out_kind x \<noteq> K_Application" if "r = Inr x" for x using commit_child_write_kind [OF m that] by auto
  ultimately have "counted p0 ev r (P_Eligible el')" using assms(2) counted_kept by (cases r) blast+
  with m show "counted p0 ev (fst (let (r, el, s) = commit_child_write k t (el, set_phase q s) in (r, set_phase (P_Eligible el) s)))
      (tt_phase (snd (let (r, el, s) = commit_child_write k t (el, set_phase q s) in (r, set_phase (P_Eligible el) s))))"
    by simp
qed

lemma kept_empty: "el_children el = [] \<Longrightarrow> kept p (P_Eligible el)"
  by (simp add: kept_def get_child_def)

lemma full_write_committed_count:
  "ev_tag ev = Ev_FullWriteCommitted \<Longrightarrow> phased (counted p ev) p (full_write_committed ev)"
  unfolding full_write_committed_def
  by (rule phased_cases, simp add: count_end, rule phased_with, cases p;
      simp split del: if_split; intro count_rules phased_rules; simp add: kept_apps kept_empty)

lemma stream_eof_count:
  assumes "stream_eof ev s = (r, s')"
  shows "kept (tt_phase s) (tt_phase s') \<and> (\<forall>x. r = Inr (Some x) \<longrightarrow> out_kind x \<noteq> K_Application)"
proof -
  have eof: "ch_applications c' = ch_applications c" if "Child_eof_error c = (r, c')" for r and c c' :: "('a, 'b) Child"
    using that by (auto simp: Child_eof_error_def Let_def split: prod.splits sum.splits option.splits if_splits)
  have err: "kept (tt_phase s) (tt_phase t') \<and> out_kind x \<noteq> K_Application"
    if "child_core_error k e t = (x, t')" "kept (tt_phase s) (tt_phase t)" for k x e t t'
    using that child_core_error_kind [of k e t] kept_trans [OF that(2) child_core_error_kept [of t k e]] by auto
  show ?thesis
  proof (cases "tt_phase s")
    case (P_Eligible el)
    note defs = stream_eof_def Let_def st_simps st_out_def upd_child_def on_eligible_def core_lease_error_def lease_terminal_def
    show ?thesis
    proof (cases "el_lease_stream el = ev_stream_id ev")
      case True
      with assms P_Eligible show ?thesis by (auto simp: defs kept_apps split: prod.splits sum.splits)
    next
      case other: False
      show ?thesis
      proof (cases "get_child (ev_stream_id ev) el")
        case None
        with assms P_Eligible other show ?thesis by (auto simp: defs)
      next
        case (Some c)
        obtain x c' where c: "Child_eof_error c = (x, c')" by fastforce
        have put: "kept (tt_phase s) (P_Eligible (put_child (ev_stream_id ev) c' el))"
          unfolding P_Eligible using Some eof [OF c] by (intro kept_put) simp_all
        with assms P_Eligible other Some c show ?thesis
          by (cases x) (auto simp: defs split: prod.splits dest!: err)
      qed
    qed
  qed (use assms in \<open>auto simp: stream_eof_def Let_def st_simps st_out_def core_lease_error_def lease_terminal_def
      split: prod.splits sum.splits if_splits\<close>)
qed

lemma stream_end_count:
  assumes "ev_tag ev \<noteq> Ev_SessionAccepted" "kept p0 p"
  shows "phased (counted p0 ev) p (stream_end ev reason)"
  using assms unfolding stream_end_def
  by (intro phased_with, cases p; simp add: Let_def split del: if_split; intro count_rules phased_rules; simp)

lemma stream_closed_count:
  assumes "ev_tag ev \<noteq> Ev_SessionAccepted"
  shows "phased (counted p ev) p (stream_closed ev)"
  unfolding phased_def
proof (intro allI impI)
  fix s :: "('a, 'b) TargetTransport"
  assume p: "tt_phase s = p"
  obtain r s' where e: "stream_eof ev s = (r, s')" by fastforce
  note k = stream_eof_count [OF e, unfolded p]
  have "counted p ev (fst (stream_end ev reason t)) (tt_phase (snd (stream_end ev reason t)))"
    if "kept p (tt_phase t)" for reason t
    using stream_end_count [OF assms that] by (simp add: phased_def)
  with e k p assms show "counted p ev (fst (stream_closed ev s)) (tt_phase (snd (stream_closed ev s)))"
    by (auto simp: stream_closed_def Let_def st_simps intro: counted_kept split: sum.split option.split)
qed

lemma lease_tick_count: "ev_tag ev \<noteq> Ev_SessionAccepted \<Longrightarrow> phased (counted p ev) p (lease_tick t)"
  unfolding lease_tick_def
  by (rule phased_with, cases p; simp split del: if_split; intro count_rules phased_rules; simp add: kept_apps)

lemma child_timeout_count: "ev_tag ev \<noteq> Ev_SessionAccepted \<Longrightarrow> phased (counted p ev) p (child_timeout k reason)"
  unfolding child_timeout_def
  by (rule phased_with, cases p; simp split del: if_split; intro count_rules phased_rules; simp)

lemma timer_fired_count: "ev_tag ev = Ev_TimerFired \<Longrightarrow> phased (counted p ev) p (timer_fired ev)"
  unfolding timer_fired_def
  by (rule phased_cases(1), simp add: count_end, rule phased_with; intro phased_rules count_rules;
      simp add: count_end lease_tick_count child_timeout_count split: TimerAction.split)

lemma eligibility_lost_count: "phased (counted p ev) p (st_out eligibility_lost)"
  by (auto simp: phased_def st_out_def eligibility_lost_def lease_terminal_def Let_def intro!: counted_none
      split: Phase.split option.split)

lemma drive_counted: "counted (tt_phase s) (snd i) (fst (drive_op N C i s)) (tt_phase (snd (drive_op N C i s)))"
proof (cases "\<exists>t. tt_phase s = P_Terminal t")
  case True
  then show ?thesis by (auto simp: drive_terminal counted_none)
next
  case False
  have "phased (counted (tt_phase s) (snd i)) (tt_phase s) (drive N C (fst i) (snd i))"
    unfolding drive_def
    using False
    by (intro phased_with, cases "ev_tag (snd i)"; simp add: live_phase_case Let_def count_end timer_fired_count
        bootstrap_connected_count full_write_committed_count session_accepted_count runtime_response_count
        stream_bytes_count stream_closed_count eligibility_lost_count)
  then show ?thesis by (simp add: phased_def drive_op_def)
qed

text \<open>So in every history a session has a positive counter exactly when one of its messages was delivered,
  deliveries that were cut short apart.\<close>

definition history :: "(bytes \<times> Event) list \<Rightarrow> (SupervisorError + Outcome) list \<Rightarrow> answered list" where
  "history evs rs = zip (map snd evs) rs"

definition tallies :: "answered list \<Rightarrow> ('h, 't) Phase \<Rightarrow> bool" where
  "tallies hist p \<longleftrightarrow> (\<forall>k n. apps p k = Some n \<longrightarrow>
     (was_delivered k hist \<longrightarrow> 0 < n) \<and> (0 < n \<longrightarrow> was_delivered k hist \<or> was_cut_short k hist))"

lemma counted_tallies: "tallies hist p \<Longrightarrow> counted p ev r q \<Longrightarrow> tallies (hist @ [(ev, r)]) q"
  unfolding tallies_def counted_def history_snoc by (metis (full_types) option.exhaust_sel order_less_irrefl)

lemma run_tallies:
  assumes "tallies hist (tt_phase s)"
  shows "tallies (hist @ history evs (fst (run (drive_op N C) evs s))) (tt_phase (snd (run (drive_op N C) evs s)))"
  using assms
proof (induction evs arbitrary: hist s)
  case (Cons i evs)
  from Cons.IH [OF counted_tallies [OF Cons.prems drive_counted]] show ?case
    by (simp add: history_def)
qed (simp add: history_def)

section \<open>Properties\<close>

text \<open>C27: The supervisor keeps to its descriptor. In every eligible state a created supervisor reaches, the
  binding of its sessions carries the lease id of the launch descriptor, listener epoch one and a process
  generation in range, and the bootstrap secret has 32 bytes, so that every session is opened on a valid
  binding.\<close>

theorem supervisor_keeps_binding:
  assumes "TargetTransport_create C rng d = Some (Inr (s0, out))" "s = snd (run (drive_op N C) evs s0)"
    "tt_phase s = P_Eligible el"
  shows "\<exists>parsed. parse_descriptor C d = Inr parsed \<and>
    sb_lease_id (el_session_binding el) = bb_lease_id (pd_binding parsed) \<and>
    SessionBinding_valid (el_session_binding el) \<and> sb_listener_epoch (el_session_binding el) = 1 \<and> length (el_pbs el) = 32"
proof -
  obtain parsed g where d: "parse_descriptor C d = Inr parsed"
    "s0 = fresh_transport (pd_binding parsed) (pd_broker_public_key parsed) g"
    using create_fresh [OF assms(1)] by metis
  have "bound (pd_binding parsed) (tt_phase (snd (run (drive_op N C) evs s0)))"
    by (rule run_pres [where P = "\<lambda>s. bound (pd_binding parsed) (tt_phase s)"])
      (simp_all add: st_pres_def drive_bound d(2) fresh_transport_def)
  with d assms(2,3) show ?thesis by (simp add: bound_keys_def)
qed

theorem supervisor_keeps_binding_witness:
  "\<exists>d parsed (s0 :: (clear_hs, clear_tr) TargetTransport) out (s :: (clear_hs, clear_tr) TargetTransport) el.
     TargetTransport_create rfc_cbor demo_draws d = Some (Inr (s0, out)) \<and> tt_phase s = P_Eligible el \<and>
     parse_descriptor rfc_cbor d = Inr parsed \<and> sb_lease_id (el_session_binding el) = bb_lease_id (pd_binding parsed)"
proof -
  obtain d s0 out evs lease sb where c: "TargetTransport_create rfc_cbor demo_draws d = Some (Inr (s0, out))"
    "ready_transport 6 1 lease (replicate 32 9) sb = snd (run (drive_op clear_noise rfc_cbor) evs s0)"
    by (rule demo_eligible)
  obtain el where el: "tt_phase (ready_transport 6 1 lease (replicate 32 9) sb :: (clear_hs, clear_tr) TargetTransport) = P_Eligible el"
    by (rule ready_phase)
  from supervisor_keeps_binding [OF c el] c el show ?thesis by blast
qed

text \<open>C9: The end of a session is reported truthfully. When a created supervisor, after any events, answers an
  event other than a committed write with the end of a session, that session existed and is gone, and the
  answer says whether a message of it was handed to the runtime: if an event since the stream was accepted was
  answered with a message of it, a handoff is possible or confirmed; if none was, nothing was handed off. The
  one case in between is a session whose bytes were answered with an internal error, where the supervisor may
  have counted a message before it ran out of tokens: it may then report a possible handoff as well. The
  answer to a committed write is another property.\<close>

theorem session_end_truthful:
  assumes "TargetTransport_create C rng d = Some (Inr (s0, out))" "run (drive_op N C) evs s0 = (rs, s)"
    "ev_tag ev \<noteq> Ev_FullWriteCommitted" "drive N C e ev s = (Inr x, s')" "out_kind x = K_SessionTerminal"
  shows "\<exists>el c el'. tt_phase s = P_Eligible el \<and> get_child (out_stream_id x) el = Some c \<and>
    out_handoff x = (if ch_applications c > 0 then HandoffPossibleOrConfirmed else NotHandedOff) \<and>
    tt_phase s' = P_Eligible el' \<and> get_child (out_stream_id x) el' = None \<and>
    (was_delivered (out_stream_id x) (history evs rs) \<longrightarrow> out_handoff x = HandoffPossibleOrConfirmed) \<and>
    (\<not> was_delivered (out_stream_id x) (history evs rs) \<and> \<not> was_cut_short (out_stream_id x) (history evs rs) \<longrightarrow>
       out_handoff x = NotHandedOff)"
proof -
  have "stage (tt_phase s) = 4"
    using drive_answers [of s N C "(e, ev)"] assms(4,5) by (simp add: drive_op_def answers_def)
  then obtain el where el: "tt_phase s = P_Eligible el" by (cases "tt_phase s") simp_all
  have "truthful el (Inr x) (tt_phase s')"
    using drive_truth [OF assms(3), of el N C e] assms(4) el unfolding phased_def by (metis fst_conv snd_conv)
  then obtain c el' where ended: "get_child (out_stream_id x) el = Some c" "out_handoff x = handoff_of c"
    "tt_phase s' = P_Eligible el'" "get_child (out_stream_id x) el' = None"
    using assms(5) by (auto simp: truthful_def)
  have "tallies [] (tt_phase s0)"
    using assms(1) by (elim create_fresh) (simp add: tallies_def fresh_transport_def)
  from run_tallies [OF this, of evs N C] assms(2) have "tallies (history evs rs) (P_Eligible el)" by (simp add: el)
  with ended el show ?thesis by (auto simp: tallies_def handoff_of_def has_application_def)
qed

theorem session_end_truthful_witness:
  "\<exists>d s0 out evs rs (s :: (clear_hs, clear_tr) TargetTransport) x s'.
     TargetTransport_create rfc_cbor demo_draws d = Some (Inr (s0, out)) \<and>
     run (drive_op clear_noise rfc_cbor) evs s0 = (rs, s) \<and> was_delivered 2 (history evs rs) \<and>
     drive clear_noise rfc_cbor [] (event Ev_StreamIoFailed 2 0 []) s = (Inr x, s') \<and>
     out_kind x = K_SessionTerminal \<and> out_handoff x = HandoffPossibleOrConfirmed"
proof -
  obtain d out where d: "TargetTransport_create rfc_cbor demo_draws d =
      Some (Inr (fresh_transport demo_bootstrap_binding (replicate 32 6) 6 :: (clear_hs, clear_tr) TargetTransport, out))"
    by (rule demo_create)
  obtain m1 m2 ack m1' m2' f1 f2 fs gs and s :: "(clear_hs, clear_tr) TargetTransport" and el c where
    run: "run (drive_op clear_noise rfc_cbor) (map (Pair []) (bootstrap_events 1 m2 @ session_events 2 5 m2' f2 fs [4]))
       (fresh_transport demo_bootstrap_binding (replicate 32 6) 6) =
     (map Inr (bootstrap_answers 1 m1 ack 6 @ session_answers 2 5 m1' f1 [1, 2, 3] gs), s)"
    and s: "tt_phase s = P_Eligible el" "2 \<noteq> el_lease_stream el" "get_child 2 el = Some c" "ch_applications c = 1"
    by (rule demo_served)
  have told: "was_delivered 2 (history (map (Pair []) (bootstrap_events 1 m2 @ session_events 2 5 m2' f2 fs [4]))
      (map Inr (bootstrap_answers 1 m1 ack 6 @ session_answers 2 5 m1' f1 [1, 2, 3] gs)))"
    by (simp add: was_delivered_def this_session_def history_def session_events_def session_answers_def bootstrap_events_def
        bootstrap_answers_def accepts_def event_def Let_def)
  obtain x s' where x: "drive clear_noise rfc_cbor [] (event Ev_StreamIoFailed 2 0 []) s = (Inr x, s')"
    "out_kind x = K_SessionTerminal" "out_stream_id x = 2"
    using s by (simp add: drive_def st_simps stream_closed_def stream_end_def st_out_def child_terminal_def Let_def
        Outcome_terminal_def Outcome_stream_def Outcome_new_def)
  from session_end_truthful [OF d run _ x(1,2)] x(3) told have "out_handoff x = HandoffPossibleOrConfirmed" by auto
  with d run told x show ?thesis by blast
qed

text \<open>C40: The committed close of a session. The commit of the close record that a record-limit error had
  queued is answered with the end of the session, but with \<open>NotHandedOff\<close> whatever the session had
  delivered and whatever was queued with the record, and the session stays, in its final phase, with its
  timers: the eligible state is out of the supervisor's hands while the commit is handled.\<close>

theorem close_commit_understates:
  assumes "tt_phase s = P_Eligible el" "get_child k el = Some c" "ch_phase c = C_TerminalPending t terminal"
    "k \<noteq> 0" "k \<noteq> el_lease_stream el" "t \<noteq> 0"
  shows "drive N C e (event Ev_FullWriteCommitted k t []) s =
    (Inr (Outcome_terminal K_SessionTerminal k (term_reason terminal) NotHandedOff (term_peer_close terminal)),
     s\<lparr>tt_phase := P_Eligible (put_child k (c\<lparr>ch_phase := C_Terminal\<rparr>) el)\<rparr>)"
  using assms
  by (simp add: drive_def st_simps full_write_committed_def commit_child_write_def st_snd_def st_out_def Let_def
      child_terminal_def set_phase_def)

theorem close_commit_understates_witness:
  "\<exists>(s :: (clear_hs, clear_tr) TargetTransport) el c s' el' c'. tt_phase s = P_Eligible el \<and> get_child 2 el = Some c \<and>
     ch_applications c = 1 \<and> drive clear_noise rfc_cbor [] (event Ev_FullWriteCommitted 2 7 []) s =
       (Inr (Outcome_terminal K_SessionTerminal 2 RecordLimit NotHandedOff None), s') \<and>
     tt_phase s' = P_Eligible el' \<and> get_child 2 el' = Some c'"
proof -
  obtain s0 :: "(clear_hs, clear_tr) TargetTransport" and el0 c0 where
    s0: "tt_phase s0 = P_Eligible el0" "2 \<noteq> el_lease_stream el0" "get_child 2 el0 = Some c0" "ch_applications c0 = 1"
    using demo_served by blast
  let ?t = "\<lparr>term_reason = RecordLimit, term_handoff = HandoffPossibleOrConfirmed, term_peer_close = None\<rparr>"
  let ?c = "c0\<lparr>ch_phase := C_TerminalPending 7 ?t\<rparr>"
  let ?s = "s0\<lparr>tt_phase := P_Eligible (put_child 2 ?c el0)\<rparr>"
  let ?el = "put_child 2 ?c el0"
  have p: "tt_phase ?s = P_Eligible ?el" "get_child 2 ?el = Some ?c" "ch_phase ?c = C_TerminalPending 7 ?t"
    "2 \<noteq> el_lease_stream ?el" "ch_applications ?c = 1"
    using s0(2,4) by simp_all
  let ?s' = "?s\<lparr>tt_phase := P_Eligible (put_child 2 (?c\<lparr>ch_phase := C_Terminal\<rparr>) ?el)\<rparr>"
  have "drive clear_noise rfc_cbor [] (event Ev_FullWriteCommitted 2 7 []) ?s =
      (Inr (Outcome_terminal K_SessionTerminal 2 RecordLimit NotHandedOff None), ?s')"
    using close_commit_understates [OF p(1-3) _ p(4), of clear_noise rfc_cbor "[]"] by simp
  moreover have "tt_phase ?s' = P_Eligible (put_child 2 (?c\<lparr>ch_phase := C_Terminal\<rparr>) ?el)"
    "get_child 2 (put_child 2 (?c\<lparr>ch_phase := C_Terminal\<rparr>) ?el) = Some (?c\<lparr>ch_phase := C_Terminal\<rparr>)"
    by simp_all
  ultimately show ?thesis using p(1,2,5) by blast
qed

end
