(* ===== verification/Supervisor_Props.thy ===== *)
theory Supervisor_Props
  imports Supervisor_Inv Supervisor_Ends
begin

text \<open>
  What the invariant of the supervisor gives its users: deadlines that are armed, sessions that cannot
  disturb each other or the lease, the schedule of the lease ticks, and the reports at the end of a session.
\<close>

section \<open>Isolation of sessions\<close>

definition session_event :: "('h, 't) TargetTransport \<Rightarrow> u64 \<Rightarrow> Event \<Rightarrow> bool" where
  "session_event s k ev \<longleftrightarrow>
     (if ev_tag ev = Ev_TimerFired then Option.bind (armed s (ev_write_token ev)) session_of = Some k
      else ev_tag ev \<in> {Ev_SessionAccepted, Ev_RuntimeResponse, Ev_StreamBytes, Ev_FullWriteCommitted, Ev_StreamEof,
          Ev_StreamIoFailed, Ev_StreamCloseNormal} \<and> ev_stream_id ev = k \<and>
        (\<exists>el. tt_phase s = P_Eligible el \<and> k \<noteq> el_lease_stream el))"

lemma timer_fired_good:
  assumes "sup_inv s" "tt_phase s = P_Eligible el" "armed s (ev_write_token ev) = Some a" "session_of a = Some k"
  shows "good k s (snd (timer_fired ev s))"
  using child_timer_good [OF assms] good_self [OF assms(1,2)] assms(3,4)
  by (cases a) (auto simp: timer_fired_def st_simps armed_def)

lemma full_write_committed_good:
  assumes "sup_inv s" "tt_phase s = P_Eligible el" "ev_stream_id ev \<noteq> el_lease_stream el"
  shows "good (ev_stream_id ev) s (snd (full_write_committed ev s))"
  using assms good_self [OF assms(1,2)] commit_child_write_good [OF assms(1,2)]
  by (fastforce simp: full_write_committed_def st_simps split: prod.split)

lemma stream_bytes_good:
  assumes "sup_inv s" "tt_phase s = P_Eligible el" "ev_stream_id ev \<noteq> el_lease_stream el"
  shows "good (ev_stream_id ev) s (snd (stream_bytes N C ev s))"
  using assms good_self [OF assms(1,2)] session_bytes_good [OF assms(1,2)]
  by (auto simp: stream_bytes_def st_simps)

lemma session_event_good:
  assumes inv: "sup_inv s" and p: "tt_phase s = P_Eligible el" and ev: "session_event s k ev"
  shows "good k s (snd (drive N C entropy ev s))"
proof (cases "ev_tag ev = Ev_TimerFired")
  case True
  with ev obtain a where "armed s (ev_write_token ev) = Some a" "session_of a = Some k"
    by (auto simp: session_event_def bind_eq_Some_conv)
  with True timer_fired_good [OF inv p] good_self [OF inv p] p show ?thesis
    by (simp add: drive_def st_simps Let_def)
next
  case False
  with ev p have k: "ev_stream_id ev = k" "ev_stream_id ev \<noteq> el_lease_stream el"
    "ev_tag ev \<in> {Ev_SessionAccepted, Ev_RuntimeResponse, Ev_StreamBytes, Ev_FullWriteCommitted, Ev_StreamEof,
        Ev_StreamIoFailed, Ev_StreamCloseNormal}"
    by (auto simp: session_event_def)
  note handlers = session_accepted_good [OF inv p k(2)] runtime_response_good [OF inv p, where ev = ev] stream_bytes_good [OF inv p k(2)]
    full_write_committed_good [OF inv p k(2)] stream_closed_good [OF inv p k(2)] good_self [OF inv p]
  from k handlers p show ?thesis by (auto simp: drive_def st_simps Let_def)
qed

section \<open>Properties\<close>

lemma created_inv:
  assumes "TargetTransport_create C rng d = Some (Inr (s0, out))" "s = snd (run (drive_op N C) evs s0)"
  shows "sup_inv s"
proof -
  obtain b key g where "s0 = fresh_transport b key g" using create_fresh [OF assms(1)] by metis
  then show ?thesis by (simp add: assms(2) run_inv)
qed

lemma children_armed:
  assumes "children_ok n T el"
  shows "get_child k el = Some c \<and> waits_for_peer (ch_phase c) \<longrightarrow>
    (\<exists>t. ch_phase_timer c = Some t \<and> (T t = Some (T_SessionPhase k) \<or> T t = Some (T_SessionIdle k))) \<or> exhausted n"
proof
  assume "get_child k el = Some c \<and> waits_for_peer (ch_phase c)"
  with assms have "slot_armed T (ch_phase_timer c) {T_SessionPhase k, T_SessionIdle k}"
    "ch_phase_timer c \<noteq> None \<or> exhausted n"
    by (auto simp: children_ok_def child_armed_def)
  then show "(\<exists>t. ch_phase_timer c = Some t \<and> (T t = Some (T_SessionPhase k) \<or> T t = Some (T_SessionIdle k))) \<or> exhausted n"
    by (auto simp: slot_armed_def)
qed

text \<open>C4: Deadlines. In every state a created supervisor can reach, the armed timers have distinct non-zero
  tokens that were handed out. Before the Broker connects none is armed; until the lease is ready the
  bootstrap deadline is. While the lease is eligible its tick is armed and fewer than 30 ticks have passed,
  fewer than 4 of them without a heartbeat; every session that waits for its peer has its deadline armed;
  and every armed timer belongs to the lease or to a session that exists. The exception is a counter that
  handed out all 64-bit tokens.\<close>

theorem supervisor_deadlines:
  assumes "TargetTransport_create C rng d = Some (Inr (s0, out))" "s = snd (run (drive_op N C) evs s0)"
  shows "distinct (map fst (tt_timers s)) \<and> (\<forall>t a. armed s t = Some a \<longrightarrow> 0 < t \<and> t < tt_next_token s) \<and>
    (case tt_phase s of
       P_AwaitBootstrap _ _ \<Rightarrow> armed s = Map.empty
     | P_Eligible el \<Rightarrow>
         el_lease_ticks el < 30 \<and> el_missed_ticks el < 4 \<and>
         (\<exists>t. el_lease_tick_timer el = Some t \<and> (armed s t = Some T_LeaseTick \<or> exhausted (tt_next_token s))) \<and>
         (\<forall>k c. get_child k el = Some c \<and> waits_for_peer (ch_phase c) \<longrightarrow>
            (\<exists>t. ch_phase_timer c = Some t \<and> armed s t \<in> {Some (T_SessionPhase k), Some (T_SessionIdle k)}) \<or>
            exhausted (tt_next_token s)) \<and>
         (\<forall>t a. armed s t = Some a \<longrightarrow> owned el t a)
     | P_Terminal _ \<Rightarrow> True
     | _ \<Rightarrow> \<exists>t. armed s t = Some T_Bootstrap)"
proof -
  have inv: "sup_inv s" by (rule created_inv [OF assms(1,2)])
  have "phase_ok (tt_next_token s) (armed s) (tt_phase s)" "timers_ok s" using inv by (auto simp: sup_inv_def)
  then show ?thesis
    by (cases "tt_phase s") (simp_all add: timers_ok_def lease_ok_def boot_ok_def, use children_armed in blast)
qed

theorem supervisor_deadlines_witness:
  "\<exists>(s :: (clear_hs, clear_tr) TargetTransport) el t. tt_phase s = P_Eligible el \<and> el_lease_ticks el < 30 \<and>
     el_lease_tick_timer el = Some t \<and> (armed s t = Some T_LeaseTick \<or> exhausted (tt_next_token s))"
proof -
  obtain d s0 out evs lease sb where c: "TargetTransport_create rfc_cbor demo_draws d = Some (Inr (s0, out))"
    "ready_transport 6 1 lease (replicate 32 9) sb = snd (run (drive_op clear_noise rfc_cbor) evs s0)"
    by (rule demo_eligible)
  obtain el where el: "tt_phase (ready_transport 6 1 lease (replicate 32 9) sb :: (clear_hs, clear_tr) TargetTransport) = P_Eligible el"
    by (rule ready_phase)
  from supervisor_deadlines [OF c] el show ?thesis by fastforce
qed

text \<open>C3: Isolation. In every state a created supervisor can reach, an event on the stream of a session
  (accepted, bytes, a response of the runtime, a committed write, its end) or a timer of it leaves the lease
  eligible and unchanged, every other session unchanged, and armed exactly the timers that were armed for
  them: whatever a peer sends on one session, it cannot end the lease or disturb another session.\<close>

theorem session_isolated:
  assumes "TargetTransport_create C rng d = Some (Inr (s0, out))" "s = snd (run (drive_op N C) evs s0)"
    "tt_phase s = P_Eligible el" "session_event s k ev"
  shows "\<exists>el'. tt_phase (snd (drive N C entropy ev s)) = P_Eligible el' \<and>
    el\<lparr>el_children := []\<rparr> = el'\<lparr>el_children := []\<rparr> \<and>
    (\<forall>j. j \<noteq> k \<longrightarrow> get_child j el' = get_child j el) \<and>
    (\<forall>t a. session_of a \<noteq> Some k \<longrightarrow>
       (armed (snd (drive N C entropy ev s)) t = Some a \<longleftrightarrow> armed s t = Some a))"
proof -
  have inv: "sup_inv s" by (rule created_inv [OF assms(1,2)])
  from session_event_good [OF inv assms(3,4), of N C entropy] assms(3) show ?thesis
    by (auto simp: good_def others_alike_def)
qed



theorem session_isolated_witness:
  "\<exists>(s :: (clear_hs, clear_tr) TargetTransport) el el'. tt_phase s = P_Eligible el \<and>
     tt_phase (snd (drive clear_noise rfc_cbor [] (event Ev_SessionAccepted 2 0 []) s)) = P_Eligible el' \<and>
     el\<lparr>el_children := []\<rparr> = el'\<lparr>el_children := []\<rparr>"
proof -
  obtain d s0 out evs lease sb where c: "TargetTransport_create rfc_cbor demo_draws d = Some (Inr (s0, out))"
    "ready_transport 6 1 lease (replicate 32 9) sb = snd (run (drive_op clear_noise rfc_cbor) evs s0)"
    by (rule demo_eligible)
  obtain el where el: "tt_phase (ready_transport 6 1 lease (replicate 32 9) sb :: (clear_hs, clear_tr) TargetTransport) = P_Eligible el"
    "el_lease_stream el = 1" by (rule ready_phase)
  have "session_event (ready_transport 6 1 lease (replicate 32 9) sb :: (clear_hs, clear_tr) TargetTransport) 2 (event Ev_SessionAccepted 2 0 [])"
    using el by (simp add: session_event_def)
  from session_isolated [OF c el(1) this, of "[]"] el(1) show ?thesis by blast
qed

section \<open>The lease ticks\<close>

lemma eligible_inv:
  assumes "sup_inv s" "tt_phase s = P_Eligible el" "armed s t = Some a"
  shows "owned el t a" "t \<noteq> 0" "unat (el_lease_ticks el) < 30" "unat (el_missed_ticks el) < 4"
proof -
  have p: "phase_ok (tt_next_token s) (armed s) (P_Eligible el)" "timers_ok s" using assms(1,2) by (auto simp: sup_inv_def)
  with assms(3) show "owned el t a" by simp
  show "t \<noteq> 0" using p(2) assms(3) by (auto simp: timers_ok_def)
  show "unat (el_lease_ticks el) < 30" "unat (el_missed_ticks el) < 4"
    using p(1) by (simp_all add: lease_ok_def word_less_nat_alt)
qed

lemma tick_counts:
  "unat n < 30 \<Longrightarrow> saturating_add8 n 1 = n + 1" "unat n < 30 \<Longrightarrow> 30 \<le> n + 1 \<longleftrightarrow> n = 29"
  "unat n < 4 \<Longrightarrow> 4 \<le> n + 1 \<longleftrightarrow> n = 3"
  by (auto simp: saturating_add8_def word_le_nat_alt unat_word_ariths word_unat_eq_iff)

text \<open>C24: The lease ticks. When the armed tick of an eligible supervisor fires, the lease ends as stale at the
  thirtieth tick, else as a lost Broker at the fourth tick without a heartbeat, with every timer gone; and
  otherwise both counts go up by one and a fresh tick is armed in place of the fired one, all other timers
  untouched.\<close>

theorem lease_tick_schedule:
  assumes "TargetTransport_create C rng d = Some (Inr (s0, out))" "s = snd (run (drive_op N C) evs s0)"
    "tt_phase s = P_Eligible el" "armed s t = Some T_LeaseTick"
    "drive N C e (event Ev_TimerFired 0 t []) s = (r, s')"
  shows "if el_lease_ticks el = 29 \<or> el_missed_ticks el = 3
    then (\<exists>x. r = Inr x \<and> out_kind x = K_LeaseTerminal) \<and> tt_timers s' = [] \<and>
      terminal_reason s' = Some (if el_lease_ticks el = 29 then Stale else BrokerLost)
    else if exhausted (tt_next_token s) then r = Inl Internal
    else r = Inr (Outcome_deadline (tt_next_token s) LEASE_TICK_MS (Outcome_new K_NeedInput)) \<and>
      tt_phase s' = P_Eligible (el\<lparr>el_lease_ticks := el_lease_ticks el + 1, el_missed_ticks := el_missed_ticks el + 1,
        el_lease_tick_timer := Some (tt_next_token s)\<rparr>) \<and>
      armed s' = (armed s)(t := None, tt_next_token s \<mapsto> T_LeaseTick)"
proof -
  have inv: "sup_inv s" by (rule created_inv [OF assms(1,2)])
  note e = eligible_inv [OF inv assms(3,4)]
  have low: "unat (el_missed_ticks el) < 30" using e(4) by simp
  have pos: "tt_next_token s \<noteq> 0" using timers_ok_pos [OF inv_timers_ok [OF inv]] by auto
  have d: "(r, s') = lease_tick t (remove_timer (Some t) s)"
    using assms(3,4,5) e(2) by (simp add: drive_def st_simps timer_fired_def armed_def)
  show ?thesis
    using d assms(3) e(1) low pos
    by (auto simp: lease_tick_def st_simps st_out_def split_beta Let_def tick_counts(1,2) [OF e(3)] tick_counts(1) [OF low]
        tick_counts(3) [OF e(4)] lease_terminal_def terminal_reason_def exhausted_def schedule_timer_def allocate_token_def
        split: if_splits option.splits)
qed


lemma demo_tick:
  obtains d s0 out evs el and s :: "(clear_hs, clear_tr) TargetTransport" where
    "TargetTransport_create rfc_cbor demo_draws d = Some (Inr (s0, out))" "s = snd (run (drive_op clear_noise rfc_cbor) evs s0)"
    "tt_phase s = P_Eligible el" "armed s 4 = Some T_LeaseTick" "el_lease_ticks el = 0" "el_missed_ticks el = 0"
    "tt_next_token s = 5"
proof -
  obtain d s0 out evs lease sb where c: "TargetTransport_create rfc_cbor demo_draws d = Some (Inr (s0, out))"
    "ready_transport 6 1 lease (replicate 32 9) sb = snd (run (drive_op clear_noise rfc_cbor) evs s0)"
    by (rule demo_eligible)
  let ?s = "ready_transport 6 1 lease (replicate 32 9) sb :: (clear_hs, clear_tr) TargetTransport"
  obtain el where el: "tt_phase ?s = P_Eligible el" "tt_next_token ?s = 5" "el_lease_ticks el = 0" "el_missed_ticks el = 0"
    "tt_timers ?s = [(4, T_LeaseTick)]" by (rule ready_phase)
  show ?thesis by (rule that [OF c el(1) _ el(3,4,2)]) (simp add: armed_def el(5))
qed

theorem lease_tick_schedule_witness:
  "\<exists>(s :: (clear_hs, clear_tr) TargetTransport) r s'. armed s 4 = Some T_LeaseTick \<and>
     drive clear_noise rfc_cbor [] (event Ev_TimerFired 0 4 []) s = (r, s') \<and>
     r = Inr (Outcome_deadline 5 LEASE_TICK_MS (Outcome_new K_NeedInput)) \<and>
     armed s' = (armed s)(4 := None, 5 \<mapsto> T_LeaseTick)"
proof -
  obtain d s0 out evs el and s :: "(clear_hs, clear_tr) TargetTransport" where
    s: "TargetTransport_create rfc_cbor demo_draws d = Some (Inr (s0, out))" "s = snd (run (drive_op clear_noise rfc_cbor) evs s0)"
      "tt_phase s = P_Eligible el" "armed s 4 = Some T_LeaseTick"
    and el: "el_lease_ticks el = 0" "el_missed_ticks el = 0" "tt_next_token s = 5" by (rule demo_tick)
  obtain r s' where r: "drive clear_noise rfc_cbor [] (event Ev_TimerFired 0 4 []) s = (r, s')" by fastforce
  have "\<not> exhausted 5" by (simp add: exhausted_def checked_add_def)
  with lease_tick_schedule [OF s r] s r el show ?thesis by auto
qed

section \<open>Terminal timers\<close>

lemma terminal_tokens_iff:
  assumes "timers_ok s"
  shows "t \<in> set (terminal_timer_tokens s) \<longleftrightarrow> (\<exists>a. armed s t = Some a \<and> (a = T_LeaseTick \<longrightarrow>
    (\<exists>el. tt_phase s = P_Eligible el \<and> el_lease_tick_timer el = Some t \<and>
      (saturating_add8 (el_lease_ticks el) 1 \<ge> 30 \<or> saturating_add8 (el_missed_ticks el) 1 \<ge> 4))))"
proof -
  let ?c = "\<lambda>a. case a of T_LeaseTick \<Rightarrow> (case tt_phase s of
      P_Eligible el \<Rightarrow> el_lease_tick_timer el = Some t \<and>
        (saturating_add8 (el_lease_ticks el) 1 \<ge> 30 \<or> saturating_add8 (el_missed_ticks el) 1 \<ge> 4)
    | _ \<Rightarrow> False) | _ \<Rightarrow> True"
  have "t \<in> set (terminal_timer_tokens s) \<longleftrightarrow> (\<exists>a. (t, a) \<in> set (tt_timers s) \<and> ?c a)"
    by (simp add: terminal_timer_tokens_def image_iff split_beta cong: TimerAction.case_cong Phase.case_cong)
  moreover have "(t, a) \<in> set (tt_timers s) \<longleftrightarrow> armed s t = Some a" for a
    using assms by (auto simp: timers_ok_def armed_def)
  moreover have "?c a \<longleftrightarrow> (a = T_LeaseTick \<longrightarrow> (\<exists>el. tt_phase s = P_Eligible el \<and> el_lease_tick_timer el = Some t \<and>
      (saturating_add8 (el_lease_ticks el) 1 \<ge> 30 \<or> saturating_add8 (el_missed_ticks el) 1 \<ge> 4)))" for a
    by (cases a; cases "tt_phase s") simp_all
  ultimately show ?thesis by simp
qed

lemma child_timer_ends:
  assumes "tt_phase s = P_Eligible el" "get_child k el = Some c"
  shows "\<exists>x. fst (child_timeout k reason (remove_timer t s)) = Inr x \<and> out_kind x = K_SessionTerminal"
  using assms child_terminal_kind(1) [of k reason None "remove_timer t s"]
  by (simp add: child_timeout_def st_simps st_out_def split_beta Let_def)

text \<open>C25: The terminal timers. In every live state a created supervisor can reach, the tokens it lists as
  terminal are exactly those whose firing is answered with the end of a session or of the lease.\<close>

theorem terminal_timers_exact:
  assumes "TargetTransport_create C rng d = Some (Inr (s0, out))" "s = snd (run (drive_op N C) evs s0)"
    "terminal_reason s = None" "t \<noteq> 0"
  shows "t \<in> set (terminal_timer_tokens s) \<longleftrightarrow>
    (\<exists>x. fst (drive N C e (event Ev_TimerFired 0 t []) s) = Inr x \<and> out_kind x \<in> {K_SessionTerminal, K_LeaseTerminal})"
proof -
  have inv: "sup_inv s" by (rule created_inv [OF assms(1,2)])
  have ok: "timers_ok s" by (rule inv_timers_ok [OF inv])
  have live: "tt_phase s \<noteq> P_Terminal x" for x using assms(3) by (auto simp: terminal_reason_def)
  have d: "drive N C e (event Ev_TimerFired 0 t []) s = timer_fired (event Ev_TimerFired 0 t []) s"
    using live by (simp add: drive_def st_simps live_phase_case Let_def)
  show ?thesis
  proof (cases "armed s t")
    case None
    with d assms(4) show ?thesis
      by (simp add: terminal_tokens_iff [OF ok] timer_fired_def st_simps armed_def)
  next
    case (Some a)
    show ?thesis
    proof (cases "\<exists>el. tt_phase s = P_Eligible el")
      case True
      then obtain el where el: "tt_phase s = P_Eligible el" by blast
      note e = eligible_inv [OF inv el Some]
      have low: "unat (el_missed_ticks el) < 30" using e(4) by simp
      from Some d el e assms(4) show ?thesis
        by (cases a) (auto simp: terminal_tokens_iff [OF ok] timer_fired_def st_simps armed_def lease_tick_def st_out_def
            split_beta Let_def lease_terminal_def schedule_timer_def allocate_token_def
            split: option.splits if_splits dest: child_timer_ends [where t = "Some t"])
    next
      case False
      with inv live Some have "a \<noteq> T_LeaseTick" "session_of a = None"
        by (cases "tt_phase s"; auto simp: sup_inv_def dest: boot_ok_actions)+
      with Some d assms(4) show ?thesis
        by (cases a) (auto simp: terminal_tokens_iff [OF ok] timer_fired_def st_simps armed_def st_out_def
            split_beta Let_def lease_terminal_def)
    qed
  qed
qed

theorem terminal_timers_exact_witness:
  "\<exists>(s :: (clear_hs, clear_tr) TargetTransport). armed s 4 = Some T_LeaseTick \<and> 4 \<notin> set (terminal_timer_tokens s)"
proof -
  obtain d s0 out evs el and s :: "(clear_hs, clear_tr) TargetTransport" where
    s: "TargetTransport_create rfc_cbor demo_draws d = Some (Inr (s0, out))" "s = snd (run (drive_op clear_noise rfc_cbor) evs s0)"
      "tt_phase s = P_Eligible el" "armed s 4 = Some T_LeaseTick"
    and el: "el_lease_ticks el = 0" "el_missed_ticks el = 0" "tt_next_token s = 5" by (rule demo_tick)
  have live: "terminal_reason s = None" using s(3) by (simp add: terminal_reason_def)
  note own = eligible_inv(1) [OF created_inv [OF s(1,2)] s(3,4)]
  have "fst (drive clear_noise rfc_cbor [] (event Ev_TimerFired 0 4 []) s) =
      Inr (Outcome_deadline 5 LEASE_TICK_MS (Outcome_new K_NeedInput))"
    using s(3,4) own el by (simp add: drive_def st_simps Let_def timer_fired_def armed_def lease_tick_def
        saturating_add8_def schedule_timer_def allocate_token_def checked_add_def remove_timer_def set_phase_def word_le_nat_alt)
  with terminal_timers_exact [OF s(1,2) live, of 4 "[]"] s(4) show ?thesis by auto
qed

end
