(* ===== verification/Host_Io.thy ===== *)
theory Host_Io
  imports Session Bootstrap Descriptor
begin

text \<open>
  The host's byte transport, \<^verbatim>\<open>cli/crates/host-runtime/src/raw_transport.rs\<close>: reading frames from a
  platform stream under deadlines, and the Broker's bootstrap, heartbeats and sessions over it. The
  platform is a parameter: a clock, the answers of \<^verbatim>\<open>RawDuplex::read\<close> in order, and what
  \<^verbatim>\<open>RawDuplex::write\<close> accepts of an input. An operation is a step on the state that may also wait: its
  result is \<open>None\<close> when the loop it is in has not ended with the reads there are. The fields of the
  feature \<^verbatim>\<open>internal-diagnostics\<close> are left out, as in a build without it.
\<close>

section \<open>Failures and deadlines\<close>

definition SESSION_TOTAL_MS :: u64 where "SESSION_TOTAL_MS = 4000"
definition SESSION_CONNECT_MS :: u64 where "SESSION_CONNECT_MS = 1000"
definition SESSION_HANDSHAKE_MS :: u64 where "SESSION_HANDSHAKE_MS = 1000"
definition SESSION_OPEN_RESPONSE_MS :: u64 where "SESSION_OPEN_RESPONSE_MS = 2000"
definition INCOMPLETE_OUTER_MS :: u64 where "INCOMPLETE_OUTER_MS = 2000"
definition CLEANUP_MS :: u64 where "CLEANUP_MS = 2000"

record TransportFailure =
  tf_close_reason :: CloseReason
  tf_handoff :: HandoffState
  tf_cleanup_failed :: bool

definition TransportFailure_new :: "CloseReason \<Rightarrow> TransportFailure" where
  "TransportFailure_new r = \<lparr>tf_close_reason = r, tf_handoff = NotHandedOff, tf_cleanup_failed = False\<rparr>"

definition TransportFailure_cleanup_failed :: "CloseReason \<Rightarrow> TransportFailure" where
  "TransportFailure_cleanup_failed r = \<lparr>tf_close_reason = r, tf_handoff = NotHandedOff, tf_cleanup_failed = True\<rparr>"

definition with_handoff :: "HandoffState \<Rightarrow> TransportFailure \<Rightarrow> TransportFailure" where
  "with_handoff handoff f = f\<lparr>tf_handoff :=
     (if tf_handoff f = HandoffPossibleOrConfirmed \<or> handoff = HandoffPossibleOrConfirmed
      then HandoffPossibleOrConfirmed else NotHandedOff)\<rparr>"

definition with_cleanup_failed :: "TransportFailure \<Rightarrow> TransportFailure" where
  "with_cleanup_failed f = f\<lparr>tf_cleanup_failed := True\<rparr>"

definition platform_failure :: "PlatformFailureKind \<Rightarrow> TransportFailure" where
  "platform_failure kind =
     (let reason = (case kind of
            PlatformTimedOut \<Rightarrow> Timeout | PlatformCancelled \<Rightarrow> Timeout | PlatformEof \<Rightarrow> PeerClosed
          | Rejected \<Rightarrow> BindingMismatch | PlatformCleanupFailed \<Rightarrow> CleanupFailed
          | PlatformUnavailable \<Rightarrow> InternalError | PlatformInternal \<Rightarrow> InternalError)
      in if kind = PlatformCleanupFailed then TransportFailure_cleanup_failed reason
         else TransportFailure_new reason)"

definition core_failure :: "error \<Rightarrow> TransportFailure" where
  "core_failure e = with_handoff (case err_peer_close e of None \<Rightarrow> NotHandedOff | Some (_, handoff) \<Rightarrow> handoff)
     (TransportFailure_new (err_reason e))"

definition AbsoluteDeadline_new :: "u64 \<Rightarrow> PlatformFailureKind + u64" where
  "AbsoluteDeadline_new v = (if v = 0 then Inl Rejected else Inr v)"

definition saturating_add64 :: "u64 \<Rightarrow> u64 \<Rightarrow> u64" where
  "saturating_add64 a b = (case checked_add a b of None \<Rightarrow> - 1 | Some c \<Rightarrow> c)"

definition deadline_expired_at :: "u64 \<Rightarrow> u64 \<Rightarrow> bool" where
  "deadline_expired_at now deadline \<longleftrightarrow> now \<ge> deadline"

definition phase_deadline_value :: "u64 \<Rightarrow> u64 \<Rightarrow> u64 \<Rightarrow> u64" where
  "phase_deadline_value command started budget_ms =
     (let budget_deadline = saturating_add64 started budget_ms
      in if command < budget_deadline then command else budget_deadline)"

definition map_err :: "('e \<Rightarrow> 'f) \<Rightarrow> 'e + 'a \<Rightarrow> 'f + 'a" where
  "map_err f r = (case r of Inl e \<Rightarrow> Inl (f e) | Inr v \<Rightarrow> Inr v)"

definition phase_deadline :: "u64 \<Rightarrow> u64 \<Rightarrow> u64 \<Rightarrow> TransportFailure + u64" where
  "phase_deadline command started budget_ms =
     map_err platform_failure (AbsoluteDeadline_new (phase_deadline_value command started budget_ms))"

definition ensure_deadline_at :: "u64 \<Rightarrow> u64 \<Rightarrow> TransportFailure + unit" where
  "ensure_deadline_at now deadline =
     (if deadline_expired_at now deadline then Inl (TransportFailure_new Timeout) else Inr ())"

section \<open>The state and its steps\<close>

record OuterProgress =
  op_header :: bytes
  op_expected :: "nat option"
  op_payload_len :: nat

record RawFrameReader =
  fr_decoder :: OuterFrameDecoder
  fr_ready :: "bytes list"
  fr_outer_progress :: OuterProgress
  fr_incomplete_deadline :: "u64 option"
  fr_terminal :: "TransportFailure option"

text \<open>The platform, the reader of a stream, and the connection it belongs to. The clock gives the
  milliseconds of its \<open>n\<close>-th reading, \<open>None\<close> before the epoch; a read answers with the bytes read (their
  number is what the call returns); a write answers with how many bytes of the input it took.\<close>

record 'x host =
  ho_clock :: "nat \<Rightarrow> u64 option"
  ho_ticks :: nat
  ho_reads :: "(PlatformFailureKind + bytes) list"
  ho_write :: "nat \<Rightarrow> bytes \<Rightarrow> PlatformFailureKind + nat"
  ho_written :: nat
  ho_sent :: bytes
  ho_cancelled :: bool
  ho_reader :: RawFrameReader
  ho_core :: 'x

type_synonym ('s, 'a) io = "'s \<Rightarrow> ((TransportFailure + 'a) \<times> 's) option"

definition io_ok :: "'a \<Rightarrow> ('s, 'a) io" where
  "io_ok v s = Some (Inr v, s)"

definition io_fail :: "TransportFailure \<Rightarrow> ('s, 'a) io" where
  "io_fail e s = Some (Inl e, s)"

definition io_lift :: "TransportFailure + 'a \<Rightarrow> ('s, 'a) io" where
  "io_lift r s = Some (r, s)"

definition io_bind :: "('s, 'a) io \<Rightarrow> ('a \<Rightarrow> ('s, 'b) io) \<Rightarrow> ('s, 'b) io" where
  "io_bind m f s =
     (case m s of None \<Rightarrow> None | Some (Inl e, s) \<Rightarrow> Some (Inl e, s) | Some (Inr v, s) \<Rightarrow> f v s)"

definition io_with :: "('s \<Rightarrow> ('s, 'a) io) \<Rightarrow> ('s, 'a) io" where
  "io_with f s = f s s"

definition io_upd :: "('s \<Rightarrow> 's) \<Rightarrow> ('s, unit) io" where
  "io_upd f s = Some (Inr (), f s)"

text \<open>\<^verbatim>\<open>Result::map_err\<close>, and a result taken as a value.\<close>

definition io_map_err :: "(TransportFailure \<Rightarrow> TransportFailure) \<Rightarrow> ('s, 'a) io \<Rightarrow> ('s, 'a) io" where
  "io_map_err f m s = map_option (map_prod (map_err f) id) (m s)"

definition io_try :: "('s, 'a) io \<Rightarrow> ('s, TransportFailure + 'a) io" where
  "io_try m s = map_option (map_prod Inr id) (m s)"

text \<open>\<^verbatim>\<open>loop\<close>: the body says whether the loop ends with a value. \<open>None\<close> when it never does.\<close>

partial_function (option) io_loop :: "('s, 'a option) io \<Rightarrow> 's \<Rightarrow> ((TransportFailure + 'a) \<times> 's) option" where
  "io_loop body s =
     (case body s of
        None \<Rightarrow> None
      | Some (r, s) \<Rightarrow>
          (case r of
             Inl e \<Rightarrow> Some (Inl e, s)
           | Inr (Some v) \<Rightarrow> Some (Inr v, s)
           | Inr None \<Rightarrow> io_loop body s))"

definition upd_reader :: "(RawFrameReader \<Rightarrow> RawFrameReader) \<Rightarrow> ('x host, unit) io" where
  "upd_reader f = io_upd (\<lambda>s. s\<lparr>ho_reader := f (ho_reader s)\<rparr>)"

section \<open>The platform\<close>

definition now_unix_ms :: "('x host, u64) io" where
  "now_unix_ms s =
     (let s' = s\<lparr>ho_ticks := Suc (ho_ticks s)\<rparr> in
      case ho_clock s (ho_ticks s) of
        None \<Rightarrow> Some (Inl (TransportFailure_new InternalError), s')
      | Some t \<Rightarrow> Some (Inr t, s'))"

definition raw_read :: "('x host, PlatformFailureKind + bytes) io" where
  "raw_read s =
     (case ho_reads s of [] \<Rightarrow> None | r # rs \<Rightarrow> Some (Inr r, s\<lparr>ho_reads := rs\<rparr>))"

definition raw_write :: "bytes \<Rightarrow> ('x host, PlatformFailureKind + nat) io" where
  "raw_write bs s =
     (let r = ho_write s (ho_written s) bs;
          s = s\<lparr>ho_written := Suc (ho_written s)\<rparr>
      in Some (Inr r, case r of Inl _ \<Rightarrow> s | Inr n \<Rightarrow> s\<lparr>ho_sent := ho_sent s @ take n bs\<rparr>))"

definition raw_cancel :: "'x host \<Rightarrow> 'x host" where
  "raw_cancel s = s\<lparr>ho_cancelled := True\<rparr>"

definition ensure_deadline :: "u64 \<Rightarrow> ('x host, unit) io" where
  "ensure_deadline deadline = io_bind now_unix_ms (\<lambda>now. io_lift (ensure_deadline_at now deadline))"

definition cleanup_deadline :: "('x host, u64) io" where
  "cleanup_deadline = io_bind now_unix_ms (\<lambda>now.
     io_lift (map_err platform_failure (AbsoluteDeadline_new (saturating_add64 now CLEANUP_MS))))"

section \<open>Reading frames\<close>

definition OuterProgress_default :: OuterProgress where
  "OuterProgress_default = \<lparr>op_header = [], op_expected = None, op_payload_len = 0\<rparr>"

definition OuterProgress_is_incomplete :: "OuterProgress \<Rightarrow> bool" where
  "OuterProgress_is_incomplete p \<longleftrightarrow> op_header p \<noteq> [] \<or> op_expected p \<noteq> None"

definition OuterProgress_byte :: "OuterProgress \<Rightarrow> u8 \<Rightarrow> OuterProgress" where
  "OuterProgress_byte p byte =
     (case op_expected p of
        None \<Rightarrow>
          let header = op_header p @ [byte] in
          if length header = 2
          then p\<lparr>op_expected := Some (unat (u16_of_be header)), op_header := [], op_payload_len := 0\<rparr>
          else p\<lparr>op_header := header\<rparr>
      | Some expected \<Rightarrow>
          let payload_len = op_payload_len p + 1 in
          if payload_len = expected then p\<lparr>op_expected := None, op_payload_len := 0\<rparr>
          else p\<lparr>op_payload_len := payload_len\<rparr>)"

definition OuterProgress_push :: "bytes \<Rightarrow> OuterProgress \<Rightarrow> OuterProgress" where
  "OuterProgress_push input p = foldl OuterProgress_byte p input"

definition RawFrameReader_new :: RawFrameReader where
  "RawFrameReader_new = \<lparr>fr_decoder = OuterFrameDecoder_new, fr_ready = [],
     fr_outer_progress = OuterProgress_default, fr_incomplete_deadline = None, fr_terminal = None\<rparr>"

definition ensure_not_terminal :: "('x host, unit) io" where
  "ensure_not_terminal = io_with (\<lambda>s.
     case fr_terminal (ho_reader s) of None \<Rightarrow> io_ok () | Some f \<Rightarrow> io_fail f)"

definition reader_terminate :: "TransportFailure \<Rightarrow> ('x host, TransportFailure) io" where
  "reader_terminate f = io_bind (upd_reader (\<lambda>r. r\<lparr>fr_terminal := Some f\<rparr>)) (\<lambda>_. io_ok f)"

text \<open>A call on the decoder of the reader.\<close>

definition on_decoder :: "(OuterFrameDecoder, error, 'a) step \<Rightarrow> ('x host, error + 'a) io" where
  "on_decoder m s =
     (let (r, d) = m (fr_decoder (ho_reader s))
      in Some (Inr r, s\<lparr>ho_reader := (ho_reader s)\<lparr>fr_decoder := d\<rparr>\<rparr>))"

definition eof_from_outer :: "('x host, TransportFailure) io" where
  "eof_from_outer = io_bind (on_decoder OuterFrameDecoder_eof) (\<lambda>r.
     reader_terminate (case r of Inl e \<Rightarrow> core_failure e | Inr _ \<Rightarrow> TransportFailure_new PeerClosed))"

definition expire_incomplete_at :: "u64 \<Rightarrow> ('x host, unit) io" where
  "expire_incomplete_at now = io_bind ensure_not_terminal (\<lambda>_. io_with (\<lambda>s.
     if (case fr_incomplete_deadline (ho_reader s) of None \<Rightarrow> False | Some d \<Rightarrow> deadline_expired_at now d) then
       io_bind (on_decoder OuterFrameDecoder_timeout) (\<lambda>r.
       let failure = (case r of Inl e \<Rightarrow> core_failure e | Inr _ \<Rightarrow> TransportFailure_new Timeout) in
       io_bind (upd_reader (\<lambda>r. r\<lparr>fr_terminal := Some failure\<rparr>)) (\<lambda>_. io_fail failure))
     else io_ok ()))"

definition read_deadline :: "u64 \<Rightarrow> RawFrameReader \<Rightarrow> TransportFailure + u64" where
  "read_deadline command_deadline r =
     (case fr_incomplete_deadline r of
        Some incomplete \<Rightarrow> map_err platform_failure (AbsoluteDeadline_new (min command_deadline incomplete))
      | None \<Rightarrow> Inr command_deadline)"

definition track_outer_progress :: "bytes \<Rightarrow> u64 \<Rightarrow> u64 \<Rightarrow> ('x host, unit) io" where
  "track_outer_progress input command_deadline now =
     io_bind (upd_reader (\<lambda>r. r\<lparr>fr_outer_progress := OuterProgress_push input (fr_outer_progress r)\<rparr>)) (\<lambda>_.
     io_with (\<lambda>s.
       if OuterProgress_is_incomplete (fr_outer_progress (ho_reader s)) then
         (if fr_incomplete_deadline (ho_reader s) = None then
            io_bind (io_lift (phase_deadline command_deadline now INCOMPLETE_OUTER_MS)) (\<lambda>d.
            upd_reader (\<lambda>r. r\<lparr>fr_incomplete_deadline := Some d\<rparr>))
          else io_ok ())
       else upd_reader (\<lambda>r. r\<lparr>fr_incomplete_deadline := None\<rparr>)))"

text \<open>\<^verbatim>\<open>self.ready.pop_front()\<close>.\<close>

definition pop_ready :: "('x host, bytes option) io" where
  "pop_ready = io_with (\<lambda>s.
     case fr_ready (ho_reader s) of
       [] \<Rightarrow> io_ok None
     | frame # frames \<Rightarrow> io_bind (upd_reader (\<lambda>r. r\<lparr>fr_ready := frames\<rparr>)) (\<lambda>_. io_ok (Some frame)))"

text \<open>The end of a turn: the bytes read go to the decoder, the first frame that is ready to the caller.\<close>

definition take_chunk :: "bytes \<Rightarrow> u64 \<Rightarrow> ('x host, bytes option) io" where
  "take_chunk chunk deadline =
     io_bind (on_decoder (OuterFrameDecoder_push chunk)) (\<lambda>pushed.
     case pushed of
       Inl e \<Rightarrow> io_bind (reader_terminate (core_failure e)) io_fail
     | Inr frames \<Rightarrow>
         io_bind now_unix_ms (\<lambda>now.
         io_bind (track_outer_progress chunk deadline now) (\<lambda>_.
         io_bind (upd_reader (\<lambda>r. r\<lparr>fr_ready := fr_ready r @ frames\<rparr>)) (\<lambda>_. pop_ready))))"

text \<open>One turn of the read loop. \<^verbatim>\<open>read_outer_with_now\<close> and \<^verbatim>\<open>read_outer_for_session\<close> differ in what the
  end of the stream does, the argument \<open>eof\<close>.\<close>

definition read_outer_turn :: "('x host, TransportFailure) io \<Rightarrow> u64 \<Rightarrow> ('x host, bytes option) io" where
  "read_outer_turn eof deadline =
     io_bind now_unix_ms (\<lambda>current.
     io_bind (expire_incomplete_at current) (\<lambda>_.
     io_bind (io_lift (ensure_deadline_at current deadline)) (\<lambda>_. io_with (\<lambda>s.
     io_bind (io_lift (read_deadline deadline (ho_reader s))) (\<lambda>_.
     io_bind raw_read (\<lambda>answer.
     case answer of
       Inl kind \<Rightarrow>
         io_bind now_unix_ms (\<lambda>current.
         io_bind (expire_incomplete_at current) (\<lambda>_.
         if kind = PlatformEof then io_bind eof io_fail else io_fail (platform_failure kind)))
     | Inr chunk \<Rightarrow>
         if length chunk > 4096 then io_bind (reader_terminate (TransportFailure_new InternalError)) io_fail
         else if chunk = [] then io_bind eof io_fail
         else take_chunk chunk deadline))))))"

definition read_outer_from :: "('x host, TransportFailure) io \<Rightarrow> u64 \<Rightarrow> ('x host, bytes) io" where
  "read_outer_from eof deadline =
     io_bind ensure_not_terminal (\<lambda>_.
     io_bind now_unix_ms (\<lambda>current.
     io_bind (expire_incomplete_at current) (\<lambda>_.
     io_bind (io_lift (ensure_deadline_at current deadline)) (\<lambda>_.
     io_bind pop_ready (\<lambda>ready.
     case ready of
       Some frame \<Rightarrow> io_ok frame
     | None \<Rightarrow> io_loop (read_outer_turn eof deadline))))))"

definition read_outer :: "u64 \<Rightarrow> ('x host, bytes) io" where
  "read_outer deadline = read_outer_from eof_from_outer deadline"

section \<open>Writing\<close>

text \<open>One turn of \<^verbatim>\<open>while !bytes.is_empty()\<close>; the rest to write is the state beside the host.\<close>

definition write_turn :: "u64 \<Rightarrow> ('x host \<times> bytes, unit option) io" where
  "write_turn deadline = (\<lambda>(s, bytes).
     if bytes = [] then Some (Inr (Some ()), s, bytes)
     else
       (case io_bind (ensure_deadline deadline) (\<lambda>_. raw_write bytes) s of
          None \<Rightarrow> None
        | Some (Inl e, s) \<Rightarrow> Some (Inl e, s, bytes)
        | Some (Inr (Inl kind), s) \<Rightarrow> Some (Inl (platform_failure kind), s, bytes)
        | Some (Inr (Inr written), s) \<Rightarrow>
            if written = 0 \<or> written > length bytes
            then Some (Inl (TransportFailure_new PeerClosed), s, bytes)
            else Some (Inr None, s, drop written bytes)))"

definition write_all :: "bytes \<Rightarrow> u64 \<Rightarrow> ('x host, unit) io" where
  "write_all bytes deadline s =
     map_option (\<lambda>(r, s, _). (r, s)) (io_loop (write_turn deadline) (s, bytes))"

fun write_frames :: "bytes list \<Rightarrow> u64 \<Rightarrow> ('x host, unit) io" where
  "write_frames [] deadline = io_ok ()"
| "write_frames (frame # frames) deadline = io_bind (write_all frame deadline) (\<lambda>_. write_frames frames deadline)"

definition return_after_reserved_close ::
    "TransportFailure \<Rightarrow> bytes option \<Rightarrow> u64 \<Rightarrow> ('x host, TransportFailure) io" where
  "return_after_reserved_close failure close_frame deadline =
     (case close_frame of
        None \<Rightarrow> io_ok failure
      | Some frame \<Rightarrow> io_bind (io_try (write_all frame deadline)) (\<lambda>_. io_ok failure))"

definition c1_failure_after_close :: "error \<Rightarrow> u64 \<Rightarrow> ('x host, TransportFailure) io" where
  "c1_failure_after_close e deadline =
     return_after_reserved_close (core_failure e) (fst (Error_take_close_frame e)) deadline"

text \<open>\<^verbatim>\<open>.map_err(|error| c1_failure_after_close(raw, error, deadline))?\<close>, for a result and for a call on
  the connection.\<close>

definition c1_lift :: "error + 'a \<Rightarrow> u64 \<Rightarrow> ('x host, 'a) io" where
  "c1_lift r deadline =
     (case r of Inl e \<Rightarrow> io_bind (c1_failure_after_close e deadline) io_fail | Inr v \<Rightarrow> io_ok v)"

definition on_core :: "('x, error, 'a) step \<Rightarrow> ('x host, error + 'a) io" where
  "on_core m s = (let (r, x) = m (ho_core s) in Some (Inr r, s\<lparr>ho_core := x\<rparr>))"

definition c1_call :: "('x, error, 'a) step \<Rightarrow> u64 \<Rightarrow> ('x host, 'a) io" where
  "c1_call m deadline = io_bind (on_core m) (\<lambda>r. c1_lift r deadline)"

section \<open>Heartbeats\<close>

definition host_heartbeat_reply ::
    "('h, 't) noise \<Rightarrow> cbor \<Rightarrow> u64 \<Rightarrow> ('t LeaseCore host, u64) io" where
  "host_heartbeat_reply N C deadline =
     io_bind (read_outer deadline) (\<lambda>reply. c1_call (BrokerLease_read_heartbeat_reply N C reply) deadline)"

definition host_heartbeat ::
    "('h, 't) noise \<Rightarrow> cbor \<Rightarrow> u64 \<Rightarrow> u64 \<Rightarrow> ('t LeaseCore host, unit) io" where
  "host_heartbeat N C counter deadline =
     io_bind (c1_call (BrokerLease_write_heartbeat_request N C counter) deadline) (\<lambda>request.
     io_bind (write_all request deadline) (\<lambda>_.
     io_bind (host_heartbeat_reply N C deadline) (\<lambda>received.
     if received \<noteq> counter then io_fail (TransportFailure_new SequenceViolation) else io_ok ())))"

section \<open>Sessions\<close>

text \<open>The end of a session's stream: the decoder and the session see it, the decoder's failure first.\<close>

definition eof_from_session :: "u64 \<Rightarrow> (('h, 't) SessionCore host, TransportFailure) io" where
  "eof_from_session deadline =
     io_bind (on_decoder OuterFrameDecoder_eof) (\<lambda>outer.
     io_bind (io_try (c1_call BrokerSession_eof deadline)) (\<lambda>session.
     reader_terminate
       (case outer of Inl e \<Rightarrow> core_failure e
        | Inr _ \<Rightarrow> (case session of Inl f \<Rightarrow> f | Inr _ \<Rightarrow> TransportFailure_new PeerClosed))))"

definition read_outer_for_session :: "u64 \<Rightarrow> (('h, 't) SessionCore host, bytes) io" where
  "read_outer_for_session deadline = read_outer_from (eof_from_session deadline) deadline"

definition read_response :: "('h, 't) noise \<Rightarrow> cbor \<Rightarrow> u64 \<Rightarrow> (('h, 't) SessionCore host, bytes) io" where
  "read_response N C deadline = io_loop
     (io_bind (read_outer_for_session deadline) (\<lambda>outer.
      c1_call (BrokerSession_read_application_response N C outer) deadline))"

text \<open>A stretch of code with a connection of its own.\<close>

definition with_core :: "'y \<Rightarrow> 'x host \<Rightarrow> 'y host" where
  "with_core y s = \<lparr>ho_clock = ho_clock s, ho_ticks = ho_ticks s, ho_reads = ho_reads s, ho_write = ho_write s,
     ho_written = ho_written s, ho_sent = ho_sent s, ho_cancelled = ho_cancelled s, ho_reader = ho_reader s,
     ho_core = y\<rparr>"

definition local_core :: "'y \<Rightarrow> ('y host, 'a) io \<Rightarrow> ('x host, 'a) io" where
  "local_core y m s = map_option (map_prod id (with_core (ho_core s))) (m (with_core y s))"

record ('h, 't) OpenedSession =
  os_session :: "('h, 't) SessionCore"
  os_response :: bytes
  os_handoff :: HandoffState
  os_reader :: RawFrameReader

definition open_session_core ::
    "('h, 't) noise \<Rightarrow> cbor \<Rightarrow> bytes \<Rightarrow> bytes \<Rightarrow> u64 \<Rightarrow> u64 \<Rightarrow>
      (('h, 't) SessionCore host, ('h, 't) OpenedSession) io" where
  "open_session_core N C m1 request handshake_deadline overall_deadline =
     io_bind (c1_call (BrokerSession_read_m1_write_m2 N m1) handshake_deadline) (\<lambda>m2.
     io_bind (write_all m2 handshake_deadline) (\<lambda>_.
     io_bind (read_outer_for_session handshake_deadline) (\<lambda>target_finished.
     io_bind (c1_call (BrokerSession_read_finished N C target_finished) handshake_deadline) (\<lambda>_.
     io_bind (c1_call (BrokerSession_write_finished N C) handshake_deadline) (\<lambda>broker_finished.
     io_bind (write_all broker_finished handshake_deadline) (\<lambda>_.
     io_bind now_unix_ms (\<lambda>now.
     io_bind (io_lift (phase_deadline overall_deadline now SESSION_OPEN_RESPONSE_MS)) (\<lambda>open_deadline.
     io_bind (c1_call (BrokerSession_write_session_open N C request) open_deadline) (\<lambda>open_frames.
     io_bind (write_frames open_frames open_deadline) (\<lambda>_.
     io_bind (io_map_err (with_handoff HandoffPossibleOrConfirmed) (read_response N C open_deadline)) (\<lambda>response.
     io_with (\<lambda>s. io_ok \<lparr>os_session = ho_core s, os_response = response,
       os_handoff = HandoffPossibleOrConfirmed, os_reader = ho_reader s\<rparr>))))))))))))"

text \<open>\<^verbatim>\<open>open_session\<close>. The argument \<open>connect\<close> is the answer of the platform's connector, and the state is that
  of the stream it opens; nothing is read or written before.\<close>

definition open_session ::
    "('h, 't) noise \<Rightarrow> cbor \<Rightarrow> bytes \<Rightarrow> PlatformFailureKind + unit \<Rightarrow> SessionBinding \<Rightarrow> bytes \<Rightarrow> bytes \<Rightarrow> u64 \<Rightarrow>
      (unit host, ('h, 't) OpenedSession) io" where
  "open_session N C entropy connect binding pbs request deadline =
     io_bind now_unix_ms (\<lambda>started.
     io_bind (io_lift (phase_deadline deadline started SESSION_TOTAL_MS)) (\<lambda>overall_deadline.
     io_bind (io_lift (phase_deadline overall_deadline started SESSION_CONNECT_MS)) (\<lambda>connect_deadline.
     io_bind (ensure_deadline connect_deadline) (\<lambda>_.
     io_bind (io_lift (map_err platform_failure connect)) (\<lambda>_.
     io_bind (io_try (
       io_bind (upd_reader (\<lambda>_. RawFrameReader_new)) (\<lambda>_.
       io_bind now_unix_ms (\<lambda>now.
       io_bind (io_lift (phase_deadline overall_deadline now SESSION_HANDSHAKE_MS)) (\<lambda>handshake_deadline.
       io_bind (read_outer handshake_deadline) (\<lambda>m1.
       io_bind (c1_lift (BrokerSession_new N C entropy binding pbs) handshake_deadline) (\<lambda>session.
       local_core session (open_session_core N C m1 request handshake_deadline overall_deadline)))))))) (\<lambda>result.
     case result of
       Inl e \<Rightarrow> io_bind (io_upd raw_cancel) (\<lambda>_. io_fail e)
     | Inr opened \<Rightarrow> io_ok opened))))))"

definition exchange ::
    "('h, 't) noise \<Rightarrow> cbor \<Rightarrow> bytes \<Rightarrow> u64 \<Rightarrow> (('h, 't) SessionCore host, bytes) io" where
  "exchange N C request deadline =
     io_bind (c1_call (BrokerSession_write_application_request N C request) deadline) (\<lambda>request_frames.
     io_bind (write_frames request_frames deadline) (\<lambda>_.
     io_map_err (with_handoff HandoffPossibleOrConfirmed) (read_response N C deadline)))"

definition close_with :: "('x, error, bytes) step \<Rightarrow> HandoffState \<Rightarrow> u64 \<Rightarrow> ('x host, unit) io" where
  "close_with write_close handoff deadline =
     io_bind (io_try (io_map_err (with_handoff handoff)
       (io_bind (c1_call write_close deadline) (\<lambda>frame. write_all frame deadline)))) (\<lambda>result.
     io_bind (io_upd raw_cancel) (\<lambda>_. io_lift result))"

definition close_session ::
    "('h, 't) noise \<Rightarrow> cbor \<Rightarrow> CloseReason \<Rightarrow> HandoffState \<Rightarrow> u64 \<Rightarrow> (('h, 't) SessionCore host, unit) io" where
  "close_session N C reason handoff deadline = close_with (BrokerSession_write_close N C reason handoff) handoff deadline"

definition close_lease ::
    "('h, 't) noise \<Rightarrow> cbor \<Rightarrow> CloseReason \<Rightarrow> HandoffState \<Rightarrow> u64 \<Rightarrow> ('t LeaseCore host, unit) io" where
  "close_lease N C reason handoff deadline = close_with (BrokerLease_write_close N C reason handoff) handoff deadline"

section \<open>The bootstrap\<close>

record 't BootstrapSuccess =
  bs_ack :: TargetBootstrapAck
  bs_lease :: "'t LeaseCore"
  bs_reader :: RawFrameReader

text \<open>\<^verbatim>\<open>bootstrap\<close>. The argument \<open>cleanup\<close> is the answer of the platform's cleanup receipt, should it be called.\<close>

definition host_bootstrap ::
    "('h, 't) noise \<Rightarrow> cbor \<Rightarrow> bytes \<Rightarrow> PlatformFailureKind + unit \<Rightarrow> bytes \<Rightarrow> bytes \<Rightarrow> BootstrapBinding \<Rightarrow> u64 \<Rightarrow>
      (unit host, 't BootstrapSuccess) io" where
  "host_bootstrap N C entropy cleanup broker_static_private pbs binding deadline =
     io_bind (io_try (
       io_bind (upd_reader (\<lambda>_. RawFrameReader_new)) (\<lambda>_.
       io_bind (read_outer deadline) (\<lambda>m1.
       io_bind (c1_lift (BrokerBootstrap_new N C entropy binding broker_static_private pbs) deadline) (\<lambda>responder.
       io_bind (c1_lift (BrokerBootstrap_read_m1_write_m2 N C responder m1) deadline) (\<lambda>(m2, ack_receiver).
       io_bind (write_all m2 deadline) (\<lambda>_.
       io_bind (read_outer deadline) (\<lambda>ack_outer.
       io_bind (c1_lift (BrokerBootstrapAckReceiver_read_ack N C ack_receiver ack_outer) deadline) (\<lambda>(ack, lease).
       io_with (\<lambda>s. io_ok \<lparr>bs_ack = ack, bs_lease = lease, bs_reader = ho_reader s\<rparr>)))))))))) (\<lambda>result.
     case result of
       Inr success \<Rightarrow> io_ok success
     | Inl failure \<Rightarrow>
         io_bind (io_upd raw_cancel) (\<lambda>_.
         io_bind (io_try (
           io_bind cleanup_deadline (\<lambda>d.
           io_bind (ensure_deadline d) (\<lambda>_. io_lift (map_err platform_failure cleanup))))) (\<lambda>cleaned.
         case cleaned of
           Inr _ \<Rightarrow> io_fail failure
         | Inl _ \<Rightarrow> io_fail (with_cleanup_failed failure))))"

end
