(* ===== verification/Host_Link.thy ===== *)
theory Host_Link
  imports Host_Io Supervisor_Link
begin

text \<open>
  The host's transport at work. The reader mirrors the progress of its decoder and hands out the frames of
  the stream in order, however the reads cut it; bytes are written completely, however the writes take
  them; and with that the host's bootstrap, heartbeat and session code completes against the Target's side
  of the protocol.
\<close>

lemmas io_simps = io_ok_def io_fail_def io_lift_def io_bind_def io_with_def io_upd_def io_map_err_def io_try_def map_err_def

section \<open>The progress mirrors the decoder\<close>

definition mirrors :: "OuterProgress \<Rightarrow> OuterFrameDecoder \<Rightarrow> bool" where
  "mirrors p d \<longleftrightarrow> op_expected p = ofd_expected d \<and>
     (case ofd_expected d of
        None \<Rightarrow> op_header p = ofd_pending d
      | Some n \<Rightarrow> op_header p = [] \<and> op_payload_len p = length (ofd_pending d))"

lemma mirrors_new [simp]: "mirrors OuterProgress_default OuterFrameDecoder_new"
  by (simp add: mirrors_def OuterProgress_default_def OuterFrameDecoder_new_def)

lemma mirrors_incomplete: "mirrors p d \<Longrightarrow> OuterProgress_is_incomplete p = OuterFrameDecoder_is_incomplete d"
  by (auto simp: mirrors_def OuterProgress_is_incomplete_def OuterFrameDecoder_is_incomplete_def split: option.splits)

lemma loop_short:
  "ofd_expected d = None \<Longrightarrow> length (ofd_pending d) < 2 \<Longrightarrow> OuterFrameDecoder_loop d fs = (Inr fs, d)"
  "ofd_expected d = Some n \<Longrightarrow> length (ofd_pending d) < n \<Longrightarrow> OuterFrameDecoder_loop d fs = (Inr fs, d)"
  by (simp_all add: OuterFrameDecoder_loop.simps [of d] OuterFrameDecoder_header_def)

lemma mirrors_byte:
  assumes inv: "ofd_inv d" and m: "mirrors p d" and push: "OuterFrameDecoder_push [x] d = (Inr fs, d')"
  shows "mirrors (OuterProgress_byte p x) d'"
proof -
  let ?d = "d\<lparr>ofd_pending := ofd_pending d @ [x]\<rparr>"
  have loop: "OuterFrameDecoder_loop ?d [] = (Inr fs, d')" using push by (simp add: OuterFrameDecoder_push_def split: if_splits)
  show ?thesis
  proof (cases "ofd_expected d")
    case None
    then have short: "length (ofd_pending d) < 2" using inv by (simp add: ofd_inv_def)
    show ?thesis
    proof (cases "ofd_pending d")
      case Nil
      then have "d' = ?d" using loop loop_short(1) [of ?d "[]"] None by simp
      with Nil None m show ?thesis by (simp add: mirrors_def OuterProgress_byte_def)
    next
      case (Cons y ys)
      with short have y: "ofd_pending d = [y]" by simp
      let ?n = "unat (u16_of_be [y, x])"
      note unfold = OuterFrameDecoder_loop.simps [of "d\<lparr>ofd_pending := [y, x]\<rparr>"] OuterFrameDecoder_header_def Let_def
      have n: "?n \<noteq> 0" using loop None y by (auto simp: unfold split: if_splits)
      then have "d' = d\<lparr>ofd_pending := [], ofd_expected := Some ?n\<rparr>"
        using loop None y by (auto simp: unfold split: if_splits)
      with None y m show ?thesis by (simp add: mirrors_def OuterProgress_byte_def)
    qed
  next
    case (Some n)
    then have n: "length (ofd_pending d) < n" "n \<le> OUTER_MAX" using inv by (simp_all add: ofd_inv_def)
    show ?thesis
    proof (cases "Suc (length (ofd_pending d)) = n")
      case False
      then have "d' = ?d" using loop loop_short(2) [of ?d n "[]"] Some n by simp
      with Some m False n show ?thesis by (auto simp: mirrors_def OuterProgress_byte_def)
    next
      case True
      let ?e = "d\<lparr>ofd_pending := [], ofd_expected := None\<rparr>"
      obtain f where "encode_outer (ofd_pending d @ [x]) = Inr f"
        by (rule encode_outer_total [of "ofd_pending d @ [x]"]) (use True n in auto)
      then have "OuterFrameDecoder_loop ?d [] = OuterFrameDecoder_loop ?e [f]"
        using Some True by (simp add: OuterFrameDecoder_loop.simps [of ?d] OuterFrameDecoder_header_def Let_def)
      then have "d' = ?e" using loop loop_short(1) [of ?e "[f]"] by simp
      with Some m True show ?thesis by (simp add: mirrors_def OuterProgress_byte_def)
    qed
  qed
qed

text \<open>A push of two parts, by parts.\<close>

lemma push_parts:
  assumes "ofd_inv d" "OuterFrameDecoder_push (a @ b) d = (Inr gs, d')"
  obtains fs d1 hs where "OuterFrameDecoder_push a d = (Inr fs, d1)" "OuterFrameDecoder_push b d1 = (Inr hs, d')"
    "gs = fs @ hs" "ofd_inv d1"
proof -
  obtain r d1 where p: "OuterFrameDecoder_push a d = (r, d1)" by fastforce
  have i: "ofd_inv d1" using push_inv [OF assms(1), of a] p by simp
  show ?thesis
  proof (cases r)
    case (Inl e)
    with p push_append(2) [OF assms(1), of a e d1 b] assms(2) show ?thesis by simp
  next
    case (Inr fs)
    with p push_append(1) [OF assms(1), of a fs d1 b] assms(2) i that show ?thesis
      by (cases "OuterFrameDecoder_push b d1"; cases "fst (OuterFrameDecoder_push b d1)") auto
  qed
qed

lemma mirrors_push:
  "ofd_inv d \<Longrightarrow> mirrors p d \<Longrightarrow> OuterFrameDecoder_push bs d = (Inr fs, d') \<Longrightarrow> bs \<noteq> [] \<Longrightarrow> mirrors (OuterProgress_push bs p) d'"
proof (induction bs arbitrary: d p fs)
  case (Cons x bs)
  obtain f1 d1 f2 where s: "OuterFrameDecoder_push [x] d = (Inr f1, d1)" "OuterFrameDecoder_push bs d1 = (Inr f2, d')" "ofd_inv d1"
    by (rule push_parts [of d "[x]" bs fs d']) (use Cons.prems in simp_all)
  have m: "mirrors (OuterProgress_byte p x) d1" by (rule mirrors_byte [OF Cons.prems(1,2) s(1)])
  show ?case
  proof (cases "bs = []")
    case True
    then have "d1 = d'" using s Cons.prems(3) by simp
    with True m show ?thesis by (simp add: OuterProgress_push_def)
  next
    case False
    from Cons.IH [OF s(3) m s(2) False] show ?thesis by (simp add: OuterProgress_push_def)
  qed
qed simp


section \<open>Reading\<close>

text \<open>Every reading of the clock lies between \<open>lo\<close> and \<open>hi\<close>, less than a second later.\<close>

definition timely :: "u64 \<Rightarrow> u64 \<Rightarrow> 'x host \<Rightarrow> bool" where
  "timely lo hi s \<longleftrightarrow> (\<forall>n. \<exists>t. ho_clock s n = Some t \<and> lo \<le> t \<and> t \<le> hi) \<and> unat hi < unat lo + 1000"

lemma now_timely:
  assumes "timely lo hi s"
  obtains t where "now_unix_ms s = Some (Inr t, s\<lparr>ho_ticks := Suc (ho_ticks s)\<rparr>)" "lo \<le> t" "t \<le> hi"
proof -
  obtain t where "ho_clock s (ho_ticks s) = Some t" "lo \<le> t" "t \<le> hi" using assms by (auto simp: timely_def)
  with that show ?thesis by (simp add: now_unix_ms_def)
qed

lemma timely_upd [simp]:
  "timely lo hi (s\<lparr>ho_ticks := n\<rparr>) = timely lo hi s" "timely lo hi (s\<lparr>ho_reader := r\<rparr>) = timely lo hi s"
  "timely lo hi (s\<lparr>ho_reads := rs\<rparr>) = timely lo hi s" "timely lo hi (s\<lparr>ho_core := c\<rparr>) = timely lo hi s"
  "timely lo hi (s\<lparr>ho_sent := b\<rparr>) = timely lo hi s" "timely lo hi (s\<lparr>ho_written := n\<rparr>) = timely lo hi s"
  "timely lo hi (with_core y s) = timely lo hi s"
  by (simp_all add: timely_def with_core_def)

lemma budgets [simp]:
  "1000 \<le> unat INCOMPLETE_OUTER_MS" "1000 \<le> unat SESSION_TOTAL_MS" "1000 \<le> unat SESSION_CONNECT_MS"
  "1000 \<le> unat SESSION_HANDSHAKE_MS" "1000 \<le> unat SESSION_OPEN_RESPONSE_MS"
proof -
  have "unat (1000 :: u64) = 1000" "unat (2000 :: u64) = 2000" "unat (4000 :: u64) = 4000" by simp_all
  then show "1000 \<le> unat INCOMPLETE_OUTER_MS" "1000 \<le> unat SESSION_TOTAL_MS" "1000 \<le> unat SESSION_CONNECT_MS"
    "1000 \<le> unat SESSION_HANDSHAKE_MS" "1000 \<le> unat SESSION_OPEN_RESPONSE_MS"
    by (simp_all only: INCOMPLETE_OUTER_MS_def SESSION_TOTAL_MS_def SESSION_CONNECT_MS_def SESSION_HANDSHAKE_MS_def
        SESSION_OPEN_RESPONSE_MS_def)
qed

lemma phase_deadline_timely:
  assumes "lo \<le> now" "now \<le> hi" "hi < command" "unat hi < unat lo + 1000" "1000 \<le> unat budget"
  obtains d where "phase_deadline command now budget = Inr d" "hi < d"
proof -
  have "unat hi < 2 ^ 64 - 1" using assms(3) unat_bound [of command] by (simp add: word_less_nat_alt)
  moreover have "unat (- 1 :: u64) = 2 ^ 64 - 1" by (simp add: unsigned_minus_1_eq_mask mask_eq_exp_minus_1)
  ultimately have "hi < saturating_add64 now budget"
    using assms by (auto simp: saturating_add64_def checked_add_def word_less_nat_alt word_le_nat_alt unat_word_ariths)
  then have "hi < phase_deadline_value command now budget"
    using assms(3) by (simp add: phase_deadline_value_def Let_def)
  moreover from this have "phase_deadline_value command now budget \<noteq> 0" by auto
  ultimately show ?thesis using that by (simp add: phase_deadline_def AbsoluteDeadline_new_def map_err_def)
qed

text \<open>The stream still holds the frames \<open>fs\<close>: some cut off already, the others in the reads to come.\<close>

definition holds_frames :: "u64 \<Rightarrow> bytes list \<Rightarrow> 'x host \<Rightarrow> bool" where
  "holds_frames hi fs s \<longleftrightarrow> (\<exists>chunks later gs.
     ho_reads s = map Inr chunks @ later \<and> list_all (\<lambda>c. c \<noteq> [] \<and> length c \<le> 4096) chunks \<and>
     OuterFrameDecoder_push (concat chunks) (fr_decoder (ho_reader s)) = (Inr gs, OuterFrameDecoder_new) \<and>
     fs = fr_ready (ho_reader s) @ gs) \<and>
   fr_terminal (ho_reader s) = None \<and> ofd_inv (fr_decoder (ho_reader s)) \<and>
   mirrors (fr_outer_progress (ho_reader s)) (fr_decoder (ho_reader s)) \<and>
   (\<forall>d. fr_incomplete_deadline (ho_reader s) = Some d \<longrightarrow> hi < d)"

lemma holds_upd [simp]:
  "holds_frames hi fs (s\<lparr>ho_ticks := n\<rparr>) = holds_frames hi fs s"
  "holds_frames hi fs (s\<lparr>ho_core := c\<rparr>) = holds_frames hi fs s"
  "holds_frames hi fs (s\<lparr>ho_sent := b\<rparr>) = holds_frames hi fs s"
  "holds_frames hi fs (s\<lparr>ho_written := n\<rparr>) = holds_frames hi fs s"
  "holds_frames hi fs (with_core y s) = holds_frames hi fs s"
  by (simp_all add: holds_frames_def with_core_def)

lemma expire_timely:
  assumes "fr_terminal (ho_reader s) = None" "\<forall>d. fr_incomplete_deadline (ho_reader s) = Some d \<longrightarrow> hi < d" "t \<le> hi"
  shows "expire_incomplete_at t s = Some (Inr (), s)"
  using assms
  by (auto simp: expire_incomplete_at_def ensure_not_terminal_def io_simps deadline_expired_at_def split: option.split)

lemma ensure_timely: "t \<le> hi \<Longrightarrow> hi < deadline \<Longrightarrow> ensure_deadline_at t deadline = Inr ()"
  by (simp add: ensure_deadline_at_def deadline_expired_at_def)

lemma read_deadline_timely:
  assumes "hi < deadline" "\<forall>d. fr_incomplete_deadline r = Some d \<longrightarrow> hi < d"
  obtains d where "read_deadline deadline r = Inr d"
proof (cases "fr_incomplete_deadline r")
  case (Some d)
  with assms have "min deadline d \<noteq> 0" by (auto simp: min_def)
  with Some that show ?thesis by (simp add: read_deadline_def AbsoluteDeadline_new_def map_err_def)
qed (use that in \<open>simp add: read_deadline_def\<close>)

lemma track_timely:
  assumes "lo \<le> now" "now \<le> hi" "hi < deadline" "unat hi < unat lo + 1000"
    "\<forall>d. fr_incomplete_deadline (ho_reader s) = Some d \<longrightarrow> hi < d"
  obtains i where "track_outer_progress chunk deadline now s = Some (Inr (), s\<lparr>ho_reader := (ho_reader s)
      \<lparr>fr_outer_progress := OuterProgress_push chunk (fr_outer_progress (ho_reader s)), fr_incomplete_deadline := i\<rparr>\<rparr>)"
    "\<forall>d. i = Some d \<longrightarrow> hi < d"
proof -
  obtain d where d: "phase_deadline deadline now INCOMPLETE_OUTER_MS = Inr d" "hi < d"
    by (rule phase_deadline_timely [OF assms(1-4) budgets(1)])
  let ?p = "OuterProgress_push chunk (fr_outer_progress (ho_reader s))"
  consider "OuterProgress_is_incomplete ?p" "fr_incomplete_deadline (ho_reader s) = None"
    | "OuterProgress_is_incomplete ?p" "fr_incomplete_deadline (ho_reader s) \<noteq> None" | "\<not> OuterProgress_is_incomplete ?p"
    by blast
  then show ?thesis
  proof cases
    case 1
    with d that [of "Some d"] show ?thesis by (simp add: track_outer_progress_def upd_reader_def io_simps)
  next
    case 2
    with assms(5) that [of "fr_incomplete_deadline (ho_reader s)"] show ?thesis
      by (auto simp: track_outer_progress_def upd_reader_def io_simps)
  next
    case 3
    with that [of None] show ?thesis by (simp add: track_outer_progress_def upd_reader_def io_simps)
  qed
qed


text \<open>The reader after one successful turn: the frames cut off, the progress and the deadline updated.\<close>

definition reader_fed :: "bytes \<Rightarrow> bytes list \<Rightarrow> OuterFrameDecoder \<Rightarrow> u64 option \<Rightarrow> RawFrameReader \<Rightarrow> RawFrameReader" where
  "reader_fed c fs d i r = r\<lparr>fr_decoder := d, fr_outer_progress := OuterProgress_push c (fr_outer_progress r),
     fr_incomplete_deadline := i, fr_ready := fr_ready r @ fs\<rparr>"

text \<open>What reading changes.\<close>

definition moved :: "nat \<Rightarrow> (PlatformFailureKind + bytes) list \<Rightarrow> RawFrameReader \<Rightarrow> 'x host \<Rightarrow> 'x host" where
  "moved n rs r s = s\<lparr>ho_reads := rs, ho_ticks := n, ho_reader := r\<rparr>"

lemma moved_simps [simp]:
  "ho_reads (moved n rs r s) = rs" "ho_ticks (moved n rs r s) = n" "ho_reader (moved n rs r s) = r"
  "ho_core (moved n rs r s) = ho_core s" "ho_sent (moved n rs r s) = ho_sent s" "ho_write (moved n rs r s) = ho_write s"
  "ho_written (moved n rs r s) = ho_written s" "ho_cancelled (moved n rs r s) = ho_cancelled s"
  "timely lo hi (moved n rs r s) = timely lo hi s" "moved m rs' r' (moved n rs r s) = moved m rs' r' s"
  by (simp_all add: moved_def timely_def)

lemma turn_reads:
  assumes t: "timely lo hi s" "hi < deadline" and r: "fr_terminal (ho_reader s) = None"
      "\<forall>d. fr_incomplete_deadline (ho_reader s) = Some d \<longrightarrow> hi < d"
    and c: "ho_reads s = Inr c # rest" "c \<noteq> []" "length c \<le> 4096"
      "OuterFrameDecoder_push c (fr_decoder (ho_reader s)) = (Inr fs, d)"
  obtains i where "read_outer_turn eof deadline s =
      pop_ready (moved (Suc (Suc (ho_ticks s))) rest (reader_fed c fs d i (ho_reader s)) s)" "\<forall>d. i = Some d \<longrightarrow> hi < d"
proof -
  have lim: "unat hi < unat lo + 1000" using t(1) by (simp add: timely_def)
  obtain t1 where n1: "now_unix_ms s = Some (Inr t1, s\<lparr>ho_ticks := Suc (ho_ticks s)\<rparr>)" "t1 \<le> hi"
    using now_timely [OF t(1)] by metis
  define s1 where "s1 = s\<lparr>ho_ticks := Suc (ho_ticks s)\<rparr>"
  have r1: "fr_terminal (ho_reader s1) = None" "\<forall>d. fr_incomplete_deadline (ho_reader s1) = Some d \<longrightarrow> hi < d"
    using r by (simp_all add: s1_def)
  obtain rd where rd: "read_deadline deadline (ho_reader s1) = Inr rd" by (rule read_deadline_timely [OF t(2) r1(2)])
  define s2 where "s2 = s1\<lparr>ho_reads := rest, ho_reader := (ho_reader s1)\<lparr>fr_decoder := d\<rparr>\<rparr>"
  have "timely lo hi s2" using t(1) by (simp add: s2_def s1_def)
  then obtain t2 where n2: "now_unix_ms s2 = Some (Inr t2, s2\<lparr>ho_ticks := Suc (ho_ticks s2)\<rparr>)" "lo \<le> t2" "t2 \<le> hi"
    using now_timely by metis
  define s3 where "s3 = s2\<lparr>ho_ticks := Suc (ho_ticks s2)\<rparr>"
  have "\<forall>d. fr_incomplete_deadline (ho_reader s3) = Some d \<longrightarrow> hi < d" using r(2) by (simp add: s3_def s2_def s1_def)
  from track_timely [OF n2(2,3) t(2) lim this] obtain i where
    i: "track_outer_progress c deadline t2 s3 = Some (Inr (), s3\<lparr>ho_reader := (ho_reader s3)
      \<lparr>fr_outer_progress := OuterProgress_push c (fr_outer_progress (ho_reader s3)), fr_incomplete_deadline := i\<rparr>\<rparr>)"
    and lim: "\<forall>d. i = Some d \<longrightarrow> hi < d" .
  have "read_outer_turn eof deadline s =
      pop_ready (moved (Suc (Suc (ho_ticks s))) rest (reader_fed c fs d i (ho_reader s)) s)"
    using n1 n2 expire_timely [OF r1 n1(2)] ensure_timely [OF n1(2) t(2)] rd c i
    by (simp add: read_outer_turn_def io_simps s1_def [symmetric])
      (simp add: raw_read_def take_chunk_def on_decoder_def upd_reader_def io_simps s1_def s2_def s3_def reader_fed_def moved_def)
  with lim that show ?thesis by blast
qed


lemma pop_next:
  "fr_ready (ho_reader s) = f # fs \<Longrightarrow>
     pop_ready s = Some (Inr (Some f), moved (ho_ticks s) (ho_reads s) ((ho_reader s)\<lparr>fr_ready := fs\<rparr>) s)"
  "fr_ready (ho_reader s) = [] \<Longrightarrow> pop_ready s = Some (Inr None, s)"
  by (simp_all add: pop_ready_def io_simps upd_reader_def moved_def)

lemma holds_pop:
  "holds_frames hi (f # fs) s \<Longrightarrow> fr_ready (ho_reader s) = f' # rest \<Longrightarrow>
     f' = f \<and> holds_frames hi fs (moved n (ho_reads s) ((ho_reader s)\<lparr>fr_ready := rest\<rparr>) s)"
  by (auto simp: holds_frames_def)

text \<open>The state after one turn, with the frames of the chunk still to be handed out.\<close>

lemma holds_turn:
  assumes h: "holds_frames hi fs s" and t: "timely lo hi s" "hi < deadline" and e: "fr_ready (ho_reader s) = []" "fs \<noteq> []"
  obtains s1 where "read_outer_turn eof deadline s = pop_ready s1" "holds_frames hi fs s1" "timely lo hi s1"
    "s1 = moved (ho_ticks s1) (ho_reads s1) (ho_reader s1) s" "length (ho_reads s1) < length (ho_reads s)"
proof -
  let ?r = "ho_reader s"
  from h obtain chunks later where c: "ho_reads s = map Inr chunks @ later" "list_all (\<lambda>c. c \<noteq> [] \<and> length c \<le> 4096) chunks"
    "OuterFrameDecoder_push (concat chunks) (fr_decoder ?r) = (Inr fs, OuterFrameDecoder_new)"
    and r: "fr_terminal ?r = None" "ofd_inv (fr_decoder ?r)" "mirrors (fr_outer_progress ?r) (fr_decoder ?r)"
      "\<forall>d. fr_incomplete_deadline ?r = Some d \<longrightarrow> hi < d"
    using e(1) by (auto simp: holds_frames_def)
  have "chunks \<noteq> []"
  proof
    assume "chunks = []"
    then have "OuterFrameDecoder_push [] (fr_decoder ?r) = (Inr fs, OuterFrameDecoder_new)" using c(3) by simp
    moreover have "OuterFrameDecoder_push [] (fr_decoder ?r) = (Inr [], fr_decoder ?r) \<or> is_err (fst (OuterFrameDecoder_push [] (fr_decoder ?r)))"
      using r(2) by (cases "ofd_expected (fr_decoder ?r)") (auto simp: OuterFrameDecoder_push_def ofd_inv_def loop_short)
    ultimately show False using e(2) by auto
  qed
  then obtain ch cs where cs: "chunks = ch # cs" by (cases chunks) auto
  then have ok: "ch \<noteq> []" "length ch \<le> 4096" "list_all (\<lambda>c. c \<noteq> [] \<and> length c \<le> 4096) cs"
    and reads: "ho_reads s = Inr ch # map Inr cs @ later" using c(1,2) by simp_all
  have "OuterFrameDecoder_push (ch @ concat cs) (fr_decoder ?r) = (Inr fs, OuterFrameDecoder_new)" using c(3) cs by simp
  from push_parts [OF r(2) this] obtain f1 d1 f2 where p: "OuterFrameDecoder_push ch (fr_decoder ?r) = (Inr f1, d1)"
    "OuterFrameDecoder_push (concat cs) d1 = (Inr f2, OuterFrameDecoder_new)" "fs = f1 @ f2" "ofd_inv d1"
    by metis
  obtain i where i: "read_outer_turn eof deadline s =
      pop_ready (moved (Suc (Suc (ho_ticks s))) (map Inr cs @ later) (reader_fed ch f1 d1 i ?r) s)" "\<forall>d. i = Some d \<longrightarrow> hi < d"
    using turn_reads [OF t r(1,4) reads ok(1,2) p(1)] by blast
  show ?thesis
  proof (rule that [OF i(1)])
    have "mirrors (OuterProgress_push ch (fr_outer_progress ?r)) d1" by (rule mirrors_push [OF r(2,3) p(1) ok(1)])
    then show "holds_frames hi fs (moved (Suc (Suc (ho_ticks s))) (map Inr cs @ later) (reader_fed ch f1 d1 i ?r) s)"
      using p(2-4) r(1) i(2) ok(3) e(1) by (auto simp: holds_frames_def reader_fed_def)
  qed (use t(1) reads in simp_all)
qed

lemma loop_delivers:
  assumes "holds_frames hi (f # fs) s" "timely lo hi s" "hi < deadline" "fr_ready (ho_reader s) = []"
  shows "\<exists>n rs r. io_loop (read_outer_turn eof deadline) s = Some (Inr f, moved n rs r s) \<and> holds_frames hi fs (moved n rs r s)"
  using assms
proof (induction "length (ho_reads s)" arbitrary: s rule: less_induct)
  case less
  obtain s1 where t: "read_outer_turn eof deadline s = pop_ready s1" "holds_frames hi (f # fs) s1" "timely lo hi s1"
    and s1: "s1 = moved (ho_ticks s1) (ho_reads s1) (ho_reader s1) s" "length (ho_reads s1) < length (ho_reads s)"
    by (rule holds_turn [OF less.prems]) simp_all
  show ?case
  proof (cases "fr_ready (ho_reader s1)")
    case Nil
    from less.hyps [OF s1(2) t(2,3) less.prems(3) Nil] obtain n rs r where
      "io_loop (read_outer_turn eof deadline) s1 = Some (Inr f, moved n rs r s1)" "holds_frames hi fs (moved n rs r s1)" by blast
    moreover have "moved n rs r s1 = moved n rs r s" by (subst s1(1)) simp
    moreover have "io_loop (read_outer_turn eof deadline) s = io_loop (read_outer_turn eof deadline) s1"
      by (simp add: io_loop.simps [of _ s] t(1) pop_next(2) [OF Nil])
    ultimately show ?thesis by auto
  next
    case (Cons f' rest)
    from holds_pop [OF t(2) Cons, of "ho_ticks s1"] pop_next(1) [OF Cons]
    have "io_loop (read_outer_turn eof deadline) s = Some (Inr f, moved (ho_ticks s1) (ho_reads s1) ((ho_reader s1)\<lparr>fr_ready := rest\<rparr>) s1)"
      "holds_frames hi fs (moved (ho_ticks s1) (ho_reads s1) ((ho_reader s1)\<lparr>fr_ready := rest\<rparr>) s1)"
      by (simp_all add: io_loop.simps [of _ s] t(1))
    moreover have "moved n rs r s1 = moved n rs r s" for n rs r by (subst s1(1)) simp
    ultimately show ?thesis by auto
  qed
qed

lemma read_delivers:
  assumes h: "holds_frames hi (f # fs) s" and t: "timely lo hi s" "hi < deadline"
  obtains n rs r where "read_outer_from eof deadline s = Some (Inr f, moved n rs r s)" "holds_frames hi fs (moved n rs r s)"
proof -
  obtain t1 where n1: "now_unix_ms s = Some (Inr t1, s\<lparr>ho_ticks := Suc (ho_ticks s)\<rparr>)" "t1 \<le> hi"
    using now_timely [OF t(1)] by metis
  define s1 where "s1 = s\<lparr>ho_ticks := Suc (ho_ticks s)\<rparr>"
  have s1: "holds_frames hi (f # fs) s1" "timely lo hi s1" "moved n rs r s1 = moved n rs r s" for n rs r
    using h t(1) by (simp_all add: s1_def) (simp add: moved_def)
  have r: "fr_terminal (ho_reader s) = None" "\<forall>d. fr_incomplete_deadline (ho_reader s1) = Some d \<longrightarrow> hi < d"
    "fr_terminal (ho_reader s1) = None" using h by (simp_all add: holds_frames_def s1_def)
  have start: "read_outer_from eof deadline s =
      (case pop_ready s1 of None \<Rightarrow> None | Some (Inl e, s) \<Rightarrow> Some (Inl e, s)
       | Some (Inr ready, s) \<Rightarrow> (case ready of Some frame \<Rightarrow> Some (Inr frame, s) | None \<Rightarrow> io_loop (read_outer_turn eof deadline) s))"
    using n1 r expire_timely [OF r(3,2) n1(2)] ensure_timely [OF n1(2) t(2)]
    by (simp add: read_outer_from_def ensure_not_terminal_def io_simps s1_def [symmetric] split: option.split sum.split prod.split)
  show ?thesis
  proof (cases "fr_ready (ho_reader s1)")
    case Nil
    with loop_delivers [OF s1(1,2) t(2) Nil, of eof] start pop_next(2) [OF Nil] that s1(3) show ?thesis by auto
  next
    case (Cons f' rest)
    with holds_pop [OF s1(1) Cons, of "ho_ticks s1"] start pop_next(1) [OF Cons] that s1(3) show ?thesis by auto
  qed
qed


section \<open>Writing\<close>

definition accepting :: "'x host \<Rightarrow> bool" where
  "accepting s \<longleftrightarrow> (\<forall>i bs. bs \<noteq> [] \<longrightarrow> (\<exists>n. ho_write s i bs = Inr n \<and> 0 < n \<and> n \<le> length bs))"

definition wrote :: "nat \<Rightarrow> nat \<Rightarrow> bytes \<Rightarrow> 'x host \<Rightarrow> 'x host" where
  "wrote a b bs s = s\<lparr>ho_ticks := a, ho_written := b, ho_sent := ho_sent s @ bs\<rparr>"

lemma wrote_simps [simp]:
  "ho_ticks (wrote a b bs s) = a" "ho_written (wrote a b bs s) = b" "ho_sent (wrote a b bs s) = ho_sent s @ bs"
  "ho_reads (wrote a b bs s) = ho_reads s" "ho_reader (wrote a b bs s) = ho_reader s" "ho_core (wrote a b bs s) = ho_core s"
  "ho_cancelled (wrote a b bs s) = ho_cancelled s" "ho_clock (wrote a b bs s) = ho_clock s" "ho_write (wrote a b bs s) = ho_write s"
  "timely lo hi (wrote a b bs s) = timely lo hi s" "holds_frames hi fs (wrote a b bs s) = holds_frames hi fs s"
  "wrote a' b' cs (wrote a b bs s) = wrote a' b' (bs @ cs) s"
  by (simp_all add: wrote_def timely_def holds_frames_def)

lemma accepting_simps [simp]:
  "accepting (wrote a b bs s) = accepting s" "accepting (moved n rs r s) = accepting s" "accepting (s\<lparr>ho_core := c\<rparr>) = accepting s"
  "accepting (with_core y s) = accepting s" "accepting (s\<lparr>ho_ticks := t\<rparr>) = accepting s" "accepting (s\<lparr>ho_reader := r\<rparr>) = accepting s"
  by (simp_all add: accepting_def moved_def with_core_def)

lemma write_loop:
  assumes "timely lo hi s" "hi < deadline" "accepting s"
  shows "\<exists>a b. io_loop (write_turn deadline) (s, bs) = Some (Inr (), wrote a b bs s, [])"
  using assms
proof (induction "length bs" arbitrary: s bs rule: less_induct)
  case less
  show ?case
  proof (cases "bs = []")
    case True
    then have "write_turn deadline (s, bs) = Some (Inr (Some ()), s, [])" by (simp add: write_turn_def)
    then have "io_loop (write_turn deadline) (s, bs) = Some (Inr (), wrote (ho_ticks s) (ho_written s) bs s, [])"
      using True by (simp add: io_loop.simps [of "write_turn deadline" "(s, [])"] wrote_def)
    then show ?thesis by blast
  next
    case False
    obtain t where t: "now_unix_ms s = Some (Inr t, s\<lparr>ho_ticks := Suc (ho_ticks s)\<rparr>)" "t \<le> hi"
      using now_timely [OF less.prems(1)] by metis
    obtain n where n: "ho_write s (ho_written s) bs = Inr n" "0 < n" "n \<le> length bs"
      using less.prems(3) False by (auto simp: accepting_def)
    let ?s = "wrote (Suc (ho_ticks s)) (Suc (ho_written s)) (take n bs) s"
    have "write_turn deadline (s, bs) = Some (Inr None, ?s, drop n bs)"
      using False t n ensure_timely [OF t(2) less.prems(2)]
      by (simp add: write_turn_def ensure_deadline_def io_simps raw_write_def wrote_def Let_def)
    then have "io_loop (write_turn deadline) (s, bs) = io_loop (write_turn deadline) (?s, drop n bs)"
      by (simp add: io_loop.simps [of "write_turn deadline" "(s, bs)"])
    moreover obtain a b where "io_loop (write_turn deadline) (?s, drop n bs) = Some (Inr (), wrote a b (drop n bs) ?s, [])"
      using less.hyps [of "drop n bs" ?s] n less.prems False by auto
    ultimately show ?thesis by auto
  qed
qed

lemma write_delivers:
  assumes "timely lo hi s" "hi < deadline" "accepting s"
  obtains a b where "write_all bs deadline s = Some (Inr (), wrote a b bs s)"
  using write_loop [OF assms, of bs] that by (auto simp: write_all_def)

lemma write_frames_delivers:
  assumes "timely lo hi s" "hi < deadline" "accepting s"
  shows "\<exists>a b. write_frames fs deadline s = Some (Inr (), wrote a b (concat fs) s)"
  using assms
proof (induction fs arbitrary: s)
  case Nil
  have "write_frames [] deadline s = Some (Inr (), wrote (ho_ticks s) (ho_written s) (concat []) s)"
    by (simp add: io_simps wrote_def)
  then show ?case by blast
next
  case (Cons f fs)
  obtain a b where w: "write_all f deadline s = Some (Inr (), wrote a b f s)" by (rule write_delivers [OF Cons.prems])
  with Cons.IH [of "wrote a b f s"] Cons.prems show ?case by (auto simp: io_simps)
qed

section \<open>Calls on the connection\<close>

lemma c1_call_ok: "m (ho_core s) = (Inr v, x) \<Longrightarrow> c1_call m deadline s = Some (Inr v, s\<lparr>ho_core := x\<rparr>)"
  by (simp add: c1_call_def on_core_def c1_lift_def io_simps)

lemma c1_lift_ok: "c1_lift (Inr v) deadline s = Some (Inr v, s)"
  by (simp add: c1_lift_def io_simps)

lemma core_upd_simps [simp]:
  "(moved n rs r s)\<lparr>ho_core := x\<rparr> = moved n rs r (s\<lparr>ho_core := x\<rparr>)"
  "(wrote a b bs s)\<lparr>ho_core := x\<rparr> = wrote a b bs (s\<lparr>ho_core := x\<rparr>)"
  by (simp_all add: moved_def wrote_def)

text \<open>The loop that reads a response, over the frames of one message.\<close>

lemma response_delivers:
  assumes "run (BrokerSession_read_application_response N C) fs (ho_core s) =
      (replicate (length fs - 1) (Inr None) @ [Inr (Some q)], x)" "fs \<noteq> []"
    "holds_frames hi (fs @ rest) s" "timely lo hi s" "hi < deadline"
  shows "\<exists>n rs r. read_response N C deadline s = Some (Inr q, moved n rs r (s\<lparr>ho_core := x\<rparr>)) \<and>
    holds_frames hi rest (moved n rs r (s\<lparr>ho_core := x\<rparr>))"
  using assms
proof (induction fs arbitrary: s)
  case (Cons f fs)
  obtain n rs r where rd: "read_outer_for_session deadline s = Some (Inr f, moved n rs r s)"
    "holds_frames hi (fs @ rest) (moved n rs r s)"
    using read_delivers [of hi f "fs @ rest" s lo deadline] Cons.prems(3-5) unfolding read_outer_for_session_def
    by (metis append_Cons)
  obtain v y where v: "BrokerSession_read_application_response N C f (ho_core s) = (v, y)" by fastforce
  show ?case
  proof (cases fs)
    case Nil
    with Cons.prems(1) v have "v = Inr (Some q)" "y = x" by simp_all
    then have "read_response N C deadline s = Some (Inr q, moved n rs r (s\<lparr>ho_core := x\<rparr>))"
      unfolding read_response_def using rd(1) v by (simp add: io_loop.simps [of _ s] io_bind_def c1_call_ok)
    moreover have "holds_frames hi rest (moved n rs r (s\<lparr>ho_core := x\<rparr>))" using rd(2) Nil by (simp add: holds_frames_def)
    ultimately show ?thesis by blast
  next
    case (Cons g gs)
    let ?s = "moved n rs r (s\<lparr>ho_core := y\<rparr>)"
    from Cons Cons.prems(1) v have w: "v = Inr None"
      "run (BrokerSession_read_application_response N C) fs y = (replicate (length fs - 1) (Inr None) @ [Inr (Some q)], x)"
      by (auto split: prod.splits)
    have h: "holds_frames hi (fs @ rest) ?s" using rd(2) by (simp add: holds_frames_def)
    from Cons.IH [of ?s] w(2) h Cons Cons.prems(4,5) obtain n' rs' r' where
      i: "read_response N C deadline ?s = Some (Inr q, moved n' rs' r' (?s\<lparr>ho_core := x\<rparr>))"
        "holds_frames hi rest (moved n' rs' r' (?s\<lparr>ho_core := x\<rparr>))" by auto
    have "read_response N C deadline s = read_response N C deadline ?s"
      unfolding read_response_def using rd(1) v w(1) by (simp add: io_loop.simps [of _ s] io_bind_def c1_call_ok)
    with i show ?thesis by auto
  qed
qed simp


section \<open>The state of a conversation\<close>

text \<open>A platform that works: the clock is timely, writes take bytes, the stream still holds the frames
  \<open>fs\<close>. What the host has sent and the connection it holds are named beside it.\<close>

definition talking :: "u64 \<Rightarrow> u64 \<Rightarrow> bytes list \<Rightarrow> bytes \<Rightarrow> 'x \<Rightarrow> 'x host \<Rightarrow> bool" where
  "talking lo hi fs sent c s \<longleftrightarrow> timely lo hi s \<and> accepting s \<and> holds_frames hi fs s \<and> ho_sent s = sent \<and>
     ho_core s = c \<and> \<not> ho_cancelled s"

lemma talking_call:
  assumes "m c = (Inr v, c')" "talking lo hi fs sent c s"
  obtains s' where "c1_call m deadline s = Some (Inr v, s')" "talking lo hi fs sent c' s'"
  using assms that [of "s\<lparr>ho_core := c'\<rparr>"] by (simp add: talking_def c1_call_ok)

lemma talking_write:
  assumes "talking lo hi fs sent c s" "hi < deadline"
  obtains s' where "write_all bs deadline s = Some (Inr (), s')" "talking lo hi fs (sent @ bs) c s'"
proof -
  obtain a b where "write_all bs deadline s = Some (Inr (), wrote a b bs s)"
    by (rule write_delivers [of lo hi s deadline bs]) (use assms in \<open>simp_all add: talking_def\<close>)
  with assms that show ?thesis by (simp add: talking_def)
qed

lemma talking_write_frames:
  assumes "talking lo hi fs sent c s" "hi < deadline"
  obtains s' where "write_frames gs deadline s = Some (Inr (), s')" "talking lo hi fs (sent @ concat gs) c s'"
proof -
  obtain a b where "write_frames gs deadline s = Some (Inr (), wrote a b (concat gs) s)"
    using write_frames_delivers [of lo hi s deadline gs] assms by (auto simp: talking_def)
  with assms that show ?thesis by (simp add: talking_def)
qed

lemma moved_sent [simp]: "ho_sent (moved n rs r s) = ho_sent s" "ho_cancelled (moved n rs r s) = ho_cancelled s"
  by (simp_all add: moved_def)

lemma talking_read:
  assumes "talking lo hi (f # fs) sent c s" "hi < deadline"
  obtains s' where "read_outer_from eof deadline s = Some (Inr f, s')" "talking lo hi fs sent c s'"
proof -
  obtain n rs r where "read_outer_from eof deadline s = Some (Inr f, moved n rs r s)" "holds_frames hi fs (moved n rs r s)"
    by (rule read_delivers [of hi f fs s lo deadline]) (use assms in \<open>simp_all add: talking_def\<close>)
  with assms that show ?thesis by (simp add: talking_def)
qed

lemma talking_response:
  assumes "talking lo hi (gs @ rest) sent c s" "hi < deadline" "gs \<noteq> []"
    "run (BrokerSession_read_application_response N C) gs c = (replicate (length gs - 1) (Inr None) @ [Inr (Some q)], c')"
  obtains s' where "read_response N C deadline s = Some (Inr q, s')" "talking lo hi rest sent c' s'"
proof -
  obtain n rs r where "read_response N C deadline s = Some (Inr q, moved n rs r (s\<lparr>ho_core := c'\<rparr>))"
    "holds_frames hi rest (moved n rs r (s\<lparr>ho_core := c'\<rparr>))"
    using response_delivers [of N C gs s q c' hi rest lo deadline] assms by (auto simp: talking_def)
  with assms that show ?thesis by (simp add: talking_def)
qed

lemma talking_phase:
  assumes "talking lo hi fs sent c s" "hi < deadline" "1000 \<le> unat budget"
  obtains s' now d where "now_unix_ms s = Some (Inr now, s')" "talking lo hi fs sent c s'"
    "phase_deadline deadline now budget = Inr d" "hi < d"
proof -
  from assms have t: "timely lo hi s" "unat hi < unat lo + 1000" by (simp_all add: talking_def timely_def)
  obtain now where n: "now_unix_ms s = Some (Inr now, s\<lparr>ho_ticks := Suc (ho_ticks s)\<rparr>)" "lo \<le> now" "now \<le> hi"
    by (rule now_timely [OF t(1)])
  obtain d where d: "phase_deadline deadline now budget = Inr d" "hi < d"
    by (rule phase_deadline_timely [OF n(2,3) assms(2) t(2) assms(3)])
  have "talking lo hi fs sent c (s\<lparr>ho_ticks := Suc (ho_ticks s)\<rparr>)" using assms(1) by (simp add: talking_def accepting_def)
  from that [OF n(1) this d] show ?thesis .
qed

lemma talking_ensure:
  assumes "talking lo hi fs sent c s" "hi < deadline"
  obtains s' where "ensure_deadline deadline s = Some (Inr (), s')" "talking lo hi fs sent c s'"
proof -
  from assms have t: "timely lo hi s" by (simp add: talking_def)
  obtain now where n: "now_unix_ms s = Some (Inr now, s\<lparr>ho_ticks := Suc (ho_ticks s)\<rparr>)" "now \<le> hi"
    by (rule now_timely [OF t])
  have "talking lo hi fs sent c (s\<lparr>ho_ticks := Suc (ho_ticks s)\<rparr>)" using assms(1) by (simp add: talking_def accepting_def)
  moreover have "ensure_deadline deadline s = Some (Inr (), s\<lparr>ho_ticks := Suc (ho_ticks s)\<rparr>)"
    by (simp add: ensure_deadline_def io_bind_def n(1) ensure_timely [OF n(2) assms(2)] io_lift_def)
  ultimately show ?thesis using that by blast
qed

lemma talking_core:
  "talking lo hi fs sent c s \<Longrightarrow> talking lo hi fs sent c' (with_core c' s)"
  by (simp add: talking_def) (simp add: with_core_def)

text \<open>A stream that is about to deliver the frames \<open>fs\<close>, cut into reads in any way.\<close>

definition delivers :: "bytes list \<Rightarrow> (PlatformFailureKind + bytes) list \<Rightarrow> bool" where
  "delivers fs reads \<longleftrightarrow> (\<exists>chunks later. reads = map Inr chunks @ later \<and> concat chunks = concat fs \<and>
     list_all (\<lambda>c. c \<noteq> [] \<and> length c \<le> 4096) chunks)"

lemma talking_new:
  assumes "timely lo hi s" "accepting s" "\<not> ho_cancelled s" "delivers fs (ho_reads s)" "list_all is_frame fs"
  shows "talking lo hi fs (ho_sent s) (ho_core s) (s\<lparr>ho_reader := RawFrameReader_new\<rparr>)"
proof -
  have "ofd_inv OuterFrameDecoder_new" by (simp add: ofd_inv_def OuterFrameDecoder_new_def)
  with assms push_frames [OF assms(5)] show ?thesis
    by (auto simp: talking_def holds_frames_def delivers_def RawFrameReader_new_def)
qed


section \<open>The operations complete\<close>

text \<open>What the Broker's calls accept is a frame.\<close>

lemma broker_read_m1_frame: "BrokerSession_read_m1_write_m2 N f s = (Inr x, s') \<Longrightarrow> is_frame f"
  using handshake_frame
  by (fastforce simp: BrokerSession_read_m1_write_m2_def SessionCore_finish_result_def SessionCore_read_handshake_def
      SessionCore_handshake_def st_simps split: if_splits prod.splits sum.splits option.splits)

lemma broker_read_finished_frame: "BrokerSession_read_finished N C f s = (Inr x, s') \<Longrightarrow> is_frame f"
  using counted_frame
  by (fastforce simp: BrokerSession_read_finished_def SessionCore_read_finished_def SessionCore_finish_result_def st_simps
      split: if_splits prod.splits sum.splits)

lemma broker_read_response_frame: "BrokerSession_read_application_response N C f s = (Inr x, s') \<Longrightarrow> is_frame f"
  using read_application_frame by (simp add: BrokerSession_read_application_response_def finish_result_Inr)

lemma run_response_frames:
  "run (BrokerSession_read_application_response N C) gs s = (replicate (length gs - 1) (Inr None) @ [Inr (Some q)], s') \<Longrightarrow>
     gs \<noteq> [] \<Longrightarrow> list_all is_frame gs"
proof (induction gs arbitrary: s)
  case (Cons f gs)
  obtain r s1 where r: "BrokerSession_read_application_response N C f s = (r, s1)" by fastforce
  show ?case
  proof (cases gs)
    case Nil
    with Cons.prems r broker_read_response_frame [of N C f s] show ?thesis by simp
  next
    case (Cons g gs')
    with Cons.prems(1) r have "r = Inr None"
      "run (BrokerSession_read_application_response N C) gs s1 = (replicate (length gs - 1) (Inr None) @ [Inr (Some q)], s')"
      by (auto split: prod.splits)
    with Cons.IH [of s1] Cons r broker_read_response_frame [of N C f s] show ?thesis by simp
  qed
qed simp

lemma open_core_completes:
  assumes t: "talking lo hi (f1 # gs) sent B0 s" and d: "hi < handshake" "hi < overall" and gs: "gs \<noteq> []"
    and b: "BrokerSession_read_m1_write_m2 N m1 B0 = (Inr m2, B1)" "BrokerSession_read_finished N C f1 B1 = (Inr (), B2)"
      "BrokerSession_write_finished N C B2 = (Inr f2, B3)" "BrokerSession_write_session_open N C p B3 = (Inr fs, B4)"
      "run (BrokerSession_read_application_response N C) gs B4 = (replicate (length gs - 1) (Inr None) @ [Inr (Some q)], B5)"
  obtains s' where "open_session_core N C m1 p handshake overall s = Some (Inr \<lparr>os_session = B5, os_response = q,
      os_handoff = HandoffPossibleOrConfirmed, os_reader = ho_reader s'\<rparr>, s')"
    "talking lo hi [] (sent @ m2 @ f2 @ concat fs) B5 s'"
proof -
  obtain s1 where s1: "c1_call (BrokerSession_read_m1_write_m2 N m1) handshake s = Some (Inr m2, s1)"
    "talking lo hi (f1 # gs) sent B1 s1" by (rule talking_call [of "BrokerSession_read_m1_write_m2 N m1", OF b(1) t])
  obtain s2 where s2: "write_all m2 handshake s1 = Some (Inr (), s2)" "talking lo hi (f1 # gs) (sent @ m2) B1 s2"
    by (rule talking_write [OF s1(2) d(1)])
  obtain s3 where s3: "read_outer_for_session handshake s2 = Some (Inr f1, s3)" "talking lo hi gs (sent @ m2) B1 s3"
    unfolding read_outer_for_session_def by (rule talking_read [OF s2(2) d(1)])
  obtain s4 where s4: "c1_call (BrokerSession_read_finished N C f1) handshake s3 = Some (Inr (), s4)"
    "talking lo hi gs (sent @ m2) B2 s4" by (rule talking_call [of "BrokerSession_read_finished N C f1", OF b(2) s3(2)])
  obtain s5 where s5: "c1_call (BrokerSession_write_finished N C) handshake s4 = Some (Inr f2, s5)"
    "talking lo hi gs (sent @ m2) B3 s5" by (rule talking_call [of "BrokerSession_write_finished N C", OF b(3) s4(2)])
  obtain s6 where s6: "write_all f2 handshake s5 = Some (Inr (), s6)" "talking lo hi gs ((sent @ m2) @ f2) B3 s6"
    by (rule talking_write [OF s5(2) d(1)])
  obtain s7 now open_deadline where s7: "now_unix_ms s6 = Some (Inr now, s7)" "talking lo hi gs ((sent @ m2) @ f2) B3 s7"
    "phase_deadline overall now SESSION_OPEN_RESPONSE_MS = Inr open_deadline" "hi < open_deadline"
    by (rule talking_phase [OF s6(2) d(2) budgets(5)])
  obtain s8 where s8: "c1_call (BrokerSession_write_session_open N C p) open_deadline s7 = Some (Inr fs, s8)"
    "talking lo hi gs ((sent @ m2) @ f2) B4 s8" by (rule talking_call [of "BrokerSession_write_session_open N C p", OF b(4) s7(2)])
  obtain s9 where s9: "write_frames fs open_deadline s8 = Some (Inr (), s9)"
    "talking lo hi gs (((sent @ m2) @ f2) @ concat fs) B4 s9" by (rule talking_write_frames [OF s8(2) s7(4)])
  obtain s' where s': "read_response N C open_deadline s9 = Some (Inr q, s')"
    "talking lo hi [] (((sent @ m2) @ f2) @ concat fs) B5 s'"
    by (rule talking_response [of lo hi gs "[]"]) (use s9(2) s7(4) gs b(5) in auto)
  have core: "ho_core s' = B5" using s'(2) by (simp add: talking_def)
  have "open_session_core N C m1 p handshake overall s = Some (Inr \<lparr>os_session = B5, os_response = q,
      os_handoff = HandoffPossibleOrConfirmed, os_reader = ho_reader s'\<rparr>, s')"
    using s1(1) s2(1) s3(1) s4(1) s5(1) s6(1) s7(1,3) s8(1) s9(1) s'(1) core
    by (simp add: open_session_core_def io_simps)
  with s'(2) that show ?thesis by simp
qed

lemma open_completes:
  assumes s: "timely lo hi s" "accepting s" "\<not> ho_cancelled s" "delivers (m1 # f1 # gs) (ho_reads s)"
    and d: "hi < deadline" and gs: "gs \<noteq> []"
    and b: "BrokerSession_new N C e b pbs = Inr B0"
      "BrokerSession_read_m1_write_m2 N m1 B0 = (Inr m2, B1)" "BrokerSession_read_finished N C f1 B1 = (Inr (), B2)"
      "BrokerSession_write_finished N C B2 = (Inr f2, B3)" "BrokerSession_write_session_open N C p B3 = (Inr fs, B4)"
      "run (BrokerSession_read_application_response N C) gs B4 = (replicate (length gs - 1) (Inr None) @ [Inr (Some q)], B5)"
  obtains reader s' where "open_session N C e (Inr ()) b pbs p deadline s = Some (Inr \<lparr>os_session = B5, os_response = q,
      os_handoff = HandoffPossibleOrConfirmed, os_reader = reader\<rparr>, s')"
    "ho_sent s' = ho_sent s @ m2 @ f2 @ concat fs" "\<not> ho_cancelled s'"
proof -
  have f: "list_all is_frame (m1 # f1 # gs)"
    using broker_read_m1_frame [OF b(2)] broker_read_finished_frame [OF b(3)] run_response_frames [OF b(6) gs] by simp
  have t0: "talking lo hi (m1 # f1 # gs) (ho_sent s) () (s\<lparr>ho_reader := RawFrameReader_new\<rparr>)"
    using talking_new [OF s f] by simp
  have lim: "unat hi < unat lo + 1000" using s(1) by (simp add: timely_def)
  obtain t1 where n1: "now_unix_ms s = Some (Inr t1, s\<lparr>ho_ticks := Suc (ho_ticks s)\<rparr>)" "lo \<le> t1" "t1 \<le> hi"
    by (rule now_timely [OF s(1)])
  obtain overall where o: "phase_deadline deadline t1 SESSION_TOTAL_MS = Inr overall" "hi < overall"
    by (rule phase_deadline_timely [OF n1(2,3) d lim budgets(2)])
  obtain cd where c: "phase_deadline overall t1 SESSION_CONNECT_MS = Inr cd" "hi < cd"
    by (rule phase_deadline_timely [OF n1(2,3) o(2) lim budgets(3)])
  let ?s1 = "s\<lparr>ho_ticks := Suc (ho_ticks s)\<rparr>"
  have t1: "timely lo hi ?s1" using s(1) by simp
  obtain t2 where n2: "now_unix_ms ?s1 = Some (Inr t2, ?s1\<lparr>ho_ticks := Suc (ho_ticks ?s1)\<rparr>)" "t2 \<le> hi"
    by (rule now_timely [OF t1])
  define s2 where "s2 = ?s1\<lparr>ho_ticks := Suc (ho_ticks ?s1)\<rparr>"
  have e: "ensure_deadline cd ?s1 = Some (Inr (), s2)"
    using n2 by (simp add: s2_def ensure_deadline_def io_bind_def ensure_timely [OF n2(2) c(2)] io_lift_def)
  let ?s3 = "s2\<lparr>ho_reader := RawFrameReader_new\<rparr>"
  have t3: "talking lo hi (m1 # f1 # gs) (ho_sent s) () ?s3"
    using t0 by (simp add: s2_def talking_def holds_frames_def timely_def accepting_def)
  obtain s4 now h where s4: "now_unix_ms ?s3 = Some (Inr now, s4)" "talking lo hi (m1 # f1 # gs) (ho_sent s) () s4"
    "phase_deadline overall now SESSION_HANDSHAKE_MS = Inr h" "hi < h"
    by (rule talking_phase [OF t3 o(2) budgets(4)])
  obtain s5 where s5: "read_outer h s4 = Some (Inr m1, s5)" "talking lo hi (f1 # gs) (ho_sent s) () s5"
    unfolding read_outer_def by (rule talking_read [OF s4(2,4)])
  obtain s6 where s6: "open_session_core N C m1 p h overall (with_core B0 s5) = Some (Inr \<lparr>os_session = B5, os_response = q,
      os_handoff = HandoffPossibleOrConfirmed, os_reader = ho_reader s6\<rparr>, s6)"
    "talking lo hi [] (ho_sent s @ m2 @ f2 @ concat fs) B5 s6"
    by (rule open_core_completes [OF talking_core [OF s5(2)] s4(4) o(2) gs b(2-6)])
  have "open_session N C e (Inr ()) b pbs p deadline s = Some (Inr \<lparr>os_session = B5, os_response = q,
      os_handoff = HandoffPossibleOrConfirmed, os_reader = ho_reader s6\<rparr>, with_core () s6)"
    using n1(1) o(1) c(1) e s4(1,3) s5(1) s6(1) b(1)
    by (simp add: open_session_def io_simps upd_reader_def c1_lift_def local_core_def)
  moreover have "ho_sent (with_core () s6) = ho_sent s @ m2 @ f2 @ concat fs" "\<not> ho_cancelled (with_core () s6)"
    using s6(2) by (simp_all add: talking_def with_core_def)
  ultimately show ?thesis using that by blast
qed


lemma broker_bootstrap_m1_frame: "BrokerBootstrap_read_m1_write_m2 N C B f = Inr x \<Longrightarrow> is_frame f"
  by (auto simp: BrokerBootstrap_read_m1_write_m2_def split: prod.splits elim!: res_bindE intro: handshake_frame)

lemma broker_ack_frame: "BrokerBootstrapAckReceiver_read_ack N C R f = Inr (A, lease) \<Longrightarrow> is_frame f"
  by (auto elim: read_ack_Inr intro: decrypt_frame)

lemma bootstrap_host_completes:
  assumes s: "timely lo hi s" "accepting s" "\<not> ho_cancelled s" "delivers [m1, ack] (ho_reads s)" and d: "hi < deadline"
    and b: "BrokerBootstrap_new N C e b sk secret = Inr B0" "BrokerBootstrap_read_m1_write_m2 N C B0 m1 = Inr (m2, R)"
      "BrokerBootstrapAckReceiver_read_ack N C R ack = Inr (A, lease)"
  obtains reader s' where "host_bootstrap N C e cleanup sk secret b deadline s =
      Some (Inr \<lparr>bs_ack = A, bs_lease = lease, bs_reader = reader\<rparr>, s')"
    "ho_sent s' = ho_sent s @ m2" "\<not> ho_cancelled s'"
proof -
  have f: "list_all is_frame [m1, ack]" using broker_bootstrap_m1_frame [OF b(2)] broker_ack_frame [OF b(3)] by simp
  have t0: "talking lo hi [m1, ack] (ho_sent s) () (s\<lparr>ho_reader := RawFrameReader_new\<rparr>)"
    using talking_new [OF s f] by simp
  obtain s1 where s1: "read_outer deadline (s\<lparr>ho_reader := RawFrameReader_new\<rparr>) = Some (Inr m1, s1)"
    "talking lo hi [ack] (ho_sent s) () s1" unfolding read_outer_def by (rule talking_read [OF t0 d])
  obtain s2 where s2: "write_all m2 deadline s1 = Some (Inr (), s2)" "talking lo hi [ack] (ho_sent s @ m2) () s2"
    by (rule talking_write [OF s1(2) d])
  obtain s3 where s3: "read_outer deadline s2 = Some (Inr ack, s3)" "talking lo hi [] (ho_sent s @ m2) () s3"
    unfolding read_outer_def by (rule talking_read [OF s2(2) d])
  have "host_bootstrap N C e cleanup sk secret b deadline s =
      Some (Inr \<lparr>bs_ack = A, bs_lease = lease, bs_reader = ho_reader s3\<rparr>, s3)"
    using s1(1) s2(1) s3(1) b by (simp add: host_bootstrap_def io_simps upd_reader_def c1_lift_def)
  with s3(2) that show ?thesis by (simp add: talking_def)
qed

lemma heartbeat_reply_frame: "BrokerLease_read_heartbeat_reply N C f s = (Inr c, s') \<Longrightarrow> is_frame f"
  using decrypt_frame
  by (fastforce simp: BrokerLease_read_heartbeat_reply_def LeaseCore_finish_result_def LeaseCore_read_heartbeat_def
      LeaseCore_decrypt_counted_def LeaseCore_transport_def st_simps Let_def
      split: if_splits option.splits prod.splits sum.splits)

lemma heartbeat_host_completes:
  assumes s: "timely lo hi s" "accepting s" "\<not> ho_cancelled s" "delivers [reply] (ho_reads s)" "ho_reader s = RawFrameReader_new"
    and d: "hi < deadline" and b: "BrokerLease_write_heartbeat_request N C counter (ho_core s) = (Inr request, b1)"
      "BrokerLease_read_heartbeat_reply N C reply b1 = (Inr counter, b2)"
  obtains s' where "host_heartbeat N C counter deadline s = Some (Inr (), s')" "ho_core s' = b2"
    "ho_sent s' = ho_sent s @ request" "\<not> ho_cancelled s'"
proof -
  have t0: "talking lo hi [reply] (ho_sent s) (ho_core s) s"
  proof -
    have "s\<lparr>ho_reader := RawFrameReader_new\<rparr> = s" by (simp flip: s(5))
    then show ?thesis using talking_new [OF s(1-4)] heartbeat_reply_frame [OF b(2)] by simp
  qed
  obtain s1 where s1: "c1_call (BrokerLease_write_heartbeat_request N C counter) deadline s = Some (Inr request, s1)"
    "talking lo hi [reply] (ho_sent s) b1 s1" by (rule talking_call [of "BrokerLease_write_heartbeat_request N C counter", OF b(1) t0])
  obtain s2 where s2: "write_all request deadline s1 = Some (Inr (), s2)" "talking lo hi [reply] (ho_sent s @ request) b1 s2"
    by (rule talking_write [OF s1(2) d])
  obtain s3 where s3: "read_outer deadline s2 = Some (Inr reply, s3)" "talking lo hi [] (ho_sent s @ request) b1 s3"
    unfolding read_outer_def by (rule talking_read [OF s2(2) d])
  obtain s4 where s4: "c1_call (BrokerLease_read_heartbeat_reply N C reply) deadline s3 = Some (Inr counter, s4)"
    "talking lo hi [] (ho_sent s @ request) b2 s4"
    by (rule talking_call [of "BrokerLease_read_heartbeat_reply N C reply", OF b(2) s3(2)])
  have "host_heartbeat N C counter deadline s = Some (Inr (), s4)"
    using s1(1) s2(1) s3(1) s4(1) by (simp add: host_heartbeat_def host_heartbeat_reply_def io_simps)
  with s4(2) that show ?thesis by (simp add: talking_def)
qed

section \<open>Properties\<close>

text \<open>C18: The host opens a session. Against an eligible supervisor, on a fresh stream and for the binding and
  secret of its lease, the host's code and the supervisor carry a whole session: what the supervisor answers
  to the bytes the host writes is, cut into reads in any way, what makes \<^verbatim>\<open>open_session\<close> write exactly
  those bytes and return the runtime's response, with the handoff marked as possible, as long as the clock is
  before the deadline and writes take bytes.\<close>

theorem host_opens_session:
  assumes "protected_link N chan keypair C" "tt_phase t = P_Eligible el"
    "wf_session_binding (el_session_binding el)" "SessionBinding_valid (el_session_binding el)" "length (el_pbs el) = 32"
    "j \<noteq> 0" "j \<noteq> el_lease_stream el" "get_child j el = None" "tt_next_token t = n" "0 < n" "n < 2 ^ 64 - 8"
    "p \<noteq> []" "length p \<le> 65536" "q \<noteq> []" "length q \<le> 67108864"
    and host: "timely lo hi s" "accepting s" "\<not> ho_cancelled s" "hi < deadline"
  shows "\<exists>m1 m2 f1 f2 fs gs t'.
    run (drive_op N C) (map (Pair e) (session_events j n m2 f2 fs q)) t = (map Inr (session_answers j n m1 f1 p gs), t') \<and>
    (\<forall>reads. delivers (m1 # f1 # gs) reads \<longrightarrow> (\<exists>opened s'.
       open_session N C e2 (Inr ()) (el_session_binding el) (el_pbs el) p deadline (s\<lparr>ho_reads := reads\<rparr>) =
         Some (Inr opened, s') \<and>
       os_response opened = q \<and> os_handoff opened = HandoffPossibleOrConfirmed \<and>
       ho_sent s' = ho_sent s @ m2 @ f2 @ concat fs \<and> \<not> ho_cancelled s'))"
proof -
  from protected_link.session_served [OF assms(1-15), of e2 e]
  obtain B0 m1 m2 B1 f1 B2 f2 B3 fs B4 gs B5 t' where
    b: "BrokerSession_new N C e2 (el_session_binding el) (el_pbs el) = Inr B0"
      "BrokerSession_read_m1_write_m2 N m1 B0 = (Inr m2, B1)" "BrokerSession_read_finished N C f1 B1 = (Inr (), B2)"
      "BrokerSession_write_finished N C B2 = (Inr f2, B3)" "BrokerSession_write_session_open N C p B3 = (Inr fs, B4)"
      "run (BrokerSession_read_application_response N C) gs B4 = (replicate (length gs - 1) (Inr None) @ [Inr (Some q)], B5)"
    and t': "run (drive_op N C) (map (Pair e) (session_events j n m2 f2 fs q)) t = (map Inr (session_answers j n m1 f1 p gs), t')"
    by blast
  have gs: "gs \<noteq> []" using b(6) by auto
  have "\<exists>opened s'. open_session N C e2 (Inr ()) (el_session_binding el) (el_pbs el) p deadline (s\<lparr>ho_reads := reads\<rparr>) =
         Some (Inr opened, s') \<and> os_response opened = q \<and> os_handoff opened = HandoffPossibleOrConfirmed \<and>
       ho_sent s' = ho_sent s @ m2 @ f2 @ concat fs \<and> \<not> ho_cancelled s'"
    if r: "delivers (m1 # f1 # gs) reads" for reads
  proof -
    obtain reader s' where "open_session N C e2 (Inr ()) (el_session_binding el) (el_pbs el) p deadline (s\<lparr>ho_reads := reads\<rparr>) =
        Some (Inr \<lparr>os_session = B5, os_response = q, os_handoff = HandoffPossibleOrConfirmed, os_reader = reader\<rparr>, s')"
      "ho_sent s' = ho_sent (s\<lparr>ho_reads := reads\<rparr>) @ m2 @ f2 @ concat fs" "\<not> ho_cancelled s'"
      by (rule open_completes [where s = "s\<lparr>ho_reads := reads\<rparr>" and lo = lo, OF _ _ _ _ host(4) gs b]) (use host r in \<open>simp_all add: accepting_def\<close>)
    then show ?thesis by auto
  qed
  with t' show ?thesis by blast
qed

text \<open>C19: The host completes the bootstrap. A fresh supervisor and the host's \<^verbatim>\<open>bootstrap\<close>, with the matching
  key and binding, answer each other's messages: the supervisor becomes ready with the host's secret and the
  acknowledged binding, and from its answers, cut into reads in any way, the host obtains that
  acknowledgement and a lease connection linked to the supervisor's.\<close>

theorem host_bootstraps:
  assumes "protected_link N chan keypair C" "keypair sk pk" "wf_bootstrap_binding b" "length secret = 32"
    "valid_generation g" "k \<noteq> 0" and host: "timely lo hi s" "accepting s" "\<not> ho_cancelled s" "hi < deadline"
  shows "\<exists>m1 m2 ack A lease.
    run (drive_op N C) (map (Pair e) (bootstrap_events k m2)) (fresh_transport b pk g) =
      (map Inr (bootstrap_answers k m1 ack g), ready_transport g k lease secret (binding_of_ack A)) \<and>
    (\<forall>reads. delivers [m1, ack] reads \<longrightarrow> (\<exists>success s'.
       host_bootstrap N C e2 cleanup sk secret b deadline (s\<lparr>ho_reads := reads\<rparr>) = Some (Inr success, s') \<and>
       bs_ack success = A \<and> lease_linked chan (bs_lease success) lease \<and>
       ho_sent s' = ho_sent s @ m2 \<and> \<not> ho_cancelled s'))"
proof -
  obtain B0 m1 m2 R ack A bl lease where
    b: "BrokerBootstrap_new N C e2 b sk secret = Inr B0" "BrokerBootstrap_read_m1_write_m2 N C B0 m1 = Inr (m2, R)"
      "BrokerBootstrapAckReceiver_read_ack N C R ack = Inr (A, bl)" and l: "lease_linked chan bl lease"
    and r: "run (drive_op N C) (map (Pair e) (bootstrap_events k m2)) (fresh_transport b pk g) =
      (map Inr (bootstrap_answers k m1 ack g), ready_transport g k lease secret (binding_of_ack A))"
    by (rule protected_link.supervisor_becomes_ready [OF assms(1-6), of e2 e])
  have "\<exists>success s'. host_bootstrap N C e2 cleanup sk secret b deadline (s\<lparr>ho_reads := reads\<rparr>) = Some (Inr success, s') \<and>
       bs_ack success = A \<and> lease_linked chan (bs_lease success) lease \<and> ho_sent s' = ho_sent s @ m2 \<and> \<not> ho_cancelled s'"
    if d: "delivers [m1, ack] reads" for reads
  proof -
    obtain reader s' where "host_bootstrap N C e2 cleanup sk secret b deadline (s\<lparr>ho_reads := reads\<rparr>) =
        Some (Inr \<lparr>bs_ack = A, bs_lease = bl, bs_reader = reader\<rparr>, s')"
      "ho_sent s' = ho_sent (s\<lparr>ho_reads := reads\<rparr>) @ m2" "\<not> ho_cancelled s'"
      by (rule bootstrap_host_completes [where s = "s\<lparr>ho_reads := reads\<rparr>" and lo = lo, OF _ _ _ _ host(4) b]) (use host d in \<open>simp_all add: accepting_def\<close>)
    with l show ?thesis by auto
  qed
  with r show ?thesis by blast
qed


text \<open>A host with an accepting stream, for the witnesses.\<close>

definition demo_host :: "unit host" where
  "demo_host = \<lparr>ho_clock = (\<lambda>_. Some 1000), ho_ticks = 0, ho_reads = [], ho_write = (\<lambda>_ bs. Inr (length bs)), ho_written = 0,
     ho_sent = [], ho_cancelled = False, ho_reader = RawFrameReader_new, ho_core = ()\<rparr>"

lemma demo_host_works: "timely 1000 1000 demo_host" "accepting demo_host" "\<not> ho_cancelled demo_host" "(1000 :: u64) < 60000"
  by (simp_all add: demo_host_def timely_def accepting_def)

lemma delivers_bytewise: "delivers fs (map (\<lambda>x. Inr [x]) (concat fs))"
proof -
  have "concat (map (\<lambda>x. [x]) xs) = xs" "list_all (\<lambda>c. c \<noteq> [] \<and> length c \<le> 4096) (map (\<lambda>x. [x]) xs)" for xs :: bytes
    by (induction xs) simp_all
  then show ?thesis unfolding delivers_def by (intro exI [of _ "map (\<lambda>x. [x]) (concat fs)"] exI [of _ "[]"]) (simp add: comp_def)
qed

theorem host_opens_session_witness:
  "\<exists>(t :: (clear_hs, clear_tr) TargetTransport) el reads opened s'. tt_phase t = P_Eligible el \<and>
     open_session clear_noise rfc_cbor [] (Inr ()) (el_session_binding el) (el_pbs el) [1, 2, 3] 60000
       (demo_host\<lparr>ho_reads := reads\<rparr>) = Some (Inr opened, s') \<and> os_response opened = [4]"
proof -
  obtain lease :: "clear_tr LeaseCore" and sb where sb: "wf_session_binding sb" "SessionBinding_valid sb"
    by (rule demo_ready)
  obtain el where el: "tt_phase (ready_transport 6 1 lease (replicate 32 9) sb :: (clear_hs, clear_tr) TargetTransport) = P_Eligible el"
    "el_lease_stream el = 1" "el_pbs el = replicate 32 9" "el_session_binding el = sb" "el_children el = []"
    "tt_next_token (ready_transport 6 1 lease (replicate 32 9) sb :: (clear_hs, clear_tr) TargetTransport) = 5"
    by (rule ready_phase)
  have "get_child 2 el = None" using el(5) by (simp add: get_child_def)
  from host_opens_session [OF clear_link.protected_link_axioms el(1) _ _ _ _ _ this el(6) _ _ _ _ _ _ demo_host_works,
      of "[1, 2, 3]" "[4]" "[]" "[]"] el sb
  obtain m1 m2 f1 f2 fs gs where "\<forall>reads. delivers (m1 # f1 # gs) reads \<longrightarrow> (\<exists>opened s'.
      open_session clear_noise rfc_cbor [] (Inr ()) (el_session_binding el) (el_pbs el) [1, 2, 3] 60000
        (demo_host\<lparr>ho_reads := reads\<rparr>) = Some (Inr opened, s') \<and> os_response opened = [4] \<and>
      os_handoff opened = HandoffPossibleOrConfirmed \<and> ho_sent s' = ho_sent demo_host @ m2 @ f2 @ concat fs \<and> \<not> ho_cancelled s')"
    by auto
  with delivers_bytewise [of "m1 # f1 # gs"] el(1) show ?thesis by blast
qed

theorem host_bootstraps_witness:
  "\<exists>reads success s'. host_bootstrap clear_noise rfc_cbor [] (Inr ()) (replicate 32 6) (replicate 32 9) demo_bootstrap_binding 60000
     (demo_host\<lparr>ho_reads := reads\<rparr>) = Some (Inr success, s')"
proof -
  from host_bootstraps [OF clear_link.protected_link_axioms _ _ _ _ _ demo_host_works, of "replicate 32 6" "replicate 32 6"
      demo_bootstrap_binding "replicate 32 9" 6 1 "[]" "[]" "Inr ()"]
  obtain m1 m2 ack A lease where "\<forall>reads. delivers [m1, ack] reads \<longrightarrow> (\<exists>success s'.
      host_bootstrap clear_noise rfc_cbor [] (Inr ()) (replicate 32 6) (replicate 32 9) demo_bootstrap_binding 60000
        (demo_host\<lparr>ho_reads := reads\<rparr>) = Some (Inr success, s') \<and> bs_ack success = A \<and>
      lease_linked clear_chan (bs_lease success) lease \<and> ho_sent s' = ho_sent demo_host @ m2 \<and> \<not> ho_cancelled s')"
    by (auto simp: valid_generation_def)
  with delivers_bytewise [of "[m1, ack]"] show ?thesis by blast
qed


text \<open>C26: A heartbeat keeps the lease. When the host's lease connection is linked to the supervisor's and both
  are idle, the host's \<^verbatim>\<open>heartbeat\<close> with a higher counter writes a request that the supervisor answers; from
  that answer, cut into reads in any way, it returns successfully. Then the count of ticks without a
  heartbeat is reset and both connections are linked and idle again; nothing else of the supervisor changes
  but the token counter.\<close>

theorem host_keeps_lease:
  assumes "protected_link N chan keypair C" "tt_phase t = P_Eligible el" "el_lease_stream el \<noteq> 0"
    "el_lease_write el = None" "el_lease_frame_timer el = None" "el_lease_decoder el = OuterFrameDecoder_new"
    "tt_next_token t = n" "0 < n" "n < 2 ^ 64 - 1"
    "lease_linked chan (ho_core s) (el_lease el)" "lease_spare (ho_core s)" "lease_spare (el_lease el)"
    "beats (ho_core s) = (None, m)" "beats (el_lease el) = (None, m)" "m < counter"
    and host: "timely lo hi s" "accepting s" "\<not> ho_cancelled s" "hi < deadline" "ho_reader s = RawFrameReader_new"
  shows "\<exists>request reply b2 t2.
    lease_linked chan b2 t2 \<and> beats b2 = (None, counter) \<and> beats t2 = (None, counter) \<and>
    run (drive_op N C) [(e, event Ev_StreamBytes (el_lease_stream el) 0 request),
        (e, event Ev_FullWriteCommitted (el_lease_stream el) n [])] t =
      ([Inr (Outcome_write (el_lease_stream el) n reply), Inr (Outcome_stream (el_lease_stream el) (Outcome_new K_NeedInput))],
       t\<lparr>tt_phase := P_Eligible (el\<lparr>el_lease := t2, el_missed_ticks := 0\<rparr>), tt_next_token := n + 1\<rparr>) \<and>
    (\<forall>reads. delivers [reply] reads \<longrightarrow> (\<exists>s'. host_heartbeat N C counter deadline (s\<lparr>ho_reads := reads\<rparr>) = Some (Inr (), s') \<and>
       ho_core s' = b2 \<and> ho_sent s' = ho_sent s @ request \<and> \<not> ho_cancelled s'))"
proof -
  obtain request b1 reply b2 t2 where
    b: "BrokerLease_write_heartbeat_request N C counter (ho_core s) = (Inr request, b1)"
      "BrokerLease_read_heartbeat_reply N C reply b1 = (Inr counter, b2)"
    and l: "lease_linked chan b2 t2" "beats b2 = (None, counter)" "beats t2 = (None, counter)"
    and r: "run (drive_op N C) [(e, event Ev_StreamBytes (el_lease_stream el) 0 request),
        (e, event Ev_FullWriteCommitted (el_lease_stream el) n [])] t =
      ([Inr (Outcome_write (el_lease_stream el) n reply), Inr (Outcome_stream (el_lease_stream el) (Outcome_new K_NeedInput))],
       t\<lparr>tt_phase := P_Eligible (el\<lparr>el_lease := t2, el_missed_ticks := 0\<rparr>), tt_next_token := n + 1\<rparr>)"
    using heartbeat_answered [OF assms(1-15), of e] by blast
  have "\<exists>s'. host_heartbeat N C counter deadline (s\<lparr>ho_reads := reads\<rparr>) = Some (Inr (), s') \<and>
       ho_core s' = b2 \<and> ho_sent s' = ho_sent s @ request \<and> \<not> ho_cancelled s'" if d: "delivers [reply] reads" for reads
  proof -
    obtain s' where "host_heartbeat N C counter deadline (s\<lparr>ho_reads := reads\<rparr>) = Some (Inr (), s')"
      "ho_core s' = b2" "ho_sent s' = ho_sent (s\<lparr>ho_reads := reads\<rparr>) @ request" "\<not> ho_cancelled s'"
      by (rule heartbeat_host_completes [where s = "s\<lparr>ho_reads := reads\<rparr>" and lo = lo, OF _ _ _ _ _ host(4) _ b(2)])
        (use host b(1) d in \<open>simp_all add: accepting_def\<close>)
    then show ?thesis by auto
  qed
  with l r show ?thesis by blast
qed

theorem host_keeps_lease_witness:
  "\<exists>reads s'. host_heartbeat clear_noise rfc_cbor 9 60000 (with_core demo_broker_lease demo_host\<lparr>ho_reads := reads\<rparr>) = Some (Inr (), s')"
proof -
  let ?t = "ready_transport 77 1 (demo_lease (Clear_TR 1 0)) (replicate 32 9) demo_session_binding ::
    (clear_hs, clear_tr) TargetTransport"
  let ?h = "with_core demo_broker_lease demo_host"
  obtain el where el: "tt_phase ?t = P_Eligible el" "el_lease_stream el = 1" "el_lease el = demo_lease (Clear_TR 1 0)"
    "el_lease_write el = None" "el_lease_frame_timer el = None" "el_lease_decoder el = OuterFrameDecoder_new" "tt_next_token ?t = 5"
    by (simp add: ready_transport_def)
  have core: "ho_core ?h = demo_broker_lease" "ho_reader ?h = RawFrameReader_new" by (simp_all add: with_core_def demo_host_def)
  have l: "lease_linked clear_chan (ho_core ?h) (el_lease el)" "lease_spare (ho_core ?h)" "lease_spare (el_lease el)"
    "beats (ho_core ?h) = (None, 0)" "beats (el_lease el) = (None, 0)" "(0 :: u64) < 9"
    by (simp_all only: core el(3))
      (simp_all add: lease_linked_def lease_spare_def beats_def demo_lease_def demo_broker_lease_def LeaseCore_new_def wf_lease_binding_def)
  have w: "timely 1000 1000 ?h" "accepting ?h" "\<not> ho_cancelled ?h" using demo_host_works by (simp_all) (simp add: with_core_def)
  have "el_lease_stream el \<noteq> 0" using el(2) by simp
  from host_keeps_lease [OF clear_link.protected_link_axioms el(1) this el(4,5,6,7) _ _ l w demo_host_works(4) core(2), of "[]"]
  obtain request reply b2 where "\<forall>reads. delivers [reply] reads \<longrightarrow>
      (\<exists>s'. host_heartbeat clear_noise rfc_cbor 9 60000 (?h\<lparr>ho_reads := reads\<rparr>) = Some (Inr (), s') \<and>
       ho_core s' = b2 \<and> ho_sent s' = ho_sent ?h @ request \<and> \<not> ho_cancelled s')"
    by auto
  with delivers_bytewise [of "[reply]"] show ?thesis by blast
qed

end
