(* ===== verification/Host_Deadline.thy ===== *)
theory Host_Deadline
  imports Host_Link
begin

text \<open>
  The host's reader under time. In every state it reaches it is ended or in step with its decoder: the
  deadline for an incomplete frame is armed exactly while there is one. Its read loop ends with the stream.
  A concrete run shows a frame that inherits the deadline of the frame before it.
\<close>

section \<open>The reader keeps its deadline\<close>

lemma io_loop_inv:
  assumes "io_loop body s = Some (r, s')" "I s" "\<And>s r s'. body s = Some (r, s') \<Longrightarrow> I s \<Longrightarrow> I s'"
  shows "I s'"
proof -
  have "(\<forall>s r s'. body s = Some (r, s') \<longrightarrow> I s \<longrightarrow> I s') \<longrightarrow> I s \<longrightarrow> I (snd (r, s'))"
    by (rule io_loop.raw_induct [OF _ assms(1)]) (fastforce split: option.splits prod.splits sum.splits)
  with assms(2,3) show ?thesis by auto
qed

text \<open>A clock that runs, and a reader that is terminal or in step with its decoder: the deadline for an
  incomplete frame is armed exactly while there is one, at most two seconds after a reading of the clock.\<close>

definition armed_by :: "'x host \<Rightarrow> u64 \<Rightarrow> bool" where
  "armed_by s d \<longleftrightarrow> (\<exists>i t. i < ho_ticks s \<and> ho_clock s i = Some t \<and> unat d \<le> unat t + 2000)"

definition in_step :: "'x host \<Rightarrow> bool" where
  "in_step s \<longleftrightarrow> (\<forall>n. ho_clock s n \<noteq> None) \<and>
     (fr_terminal (ho_reader s) = None \<longrightarrow>
        ofd_inv (fr_decoder (ho_reader s)) \<and> mirrors (fr_outer_progress (ho_reader s)) (fr_decoder (ho_reader s)) \<and>
        (case fr_incomplete_deadline (ho_reader s) of
           None \<Rightarrow> \<not> OuterProgress_is_incomplete (fr_outer_progress (ho_reader s))
         | Some d \<Rightarrow> OuterProgress_is_incomplete (fr_outer_progress (ho_reader s)) \<and> armed_by s d))"

lemma in_step_new: "(\<forall>n. ho_clock s n \<noteq> None) \<Longrightarrow> ho_reader s = RawFrameReader_new \<Longrightarrow> in_step s"
  by (simp add: in_step_def RawFrameReader_new_def ofd_inv_def OuterFrameDecoder_new_def [THEN arg_cong, of ofd_expected]
      OuterProgress_is_incomplete_def OuterProgress_default_def)
    (simp add: OuterFrameDecoder_new_def mirrors_def)

lemma in_step_terminal: "(\<forall>n. ho_clock s n \<noteq> None) \<Longrightarrow> fr_terminal (ho_reader s) = Some f \<Longrightarrow> in_step s"
  by (simp add: in_step_def)

lemma in_step_later:
  "in_step s \<Longrightarrow> ho_clock s' = ho_clock s \<Longrightarrow> ho_reader s' = ho_reader s \<Longrightarrow> ho_ticks s \<le> ho_ticks s' \<Longrightarrow> in_step s'"
  by (auto simp: in_step_def armed_by_def split: option.splits) (meson less_le_trans)+

lemma now_runs:
  assumes "in_step s"
  obtains t where "now_unix_ms s = Some (Inr t, s\<lparr>ho_ticks := Suc (ho_ticks s)\<rparr>)" "ho_clock s (ho_ticks s) = Some t"
proof -
  obtain t where "ho_clock s (ho_ticks s) = Some t" using assms by (auto simp: in_step_def)
  with that show ?thesis by (simp add: now_unix_ms_def)
qed

lemma expire_outcome:
  obtains (live) "expire_incomplete_at t s = Some (Inr (), s)" "fr_terminal (ho_reader s) = None"
  | (ended) f s' where "expire_incomplete_at t s = Some (Inl f, s')" "fr_terminal (ho_reader s') = Some f" "ho_clock s' = ho_clock s"
proof (cases "fr_terminal (ho_reader s)")
  case None
  note unfold = expire_incomplete_at_def ensure_not_terminal_def io_simps None
  show ?thesis
  proof (cases "case fr_incomplete_deadline (ho_reader s) of None \<Rightarrow> False | Some d \<Rightarrow> deadline_expired_at t d")
    case True
    obtain r d where "OuterFrameDecoder_timeout (fr_decoder (ho_reader s)) = (r, d)" by fastforce
    with True that(2) show ?thesis by (simp add: unfold on_decoder_def upd_reader_def Let_def)
  qed (use None that(1) in \<open>simp add: unfold\<close>)
next
  case (Some f)
  with that(2) show ?thesis by (simp add: expire_incomplete_at_def ensure_not_terminal_def io_simps)
qed

lemma eof_outcome:
  assumes "\<forall>n. ho_clock s n \<noteq> None"
  obtains f s' where "eof_from_outer s = Some (Inr f, s')" "in_step s'"
proof -
  obtain r d where "OuterFrameDecoder_eof (fr_decoder (ho_reader s)) = (r, d)" by fastforce
  with assms that show ?thesis
    by (simp add: in_step_def eof_from_outer_def reader_terminate_def on_decoder_def upd_reader_def io_simps Let_def)
qed

lemma armed_by_upd [simp]:
  "armed_by (s\<lparr>ho_reads := rs\<rparr>) d = armed_by s d" "armed_by (s\<lparr>ho_reader := x\<rparr>) d = armed_by s d"
  "armed_by s d \<Longrightarrow> armed_by (s\<lparr>ho_ticks := Suc (ho_ticks s)\<rparr>) d"
  by (auto simp: armed_by_def less_Suc_eq)

lemma in_step_upd [simp]:
  "in_step (s\<lparr>ho_reads := rs\<rparr>) = in_step s" "in_step (s\<lparr>ho_reader := (ho_reader s)\<lparr>fr_ready := fs\<rparr>\<rparr>) = in_step s"
  "in_step s \<Longrightarrow> in_step (s\<lparr>ho_ticks := Suc (ho_ticks s)\<rparr>)"
  by (simp_all add: in_step_def split: option.splits)

lemma frame_deadline_bound:
  assumes "deadline \<noteq> 0"
  obtains d where "phase_deadline deadline now INCOMPLETE_OUTER_MS = Inr d" "unat d \<le> unat now + 2000"
proof -
  have b: "unat (saturating_add64 now 2000) \<le> unat now + 2000" "saturating_add64 now 2000 \<noteq> 0"
    by (auto simp: saturating_add64_def checked_add_def unsigned_minus_1_eq_mask mask_eq_exp_minus_1 unat_word_ariths
        word_unat_eq_iff split: if_splits)
  show ?thesis
    using assms b that
    by (cases "deadline < saturating_add64 now 2000")
      (auto simp: phase_deadline_def phase_deadline_value_def INCOMPLETE_OUTER_MS_def AbsoluteDeadline_new_def map_err_def
        word_less_nat_alt)
qed

text \<open>The deadline is armed, kept or dropped as the chunk leaves the decoder.\<close>

lemma track_in_step:
  assumes "in_step s0" "fr_terminal (ho_reader s0) = None" "OuterFrameDecoder_push c (fr_decoder (ho_reader s0)) = (Inr fs, d)"
    "c \<noteq> []" "deadline \<noteq> 0" "ho_clock s = ho_clock s0" "ho_reader s = (ho_reader s0)\<lparr>fr_decoder := d\<rparr>" "ho_ticks s0 \<le> ho_ticks s"
    "i < ho_ticks s" "ho_clock s i = Some now"
  obtains s' where "track_outer_progress c deadline now s = Some (Inr (), s')" "in_step s'" "ho_reads s' = ho_reads s"
proof -
  let ?p = "OuterProgress_push c (fr_outer_progress (ho_reader s0))"
  have dec: "ofd_inv d" "mirrors ?p d"
    using assms(1-4) push_inv [of "fr_decoder (ho_reader s0)" c] mirrors_push [of "fr_decoder (ho_reader s0)" _ c fs d]
    by (auto simp: in_step_def)
  have later: "armed_by s d" if "armed_by s0 d" for d
    using that assms(6,8) by (auto simp: armed_by_def intro: less_le_trans)
  obtain nd where nd: "phase_deadline deadline now INCOMPLETE_OUTER_MS = Inr nd" "unat nd \<le> unat now + 2000"
    by (rule frame_deadline_bound [OF assms(5)])
  then have arm: "armed_by s nd" using assms(9,10) by (auto simp: armed_by_def)
  define fed where "fed i = s\<lparr>ho_reader := (ho_reader s)\<lparr>fr_outer_progress := ?p, fr_incomplete_deadline := i\<rparr>\<rparr>" for i
  obtain i where i: "track_outer_progress c deadline now s = Some (Inr (), fed i)"
    "case i of None \<Rightarrow> \<not> OuterProgress_is_incomplete ?p | Some d \<Rightarrow> OuterProgress_is_incomplete ?p \<and> armed_by s d"
  proof (cases "OuterProgress_is_incomplete ?p")
    case False
    with that [of None] assms(7) show ?thesis by (simp add: track_outer_progress_def upd_reader_def io_simps fed_def)
  next
    case True
    note unfold = track_outer_progress_def upd_reader_def io_simps fed_def assms(7) True
    show ?thesis
    proof (cases "fr_incomplete_deadline (ho_reader s0)")
      case None
      with True that [of "Some nd"] arm nd(1) show ?thesis by (simp add: unfold)
    next
      case (Some d)
      with assms(1,2) later [of d] have "armed_by s d" by (simp add: in_step_def)
      with True that [of "Some d"] Some show ?thesis by (simp add: unfold)
    qed
  qed
  from dec i(2) assms(1,6,7) have "in_step (fed i)" by (simp add: in_step_def fed_def split: option.splits)
  with i(1) that show ?thesis by (simp add: fed_def)
qed

lemma pop_in_step: "pop_ready s = Some (r, s') \<Longrightarrow> in_step s \<Longrightarrow> in_step s'"
  by (auto simp: pop_ready_def upd_reader_def io_simps split: list.splits)

lemma chunk_outcome:
  assumes s: "in_step s" "fr_terminal (ho_reader s) = None" and c: "c \<noteq> []" and d: "deadline \<noteq> 0"
  obtains (fails) f s' where "take_chunk c deadline s = Some (Inl f, s')" "in_step s'"
  | (takes) x s' where "take_chunk c deadline s = Some (Inr x, s')" "in_step s'" "ho_reads s' = ho_reads s"
proof -
  have clock: "\<forall>n. ho_clock s n \<noteq> None" using s(1) by (simp add: in_step_def)
  obtain r dec where p: "OuterFrameDecoder_push c (fr_decoder (ho_reader s)) = (r, dec)" by fastforce
  note unfold = take_chunk_def on_decoder_def io_simps p
  show ?thesis
  proof (cases r)
    case (Inl e)
    with clock fails show ?thesis by (simp add: in_step_def unfold reader_terminate_def upd_reader_def)
  next
    case (Inr fs)
    define s1 where "s1 = s\<lparr>ho_reader := (ho_reader s)\<lparr>fr_decoder := dec\<rparr>\<rparr>"
    obtain t where t: "ho_clock s (ho_ticks s) = Some t" using clock by auto
    define s2 where "s2 = s1\<lparr>ho_ticks := Suc (ho_ticks s1)\<rparr>"
    have n: "now_unix_ms s1 = Some (Inr t, s2)" using t by (simp add: now_unix_ms_def s1_def s2_def)
    obtain s3 where s3: "track_outer_progress c deadline t s2 = Some (Inr (), s3)" "in_step s3" "ho_reads s3 = ho_reads s2"
      by (rule track_in_step [OF s p [unfolded Inr] c d, of s2 "ho_ticks s" t]) (use t in \<open>simp_all add: s2_def s1_def\<close>)
    let ?s4 = "s3\<lparr>ho_reader := (ho_reader s3)\<lparr>fr_ready := fr_ready (ho_reader s3) @ fs\<rparr>\<rparr>"
    obtain x s5 where s5: "pop_ready ?s4 = Some (Inr x, s5)" "ho_reads s5 = ho_reads ?s4"
      by (cases "fr_ready (ho_reader ?s4)") (auto simp: pop_ready_def upd_reader_def io_simps)
    have "take_chunk c deadline s = Some (Inr x, s5)"
      using Inr n s3(1) s5(1) by (simp add: unfold s1_def [symmetric] upd_reader_def)
    moreover have "in_step s5" using pop_in_step [OF s5(1)] s3(2) by simp
    moreover have "ho_reads s5 = ho_reads s" using s5(2) s3(3) by (simp add: s2_def s1_def)
    ultimately show ?thesis by (rule takes)
  qed
qed

text \<open>The outcomes of a turn of the read loop, first for a read that answers.\<close>

lemma turn_answered:
  assumes "now_unix_ms s = Some (Inr t, s1)" "expire_incomplete_at t s1 = Some (Inr (), s1)" "ensure_deadline_at t deadline = Inr ()"
    "read_deadline deadline (ho_reader s1) = Inr rd" "ho_reads s1 = a # rest"
    and s1: "in_step s1" "fr_terminal (ho_reader s1) = None" and d: "deadline \<noteq> 0"
  obtains (fails) f s' where "read_outer_turn eof_from_outer deadline s = Some (Inl f, s')" "in_step s'"
  | (takes) c x s' where "read_outer_turn eof_from_outer deadline s = Some (Inr x, s')" "in_step s'"
      "a = Inr c" "rest = ho_reads s'" "c \<noteq> []"
proof -
  define s2 where "s2 = s1\<lparr>ho_reads := rest\<rparr>"
  have s2: "in_step s2" "fr_terminal (ho_reader s2) = None" and clock: "\<forall>n. ho_clock s2 n \<noteq> None"
    using s1 by (simp_all add: s2_def) (simp add: in_step_def)
  have "raw_read s1 = Some (Inr a, s2)" using assms(5) by (simp add: raw_read_def s2_def)
  note unfold = read_outer_turn_def io_simps assms(1-4) this
  obtain g s4 where eof: "eof_from_outer s2 = Some (Inr g, s4)" "in_step s4"
    by (rule eof_outcome [OF clock])
  obtain t2 where n: "now_unix_ms s2 = Some (Inr t2, s2\<lparr>ho_ticks := Suc (ho_ticks s2)\<rparr>)" by (rule now_runs [OF s2(1)])
  show ?thesis
  proof (cases a)
    case (Inl kind)
    define s3 where "s3 = s2\<lparr>ho_ticks := Suc (ho_ticks s2)\<rparr>"
    have s3: "in_step s3" "\<forall>n. ho_clock s3 n \<noteq> None" using s2(1) clock by (simp_all add: s3_def)
    obtain g s4 where eof: "eof_from_outer s3 = Some (Inr g, s4)" "in_step s4"
      by (rule eof_outcome [OF s3(2)])
    show ?thesis
    proof (cases rule: expire_outcome [of t2 s3])
      case live
      with Inl n eof s3(1) fails show ?thesis by (cases "kind = PlatformEof") (simp_all add: unfold s3_def [symmetric])
    next
      case (ended f s')
      with Inl n in_step_terminal [of s' f] s3(2) fails show ?thesis by (simp add: unfold s3_def [symmetric])
    qed
  next
    case (Inr c)
    consider "4096 < length c" | "c = []" | "length c \<le> 4096" "c \<noteq> []" by fastforce
    then show ?thesis
    proof cases
      case 1
      with Inr clock fails show ?thesis by (simp add: in_step_def unfold reader_terminate_def upd_reader_def)
    next
      case 2
      with Inr eof fails show ?thesis by (simp add: unfold)
    next
      case 3
      show ?thesis
      proof (cases rule: chunk_outcome [OF s2 3(2) d])
        case 1
        with 3 Inr that(1) show ?thesis by (simp add: unfold)
      next
        case (2 x s')
        have "read_outer_turn eof_from_outer deadline s = Some (Inr x, s')" using 2 3 Inr by (simp add: unfold)
        with 2 3 Inr takes show ?thesis by (simp add: s2_def)
      qed
    qed
  qed
qed

lemma turn_cases:
  assumes "in_step s"
  obtains (waits) "read_outer_turn eof_from_outer deadline s = None" "ho_reads s = []"
  | (fails) f s' where "read_outer_turn eof_from_outer deadline s = Some (Inl f, s')" "in_step s'"
  | (takes) c x s' where "read_outer_turn eof_from_outer deadline s = Some (Inr x, s')" "in_step s'"
      "ho_reads s = Inr c # ho_reads s'" "c \<noteq> []"
proof -
  obtain t where t: "now_unix_ms s = Some (Inr t, s\<lparr>ho_ticks := Suc (ho_ticks s)\<rparr>)" by (rule now_runs [OF assms])
  define s1 where "s1 = s\<lparr>ho_ticks := Suc (ho_ticks s)\<rparr>"
  have s1: "in_step s1" "ho_reads s1 = ho_reads s" "\<forall>n. ho_clock s1 n \<noteq> None"
    using assms by (simp_all add: s1_def) (simp add: in_step_def)
  note unfold = read_outer_turn_def io_simps t s1_def [symmetric]
  show ?thesis
  proof (cases rule: expire_outcome [of t s1])
    case (ended f s')
    with s1(3) in_step_terminal [of s' f] fails [of f s'] show ?thesis by (simp add: unfold)
  next
    case live
    consider f where "ensure_deadline_at t deadline = Inl f" | f where "ensure_deadline_at t deadline = Inr ()" "read_deadline deadline (ho_reader s1) = Inl f"
      | rd where "ensure_deadline_at t deadline = Inr ()" "read_deadline deadline (ho_reader s1) = Inr rd" "ho_reads s1 = []"
      | rd a rest where "ensure_deadline_at t deadline = Inr ()" "read_deadline deadline (ho_reader s1) = Inr rd" "ho_reads s1 = a # rest"
      by (metis list.exhaust old.sum.exhaust old.unit.exhaust)
    then show ?thesis
    proof cases
      case 4
      then have "deadline \<noteq> 0" by (auto simp: ensure_deadline_at_def deadline_expired_at_def split: if_splits)
      from turn_answered [OF t [folded s1_def] live(1) 4 s1(1) live(2) this] fails takes s1(2) 4(3) show ?thesis by metis
    qed (use live s1 that in \<open>simp_all add: unfold raw_read_def\<close>)
  qed
qed

text \<open>The read loop ends as soon as one of the reads ends the stream or fails.\<close>

definition ends_read :: "PlatformFailureKind + bytes \<Rightarrow> bool" where
  "ends_read a = (case a of Inl kind \<Rightarrow> True | Inr chunk \<Rightarrow> chunk = [])"

lemma loop_returns:
  "in_step s \<Longrightarrow> \<exists>a\<in>set (ho_reads s). ends_read a \<Longrightarrow> \<exists>r s'. io_loop (read_outer_turn eof_from_outer deadline) s = Some (r, s')"
proof (induction "length (ho_reads s)" arbitrary: s rule: less_induct)
  case less
  show ?case
  proof (cases rule: turn_cases [OF less.prems(1), of deadline])
    case 1
    with less.prems(2) show ?thesis by simp
  next
    case (2 f s')
    then show ?thesis by (simp add: io_loop.simps [of _ s])
  next
    case (3 c x s')
    then have "\<exists>a\<in>set (ho_reads s'). ends_read a" using less.prems(2) by (auto simp: ends_read_def)
    with less.hyps [of s'] 3 show ?thesis by (cases x) (simp_all add: io_loop.simps [of _ s])
  qed
qed

lemma loop_in_step:
  assumes "io_loop (read_outer_turn eof_from_outer deadline) s = Some (r, s')" "in_step s"
  shows "in_step s'"
proof (rule io_loop_inv [of _ s r s' in_step, OF assms])
  fix s :: "'a host" and r s' assume r: "read_outer_turn eof_from_outer deadline s = Some (r, s')" and i: "in_step s"
  show "in_step s'" by (rule turn_cases [OF i, of deadline]) (use r in auto)
qed

text \<open>A call of \<^verbatim>\<open>read_outer\<close> ends before its loop, or is its loop.\<close>

lemma read_outer_start:
  assumes "in_step s"
  obtains r s' where "read_outer deadline s = Some (r, s')" "in_step s'"
  | s' where "read_outer deadline s = io_loop (read_outer_turn eof_from_outer deadline) s'" "in_step s'" "ho_reads s' = ho_reads s"
proof -
  obtain t where t: "now_unix_ms s = Some (Inr t, s\<lparr>ho_ticks := Suc (ho_ticks s)\<rparr>)" by (rule now_runs [OF assms])
  define s1 where "s1 = s\<lparr>ho_ticks := Suc (ho_ticks s)\<rparr>"
  have s1: "in_step s1" "ho_reads s1 = ho_reads s" "\<forall>n. ho_clock s1 n \<noteq> None"
    using assms by (simp_all add: s1_def) (simp add: in_step_def)
  note unfold = read_outer_def read_outer_from_def ensure_not_terminal_def io_simps t s1_def [symmetric]
  show ?thesis
  proof (cases "fr_terminal (ho_reader s)")
    case (Some f)
    with assms that(1) show ?thesis by (simp add: unfold)
  next
    case None
    note unfold = unfold None
    show ?thesis
    proof (cases rule: expire_outcome [of t s1])
      case (ended f s')
      with s1(3) in_step_terminal [of s' f] that(1) [of "Inl f" s'] show ?thesis by (simp add: unfold)
    next
      case live
      consider f where "ensure_deadline_at t deadline = Inl f"
        | "ensure_deadline_at t deadline = Inr ()" "fr_ready (ho_reader s1) = []"
        | f fs where "ensure_deadline_at t deadline = Inr ()" "fr_ready (ho_reader s1) = f # fs"
        by (metis list.exhaust old.sum.exhaust old.unit.exhaust)
      then show ?thesis
        by cases (use live s1 that in \<open>simp_all add: unfold pop_ready_def upd_reader_def\<close>)
    qed
  qed
qed

lemma read_in_step:
  assumes "read_outer deadline s = Some (r, s')" "in_step s"
  shows "in_step s'"
proof (cases rule: read_outer_start [OF assms(2), of deadline])
  case 1
  with assms(1) show ?thesis by simp
next
  case (2 s1)
  then show ?thesis using loop_in_step [of deadline s1 r s'] assms(1) by simp
qed

text \<open>The states a reader reaches from a new one, by calls of \<^verbatim>\<open>read_outer\<close>.\<close>

inductive reads_from :: "'x host \<Rightarrow> 'x host \<Rightarrow> bool" where
  start: "ho_reader s = RawFrameReader_new \<Longrightarrow> reads_from s s"
| read: "reads_from s0 s \<Longrightarrow> read_outer deadline s = Some (r, s') \<Longrightarrow> reads_from s0 s'"

inductive_cases reads_fromE: "reads_from s0 s"

lemma reads_in_step: "reads_from s0 s \<Longrightarrow> \<forall>n. ho_clock s0 n \<noteq> None \<Longrightarrow> in_step s"
  by (induction rule: reads_from.induct) (auto intro: in_step_new read_in_step)

section \<open>A frame that inherits a deadline\<close>

text \<open>Two reads whose boundary is no frame boundary, at 1.0 s and at 2.9 s of the clock; the second ends
  the first frame and begins another. The deadline armed at the first read stays, so the second frame,
  begun 100 ms earlier, is timed out at 3.0 s.\<close>

definition straddling_host :: "unit host" where
  "straddling_host = demo_host\<lparr>ho_clock := (\<lambda>n. Some (if n \<le> 2 then 1000 else if n \<le> 4 then 2900 else 3000)),
     ho_reads := [Inr [0, 2, 9], Inr [8, 0, 5], Inr [1, 2, 3, 4, 5]]\<rparr>"

definition straddling_at :: "nat \<Rightarrow> (PlatformFailureKind + bytes) list \<Rightarrow> bytes \<Rightarrow> nat \<Rightarrow> unit host" where
  "straddling_at ticks reads pending n = straddling_host\<lparr>ho_ticks := ticks, ho_reads := reads,
     ho_reader := \<lparr>fr_decoder = \<lparr>ofd_pending = pending, ofd_expected = Some n, ofd_failed = False\<rparr>, fr_ready = [],
       fr_outer_progress = \<lparr>op_header = [], op_expected = Some n, op_payload_len = length pending\<rparr>,
       fr_incomplete_deadline = Some 3000, fr_terminal = None\<rparr>\<rparr>"

lemma straddling_pushes:
  "OuterFrameDecoder_push [0, 2, 9] OuterFrameDecoder_new = (Inr [], \<lparr>ofd_pending = [9], ofd_expected = Some 2, ofd_failed = False\<rparr>)"
  "OuterFrameDecoder_push [8, 0, 5] \<lparr>ofd_pending = [9], ofd_expected = Some 2, ofd_failed = False\<rparr> =
     (Inr [[0, 2, 9, 8]], \<lparr>ofd_pending = [], ofd_expected = Some 5, ofd_failed = False\<rparr>)"
proof -
  have "be_bytes (Suc (Suc 0)) 2 = [0, 2]" by simp
  then have "be_bytes 2 2 = [0, 2]" by (simp only: numeral_2_eq_2)
  then show "OuterFrameDecoder_push [0, 2, 9] OuterFrameDecoder_new = (Inr [], \<lparr>ofd_pending = [9], ofd_expected = Some 2, ofd_failed = False\<rparr>)"
    "OuterFrameDecoder_push [8, 0, 5] \<lparr>ofd_pending = [9], ofd_expected = Some 2, ofd_failed = False\<rparr> =
     (Inr [[0, 2, 9, 8]], \<lparr>ofd_pending = [], ofd_expected = Some 5, ofd_failed = False\<rparr>)"
    by (simp_all add: OuterFrameDecoder_push_def OuterFrameDecoder_new_def OuterFrameDecoder_loop.simps OuterFrameDecoder_header_def
        encode_outer_def u16_of_be_def u16_to_be_def be_val_def OUTER_MAX_def Let_def)
qed

lemmas straddling_simps = straddling_at_def straddling_host_def demo_host_def take_chunk_def raw_read_def on_decoder_def
  upd_reader_def now_unix_ms_def io_simps expire_incomplete_at_def ensure_not_terminal_def ensure_deadline_at_def
  deadline_expired_at_def read_deadline_def AbsoluteDeadline_new_def track_outer_progress_def OuterProgress_push_def
  OuterProgress_byte_def OuterProgress_is_incomplete_def phase_deadline_def phase_deadline_value_def saturating_add64_def
  checked_add_def INCOMPLETE_OUTER_MS_def pop_ready_def RawFrameReader_new_def OuterProgress_default_def u16_of_be_def be_val_def Let_def

lemma straddling_turns:
  "read_outer_turn eof_from_outer 60000 (straddling_host\<lparr>ho_ticks := 1\<rparr>) =
     Some (Inr None, straddling_at 3 [Inr [8, 0, 5], Inr [1, 2, 3, 4, 5]] [9] 2)"
  "read_outer_turn eof_from_outer 60000 (straddling_at 3 [Inr [8, 0, 5], Inr [1, 2, 3, 4, 5]] [9] 2) =
     Some (Inr (Some [0, 2, 9, 8]), straddling_at 5 [Inr [1, 2, 3, 4, 5]] [] 5)"
  using straddling_pushes by (simp_all add: read_outer_turn_def straddling_simps)


lemma straddling_read: "read_outer 60000 straddling_host = Some (Inr [0, 2, 9, 8], straddling_at 5 [Inr [1, 2, 3, 4, 5]] [] 5)"
proof -
  have "read_outer 60000 straddling_host = io_loop (read_outer_turn eof_from_outer 60000) (straddling_host\<lparr>ho_ticks := 1\<rparr>)"
    by (simp add: read_outer_def read_outer_from_def straddling_simps)
  then show ?thesis using straddling_turns(1) by (simp add: io_loop.simps [of _ "straddling_host\<lparr>ho_ticks := Suc 0\<rparr>"]
        io_loop.simps [of _ "straddling_at 3 [Inr [8, 0, 5], Inr [1, 2, 3, 4, 5]] [9] 2"] straddling_turns(2))
qed

theorem straddling_frame_times_out:
  "\<exists>s1 f s2. read_outer 60000 straddling_host = Some (Inr [0, 2, 9, 8], s1) \<and>
     OuterFrameDecoder_is_incomplete (fr_decoder (ho_reader s1)) \<and> ho_clock s1 4 = Some 2900 \<and>
     read_outer 60000 s1 = Some (Inl f, s2) \<and> tf_close_reason f = Timeout \<and> fr_terminal (ho_reader s2) = Some f \<and>
     ho_clock s2 (ho_ticks s1) = Some 3000 \<and> ho_reads s2 = [Inr [1, 2, 3, 4, 5]]"
  by (simp add: straddling_read)
    (simp add: read_outer_def read_outer_from_def straddling_simps OuterFrameDecoder_is_incomplete_def OuterFrameDecoder_timeout_def
      core_failure_def with_handoff_def TransportFailure_new_def)

section \<open>Properties\<close>

text \<open>C20: A partial frame has a deadline. After any calls of \<^verbatim>\<open>read_outer\<close> on a new reader, with a clock that
  runs, a reader that has not ended has its deadline armed exactly while its decoder holds an incomplete
  frame, and the deadline is at most two seconds after some reading of the clock.\<close>

theorem host_frame_deadline:
  assumes "reads_from s0 s" "\<forall>n. ho_clock s0 n \<noteq> None" "fr_terminal (ho_reader s) = None"
  shows "(fr_incomplete_deadline (ho_reader s) \<noteq> None \<longleftrightarrow> OuterFrameDecoder_is_incomplete (fr_decoder (ho_reader s))) \<and>
    OuterProgress_is_incomplete (fr_outer_progress (ho_reader s)) = OuterFrameDecoder_is_incomplete (fr_decoder (ho_reader s)) \<and>
    (\<forall>d. fr_incomplete_deadline (ho_reader s) = Some d \<longrightarrow>
       (\<exists>i t. i < ho_ticks s \<and> ho_clock s i = Some t \<and> unat d \<le> unat t + 2000))"
proof -
  have i: "in_step s" by (rule reads_in_step [OF assms(1,2)])
  with assms(3) have m: "mirrors (fr_outer_progress (ho_reader s)) (fr_decoder (ho_reader s))" by (simp add: in_step_def)
  from i assms(3) mirrors_incomplete [OF m] show ?thesis
    by (auto simp: in_step_def armed_by_def split: option.splits)
qed

text \<open>C21: Reading ends. With a clock that runs, a call of \<^verbatim>\<open>read_outer\<close> returns, with a frame or a failure,
  as soon as one of the reads to come fails or ends the stream: its loop never outlives the stream.\<close>

theorem host_read_returns:
  assumes "reads_from s0 s" "\<forall>n. ho_clock s0 n \<noteq> None" "\<exists>a\<in>set (ho_reads s). ends_read a"
  shows "\<exists>r s'. read_outer deadline s = Some (r, s')"
proof (cases rule: read_outer_start [OF reads_in_step [OF assms(1,2)], of deadline])
  case (2 s')
  with loop_returns [of s' deadline] assms(3) show ?thesis by simp
qed blast

theorem host_read_returns_witness:
  "\<exists>r s'. read_outer 60000 (demo_host\<lparr>ho_reads := [Inr [0, 2, 7], Inl PlatformEof]\<rparr>) = Some (r, s')"
  by (rule host_read_returns [OF reads_from.start]) (simp_all add: demo_host_def ends_read_def)

theorem host_frame_deadline_witness:
  "OuterFrameDecoder_is_incomplete (fr_decoder (ho_reader (straddling_at 5 [Inr [1, 2, 3, 4, 5]] [] 5))) \<and>
   OuterProgress_is_incomplete (fr_outer_progress (ho_reader (straddling_at 5 [Inr [1, 2, 3, 4, 5]] [] 5)))"
proof -
  have "reads_from straddling_host (straddling_at 5 [Inr [1, 2, 3, 4, 5]] [] 5)"
    by (rule reads_from.read [OF reads_from.start straddling_read]) (simp add: straddling_host_def demo_host_def)
  from host_frame_deadline [OF this] show ?thesis by (simp add: straddling_host_def straddling_at_def)
qed

end
