(* ===== verification/Broker_Ledger.thy ===== *)
theory Broker_Ledger
  imports Host_Io "HOL-Library.Finite_Map"
begin

text \<open>
  The policies and the operation ledger of the host's broker, \<^verbatim>\<open>cli/crates/host-runtime/src/broker.rs\<close>:
  the budgets of a launch, when a lease ends, the failures reported to a client, and \<^verbatim>\<open>LeaseOperations\<close>,
  which counts the operations that block on a lease's streams so that the owner of its end can wait for
  them. Hash maps are finite maps.
\<close>

section \<open>Failures\<close>

datatype ErrorKind =
    TargetSelectionRequired | SessionExpired | TransportAuthenticationRequired | KindTimeout | KindInternalError

datatype ErrorStage =
    AtIpc | AtPrepare | AtBootstrap | AtSessionHandshake | AtSessionOpen | AtExchange | AtClose | AtCleanup

record ControlFailure =
  cf_kind :: ErrorKind
  cf_message :: string
  cf_retryable :: bool
  cf_stage :: ErrorStage
  cf_handoff :: HandoffState
  cf_close_reason :: CloseReason

definition broker_fail :: "ErrorStage \<Rightarrow> CloseReason \<Rightarrow> ControlFailure" where
  "broker_fail stage reason =
     (let (kind, message) =
        (case reason of
           AuthenticationFailed \<Rightarrow> (TransportAuthenticationRequired, ''Target transport authentication failed'')
         | Timeout \<Rightarrow> (KindTimeout, ''Broker operation timed out'')
         | InternalError \<Rightarrow> (KindInternalError, ''Broker operation failed'')
         | CleanupFailed \<Rightarrow> (KindInternalError, ''Broker operation failed'')
         | _ \<Rightarrow> (SessionExpired, ''Target session expired''))
      in \<lparr>cf_kind = kind, cf_message = message, cf_retryable = False, cf_stage = stage, cf_handoff = NotHandedOff,
          cf_close_reason = reason\<rparr>)"

definition selection_fail :: "ErrorStage \<Rightarrow> ControlFailure" where
  "selection_fail stage =
     \<lparr>cf_kind = TargetSelectionRequired, cf_message = ''Target selection is invalid'', cf_retryable = False,
      cf_stage = stage, cf_handoff = NotHandedOff, cf_close_reason = BindingMismatch\<rparr>"

definition transport_fail :: "ErrorStage \<Rightarrow> TransportFailure \<Rightarrow> ControlFailure" where
  "transport_fail stage e = (broker_fail stage (tf_close_reason e))\<lparr>cf_handoff := tf_handoff e\<rparr>"

lemma broker_fail_simps [simp]:
  "cf_stage (broker_fail stage reason) = stage" "cf_handoff (broker_fail stage reason) = NotHandedOff"
  "cf_close_reason (broker_fail stage reason) = reason"
  by (simp_all add: broker_fail_def split: prod.split)

definition platform_launch_reason :: "PlatformFailureKind \<Rightarrow> CloseReason" where
  "platform_launch_reason kind =
     (case kind of
        PlatformCleanupFailed \<Rightarrow> CleanupFailed
      | PlatformTimedOut \<Rightarrow> Timeout
      | PlatformCancelled \<Rightarrow> Timeout
      | Rejected \<Rightarrow> BindingMismatch
      | PlatformEof \<Rightarrow> PeerClosed
      | PlatformUnavailable \<Rightarrow> InternalError
      | PlatformInternal \<Rightarrow> InternalError)"

text \<open>A \<^verbatim>\<open>PlatformFailure\<close> is its primary kind and whether cleanup failed after it.\<close>

definition platform_launch_failure :: "PlatformFailureKind \<Rightarrow> bool \<Rightarrow> TransportFailure" where
  "platform_launch_failure primary cleanup_failed =
     \<lparr>tf_close_reason = platform_launch_reason primary, tf_handoff = NotHandedOff, tf_cleanup_failed = cleanup_failed\<rparr>"

section \<open>Budgets\<close>

definition MAX_SAFE :: u64 where "MAX_SAFE = 9007199254740991"
definition IOS_PREPARE_LAUNCH_MS :: u64 where "IOS_PREPARE_LAUNCH_MS = 10000"
definition ANDROID_PREPARE_LAUNCH_MS :: u64 where "ANDROID_PREPARE_LAUNCH_MS = 20000"
definition PREPARE_BOOTSTRAP_MS :: u64 where "PREPARE_BOOTSTRAP_MS = 10000"
definition BROKER_CLEANUP_MS :: u64 where "BROKER_CLEANUP_MS = 2000"
definition SESSION_IDLE_MS :: u64 where "SESSION_IDLE_MS = 30000"
definition LEASE_IDLE_MS :: u64 where "LEASE_IDLE_MS = 120000"
definition LEASE_ABSOLUTE_MS :: u64 where "LEASE_ABSOLUTE_MS = 900000"
definition HEARTBEAT_INTERVAL_MS :: u64 where "HEARTBEAT_INTERVAL_MS = 30000"
definition HEARTBEAT_MISSES :: u8 where "HEARTBEAT_MISSES = 4"
definition READY_REFERENCE_TTL_MS :: u64 where "READY_REFERENCE_TTL_MS = 30000"

definition saturating_sub64 :: "u64 \<Rightarrow> u64 \<Rightarrow> u64" where
  "saturating_sub64 a b = (if a < b then 0 else a - b)"

definition prepare_launch_budget :: "Platform \<Rightarrow> u64" where
  "prepare_launch_budget platform =
     (case platform of IosSimulator \<Rightarrow> IOS_PREPARE_LAUNCH_MS | AndroidEmulator \<Rightarrow> ANDROID_PREPARE_LAUNCH_MS)"

definition prepare_deadline :: "u64 \<Rightarrow> u64 \<Rightarrow> Platform \<Rightarrow> ControlFailure + u64" where
  "prepare_deadline started caller_deadline platform =
     res_bind (ok_or (broker_fail AtPrepare InternalError)
       (Option.bind (checked_add started (prepare_launch_budget platform)) (\<lambda>d. checked_add d PREPARE_BOOTSTRAP_MS)))
     (\<lambda>budget. Inr (min caller_deadline budget))"

definition launch_deadline :: "u64 \<Rightarrow> u64 \<Rightarrow> Platform \<Rightarrow> ControlFailure + u64" where
  "launch_deadline started prepare platform =
     res_bind (ok_or (broker_fail AtPrepare InternalError) (checked_add started (prepare_launch_budget platform)))
     (\<lambda>limit. Inr (min prepare limit))"

definition bootstrap_deadline :: "u64 \<Rightarrow> u64 \<Rightarrow> ControlFailure + u64" where
  "bootstrap_deadline connected prepare =
     res_bind (ok_or (broker_fail AtBootstrap InternalError) (checked_add connected PREPARE_BOOTSTRAP_MS))
     (\<lambda>limit. Inr (min prepare limit))"

definition commit_rejection_reason :: "u64 \<Rightarrow> u64 \<Rightarrow> bool \<Rightarrow> CloseReason option" where
  "commit_rejection_reason completed deadline binding_matches =
     (if completed \<ge> deadline then Some Timeout
      else if \<not> binding_matches then Some BindingMismatch
      else None)"

definition broker_abs :: "u64 \<Rightarrow> ControlFailure + u64" where
  "broker_abs v =
     (if \<not> (1 \<le> v \<and> v \<le> MAX_SAFE) then Inl (broker_fail AtIpc InternalError)
      else map_err (\<lambda>_. broker_fail AtIpc InternalError) (AbsoluteDeadline_new v))"

definition session_tombstone_expires :: "u64 \<Rightarrow> ControlFailure + u64" where
  "session_tombstone_expires current =
     (case checked_add current SESSION_IDLE_MS of
        Some expires \<Rightarrow> if expires \<le> MAX_SAFE then Inr expires else Inl (broker_fail AtCleanup InternalError)
      | None \<Rightarrow> Inl (broker_fail AtCleanup InternalError))"

section \<open>The life of a lease\<close>

definition expired_at :: "u64 \<Rightarrow> u64 \<Rightarrow> u64 \<Rightarrow> bool" where
  "expired_at current observed ttl \<longleftrightarrow> saturating_sub64 current observed \<ge> ttl"

definition heartbeat_lost :: "u8 \<Rightarrow> bool" where
  "heartbeat_lost misses \<longleftrightarrow> misses \<ge> HEARTBEAT_MISSES"

definition lease_terminal_reason :: "u64 \<Rightarrow> u64 \<Rightarrow> u64 \<Rightarrow> u8 \<Rightarrow> CloseReason option" where
  "lease_terminal_reason current created last_client_activity misses =
     (if expired_at current created LEASE_ABSOLUTE_MS then Some Stale
      else if heartbeat_lost misses then Some BrokerLost
      else if expired_at current last_client_activity LEASE_IDLE_MS then Some Stale
      else None)"

datatype HeartbeatAttempt = RequestAndReply | ReplyOnly

definition heartbeat_attempt :: "u8 \<Rightarrow> HeartbeatAttempt" where
  "heartbeat_attempt misses = (if misses = 0 then RequestAndReply else ReplyOnly)"

text \<open>The heartbeat of the broker: a request is written only when none is outstanding.\<close>

definition heartbeat_io ::
    "('h, 't) noise \<Rightarrow> cbor \<Rightarrow> u8 \<Rightarrow> u64 \<Rightarrow> u64 \<Rightarrow> ('t LeaseCore host, unit) io" where
  "heartbeat_io N C misses counter deadline =
     (if heartbeat_attempt misses = RequestAndReply then host_heartbeat N C counter deadline
      else
        io_bind (host_heartbeat_reply N C deadline) (\<lambda>received.
        if received = counter then io_ok () else io_fail (TransportFailure_new SequenceViolation)))"

section \<open>The operation ledger\<close>

text \<open>A cancellation is the number of its shared flag. Dropping a guard without an active operation is a
  panic, \<open>None\<close>.\<close>

record OperationState =
  lo_accepting :: bool
  lo_active :: nat
  lo_completed :: "(CloseReason + unit) option"
  lo_next_id :: u64
  lo_cancellations :: "(u64, nat) fmap"

definition LeaseOperations_new :: OperationState where
  "LeaseOperations_new = \<lparr>lo_accepting = True, lo_active = 0, lo_completed = None, lo_next_id = 1,
     lo_cancellations = fmempty\<rparr>"

definition LeaseOperations_enter :: "nat \<Rightarrow> (OperationState, CloseReason, u64) step" where
  "LeaseOperations_enter cancellation st =
     (if \<not> lo_accepting st then (Inl Stale, st)
      else case checked_add (lo_next_id st) 1 of
        None \<Rightarrow> (Inl InternalError, st)
      | Some next \<Rightarrow>
          (Inr (lo_next_id st), st\<lparr>lo_next_id := next, lo_active := lo_active st + 1,
             lo_cancellations := fmupd (lo_next_id st) cancellation (lo_cancellations st)\<rparr>))"

definition LeaseOperations_begin_close :: "OperationState \<Rightarrow> nat fset option \<times> OperationState" where
  "LeaseOperations_begin_close st =
     (if \<not> lo_accepting st then (None, st)
      else (Some (fmran (lo_cancellations st)), st\<lparr>lo_accepting := False\<rparr>))"

definition LeaseOperations_drained :: "OperationState \<Rightarrow> bool" where
  "LeaseOperations_drained st \<longleftrightarrow> lo_active st = 0"

definition LeaseOperations_finish_close :: "CloseReason + unit \<Rightarrow> OperationState \<Rightarrow> OperationState" where
  "LeaseOperations_finish_close result st = st\<lparr>lo_completed := Some result\<rparr>"

definition LeaseOperation_drop :: "u64 \<Rightarrow> OperationState \<Rightarrow> OperationState option" where
  "LeaseOperation_drop i st =
     (if lo_active st = 0 then None
      else Some (st\<lparr>lo_active := lo_active st - 1, lo_cancellations := fmdrop i (lo_cancellations st)\<rparr>))"

end
