(* ===== verification/Broker.thy ===== *)
theory Broker
  imports Broker_Ledger
begin

text \<open>
  The host's broker, \<^verbatim>\<open>SessionBroker\<close> of \<^verbatim>\<open>cli/crates/host-runtime/src/broker.rs\<close>. Its state \<^verbatim>\<open>Core\<close> is behind
  one mutex; a handler takes the lock, decides, releases it while it blocks on a stream, and takes it again
  to record the outcome. The model has one definition per such critical section, with the outcome of the
  input and output in between as an argument, so that sections of different handlers may be interleaved in
  any order. What the sections return says how the handler goes on. The lock is never poisoned; a panic
  inside a section is an answer of its own. Streams, connectors, cleanup receipts and cancellations are
  numbers; the ledgers and the ready probes of the leases, which outlive them, are kept beside them.
\<close>

section \<open>The state\<close>

record PrepareBody =
  pb_platform :: Platform
  pb_device_selector :: string
  pb_app_id :: string
  pb_app_artifact :: string
  pb_app_artifact_sha256 :: bytes

record PrepareKey =
  pk_platform :: Platform
  pk_device :: string
  pk_app :: string
  pk_digest :: bytes

record SelectionKey =
  sk_platform :: Platform
  sk_device :: string
  sk_app :: string

definition PrepareKey_new :: "PrepareBody \<Rightarrow> PrepareKey" where
  "PrepareKey_new b = \<lparr>pk_platform = pb_platform b, pk_device = pb_device_selector b, pk_app = pb_app_id b,
     pk_digest = pb_app_artifact_sha256 b\<rparr>"

definition PrepareKey_selection :: "PrepareKey \<Rightarrow> SelectionKey" where
  "PrepareKey_selection k = \<lparr>sk_platform = pk_platform k, sk_device = pk_device k, sk_app = pk_app k\<rparr>"

datatype LeaseState = LeasePreparing | LeaseReady | LeaseStale | LeaseClosing

datatype RefState = RefPending | RefMinted | RefRedeeming | RefConsumed | RefStale

record Reference =
  rf_state :: RefState
  rf_issued :: u64
  rf_expires :: u64
  rf_session_slot :: "u64 option"
  rf_session_id :: "string option"

record ('h, 't) HostSession =
  hs_id :: "string option"
  hs_raw :: nat
  hs_crypto :: "('h, 't) SessionCore option"
  hs_reader :: "RawFrameReader option"
  hs_response :: bytes
  hs_response_digest :: bytes
  hs_handoff :: HandoffState
  hs_last :: u64

record ('h, 't) HostLease =
  hl_key :: PrepareKey
  hl_state :: LeaseState
  hl_lease_id :: bytes
  hl_generation :: u64
  hl_epoch :: u64
  hl_nk_hash :: bytes
  hl_pbs :: "bytes option"
  hl_control :: "nat option"
  hl_lease_crypto :: "'t LeaseCore option"
  hl_control_reader :: "RawFrameReader option"
  hl_connector :: "nat option"
  hl_cleanup :: "nat option"
  hl_references :: "(bytes, Reference) fmap"
  hl_sessions :: "(u64, ('h, 't) HostSession) fmap"
  hl_next_session :: u64
  hl_created :: u64
  hl_last_heartbeat_attempt :: u64
  hl_last_heartbeat_success :: u64
  hl_heartbeat_counter :: u64
  hl_heartbeat_misses :: u8
  hl_last_client_activity :: u64
  hl_terminal_cleanup_failed :: bool
  hl_terminal_reason :: "CloseReason option"
  hl_terminal_handoff :: HandoffState
  hl_handoff :: HandoffState

record ('h, 't) broker =
  bk_leases :: "('h, 't) HostLease option list"
  bk_ledgers :: "OperationState list"
  bk_probes :: "bool list"
  bk_failed :: "(SelectionKey, bytes \<times> CloseReason) fmap"
  bk_stale_tokens :: "(bytes, u64) fmap"
  bk_shutting_down :: bool
  bk_entropy :: "bytes option list"
  bk_clock :: "nat \<Rightarrow> u64 option"
  bk_ticks :: nat
  bk_next_cancellation :: nat
  bk_cancelled :: "nat fset"
  bk_raw_cancelled :: "nat fset"

definition SessionBroker_new :: "bytes option list \<Rightarrow> (nat \<Rightarrow> u64 option) \<Rightarrow> ('h, 't) broker" where
  "SessionBroker_new entropy clock = \<lparr>bk_leases = [], bk_ledgers = [], bk_probes = [], bk_failed = fmempty,
     bk_stale_tokens = fmempty, bk_shutting_down = False, bk_entropy = entropy, bk_clock = clock, bk_ticks = 0,
     bk_next_cancellation = 0, bk_cancelled = {||}, bk_raw_cancelled = {||}\<rparr>"

section \<open>Steps\<close>

datatype stop = Refused ControlFailure | Panicked

type_synonym ('h, 't, 'a) brk = "(('h, 't) broker, stop, 'a) step"

definition refuse :: "ErrorStage \<Rightarrow> CloseReason \<Rightarrow> ('h, 't, 'a) brk" where
  "refuse stage reason = st_fail (Refused (broker_fail stage reason))"

definition or_refuse :: "ControlFailure + 'a \<Rightarrow> ('h, 't, 'a) brk" where
  "or_refuse r = st_lift (map_err Refused r)"

definition some_or :: "ErrorStage \<Rightarrow> CloseReason \<Rightarrow> 'a option \<Rightarrow> ('h, 't, 'a) brk" where
  "some_or stage reason x = or_refuse (ok_or (broker_fail stage reason) x)"

definition clock_now :: "('h, 't, u64) brk" where
  "clock_now s =
     (let s' = s\<lparr>bk_ticks := Suc (bk_ticks s)\<rparr> in
      case bk_clock s (bk_ticks s) of
        None \<Rightarrow> (Inl (Refused (broker_fail AtIpc InternalError)), s')
      | Some t \<Rightarrow> (Inr t, s'))"

definition cleanup_absolute_deadline :: "('h, 't, u64) brk" where
  "cleanup_absolute_deadline =
     st_bind clock_now (\<lambda>now. or_refuse (broker_abs (min (saturating_add64 now BROKER_CLEANUP_MS) MAX_SAFE)))"

text \<open>\<^verbatim>\<open>random::<N>\<close>: up to eight draws from the generator until one is not zero. A draw is \<open>None\<close> when the
  read fails.\<close>

fun random_draws :: "nat \<Rightarrow> nat \<Rightarrow> ('h, 't, bytes) brk" where
  "random_draws 0 n s = (Inl (Refused (broker_fail AtIpc InternalError)), s)"
| "random_draws (Suc k) n s =
     (case bk_entropy s of
        [] \<Rightarrow> (Inl (Refused (broker_fail AtIpc InternalError)), s)
      | None # rest \<Rightarrow> (Inl (Refused (broker_fail AtIpc InternalError)), s\<lparr>bk_entropy := rest\<rparr>)
      | Some b # rest \<Rightarrow>
          if b \<noteq> replicate n 0 then (Inr b, s\<lparr>bk_entropy := rest\<rparr>)
          else random_draws k n (s\<lparr>bk_entropy := rest\<rparr>))"

definition random_bytes :: "nat \<Rightarrow> ('h, 't, bytes) brk" where
  "random_bytes n = random_draws 8 n"

definition Cancellation_new :: "('h, 't, nat) brk" where
  "Cancellation_new s = (Inr (bk_next_cancellation s), s\<lparr>bk_next_cancellation := Suc (bk_next_cancellation s)\<rparr>)"

definition cancel_raw :: "nat \<Rightarrow> ('h, 't, unit) brk" where
  "cancel_raw raw = st_upd (\<lambda>s. s\<lparr>bk_raw_cancelled := finsert raw (bk_raw_cancelled s)\<rparr>)"

text \<open>\<^verbatim>\<open>core.leases.get(index).and_then(Option::as_ref)\<close>, and changes of one lease and one reference.\<close>

definition get_lease :: "nat \<Rightarrow> ('h, 't) broker \<Rightarrow> ('h, 't) HostLease option" where
  "get_lease i s = (if i < length (bk_leases s) then bk_leases s ! i else None)"

definition upd_lease :: "nat \<Rightarrow> (('h, 't) HostLease \<Rightarrow> ('h, 't) HostLease) \<Rightarrow> ('h, 't, unit) brk" where
  "upd_lease i f = st_upd (\<lambda>s. s\<lparr>bk_leases := (bk_leases s)[i := map_option f (get_lease i s)]\<rparr>)"

definition map_ref :: "bytes \<Rightarrow> (Reference \<Rightarrow> Reference) \<Rightarrow> ('h, 't) HostLease \<Rightarrow> ('h, 't) HostLease" where
  "map_ref token f l =
     (case fmlookup (hl_references l) token of
        None \<Rightarrow> l
      | Some r \<Rightarrow> l\<lparr>hl_references := fmupd token (f r) (hl_references l)\<rparr>)"

definition map_host_session ::
    "u64 \<Rightarrow> (('h, 't) HostSession \<Rightarrow> ('h, 't) HostSession) \<Rightarrow> ('h, 't) HostLease \<Rightarrow> ('h, 't) HostLease" where
  "map_host_session slot f l =
     (case fmlookup (hl_sessions l) slot of
        None \<Rightarrow> l
      | Some x \<Rightarrow> l\<lparr>hl_sessions := fmupd slot (f x) (hl_sessions l)\<rparr>)"

definition with_lease :: "nat \<Rightarrow> (('h, 't) HostLease \<Rightarrow> ('h, 't, 'a) brk) \<Rightarrow> ('h, 't, 'a) brk" where
  "with_lease i f = st_with (\<lambda>s. case get_lease i s of None \<Rightarrow> st_fail Panicked | Some l \<Rightarrow> f l)"

text \<open>\<^verbatim>\<open>core.leases[index]\<close>: out of range is a panic.\<close>

definition index_lease :: "nat \<Rightarrow> (('h, 't) HostLease option \<Rightarrow> ('h, 't, 'a) brk) \<Rightarrow> ('h, 't, 'a) brk" where
  "index_lease i f = st_with (\<lambda>s. if i < length (bk_leases s) then f (bk_leases s ! i) else st_fail Panicked)"

text \<open>Entering and leaving the ledger of a lease. \<open>guarded\<close> runs code that holds the guard of an operation and
  drops it when the code fails, as \<^verbatim>\<open>?\<close> does.\<close>

definition enter_ledger :: "ErrorStage \<Rightarrow> nat \<Rightarrow> nat \<Rightarrow> ('h, 't, u64) brk" where
  "enter_ledger stage i cancellation s =
     (case LeaseOperations_enter cancellation (bk_ledgers s ! i) of
        (Inl reason, _) \<Rightarrow> (Inl (Refused (broker_fail stage reason)), s)
      | (Inr k, st) \<Rightarrow> (Inr k, s\<lparr>bk_ledgers := (bk_ledgers s)[i := st]\<rparr>))"

definition leave_ledger :: "nat \<Rightarrow> u64 \<Rightarrow> ('h, 't, unit) brk" where
  "leave_ledger i k s =
     (case LeaseOperation_drop k (bk_ledgers s ! i) of
        None \<Rightarrow> (Inl Panicked, s)
      | Some st \<Rightarrow> (Inr (), s\<lparr>bk_ledgers := (bk_ledgers s)[i := st]\<rparr>))"

definition guarded :: "nat \<Rightarrow> u64 \<Rightarrow> ('h, 't, 'a) brk \<Rightarrow> ('h, 't, 'a) brk" where
  "guarded i k m s =
     (case m s of
        (Inl e, s') \<Rightarrow> (Inl e, snd (leave_ledger i k s'))
      | (Inr v, s') \<Rightarrow> (Inr v, s'))"

fun position :: "('a \<Rightarrow> bool) \<Rightarrow> 'a list \<Rightarrow> nat option" where
  "position P [] = None"
| "position P (x # xs) = (if P x then Some 0 else map_option Suc (position P xs))"

text \<open>How a handler goes on: with a value, or by ending the lease first.\<close>

datatype 'a Gate = Proceed 'a | LeaseEnds nat CloseReason

definition gate_bind :: "('h, 't, 'a Gate) brk \<Rightarrow> ('a \<Rightarrow> ('h, 't, 'b Gate) brk) \<Rightarrow> ('h, 't, 'b Gate) brk" where
  "gate_bind m f = st_bind m (\<lambda>g. case g of LeaseEnds i r \<Rightarrow> st_ok (LeaseEnds i r) | Proceed x \<Rightarrow> f x)"

definition lease_ends :: "u64 \<Rightarrow> ('h, 't) HostLease \<Rightarrow> CloseReason option" where
  "lease_ends current l =
     lease_terminal_reason current (hl_created l) (hl_last_client_activity l) (hl_heartbeat_misses l)"

definition token_failure :: "('h, 't) broker \<Rightarrow> ErrorStage \<Rightarrow> bytes \<Rightarrow> ControlFailure" where
  "token_failure s stage token =
     (if token |\<in>| fmdom (bk_stale_tokens s) then broker_fail stage Stale else selection_fail stage)"

definition find_token :: "bytes \<Rightarrow> ('h, 't) broker \<Rightarrow> nat option" where
  "find_token token s =
     position (\<lambda>l. case l of None \<Rightarrow> False | Some l \<Rightarrow> token |\<in>| fmdom (hl_references l)) (bk_leases s)"

text \<open>The lease of a token, unless its time is over.\<close>

definition locate_lease :: "ErrorStage \<Rightarrow> bytes \<Rightarrow> u64 \<Rightarrow> ('h, 't, nat Gate) brk" where
  "locate_lease stage token current = st_with (\<lambda>s.
     case find_token token s of
       None \<Rightarrow> st_fail (Refused (token_failure s stage token))
     | Some i \<Rightarrow>
         with_lease i (\<lambda>l.
         case lease_ends current l of Some reason \<Rightarrow> st_ok (LeaseEnds i reason) | None \<Rightarrow> st_ok (Proceed i)))"

definition effective_deadline :: "u64 \<Rightarrow> ('h, 't) HostLease \<Rightarrow> ControlFailure + u64" where
  "effective_deadline deadline l =
     broker_abs (min deadline (min (saturating_add64 (hl_created l) LEASE_ABSOLUTE_MS) MAX_SAFE))"

definition any_handoff :: "('h, 't) HostLease \<Rightarrow> HandoffState" where
  "any_handoff l =
     (if hl_handoff l = HandoffPossibleOrConfirmed \<or>
         \<not> fmpred (\<lambda>_ x. hs_handoff x \<noteq> HandoffPossibleOrConfirmed) (hl_sessions l)
      then HandoffPossibleOrConfirmed else NotHandedOff)"


section \<open>Admission and pruning\<close>

definition prune_lease :: "u64 \<Rightarrow> ('h, 't) HostLease \<Rightarrow> ('h, 't) HostLease" where
  "prune_lease current l = l\<lparr>hl_references := fmfilter (\<lambda>token.
     case fmlookup (hl_references l) token of
       None \<Rightarrow> False
     | Some r \<Rightarrow>
         rf_state r = RefConsumed \<and>
           (case rf_session_slot r of None \<Rightarrow> False | Some slot \<Rightarrow> slot |\<in>| fmdom (hl_sessions l))
         \<or> current < rf_expires r) (hl_references l)\<rparr>"

definition prune :: "u64 \<Rightarrow> ('h, 't, unit) brk" where
  "prune current = st_upd (\<lambda>s. s\<lparr>
     bk_stale_tokens := fmfilter (\<lambda>token.
       case fmlookup (bk_stale_tokens s) token of None \<Rightarrow> False | Some expires \<Rightarrow> current < expires) (bk_stale_tokens s),
     bk_leases := map (map_option (prune_lease current)) (bk_leases s)\<rparr>)"

text \<open>\<^verbatim>\<open>handle\<close>, up to the choice of the handler.\<close>

definition admit :: "u64 \<Rightarrow> ('h, 't, unit) brk" where
  "admit deadline_unix_ms =
     st_bind clock_now (\<lambda>current.
     st_bind (prune current) (\<lambda>_.
     if deadline_unix_ms \<le> current then refuse AtIpc Timeout else st_ok ()))"

section \<open>Preparing a lease\<close>

record Reservation =
  rv_index :: nat
  rv_key :: PrepareKey
  rv_token :: bytes
  rv_digest :: bytes
  rv_lease_id :: bytes
  rv_nonce :: bytes
  rv_private :: bytes
  rv_public :: bytes
  rv_pbs :: bytes
  rv_deadline :: u64
  rv_launch_deadline :: u64
  rv_launch_cancel :: nat
  rv_operation :: u64

datatype PrepareRoute = RouteReuse nat | RouteLaunch Reservation

definition new_reference :: "RefState \<Rightarrow> u64 \<Rightarrow> u64 \<Rightarrow> Reference" where
  "new_reference st issued expires = \<lparr>rf_state = st, rf_issued = issued, rf_expires = expires, rf_session_slot = None,
     rf_session_id = None\<rparr>"

definition new_lease :: "PrepareKey \<Rightarrow> bytes \<Rightarrow> bytes \<Rightarrow> u64 \<Rightarrow> u64 \<Rightarrow> ('h, 't) HostLease" where
  "new_lease key lease_id token deadline started =
     \<lparr>hl_key = key, hl_state = LeasePreparing, hl_lease_id = lease_id, hl_generation = 0, hl_epoch = 0,
      hl_nk_hash = replicate 32 0, hl_pbs = None, hl_control = None, hl_lease_crypto = None, hl_control_reader = None,
      hl_connector = None, hl_cleanup = None, hl_references = fmupd token (new_reference RefPending 0 deadline) fmempty,
      hl_sessions = fmempty, hl_next_session = 1, hl_created = started, hl_last_heartbeat_attempt = started,
      hl_last_heartbeat_success = started, hl_heartbeat_counter = 1, hl_heartbeat_misses = 0,
      hl_last_client_activity = started, hl_terminal_cleanup_failed = False, hl_terminal_reason = None,
      hl_terminal_handoff = NotHandedOff, hl_handoff = NotHandedOff\<rparr>"

definition push_lease :: "('h, 't) HostLease \<Rightarrow> ('h, 't, nat) brk" where
  "push_lease l s = (Inr (length (bk_leases s)), s\<lparr>bk_leases := bk_leases s @ [Some l],
     bk_ledgers := bk_ledgers s @ [LeaseOperations_new], bk_probes := bk_probes s @ [False]\<rparr>)"

text \<open>A lease for a selection that has none. The key pair and the secret come from the crypto core, the digest
  of a printed reference from the libraries for Base64 and SHA-256.\<close>

definition prepare_launch ::
    "(bytes \<Rightarrow> bytes) \<Rightarrow> error + (bytes \<times> bytes) \<Rightarrow> error + bytes \<Rightarrow> PrepareKey \<Rightarrow> nat \<Rightarrow> u64 \<Rightarrow> u64 \<Rightarrow> u64 \<Rightarrow>
      ('h, 't, Reservation) brk" where
  "prepare_launch reference_digest keypair secret key launch_cancel started deadline launch =
     st_bind (random_bytes 32) (\<lambda>token.
     st_bind (random_bytes 16) (\<lambda>lease_id.
     st_bind (random_bytes 32) (\<lambda>nonce.
     st_bind (or_refuse (map_err (\<lambda>e. broker_fail AtBootstrap (err_reason e)) keypair)) (\<lambda>(private, public).
     st_bind (or_refuse (map_err (\<lambda>e. broker_fail AtBootstrap (err_reason e)) secret)) (\<lambda>pbs.
     st_bind (push_lease (new_lease key lease_id token deadline started)) (\<lambda>index.
     st_bind (enter_ledger AtPrepare index launch_cancel) (\<lambda>operation.
     st_ok \<lparr>rv_index = index, rv_key = key, rv_token = token, rv_digest = reference_digest token, rv_lease_id = lease_id,
       rv_nonce = nonce, rv_private = private, rv_public = public, rv_pbs = pbs, rv_deadline = deadline,
       rv_launch_deadline = launch, rv_launch_cancel = launch_cancel, rv_operation = operation\<rparr>)))))))"

definition has_key :: "PrepareKey \<Rightarrow> (LeaseState \<Rightarrow> bool) \<Rightarrow> ('h, 't) HostLease option \<Rightarrow> bool" where
  "has_key key P l = (case l of None \<Rightarrow> False | Some l \<Rightarrow> hl_key l = key \<and> P (hl_state l))"

definition seal_references :: "('h, 't) HostLease \<Rightarrow> ('h, 't) HostLease" where
  "seal_references l = l\<lparr>hl_references := fmmap (\<lambda>r. r\<lparr>rf_state := RefStale\<rparr>) (hl_references l)\<rparr>"

text \<open>The first half of \<^verbatim>\<open>prepare\<close>: which lease the request gets. A lease whose time is over is sealed here, and
  ended by the handler before it fails with the reason.\<close>

definition prepare_begin ::
    "(bytes \<Rightarrow> bytes) \<Rightarrow> error + (bytes \<times> bytes) \<Rightarrow> error + bytes \<Rightarrow> u64 \<Rightarrow> PrepareBody \<Rightarrow>
      ('h, 't, PrepareRoute Gate) brk" where
  "prepare_begin reference_digest keypair secret deadline_unix_ms body =
     st_bind clock_now (\<lambda>started.
     st_bind Cancellation_new (\<lambda>launch_cancel.
     st_bind (or_refuse (prepare_deadline started deadline_unix_ms (pb_platform body))) (\<lambda>deadline.
     st_bind (or_refuse (launch_deadline started deadline (pb_platform body))) (\<lambda>launch.
     st_with (\<lambda>s.
       let key = PrepareKey_new body;
           selection = PrepareKey_selection key
       in
       if list_ex (\<lambda>l. case l of None \<Rightarrow> False
            | Some l \<Rightarrow> PrepareKey_selection (hl_key l) = selection \<and> pk_digest (hl_key l) \<noteq> pk_digest key) (bk_leases s)
       then refuse AtPrepare BindingMismatch
       else case fmlookup (bk_failed s) selection of
         Some (failed_digest, reason) \<Rightarrow>
           refuse AtCleanup (if failed_digest = pk_digest key then reason else BindingMismatch)
       | None \<Rightarrow>
           if bk_shutting_down s then refuse AtIpc BrokerLost
           else case position (has_key key (\<lambda>st. st = LeaseReady)) (bk_leases s) of
             Some index \<Rightarrow>
               with_lease index (\<lambda>l.
               case lease_ends started l of
                 Some reason \<Rightarrow>
                   st_bind (upd_lease index (\<lambda>l. seal_references (l\<lparr>hl_state := LeaseClosing, hl_terminal_reason := Some reason\<rparr>)))
                   (\<lambda>_. st_ok (LeaseEnds index reason))
               | None \<Rightarrow> st_ok (Proceed (RouteReuse index)))
           | None \<Rightarrow>
               if list_ex (has_key key (\<lambda>st. st = LeasePreparing)) (bk_leases s)
               then refuse AtPrepare BindingMismatch
               else case List.find (has_key key (\<lambda>st. st \<noteq> LeaseReady)) (bk_leases s) of
                 Some (Some l) \<Rightarrow> refuse AtPrepare (case hl_terminal_reason l of Some r \<Rightarrow> r | None \<Rightarrow> Stale)
               | _ \<Rightarrow>
                   st_bind (prepare_launch reference_digest keypair secret key launch_cancel started deadline launch)
                   (\<lambda>r. st_ok (Proceed (RouteLaunch r))))))))"

record ReadyTarget =
  rt_target_token :: bytes
  rt_process_generation :: u64
  rt_listener_epoch :: u64
  rt_issued_at_unix_ms :: u64
  rt_expires_at_unix_ms :: u64

definition reference_expires :: "u64 \<Rightarrow> ControlFailure + u64" where
  "reference_expires now =
     (case checked_add now READY_REFERENCE_TTL_MS of
        Some v \<Rightarrow> if v \<le> MAX_SAFE then Inr v else Inl (broker_fail AtPrepare InternalError)
      | None \<Rightarrow> Inl (broker_fail AtPrepare InternalError))"

definition mint :: "nat \<Rightarrow> u64 \<Rightarrow> ('h, 't, ReadyTarget) brk" where
  "mint index now =
     st_bind (random_bytes 32) (\<lambda>token.
     st_bind (or_refuse (reference_expires now)) (\<lambda>expires.
     index_lease index (\<lambda>l. case l of
       None \<Rightarrow> refuse AtPrepare Stale
     | Some l \<Rightarrow>
         st_bind (upd_lease index (\<lambda>l. l\<lparr>hl_references := fmupd token (new_reference RefMinted now expires) (hl_references l)\<rparr>))
         (\<lambda>_. st_ok \<lparr>rt_target_token = token, rt_process_generation = hl_generation l, rt_listener_epoch = hl_epoch l,
           rt_issued_at_unix_ms = now, rt_expires_at_unix_ms = expires\<rparr>))))"

text \<open>\<^verbatim>\<open>prepare\<close> for a lease that is ready, after a heartbeat that was answered.\<close>

definition prepare_reuse :: "nat \<Rightarrow> PrepareKey \<Rightarrow> u64 \<Rightarrow> ('h, 't, ReadyTarget Gate) brk" where
  "prepare_reuse index prepare_key deadline =
     st_bind clock_now (\<lambda>current.
     if current \<ge> deadline then refuse AtPrepare Timeout
     else st_with (\<lambda>s.
       case get_lease index s of
         None \<Rightarrow> refuse AtPrepare Stale
       | Some l \<Rightarrow>
           if hl_key l \<noteq> prepare_key then refuse AtPrepare Stale
           else if hl_state l \<noteq> LeaseReady then refuse AtPrepare Stale
           else case lease_ends current l of
             Some reason \<Rightarrow> st_ok (LeaseEnds index reason)
           | None \<Rightarrow> st_bind (mint index current) (\<lambda>r. st_ok (Proceed r))))"

text \<open>What a finished launch hands over: the bootstrap, its stream, connector and cleanup receipt, the secret and
  the guard of the operation.\<close>

record 't Prepared =
  pr_success :: "'t BootstrapSuccess"
  pr_bootstrap :: nat
  pr_connector :: nat
  pr_cleanup :: nat
  pr_pbs :: bytes
  pr_operation :: u64

definition ack_matches :: "Reservation \<Rightarrow> TargetBootstrapAck \<Rightarrow> bool" where
  "ack_matches r a \<longleftrightarrow> ack_lease_id a = rv_lease_id r \<and> ack_target_reference_digest a = rv_digest r \<and>
     ack_listener_epoch a = 1"

datatype CommitOutcome = Committed ReadyTarget | Discard CloseReason

text \<open>\<^verbatim>\<open>commit\<close> before its heartbeat, and after it.\<close>

definition commit_begin :: "Reservation \<Rightarrow> 't Prepared \<Rightarrow> ('h, 't, CloseReason option) brk" where
  "commit_begin r p =
     st_bind clock_now (\<lambda>completed.
     st_ok (commit_rejection_reason completed (rv_deadline r) (ack_matches r (bs_ack (pr_success p)))))"

definition commit_lease :: "'t Prepared \<Rightarrow> bytes \<Rightarrow> u64 \<Rightarrow> u64 \<Rightarrow> ('h, 't) HostLease \<Rightarrow> ('h, 't) HostLease" where
  "commit_lease p token completed expires l =
     (let ack = bs_ack (pr_success p) in
      (map_ref token (\<lambda>r. r\<lparr>rf_state := RefMinted, rf_issued := completed, rf_expires := expires\<rparr>) l)\<lparr>
        hl_generation := ack_process_generation ack, hl_epoch := ack_listener_epoch ack,
        hl_nk_hash := ack_nk_handshake_hash ack, hl_pbs := Some (pr_pbs p), hl_control := Some (pr_bootstrap p),
        hl_lease_crypto := Some (bs_lease (pr_success p)), hl_control_reader := Some (bs_reader (pr_success p)),
        hl_connector := Some (pr_connector p), hl_cleanup := Some (pr_cleanup p), hl_state := LeaseReady,
        hl_created := completed, hl_last_heartbeat_attempt := completed, hl_last_heartbeat_success := completed,
        hl_heartbeat_counter := 2\<rparr>)"

definition commit_finish :: "Reservation \<Rightarrow> 't Prepared \<Rightarrow> ('h, 't, CommitOutcome) brk" where
  "commit_finish r p =
     st_bind clock_now (\<lambda>completed.
     case commit_rejection_reason completed (rv_deadline r) True of
       Some reason \<Rightarrow> st_ok (Discard reason)
     | None \<Rightarrow>
         st_bind (or_refuse (reference_expires completed)) (\<lambda>expires.
         st_with (\<lambda>s.
           case get_lease (rv_index r) s of
             None \<Rightarrow> st_ok (Discard Stale)
           | Some l \<Rightarrow>
               if \<not> (hl_key l = rv_key r \<and> hl_state l = LeasePreparing) then st_ok (Discard Stale)
               else case fmlookup (hl_references l) (rv_token r) of
                 None \<Rightarrow> st_ok (Discard Stale)
               | Some ref \<Rightarrow>
                   if rf_state ref \<noteq> RefPending then st_ok (Discard Stale)
                   else
                     st_bind (upd_lease (rv_index r) (commit_lease p (rv_token r) completed expires)) (\<lambda>_.
                     st_bind (leave_ledger (rv_index r) (pr_operation p)) (\<lambda>_.
                     st_ok (Committed \<lparr>rt_target_token = rv_token r,
                       rt_process_generation = ack_process_generation (bs_ack (pr_success p)),
                       rt_listener_epoch = ack_listener_epoch (bs_ack (pr_success p)),
                       rt_issued_at_unix_ms = completed, rt_expires_at_unix_ms = expires\<rparr>))))))"

text \<open>\<^verbatim>\<open>discard_prepared\<close> after its cleanup, before the rejection.\<close>

definition discard_mark :: "Reservation \<Rightarrow> bool \<Rightarrow> ('h, 't, unit) brk" where
  "discard_mark r cleanup_failed =
     (if cleanup_failed then upd_lease (rv_index r) (\<lambda>l. l\<lparr>hl_terminal_cleanup_failed := True\<rparr>) else st_ok ())"

definition insert_failed :: "PrepareKey \<Rightarrow> ('h, 't, unit) brk" where
  "insert_failed key =
     st_upd (\<lambda>s. s\<lparr>bk_failed := fmupd (PrepareKey_selection key) (pk_digest key, CleanupFailed) (bk_failed s)\<rparr>)"

definition reject_with_cleanup :: "Reservation \<Rightarrow> CloseReason \<Rightarrow> bool \<Rightarrow> ('h, 't, 'a) brk" where
  "reject_with_cleanup r reason cleanup_failed =
     st_bind (upd_lease (rv_index r) (\<lambda>l. l\<lparr>
         hl_state := (if hl_state l \<noteq> LeaseClosing then LeaseStale else hl_state l),
         hl_terminal_reason := (case hl_terminal_reason l of None \<Rightarrow> Some reason | Some old \<Rightarrow> Some old),
         hl_references := fmdrop (rv_token r) (hl_references l)\<rparr>)) (\<lambda>_.
     st_bind (if cleanup_failed then insert_failed (rv_key r) else st_ok ()) (\<lambda>_.
     refuse (if reason = CleanupFailed then AtCleanup else AtBootstrap) reason))"

definition reject :: "Reservation \<Rightarrow> CloseReason \<Rightarrow> ('h, 't, 'a) brk" where
  "reject r reason = reject_with_cleanup r reason (reason = CleanupFailed)"

text \<open>The failure of a section with another handoff state, as \<^verbatim>\<open>reject_transport\<close> and
  \<^verbatim>\<open>discard_prepared_transport\<close> report it.\<close>

definition with_failure_handoff :: "HandoffState \<Rightarrow> ('h, 't, 'a) brk \<Rightarrow> ('h, 't, 'a) brk" where
  "with_failure_handoff handoff m s =
     (case m s of
        (Inl (Refused f), s') \<Rightarrow> (Inl (Refused (f\<lparr>cf_handoff := handoff\<rparr>)), s')
      | r \<Rightarrow> r)"

definition reject_transport :: "Reservation \<Rightarrow> TransportFailure \<Rightarrow> ('h, 't, 'a) brk" where
  "reject_transport r e =
     with_failure_handoff (tf_handoff e) (reject_with_cleanup r (tf_close_reason e) (tf_cleanup_failed e))"

text \<open>The reaper of a launch that finished after its request gave up.\<close>

definition reap_late_launch :: "nat \<Rightarrow> PrepareKey \<Rightarrow> bool \<Rightarrow> ('h, 't, unit) brk" where
  "reap_late_launch index key cleanup_failed =
     st_bind (st_upd (\<lambda>s.
       case get_lease index s of
         None \<Rightarrow> s
       | Some l \<Rightarrow>
           if hl_state l = LeaseStale then s\<lparr>bk_leases := (bk_leases s)[index := None]\<rparr>
           else s\<lparr>bk_leases := (bk_leases s)[index := Some (seal_references l)]\<rparr>)) (\<lambda>_.
     if cleanup_failed then insert_failed key else st_ok ())"


section \<open>Opening a session\<close>

record OpenSessionBody =
  ob_target_token :: bytes
  ob_session_id :: "string option"
  ob_required_capabilities :: "string list"
  ob_session_open_request :: "bytes option"
  ob_session_open_request_sha256 :: "bytes option"

record SessionOpened =
  so_target_token :: bytes
  so_response :: bytes
  so_response_sha256 :: bytes
  so_process_generation :: u64
  so_listener_epoch :: u64
  so_handoff :: HandoffState

definition matched_session_slot ::
    "('h, 't) HostLease \<Rightarrow> bytes \<Rightarrow> string \<Rightarrow> ErrorStage \<Rightarrow> bool \<Rightarrow> ControlFailure + u64" where
  "matched_session_slot l token session_id stage allow_unbound =
     (case fmlookup (hl_references l) token of
        None \<Rightarrow> Inl (selection_fail stage)
      | Some reference \<Rightarrow>
          if rf_state reference \<noteq> RefConsumed then Inl (selection_fail stage)
          else case rf_session_slot reference of
            None \<Rightarrow> Inl (selection_fail stage)
          | Some slot \<Rightarrow>
              if rf_session_id reference \<notin> {None, Some session_id} then Inl (selection_fail stage)
              else case fmlookup (hl_sessions l) slot of
                None \<Rightarrow>
                  Inl (if rf_session_id reference = Some session_id then broker_fail stage Stale else selection_fail stage)
              | Some x \<Rightarrow>
                  if hs_id x \<notin> {None, Some session_id} then Inl (selection_fail stage)
                  else if \<not> allow_unbound \<and> rf_session_id reference = None then Inl (selection_fail stage)
                  else Inr slot)"

definition open_resume :: "OpenSessionBody \<Rightarrow> string \<Rightarrow> u64 \<Rightarrow> ('h, 't, SessionOpened Gate) brk" where
  "open_resume body session_id current =
     gate_bind (locate_lease AtSessionOpen (ob_target_token body) current) (\<lambda>index.
     with_lease index (\<lambda>l.
     if hl_state l \<noteq> LeaseReady then refuse AtSessionOpen Stale
     else
       st_bind (or_refuse (matched_session_slot l (ob_target_token body) session_id AtSessionOpen False)) (\<lambda>slot.
       case fmlookup (hl_sessions l) slot of
         None \<Rightarrow> refuse AtSessionOpen Stale
       | Some x \<Rightarrow>
           if \<not> (hs_id x = Some session_id \<and> hs_crypto x \<noteq> None) then refuse AtSessionOpen Stale
           else
             st_bind clock_now (\<lambda>now.
             st_bind (upd_lease index (\<lambda>l. l\<lparr>hl_last_client_activity := now\<rparr>)) (\<lambda>_.
             st_ok (Proceed \<lparr>so_target_token = ob_target_token body, so_response = hs_response x,
               so_response_sha256 = hs_response_digest x, so_process_generation = hl_generation l,
               so_listener_epoch = hl_epoch l, so_handoff = hs_handoff x\<rparr>))))))"

record OpenReservation =
  or_index :: nat
  or_slot :: u64
  or_connector :: nat
  or_pbs :: bytes
  or_binding :: SessionBinding
  or_cancellation :: nat
  or_deadline :: u64
  or_operation :: u64

definition lease_binding :: "('h, 't) HostLease \<Rightarrow> SessionBinding" where
  "lease_binding l = \<lparr>sb_lease_id = hl_lease_id l, sb_process_generation = hl_generation l,
     sb_listener_epoch = hl_epoch l, sb_nk_handshake_hash = hl_nk_hash l\<rparr>"

text \<open>The reference is redeemed before the session is opened, whatever comes of it.\<close>

definition open_redeem :: "nat \<Rightarrow> bytes \<Rightarrow> u64 \<Rightarrow> nat \<Rightarrow> u64 \<Rightarrow> ('h, 't, OpenReservation) brk" where
  "open_redeem index token deadline_unix_ms cancellation operation =
     st_bind (upd_lease index (map_ref token (\<lambda>r. r\<lparr>rf_state := RefRedeeming\<rparr>))) (\<lambda>_.
     with_lease index (\<lambda>l.
     let slot = hl_next_session l in
     st_bind (some_or AtSessionOpen InternalError (checked_add slot 1)) (\<lambda>next.
     st_bind (upd_lease index (\<lambda>l. l\<lparr>hl_next_session := next\<rparr>)) (\<lambda>_.
     st_bind (upd_lease index (map_ref token (\<lambda>r. r\<lparr>rf_session_slot := Some slot\<rparr>))) (\<lambda>_.
     st_bind (some_or AtSessionHandshake Stale (hl_connector l)) (\<lambda>connector.
     st_bind (some_or AtSessionHandshake Stale (hl_pbs l)) (\<lambda>pbs.
     st_bind (or_refuse (effective_deadline deadline_unix_ms l)) (\<lambda>deadline.
     st_ok \<lparr>or_index = index, or_slot = slot, or_connector = connector, or_pbs = pbs, or_binding = lease_binding l,
       or_cancellation = cancellation, or_deadline = deadline, or_operation = operation\<rparr>))))))))"

definition open_reserve :: "(bytes \<Rightarrow> bytes) \<Rightarrow> u64 \<Rightarrow> OpenSessionBody \<Rightarrow> ('h, 't, OpenReservation Gate) brk" where
  "open_reserve sha256 deadline_unix_ms body =
     (case ob_session_open_request body of
        None \<Rightarrow> refuse AtSessionOpen Malformed
      | Some payload \<Rightarrow>
          if ob_session_open_request_sha256 body \<noteq> Some (sha256 payload) then refuse AtSessionOpen BindingMismatch
          else
            st_bind clock_now (\<lambda>current.
            gate_bind (locate_lease AtSessionOpen (ob_target_token body) current) (\<lambda>index.
            with_lease index (\<lambda>l.
            if hl_state l \<noteq> LeaseReady then refuse AtSessionOpen Stale
            else case fmlookup (hl_references l) (ob_target_token body) of
              None \<Rightarrow> refuse AtSessionOpen Stale
            | Some r \<Rightarrow>
                if \<not> (rf_state r = RefMinted \<and> current < rf_expires r) then refuse AtSessionOpen Stale
                else
                  st_bind Cancellation_new (\<lambda>cancellation.
                  st_bind (enter_ledger AtSessionOpen index cancellation) (\<lambda>operation.
                  guarded index operation (
                    st_bind (open_redeem index (ob_target_token body) deadline_unix_ms cancellation operation)
                    (\<lambda>r. st_ok (Proceed r)))))))))"

datatype OpenStep = Resumed SessionOpened | Reserved OpenReservation

definition gate_map :: "('a \<Rightarrow> 'b) \<Rightarrow> ('h, 't, 'a Gate) brk \<Rightarrow> ('h, 't, 'b Gate) brk" where
  "gate_map f m = gate_bind m (\<lambda>x. st_ok (Proceed (f x)))"

definition open_begin :: "(bytes \<Rightarrow> bytes) \<Rightarrow> u64 \<Rightarrow> OpenSessionBody \<Rightarrow> ('h, 't, OpenStep Gate) brk" where
  "open_begin sha256 deadline_unix_ms body =
     st_bind clock_now (\<lambda>current.
     case ob_session_id body of
       Some session_id \<Rightarrow> gate_map Resumed (open_resume body session_id current)
     | None \<Rightarrow> gate_map Reserved (open_reserve sha256 deadline_unix_ms body))"

text \<open>After the session was opened on a stream, or not.\<close>

definition open_record ::
    "(bytes \<Rightarrow> bytes) \<Rightarrow> nat \<Rightarrow> bytes \<Rightarrow> u64 \<Rightarrow> nat \<Rightarrow> ('h, 't) OpenedSession \<Rightarrow> ('h, 't, SessionOpened) brk" where
  "open_record sha256 index token slot raw opened =
     st_bind (upd_lease index (map_ref token (\<lambda>r. r\<lparr>rf_state := RefConsumed\<rparr>))) (\<lambda>_.
     st_bind clock_now (\<lambda>last.
     st_bind (upd_lease index (\<lambda>l. l\<lparr>hl_sessions := fmupd slot
         \<lparr>hs_id = None, hs_raw = raw, hs_crypto = Some (os_session opened), hs_reader = Some (os_reader opened),
          hs_response = os_response opened, hs_response_digest = sha256 (os_response opened),
          hs_handoff = os_handoff opened, hs_last = last\<rparr> (hl_sessions l)\<rparr>)) (\<lambda>_.
     st_bind clock_now (\<lambda>activity.
     st_bind (upd_lease index (\<lambda>l. l\<lparr>hl_last_client_activity := activity\<rparr>)) (\<lambda>_.
     with_lease index (\<lambda>l.
     st_ok \<lparr>so_target_token = token, so_response = os_response opened, so_response_sha256 = sha256 (os_response opened),
       so_process_generation = hl_generation l, so_listener_epoch = hl_epoch l, so_handoff = os_handoff opened\<rparr>))))))"

definition stale_reference :: "nat \<Rightarrow> bytes \<Rightarrow> ('h, 't, unit) brk" where
  "stale_reference index token = upd_lease index (map_ref token (\<lambda>r. r\<lparr>rf_state := RefStale\<rparr>))"

definition open_commit ::
    "(bytes \<Rightarrow> bytes) \<Rightarrow> OpenReservation \<Rightarrow> bytes \<Rightarrow> TransportFailure + (nat \<times> ('h, 't) OpenedSession) \<Rightarrow>
      ('h, 't, SessionOpened Gate) brk" where
  "open_commit sha256 r token outcome =
     st_bind clock_now (\<lambda>completed.
     index_lease (or_index r) (\<lambda>l.
     case l of
       None \<Rightarrow> refuse AtSessionOpen Stale
     | Some l \<Rightarrow>
         (case lease_ends completed l of
            Some reason \<Rightarrow>
              st_bind (case outcome of Inr (raw, _) \<Rightarrow> cancel_raw raw | Inl _ \<Rightarrow> st_ok ()) (\<lambda>_.
              st_ok (LeaseEnds (or_index r) reason))
          | None \<Rightarrow>
              (case outcome of
                 Inl e \<Rightarrow>
                   st_bind (stale_reference (or_index r) token) (\<lambda>_. st_fail (Refused (transport_fail AtSessionOpen e)))
               | Inr (raw, opened) \<Rightarrow>
                   if hl_state l \<noteq> LeaseReady \<or> lease_binding l \<noteq> or_binding r then
                     st_bind (cancel_raw raw) (\<lambda>_.
                     st_bind (stale_reference (or_index r) token) (\<lambda>_. refuse AtSessionOpen Stale))
                   else case fmlookup (hl_references l) token of
                     None \<Rightarrow> refuse AtSessionOpen Stale
                   | Some ref \<Rightarrow>
                       if \<not> (rf_state ref = RefRedeeming \<and> rf_session_slot ref = Some (or_slot r))
                       then refuse AtSessionOpen Stale
                       else
                         st_bind (open_record sha256 (or_index r) token (or_slot r) raw opened) (\<lambda>x.
                         st_ok (Proceed x))))))"

section \<open>Exchanging and closing\<close>

record ExchangeBody =
  eb_target_token :: bytes
  eb_session_id :: string
  eb_process_generation :: u64
  eb_listener_epoch :: u64
  eb_message :: bytes
  eb_message_sha256 :: bytes

record ExchangeComplete =
  ec_target_token :: bytes
  ec_session_id :: string
  ec_process_generation :: u64
  ec_listener_epoch :: u64
  ec_message :: bytes
  ec_message_sha256 :: bytes
  ec_handoff :: HandoffState

text \<open>The session of a request, bound to its id when it is not yet bound. The guard of the operation is entered
  in between.\<close>

definition claim_session ::
    "ErrorStage \<Rightarrow> nat \<Rightarrow> bytes \<Rightarrow> string \<Rightarrow> u64 \<Rightarrow> u64 \<Rightarrow> (u64 \<Rightarrow> ('h, 't) HostSession \<Rightarrow> u64 \<Rightarrow> ('h, 't, 'a) brk) \<Rightarrow> ('h, 't, 'a) brk" where
  "claim_session stage index token session_id generation epoch f =
     with_lease index (\<lambda>l.
     if hl_state l \<noteq> LeaseReady \<or> hl_generation l \<noteq> generation \<or> hl_epoch l \<noteq> epoch then refuse stage Stale
     else
       st_bind (or_refuse (matched_session_slot l token session_id stage True)) (\<lambda>slot.
       st_bind Cancellation_new (\<lambda>cancellation.
       st_bind (enter_ledger stage index cancellation) (\<lambda>operation.
       guarded index operation (
         case fmlookup (hl_sessions l) slot of
           None \<Rightarrow> st_fail Panicked
         | Some x \<Rightarrow>
             st_bind (if hs_id x = None then
                 st_bind (upd_lease index (map_ref token (\<lambda>r. r\<lparr>rf_session_id := Some session_id\<rparr>))) (\<lambda>_.
                 upd_lease index (map_host_session slot (\<lambda>x. x\<lparr>hs_id := Some session_id\<rparr>)))
               else st_ok ()) (\<lambda>_.
             f slot x operation))))))"

record ('h, 't) ExchangeReservation =
  er_index :: nat
  er_slot :: u64
  er_raw :: nat
  er_reader :: RawFrameReader
  er_crypto :: "('h, 't) SessionCore"
  er_deadline :: u64
  er_operation :: u64

definition exchange_reserve ::
    "(bytes \<Rightarrow> bytes) \<Rightarrow> u64 \<Rightarrow> ExchangeBody \<Rightarrow> ('h, 't, ('h, 't) ExchangeReservation Gate) brk" where
  "exchange_reserve sha256 deadline_unix_ms body =
     (if eb_message_sha256 body \<noteq> sha256 (eb_message body) then refuse AtExchange BindingMismatch
      else
        st_bind clock_now (\<lambda>current.
        gate_bind (locate_lease AtExchange (eb_target_token body) current) (\<lambda>index.
        claim_session AtExchange index (eb_target_token body) (eb_session_id body) (eb_process_generation body)
          (eb_listener_epoch body) (\<lambda>slot x operation.
          st_bind (some_or AtExchange Stale (hs_reader x)) (\<lambda>reader.
          st_bind (upd_lease index (map_host_session slot (\<lambda>x. x\<lparr>hs_reader := None\<rparr>))) (\<lambda>_.
          st_bind (some_or AtExchange Stale (hs_crypto x)) (\<lambda>crypto.
          st_bind (upd_lease index (map_host_session slot (\<lambda>x. x\<lparr>hs_crypto := None\<rparr>))) (\<lambda>_.
          with_lease index (\<lambda>l.
          st_bind (or_refuse (effective_deadline deadline_unix_ms l)) (\<lambda>deadline.
          st_ok (Proceed \<lparr>er_index = index, er_slot = slot, er_raw = hs_raw x, er_reader = reader, er_crypto = crypto,
            er_deadline = deadline, er_operation = operation\<rparr>)))))))))))"

text \<open>The outcome of the exchange on the stream: the message or the failure, with the connection and the reader as
  it left them.\<close>

definition exchange_record ::
    "(bytes \<Rightarrow> bytes) \<Rightarrow> ('h, 't) ExchangeReservation \<Rightarrow> ExchangeBody \<Rightarrow> ('h, 't) SessionCore \<Rightarrow> RawFrameReader \<Rightarrow> bytes \<Rightarrow>
      ('h, 't, ExchangeComplete) brk" where
  "exchange_record sha256 r body crypto reader message =
     st_bind (upd_lease (er_index r) (\<lambda>l. (map_host_session (er_slot r) (\<lambda>x. x\<lparr>hs_crypto := Some crypto, hs_reader := Some reader,
         hs_handoff := HandoffPossibleOrConfirmed\<rparr>) l)\<lparr>hl_handoff := HandoffPossibleOrConfirmed\<rparr>)) (\<lambda>_.
     st_bind clock_now (\<lambda>last.
     st_bind (upd_lease (er_index r) (\<lambda>l. (map_host_session (er_slot r) (\<lambda>x. x\<lparr>hs_last := last\<rparr>) l)
         \<lparr>hl_last_client_activity := last\<rparr>)) (\<lambda>_.
     with_lease (er_index r) (\<lambda>l.
     st_ok \<lparr>ec_target_token = eb_target_token body, ec_session_id = eb_session_id body,
       ec_process_generation = hl_generation l, ec_listener_epoch = hl_epoch l, ec_message = message,
       ec_message_sha256 = sha256 message, ec_handoff = HandoffPossibleOrConfirmed\<rparr>))))"

definition exchange_commit ::
    "(bytes \<Rightarrow> bytes) \<Rightarrow> ('h, 't) ExchangeReservation \<Rightarrow> ExchangeBody \<Rightarrow> ('h, 't) SessionCore \<Rightarrow> RawFrameReader \<Rightarrow>
      TransportFailure + bytes \<Rightarrow> ('h, 't, ExchangeComplete Gate) brk" where
  "exchange_commit sha256 r body crypto reader outcome =
     index_lease (er_index r) (\<lambda>l.
     case l of
       None \<Rightarrow> refuse AtExchange Stale
     | Some l \<Rightarrow>
         st_bind clock_now (\<lambda>completed.
         case lease_ends completed l of
           Some reason \<Rightarrow> st_bind (cancel_raw (er_raw r)) (\<lambda>_. st_ok (LeaseEnds (er_index r) reason))
         | None \<Rightarrow>
             if hl_state l \<noteq> LeaseReady \<or> hl_generation l \<noteq> eb_process_generation body \<or> hl_epoch l \<noteq> eb_listener_epoch body
             then st_bind (cancel_raw (er_raw r)) (\<lambda>_. refuse AtExchange Stale)
             else case fmlookup (hl_sessions l) (er_slot r) of
               None \<Rightarrow> refuse AtExchange Stale
             | Some x \<Rightarrow>
                 (case outcome of
                    Inr message \<Rightarrow>
                      st_bind (exchange_record sha256 r body crypto reader message) (\<lambda>c. st_ok (Proceed c))
                  | Inl e \<Rightarrow>
                      st_bind (cancel_raw (er_raw r)) (\<lambda>_.
                      if fmlookup (hl_references l) (eb_target_token body) = None then st_fail Panicked
                      else
                        st_bind (upd_lease (er_index r) (map_ref (eb_target_token body)
                          (\<lambda>r. r\<lparr>rf_session_id := Some (eb_session_id body)\<rparr>))) (\<lambda>_.
                        st_bind clock_now (\<lambda>now.
                        st_bind (or_refuse (session_tombstone_expires now)) (\<lambda>expires.
                        st_bind (upd_lease (er_index r) (\<lambda>l. map_ref (eb_target_token body) (\<lambda>r. r\<lparr>rf_expires := expires\<rparr>)
                          (l\<lparr>hl_sessions := fmdrop (er_slot r) (hl_sessions l)\<rparr>))) (\<lambda>_.
                        st_fail (Refused (transport_fail AtExchange e))))))))))"

record CloseSessionBody =
  cb_target_token :: bytes
  cb_session_id :: string
  cb_process_generation :: u64
  cb_listener_epoch :: u64
  cb_reason :: CloseReason

record Closed =
  cl_target_token :: bytes
  cl_session_id :: "string option"
  cl_handoff :: HandoffState

record ('h, 't) CloseReservation =
  cr_index :: nat
  cr_raw :: nat
  cr_crypto :: "('h, 't) SessionCore"
  cr_handoff :: HandoffState
  cr_deadline :: u64
  cr_operation :: u64

definition close_session_reserve ::
    "u64 \<Rightarrow> CloseSessionBody \<Rightarrow> ('h, 't, ('h, 't) CloseReservation Gate) brk" where
  "close_session_reserve deadline_unix_ms body =
     st_bind clock_now (\<lambda>current.
     gate_bind (locate_lease AtClose (cb_target_token body) current) (\<lambda>index.
     claim_session AtClose index (cb_target_token body) (cb_session_id body) (cb_process_generation body)
       (cb_listener_epoch body) (\<lambda>slot x operation.
       st_bind (some_or AtClose Stale (hs_crypto x)) (\<lambda>crypto.
       st_bind (upd_lease index (map_host_session slot (\<lambda>x. x\<lparr>hs_crypto := None\<rparr>))) (\<lambda>_.
       with_lease index (\<lambda>l.
       st_bind (or_refuse (effective_deadline deadline_unix_ms l)) (\<lambda>deadline.
       st_ok (Proceed \<lparr>cr_index = index, cr_raw = hs_raw x, cr_crypto = crypto, cr_handoff = hs_handoff x,
         cr_deadline = deadline, cr_operation = operation\<rparr>))))))))"

definition close_session_commit ::
    "('h, 't) CloseReservation \<Rightarrow> CloseSessionBody \<Rightarrow> TransportFailure + unit \<Rightarrow> ('h, 't, Closed Gate) brk" where
  "close_session_commit r body outcome =
     st_bind clock_now (\<lambda>completed.
     index_lease (cr_index r) (\<lambda>l.
     case l of
       None \<Rightarrow> refuse AtClose Stale
     | Some l \<Rightarrow>
         (case lease_ends completed l of
            Some reason \<Rightarrow> st_bind (cancel_raw (cr_raw r)) (\<lambda>_. st_ok (LeaseEnds (cr_index r) reason))
          | None \<Rightarrow>
              if \<not> (hl_state l = LeaseReady \<and> hl_generation l = cb_process_generation body \<and> hl_epoch l = cb_listener_epoch body)
              then refuse AtClose Stale
              else
                st_bind (some_or AtClose Stale (Option.bind (fmlookup (hl_references l) (cb_target_token body)) rf_session_slot)) (\<lambda>slot.
                st_bind (upd_lease (cr_index r) (map_ref (cb_target_token body)
                  (\<lambda>r. r\<lparr>rf_session_id := Some (cb_session_id body)\<rparr>))) (\<lambda>_.
                st_bind clock_now (\<lambda>now.
                st_bind (or_refuse (session_tombstone_expires now)) (\<lambda>expires.
                st_bind (upd_lease (cr_index r) (\<lambda>l. map_ref (cb_target_token body) (\<lambda>r. r\<lparr>rf_expires := expires\<rparr>)
                  (l\<lparr>hl_sessions := fmdrop slot (hl_sessions l)\<rparr>))) (\<lambda>_.
                case outcome of
                  Inr _ \<Rightarrow> st_ok (Proceed \<lparr>cl_target_token = cb_target_token body, cl_session_id = Some (cb_session_id body),
                    cl_handoff = cr_handoff r\<rparr>)
                | Inl e \<Rightarrow> st_fail (Refused (transport_fail AtClose e))))))))))"


section \<open>Ending a lease\<close>

record CloseLeaseBody =
  lb_target_token :: bytes
  lb_reason :: CloseReason

definition close_lease_find :: "CloseLeaseBody \<Rightarrow> ('h, 't, nat \<times> HandoffState) brk" where
  "close_lease_find body = st_with (\<lambda>s.
     case find_token (lb_target_token body) s of
       None \<Rightarrow> st_fail (Refused (token_failure s AtClose (lb_target_token body)))
     | Some index \<Rightarrow> with_lease index (\<lambda>l. st_ok (index, any_handoff l)))"

text \<open>The first caller becomes the owner of the end and gets the key; the others wait for it.\<close>

datatype LeaseTerminal = Owner PrepareKey | Follower

definition seal_lease :: "CloseReason \<Rightarrow> u64 \<Rightarrow> ('h, 't) HostLease \<Rightarrow> ('h, 't) HostLease" where
  "seal_lease reason expires l = l\<lparr>
     hl_state := LeaseClosing,
     hl_terminal_reason := (case hl_terminal_reason l of None \<Rightarrow> Some reason | Some old \<Rightarrow> Some old),
     hl_terminal_handoff := any_handoff l,
     hl_references := fmmap (\<lambda>r. r\<lparr>rf_state := RefStale,
       rf_expires := (if rf_session_id r \<noteq> None then expires else rf_expires r)\<rparr>) (hl_references l)\<rparr>"

definition lease_streams :: "('h, 't) HostLease \<Rightarrow> nat fset" where
  "lease_streams l =
     fmran (fmmap hs_raw (hl_sessions l)) |\<union>| (case hl_control l of None \<Rightarrow> {||} | Some raw \<Rightarrow> {|raw|})"

definition terminalize_own ::
    "nat \<Rightarrow> CloseReason \<Rightarrow> u64 \<Rightarrow> nat fset \<Rightarrow> OperationState \<Rightarrow> ('h, 't) HostLease \<Rightarrow> ('h, 't, LeaseTerminal) brk" where
  "terminalize_own index reason expires cancellations st l =
     st_bind (st_upd (\<lambda>s. s\<lparr>bk_cancelled := bk_cancelled s |\<union>| cancellations,
       bk_raw_cancelled := bk_raw_cancelled s |\<union>| lease_streams l\<rparr>)) (\<lambda>_.
     st_bind (st_upd (\<lambda>s. s\<lparr>bk_ledgers := (bk_ledgers s)[index := st],
       bk_leases := (bk_leases s)[index := Some (seal_lease reason expires l)]\<rparr>)) (\<lambda>_.
     st_ok (Owner (hl_key l))))"

definition terminalize_begin :: "nat \<Rightarrow> CloseReason \<Rightarrow> ('h, 't, LeaseTerminal) brk" where
  "terminalize_begin index reason =
     st_bind clock_now (\<lambda>terminal_now.
     st_bind (or_refuse (session_tombstone_expires terminal_now)) (\<lambda>expires.
     st_with (\<lambda>s.
       case get_lease index s of
         None \<Rightarrow> refuse AtClose Stale
       | Some l \<Rightarrow>
           (case LeaseOperations_begin_close (bk_ledgers s ! index) of
              (None, _) \<Rightarrow> st_ok Follower
            | (Some cancellations, st) \<Rightarrow> terminalize_own index reason expires cancellations st l))))"

text \<open>The owner could not wait for the operations to leave: the selection is marked as failed, and the lease is
  reaped later.\<close>

definition terminalize_timeout :: "PrepareKey \<Rightarrow> ('h, 't, 'a) brk" where
  "terminalize_timeout key = st_bind (insert_failed key) (\<lambda>_. refuse AtCleanup CleanupFailed)"

text \<open>What a follower gets, once there is a result; \<open>None\<close> when it waited in vain.\<close>

definition wait_for_close :: "OperationState \<Rightarrow> CloseReason + unit" where
  "wait_for_close st = (case lo_completed st of None \<Rightarrow> Inl CleanupFailed | Some r \<Rightarrow> r)"

record 't ReapPlan =
  rp_raw :: "nat option"
  rp_crypto :: "'t LeaseCore option"
  rp_cleanup :: "nat option"
  rp_cleanup_already_failed :: bool
  rp_terminal_already_failed :: bool
  rp_reason :: CloseReason
  rp_handoff :: HandoffState
  rp_stale_tokens :: "(bytes, u64) fmap"

definition reap_begin :: "nat \<Rightarrow> PrepareKey \<Rightarrow> (('h, 't) broker, CloseReason, 't ReapPlan) step" where
  "reap_begin index key s =
     (case get_lease index s of
        None \<Rightarrow> (Inl Stale, s)
      | Some l \<Rightarrow>
          if hl_key l \<noteq> key \<or> hl_state l \<noteq> LeaseClosing then (Inl Stale, s)
          else (Inr \<lparr>rp_raw = hl_control l, rp_crypto = hl_lease_crypto l, rp_cleanup = hl_cleanup l,
              rp_cleanup_already_failed = hl_terminal_cleanup_failed l,
              rp_terminal_already_failed =
                (fmlookup (bk_failed s) (PrepareKey_selection key) = Some (pk_digest key, CleanupFailed)),
              rp_reason = (case hl_terminal_reason l of None \<Rightarrow> Stale | Some r \<Rightarrow> r), rp_handoff = hl_terminal_handoff l,
              rp_stale_tokens = fmmap rf_expires (hl_references l)\<rparr>,
            s\<lparr>bk_leases := (bk_leases s)[index := Some (l\<lparr>hl_control := None, hl_lease_crypto := None, hl_cleanup := None\<rparr>)]\<rparr>))"

text \<open>The result of a reap, from the answer of the cleanup receipt, if there is one.\<close>

definition reap_result :: "'t ReapPlan \<Rightarrow> PlatformFailureKind + unit \<Rightarrow> CloseReason + unit" where
  "reap_result p cleaned =
     (let cleanup_result =
        (if rp_cleanup_already_failed p then Inl CleanupFailed
         else case rp_cleanup p of
           Some _ \<Rightarrow> map_err (\<lambda>_. CleanupFailed) cleaned
         | None \<Rightarrow> Inr ())
      in if rp_terminal_already_failed p then Inl CleanupFailed else cleanup_result)"

definition reap_finish ::
    "nat \<Rightarrow> PrepareKey \<Rightarrow> (bytes, u64) fmap \<Rightarrow> CloseReason + unit \<Rightarrow> ('h, 't, unit) brk" where
  "reap_finish index key stale_tokens result =
     st_bind (st_upd (\<lambda>s. s\<lparr>bk_stale_tokens := bk_stale_tokens s ++\<^sub>f stale_tokens\<rparr>)) (\<lambda>_.
     st_bind (if is_err result then insert_failed key else st_ok ()) (\<lambda>_.
     st_bind (st_upd (\<lambda>s.
       case get_lease index s of
         None \<Rightarrow> s
       | Some l \<Rightarrow>
           if hl_key l = key \<and> hl_state l = LeaseClosing then s\<lparr>bk_leases := (bk_leases s)[index := None]\<rparr> else s)) (\<lambda>_.
     st_upd (\<lambda>s. s\<lparr>bk_ledgers := (bk_ledgers s)[index := LeaseOperations_finish_close result (bk_ledgers s ! index)]\<rparr>))))"

definition shutdown_begin :: "('h, 't, nat list) brk" where
  "shutdown_begin s =
     (Inr (filter (\<lambda>i. bk_leases s ! i \<noteq> None) [0..<length (bk_leases s)]), s\<lparr>bk_shutting_down := True\<rparr>)"

section \<open>Maintenance\<close>

record Upkeep =
  up_sessions :: "(nat \<times> u64 fset) list"
  up_leases :: "nat list"
  up_losses :: "nat list"
  up_heartbeats :: "nat list"

definition idle_sessions :: "u64 \<Rightarrow> ('h, 't) HostLease \<Rightarrow> u64 fset" where
  "idle_sessions current l = ffilter (\<lambda>slot.
     case fmlookup (hl_sessions l) slot of
       None \<Rightarrow> False
     | Some x \<Rightarrow> hs_crypto x \<noteq> None \<and> expired_at current (hs_last x) SESSION_IDLE_MS) (fmdom (hl_sessions l))"

definition upkeep_of :: "u64 \<Rightarrow> nat \<Rightarrow> ('h, 't) HostLease option \<Rightarrow> Upkeep \<Rightarrow> Upkeep" where
  "upkeep_of current index lease u =
     (case lease of
        None \<Rightarrow> u
      | Some l \<Rightarrow>
          if hl_state l \<noteq> LeaseReady then u
          else case lease_ends current l of
            Some reason \<Rightarrow>
              if reason = BrokerLost then u\<lparr>up_losses := up_losses u @ [index]\<rparr> else u\<lparr>up_leases := up_leases u @ [index]\<rparr>
          | None \<Rightarrow>
              u\<lparr>up_sessions := up_sessions u @ [(index, idle_sessions current l)],
                up_heartbeats := up_heartbeats u @
                  (if expired_at current (hl_last_heartbeat_attempt l) HEARTBEAT_INTERVAL_MS then [index] else [])\<rparr>)"

definition maintain_scan :: "u64 \<Rightarrow> ('h, 't) broker \<Rightarrow> Upkeep" where
  "maintain_scan current s =
     fold (\<lambda>i. upkeep_of current i (bk_leases s ! i)) [0..<length (bk_leases s)]
       \<lparr>up_sessions = [], up_leases = [], up_losses = [], up_heartbeats = []\<rparr>"

definition maintain_begin :: "('h, 't, u64 \<times> Upkeep) brk" where
  "maintain_begin =
     st_bind clock_now (\<lambda>current.
     st_bind (prune current) (\<lambda>_.
     st_with (\<lambda>s. st_ok (current, maintain_scan current s))))"

text \<open>The end of an idle session.\<close>

record ('h, 't) ExpireReservation =
  xr_raw :: nat
  xr_crypto :: "('h, 't) SessionCore"
  xr_handoff :: HandoffState
  xr_id :: "string option"
  xr_operation :: u64

definition expire_session_begin :: "nat \<Rightarrow> u64 \<Rightarrow> ('h, 't, ('h, 't) ExpireReservation) brk" where
  "expire_session_begin index slot = st_with (\<lambda>s.
     case get_lease index s of
       None \<Rightarrow> refuse AtClose Stale
     | Some l \<Rightarrow>
         if hl_state l \<noteq> LeaseReady then refuse AtClose Stale
         else case fmlookup (hl_sessions l) slot of
           None \<Rightarrow> refuse AtClose Stale
         | Some x \<Rightarrow>
             (case hs_crypto x of
                None \<Rightarrow> refuse AtClose Stale
              | Some crypto \<Rightarrow>
                  st_bind Cancellation_new (\<lambda>cancellation.
                  st_bind (enter_ledger AtClose index cancellation) (\<lambda>operation.
                  st_bind (upd_lease index (map_host_session slot (\<lambda>x. x\<lparr>hs_crypto := None\<rparr>))) (\<lambda>_.
                  st_ok \<lparr>xr_raw = hs_raw x, xr_crypto = crypto, xr_handoff = hs_handoff x, xr_id = hs_id x,
                    xr_operation = operation\<rparr>)))))"

text \<open>The reference of a slot is searched among all; a slot is handed out once, so there is at most one.\<close>

definition map_slot_refs :: "u64 \<Rightarrow> (Reference \<Rightarrow> Reference) \<Rightarrow> ('h, 't) HostLease \<Rightarrow> ('h, 't) HostLease" where
  "map_slot_refs slot f l =
     l\<lparr>hl_references := fmmap (\<lambda>r. if rf_session_slot r = Some slot then f r else r) (hl_references l)\<rparr>"

definition expire_session_finish :: "nat \<Rightarrow> u64 \<Rightarrow> string option \<Rightarrow> nat \<Rightarrow> ('h, 't, unit) brk" where
  "expire_session_finish index slot session_id raw =
     st_bind (cancel_raw raw) (\<lambda>_.
     st_with (\<lambda>s.
       case get_lease index s of
         None \<Rightarrow> st_ok ()
       | Some l \<Rightarrow>
           st_bind
             (if session_id \<noteq> None \<and> \<not> fmpred (\<lambda>_ r. rf_session_slot r \<noteq> Some slot) (hl_references l) then
                st_bind (upd_lease index (map_slot_refs slot (\<lambda>r. r\<lparr>rf_session_id := session_id\<rparr>))) (\<lambda>_.
                st_bind clock_now (\<lambda>now.
                st_bind (or_refuse (session_tombstone_expires now)) (\<lambda>expires.
                upd_lease index (map_slot_refs slot (\<lambda>r. r\<lparr>rf_expires := expires\<rparr>)))))
              else st_ok ()) (\<lambda>_.
           upd_lease index (\<lambda>l. l\<lparr>hl_sessions := fmdrop slot (hl_sessions l)\<rparr>))))"

section \<open>Heartbeats of a lease\<close>

text \<open>A heartbeat first looks the lease up, in a section of its own: only a ready lease has its probe taken.\<close>

definition heartbeat_find :: "nat \<Rightarrow> ('h, 't, unit) brk" where
  "heartbeat_find index = st_with (\<lambda>s.
     case get_lease index s of
       None \<Rightarrow> refuse AtClose Stale
     | Some l \<Rightarrow> if hl_state l \<noteq> LeaseReady then refuse AtClose Stale else st_ok ())"

text \<open>\<^verbatim>\<open>ReadyProbe::enter_until\<close>: one heartbeat at a time. The answer \<open>False\<close> is another turn of waiting.\<close>

definition ready_probe_enter :: "nat \<Rightarrow> u64 \<Rightarrow> ('h, 't, bool) brk" where
  "ready_probe_enter index deadline = st_with (\<lambda>s.
     if bk_probes s ! index then
       st_bind clock_now (\<lambda>current. if current \<ge> deadline then refuse AtPrepare Timeout else st_ok False)
     else
       st_bind (st_upd (\<lambda>s. s\<lparr>bk_probes := (bk_probes s)[index := True]\<rparr>)) (\<lambda>_. st_ok True))"

definition ready_probe_drop :: "nat \<Rightarrow> ('h, 't, unit) brk" where
  "ready_probe_drop index = st_upd (\<lambda>s. s\<lparr>bk_probes := (bk_probes s)[index := False]\<rparr>)"

record 't HeartbeatReservation =
  hr_index :: nat
  hr_raw :: nat
  hr_reader :: RawFrameReader
  hr_crypto :: "'t LeaseCore"
  hr_counter :: u64
  hr_misses :: u8
  hr_deadline :: u64
  hr_operation :: u64

definition heartbeat_begin :: "nat \<Rightarrow> u64 \<Rightarrow> ('h, 't, 't HeartbeatReservation) brk" where
  "heartbeat_begin index deadline_ms = st_with (\<lambda>s.
     case get_lease index s of
       None \<Rightarrow> refuse AtClose Stale
     | Some l \<Rightarrow>
         if hl_state l \<noteq> LeaseReady then refuse AtClose Stale
         else
           st_bind Cancellation_new (\<lambda>cancellation.
           st_bind (enter_ledger AtClose index cancellation) (\<lambda>operation.
           guarded index operation (
             st_bind (some_or AtClose Stale (hl_control l)) (\<lambda>raw.
             st_bind (some_or AtClose Stale (hl_control_reader l)) (\<lambda>reader.
             st_bind (upd_lease index (\<lambda>l. l\<lparr>hl_control_reader := None\<rparr>)) (\<lambda>_.
             st_bind (some_or AtClose Stale (hl_lease_crypto l)) (\<lambda>crypto.
             st_bind (upd_lease index (\<lambda>l. l\<lparr>hl_lease_crypto := None\<rparr>)) (\<lambda>_.
             st_bind (or_refuse (effective_deadline deadline_ms l)) (\<lambda>deadline.
             st_ok \<lparr>hr_index = index, hr_raw = raw, hr_reader = reader, hr_crypto = crypto,
               hr_counter = hl_heartbeat_counter l, hr_misses = hl_heartbeat_misses l, hr_deadline = deadline,
               hr_operation = operation\<rparr>))))))))))"

definition return_control :: "'t LeaseCore \<Rightarrow> RawFrameReader \<Rightarrow> ('h, 't) HostLease \<Rightarrow> ('h, 't) HostLease" where
  "return_control crypto reader l = l\<lparr>hl_lease_crypto := Some crypto, hl_control_reader := Some reader\<rparr>"

text \<open>The three outcomes of a heartbeat: a failure that ends the lease, a reply, a timeout. The handler leaves the
  ledger after each; in the first it then ends the lease with the failure's reason.\<close>

definition heartbeat_failed ::
    "nat \<Rightarrow> 't LeaseCore \<Rightarrow> RawFrameReader \<Rightarrow> TransportFailure \<Rightarrow> ('h, 't, unit) brk" where
  "heartbeat_failed index crypto reader e = st_with (\<lambda>s.
     case get_lease index s of
       None \<Rightarrow> refuse AtClose Stale
     | Some l \<Rightarrow>
         if hl_state l = LeaseReady then
           upd_lease index (\<lambda>l. (return_control crypto reader l)\<lparr>hl_handoff :=
             (if hl_handoff l = HandoffPossibleOrConfirmed \<or> tf_handoff e = HandoffPossibleOrConfirmed
              then HandoffPossibleOrConfirmed else NotHandedOff)\<rparr>)
         else st_ok ())"

definition heartbeat_answered_ok ::
    "nat \<Rightarrow> u64 \<Rightarrow> 't LeaseCore \<Rightarrow> RawFrameReader \<Rightarrow> ('h, 't, bool Gate) brk" where
  "heartbeat_answered_ok index counter crypto reader = st_with (\<lambda>s.
     case get_lease index s of
       None \<Rightarrow> refuse AtClose Stale
     | Some l \<Rightarrow>
         if hl_state l \<noteq> LeaseReady then refuse AtClose Stale
         else
           st_bind (upd_lease index (return_control crypto reader)) (\<lambda>_.
           st_bind clock_now (\<lambda>completed.
           case lease_ends completed l of
             Some reason \<Rightarrow> st_ok (LeaseEnds index reason)
           | None \<Rightarrow>
               st_bind (upd_lease index (\<lambda>l. l\<lparr>hl_last_heartbeat_success := completed,
                 hl_last_heartbeat_attempt := completed, hl_heartbeat_misses := 0\<rparr>)) (\<lambda>_.
               st_bind (some_or AtClose InternalError (checked_add counter 1)) (\<lambda>next.
               st_bind (upd_lease index (\<lambda>l. l\<lparr>hl_heartbeat_counter := next\<rparr>)) (\<lambda>_.
               st_ok (Proceed True)))))))"

definition heartbeat_missed ::
    "nat \<Rightarrow> u64 \<Rightarrow> 't LeaseCore \<Rightarrow> RawFrameReader \<Rightarrow> ('h, 't, bool Gate) brk" where
  "heartbeat_missed index deadline_ms crypto reader = st_with (\<lambda>s.
     case get_lease index s of
       None \<Rightarrow> refuse AtClose Stale
     | Some l \<Rightarrow>
         if hl_state l \<noteq> LeaseReady then refuse AtClose Stale
         else
           let misses = (if hl_heartbeat_misses l = 255 then 255 else hl_heartbeat_misses l + 1) in
           st_bind (upd_lease index (\<lambda>l. (return_control crypto reader l)\<lparr>
             hl_last_heartbeat_attempt := saturating_sub64 deadline_ms HEARTBEAT_INTERVAL_MS,
             hl_heartbeat_misses := misses\<rparr>)) (\<lambda>_.
           st_ok (if heartbeat_lost misses then LeaseEnds index BrokerLost else Proceed False)))"


section \<open>Interleavings\<close>

text \<open>The sections as actions; a sequence of actions is any interleaving of handlers, of their threads and of the
  reapers. Outcomes of input and output are part of the actions that follow it.\<close>

datatype ('h, 't) act =
    A_admit u64
  | A_prepare "error + (bytes \<times> bytes)" "error + bytes" u64 PrepareBody
  | A_reuse nat PrepareKey u64
  | A_commit_begin Reservation "'t Prepared"
  | A_commit Reservation "'t Prepared"
  | A_discard_mark Reservation bool
  | A_reject Reservation CloseReason bool
  | A_reap_late nat PrepareKey bool
  | A_open u64 OpenSessionBody
  | A_open_commit OpenReservation bytes "TransportFailure + (nat \<times> ('h, 't) OpenedSession)"
  | A_exchange u64 ExchangeBody
  | A_exchange_commit "('h, 't) ExchangeReservation" ExchangeBody "('h, 't) SessionCore" RawFrameReader "TransportFailure + bytes"
  | A_close_session u64 CloseSessionBody
  | A_close_session_commit "('h, 't) CloseReservation" CloseSessionBody "TransportFailure + unit"
  | A_close_lease CloseLeaseBody
  | A_terminalize nat CloseReason
  | A_terminalize_timeout PrepareKey
  | A_reap_begin nat PrepareKey
  | A_reap_finish nat PrepareKey "(bytes, u64) fmap" "CloseReason + unit"
  | A_shutdown
  | A_maintain
  | A_expire_session nat u64
  | A_expire_session_finish nat u64 "string option" nat
  | A_heartbeat_find nat
  | A_probe_enter nat u64
  | A_probe_drop nat
  | A_heartbeat nat u64
  | A_heartbeat_failed nat "'t LeaseCore" RawFrameReader TransportFailure
  | A_heartbeat_answered nat u64 "'t LeaseCore" RawFrameReader
  | A_heartbeat_missed nat u64 "'t LeaseCore" RawFrameReader
  | A_leave nat u64

text \<open>The answers that later statements speak about; the others are \<open>B_done\<close>.\<close>

datatype ('h, 't) broker_answer =
    B_done
  | B_route "PrepareRoute Gate"
  | B_ready "ReadyTarget Gate"
  | B_open "OpenStep Gate"
  | B_opened "SessionOpened Gate"
  | B_exchanged "ExchangeComplete Gate"
  | B_terminal LeaseTerminal

definition st_map :: "('a \<Rightarrow> 'b) \<Rightarrow> ('s, 'e, 'a) step \<Rightarrow> ('s, 'e, 'b) step" where
  "st_map f m = st_bind m (\<lambda>v. st_ok (f v))"

definition reap_begin_step :: "nat \<Rightarrow> PrepareKey \<Rightarrow> ('h, 't, unit) brk" where
  "reap_begin_step index key s =
     (case reap_begin index key s of
        (Inl reason, s') \<Rightarrow> (Inl (Refused (broker_fail AtCleanup reason)), s')
      | (Inr _, s') \<Rightarrow> (Inr (), s'))"

fun broker_op :: "(bytes \<Rightarrow> bytes) \<Rightarrow> (bytes \<Rightarrow> bytes) \<Rightarrow> ('h, 't) act \<Rightarrow> ('h, 't, ('h, 't) broker_answer) brk" where
  "broker_op rd sha (A_admit d) = st_map (\<lambda>_. B_done) (admit d)"
| "broker_op rd sha (A_prepare keypair secret d body) = st_map B_route (prepare_begin rd keypair secret d body)"
| "broker_op rd sha (A_reuse i key d) = st_map B_ready (prepare_reuse i key d)"
| "broker_op rd sha (A_commit_begin r p) = st_map (\<lambda>_. B_done) (commit_begin r p)"
| "broker_op rd sha (A_commit r p) = st_map (\<lambda>_. B_done) (commit_finish r p)"
| "broker_op rd sha (A_discard_mark r failed) = st_map (\<lambda>_. B_done) (discard_mark r failed)"
| "broker_op rd sha (A_reject r reason failed) = reject_with_cleanup r reason failed"
| "broker_op rd sha (A_reap_late i key failed) = st_map (\<lambda>_. B_done) (reap_late_launch i key failed)"
| "broker_op rd sha (A_open d body) = st_map B_open (open_begin sha d body)"
| "broker_op rd sha (A_open_commit r token out) = st_map B_opened (open_commit sha r token out)"
| "broker_op rd sha (A_exchange d body) = st_map (\<lambda>_. B_done) (exchange_reserve sha d body)"
| "broker_op rd sha (A_exchange_commit r body crypto reader out) = st_map B_exchanged (exchange_commit sha r body crypto reader out)"
| "broker_op rd sha (A_close_session d body) = st_map (\<lambda>_. B_done) (close_session_reserve d body)"
| "broker_op rd sha (A_close_session_commit r body out) = st_map (\<lambda>_. B_done) (close_session_commit r body out)"
| "broker_op rd sha (A_close_lease body) = st_map (\<lambda>_. B_done) (close_lease_find body)"
| "broker_op rd sha (A_terminalize i reason) = st_map B_terminal (terminalize_begin i reason)"
| "broker_op rd sha (A_terminalize_timeout key) = terminalize_timeout key"
| "broker_op rd sha (A_reap_begin i key) = st_map (\<lambda>_. B_done) (reap_begin_step i key)"
| "broker_op rd sha (A_reap_finish i key tokens result) = st_map (\<lambda>_. B_done) (reap_finish i key tokens result)"
| "broker_op rd sha A_shutdown = st_map (\<lambda>_. B_done) shutdown_begin"
| "broker_op rd sha A_maintain = st_map (\<lambda>_. B_done) maintain_begin"
| "broker_op rd sha (A_expire_session i slot) = st_map (\<lambda>_. B_done) (expire_session_begin i slot)"
| "broker_op rd sha (A_expire_session_finish i slot sid raw) = st_map (\<lambda>_. B_done) (expire_session_finish i slot sid raw)"
| "broker_op rd sha (A_heartbeat_find i) = st_map (\<lambda>_. B_done) (heartbeat_find i)"
| "broker_op rd sha (A_probe_enter i d) = st_map (\<lambda>_. B_done) (ready_probe_enter i d)"
| "broker_op rd sha (A_probe_drop i) = st_map (\<lambda>_. B_done) (ready_probe_drop i)"
| "broker_op rd sha (A_heartbeat i d) = st_map (\<lambda>_. B_done) (heartbeat_begin i d)"
| "broker_op rd sha (A_heartbeat_failed i crypto reader e) = st_map (\<lambda>_. B_done) (heartbeat_failed i crypto reader e)"
| "broker_op rd sha (A_heartbeat_answered i n crypto reader) = st_map (\<lambda>_. B_done) (heartbeat_answered_ok i n crypto reader)"
| "broker_op rd sha (A_heartbeat_missed i d crypto reader) = st_map (\<lambda>_. B_done) (heartbeat_missed i d crypto reader)"
| "broker_op rd sha (A_leave i k) = st_map (\<lambda>_. B_done) (leave_ledger i k)"

end
