(* ===== verification/Broker_Inv.thy ===== *)
theory Broker_Inv
  imports Broker
begin

text \<open>
  What no interleaving of the broker's critical sections can undo. The relation \<open>broker_le\<close> says how a state
  may follow another: slots keep their lease or lose it, a lease only moves towards its end, a spent reference
  never becomes usable, a closed ledger never reopens, a failed selection stays failed. Every section that
  draws no token leads to a following state in the strict sense (\<open>frame\<close>); the two that do are treated apart.
\<close>

section \<open>The order of states\<close>

fun state_rank :: "LeaseState \<Rightarrow> nat" where
  "state_rank LeasePreparing = 0"
| "state_rank LeaseReady = 1"
| "state_rank LeaseStale = 2"
| "state_rank LeaseClosing = 3"

lemma state_rank_less [simp]: "state_rank st \<le> 3" by (cases st) simp_all

lemma state_rank_3 [simp]: "state_rank st = 3 \<longleftrightarrow> st = LeaseClosing" "3 \<le> state_rank st \<longleftrightarrow> st = LeaseClosing"
  by (cases st; simp)+

definition unspent :: "bytes \<Rightarrow> ('h, 't) HostLease \<Rightarrow> bool" where
  "unspent token l \<longleftrightarrow> (\<exists>r. fmlookup (hl_references l) token = Some r \<and> rf_state r \<in> {RefPending, RefMinted})"

text \<open>\<open>D\<close> holds the tokens that may have been drawn in between.\<close>

definition lease_le :: "bytes set \<Rightarrow> ('h, 't) HostLease \<Rightarrow> ('h, 't) HostLease \<Rightarrow> bool" where
  "lease_le D l l' \<longleftrightarrow> hl_key l' = hl_key l \<and> hl_lease_id l' = hl_lease_id l \<and>
     state_rank (hl_state l) \<le> state_rank (hl_state l') \<and>
     (\<forall>t. t \<notin> D \<longrightarrow> (t |\<in>| fmdom (hl_references l') \<longrightarrow> t |\<in>| fmdom (hl_references l)) \<and> (unspent t l' \<longrightarrow> unspent t l))"

fun slot_le :: "bytes set \<Rightarrow> ('h, 't) HostLease option \<Rightarrow> ('h, 't) HostLease option \<Rightarrow> bool" where
  "slot_le D None x = (x = None)"
| "slot_le D (Some l) None = True"
| "slot_le D (Some l) (Some l') = lease_le D l l'"

lemma lease_le_refl [simp]: "lease_le D l l" by (simp add: lease_le_def)

lemma lease_le_trans: "lease_le D a b \<Longrightarrow> lease_le D' b c \<Longrightarrow> D' \<subseteq> D \<Longrightarrow> lease_le D a c"
  unfolding lease_le_def by (metis order_trans subsetD)

lemma slot_le_refl [simp]: "slot_le D x x" by (cases x) simp_all

lemma slot_le_trans: "slot_le D a b \<Longrightarrow> slot_le D' b c \<Longrightarrow> D' \<subseteq> D \<Longrightarrow> slot_le D a c"
  by (cases a; cases b; cases c) (auto intro: lease_le_trans)

definition drawn :: "('h, 't) broker \<Rightarrow> bytes set" where
  "drawn s = {t. Some t \<in> set (bk_entropy s)}"

definition sealed :: "nat \<Rightarrow> ('h, 't) broker \<Rightarrow> bool" where
  "sealed i s \<longleftrightarrow> \<not> lo_accepting (bk_ledgers s ! i)"

fun drawn_slot :: "bytes set \<Rightarrow> ('h, 't) HostLease option \<Rightarrow> bool" where
  "drawn_slot D None = True"
| "drawn_slot D (Some l) = (fset (fmdom (hl_references l)) \<subseteq> D)"

lemma drawn_slot_le: "slot_le D' x y \<Longrightarrow> D' \<subseteq> D \<Longrightarrow> drawn_slot D x \<Longrightarrow> drawn_slot D y"
  by (cases x; cases y) (auto simp: lease_le_def)

lemma drawn_slot_mono: "drawn_slot D x \<Longrightarrow> D \<subseteq> D' \<Longrightarrow> drawn_slot D' x" by (cases x) auto

lemma get_lease_beyond [simp]: "length (bk_leases s) \<le> i \<Longrightarrow> get_lease i s = None" by (simp add: get_lease_def)

lemma get_lease_other [simp]:
  "get_lease i (s\<lparr>bk_cancelled := c\<rparr>) = get_lease i s" "get_lease i (s\<lparr>bk_raw_cancelled := c\<rparr>) = get_lease i s"
  "get_lease i (s\<lparr>bk_entropy := e\<rparr>) = get_lease i s" "get_lease i (s\<lparr>bk_ledgers := g\<rparr>) = get_lease i s"
  "get_lease i (s\<lparr>bk_ticks := n\<rparr>) = get_lease i s" "get_lease i (s\<lparr>bk_probes := p\<rparr>) = get_lease i s"
  "get_lease i (s\<lparr>bk_shutting_down := b\<rparr>) = get_lease i s" "get_lease i (s\<lparr>bk_next_cancellation := n\<rparr>) = get_lease i s"
  by (simp_all add: get_lease_def)

definition broker_le :: "bytes set \<Rightarrow> ('h, 't) broker \<Rightarrow> ('h, 't) broker \<Rightarrow> bool" where
  "broker_le D s s' \<longleftrightarrow>
     length (bk_leases s) \<le> length (bk_leases s') \<and> length (bk_ledgers s) \<le> length (bk_ledgers s') \<and>
     (\<forall>i < length (bk_leases s). slot_le D (get_lease i s) (get_lease i s')) \<and>
     (\<forall>i \<ge> length (bk_leases s). drawn_slot D (get_lease i s')) \<and>
     (\<forall>i < length (bk_ledgers s). sealed i s \<longrightarrow> sealed i s') \<and>
     (\<forall>k. k |\<in>| fmdom (bk_failed s) \<longrightarrow> k |\<in>| fmdom (bk_failed s')) \<and>
     (bk_shutting_down s \<longrightarrow> bk_shutting_down s') \<and> drawn s' \<subseteq> drawn s"

lemma broker_le_refl [simp]: "broker_le D s s" by (simp add: broker_le_def)

lemma broker_le_trans:
  assumes ab: "broker_le D a b" and bc: "broker_le D' b c" and D: "D' \<subseteq> D"
  shows "broker_le D a c"
proof -
  have slots: "slot_le D (get_lease i a) (get_lease i c)" if "i < length (bk_leases a)" for i
    using ab bc D that unfolding broker_le_def by (meson less_le_trans slot_le_trans)
  have added: "drawn_slot D (get_lease i c)" if i: "length (bk_leases a) \<le> i" for i
  proof (cases "i < length (bk_leases b)")
    case True
    with ab bc i have "drawn_slot D (get_lease i b)" "slot_le D' (get_lease i b) (get_lease i c)" by (simp_all add: broker_le_def)
    with D show ?thesis by (blast intro: drawn_slot_le)
  next
    case False
    with bc have "drawn_slot D' (get_lease i c)" by (simp add: broker_le_def)
    with D show ?thesis by (rule drawn_slot_mono [rotated])
  qed
  show ?thesis using ab bc slots added unfolding broker_le_def by (meson order_trans less_le_trans)
qed

lemma broker_le_mono: "broker_le D s s' \<Longrightarrow> D \<subseteq> D' \<Longrightarrow> broker_le D' s s'"
  using broker_le_trans [of D' s s D s'] by simp

text \<open>The strict sense: no lease is added, no ledger closed, no token drawn.\<close>

definition frame :: "('h, 't) broker \<Rightarrow> ('h, 't) broker \<Rightarrow> bool" where
  "frame s s' \<longleftrightarrow> broker_le {} s s' \<and> length (bk_leases s') = length (bk_leases s) \<and>
     length (bk_ledgers s') = length (bk_ledgers s) \<and> bk_entropy s' = bk_entropy s \<and> (\<forall>i. sealed i s' = sealed i s)"

lemma frame_refl [simp]: "frame s s" by (simp add: frame_def)

lemma frame_trans: "frame a b \<Longrightarrow> frame b c \<Longrightarrow> frame a c"
  unfolding frame_def using broker_le_trans [of "{}" a b "{}" c] by auto

section \<open>Sections that keep the frame\<close>

definition framed :: "('h, 't, 'a) brk \<Rightarrow> bool" where
  "framed m \<longleftrightarrow> (\<forall>s. frame s (snd (m s)))"

lemma framed_ok: "framed (st_ok v)" by (simp add: framed_def st_simps)
lemma framed_fail: "framed (st_fail e)" by (simp add: framed_def st_simps)
lemma framed_lift: "framed (st_lift r)" by (simp add: framed_def st_simps)
lemma framed_upd: "(\<And>s. frame s (g s)) \<Longrightarrow> framed (st_upd g)" by (simp add: framed_def st_simps)
lemma framed_with: "(\<And>s. framed (f s)) \<Longrightarrow> framed (st_with f)" by (simp add: framed_def st_simps)

lemma framed_bind: "framed m \<Longrightarrow> (\<And>v. framed (f v)) \<Longrightarrow> framed (st_bind m f)"
  unfolding framed_def st_simps
proof (intro allI)
  fix s assume m: "\<forall>s. frame s (snd (m s))" and f: "\<And>v. \<forall>s. frame s (snd (f v s))"
  obtain r s1 where r: "m s = (r, s1)" by fastforce
  with m have "frame s s1" by (metis snd_conv)
  with r f show "frame s (snd (case m s of (Inl e, s') \<Rightarrow> (Inl e, s') | (Inr v, s') \<Rightarrow> f v s'))"
    by (auto split: sum.split intro: frame_trans)
qed

lemma framed_if: "framed a \<Longrightarrow> framed b \<Longrightarrow> framed (if c then a else b)" by simp
lemma framed_option: "framed a \<Longrightarrow> (\<And>x. framed (f x)) \<Longrightarrow> framed (case v of None \<Rightarrow> a | Some x \<Rightarrow> f x)"
  by (cases v) simp_all
lemma framed_prod: "(\<And>x y. framed (f x y)) \<Longrightarrow> framed (case v of (x, y) \<Rightarrow> f x y)" by (cases v) simp
lemma framed_sum: "(\<And>x. framed (f x)) \<Longrightarrow> (\<And>x. framed (g x)) \<Longrightarrow> framed (case v of Inl x \<Rightarrow> f x | Inr x \<Rightarrow> g x)"
  by (cases v) simp_all
lemma framed_gate:
  "(\<And>x. framed (f x)) \<Longrightarrow> (\<And>i r. framed (g i r)) \<Longrightarrow> framed (case v of Proceed x \<Rightarrow> f x | LeaseEnds i r \<Rightarrow> g i r)"
  by (cases v) simp_all
lemma framed_let: "(\<And>x. framed (f x)) \<Longrightarrow> framed (let x = v in f x)" by simp

lemmas framed_rules = framed_ok framed_fail framed_lift framed_with framed_bind framed_if framed_option framed_prod
  framed_sum framed_gate framed_let

text \<open>The primitive steps.\<close>

lemma get_lease_upd:
  "get_lease i (s\<lparr>bk_leases := (bk_leases s)[j := x]\<rparr>) = (if i = j \<and> j < length (bk_leases s) then x else get_lease i s)"
  by (simp add: get_lease_def)

lemma frame_leases:
  assumes "\<And>i. i < length (bk_leases s) \<Longrightarrow> slot_le {} (get_lease i s) (get_lease i s')" "length (bk_leases s') = length (bk_leases s)"
    "bk_ledgers s' = bk_ledgers s" "bk_failed s' = bk_failed s" "bk_shutting_down s' = bk_shutting_down s" "bk_entropy s' = bk_entropy s"
  shows "frame s s'"
  using assms by (simp add: frame_def broker_le_def sealed_def drawn_def)

lemma frame_put:
  assumes "slot_le {} (get_lease j s) x"
  shows "frame s (s\<lparr>bk_leases := (bk_leases s)[j := x]\<rparr>)"
  using assms by (intro frame_leases) (simp_all add: get_lease_upd)

lemma framed_upd_lease: "(\<And>l. lease_le {} l (f l)) \<Longrightarrow> framed (upd_lease i f)"
  unfolding upd_lease_def
proof (rule framed_upd)
  fix s assume "\<And>l. lease_le {} l (f l)"
  then have "slot_le {} (get_lease i s) (map_option f (get_lease i s))" by (cases "get_lease i s") simp_all
  then show "frame s (s\<lparr>bk_leases := (bk_leases s)[i := map_option f (get_lease i s)]\<rparr>)" by (rule frame_put)
qed

lemma framed_other:
  assumes "\<And>s. bk_leases (g s) = bk_leases s" "\<And>s. bk_ledgers (g s) = bk_ledgers s" "\<And>s. bk_failed (g s) = bk_failed s"
    "\<And>s. bk_shutting_down (g s) = bk_shutting_down s" "\<And>s. bk_entropy (g s) = bk_entropy s"
  shows "frame s (g s)"
  using assms by (intro frame_leases) (simp_all add: get_lease_def)

lemma framed_clock: "framed clock_now"
  unfolding framed_def clock_now_def
  by (auto simp: Let_def split: option.split intro!: frame_leases)

lemma framed_cancellation: "framed Cancellation_new"
  unfolding framed_def Cancellation_new_def by (auto intro!: frame_leases)

lemma framed_cancel_raw: "framed (cancel_raw raw)"
  unfolding cancel_raw_def by (rule framed_upd, rule frame_leases) (simp_all add: get_lease_def)

lemma framed_insert_failed: "framed (insert_failed key)"
  unfolding insert_failed_def
  by (rule framed_upd) (simp add: frame_def broker_le_def sealed_def drawn_def get_lease_def)

lemma frame_ledger:
  assumes "lo_accepting st = lo_accepting (bk_ledgers s ! i)"
  shows "frame s (s\<lparr>bk_ledgers := (bk_ledgers s)[i := st]\<rparr>)"
proof -
  have "lo_accepting ((bk_ledgers s)[i := st] ! j) = lo_accepting (bk_ledgers s ! j)" for j
    using assms by (cases "i < length (bk_ledgers s)"; cases "i = j") (simp_all add: list_update_beyond)
  then show ?thesis by (simp add: frame_def broker_le_def sealed_def drawn_def get_lease_def)
qed

lemma framed_enter: "framed (enter_ledger stage i c)"
  unfolding framed_def enter_ledger_def LeaseOperations_enter_def
  by (auto split: option.split if_splits intro!: frame_ledger)

lemma framed_leave: "framed (leave_ledger i k)"
  unfolding framed_def leave_ledger_def LeaseOperation_drop_def
  by (auto split: option.split if_splits intro!: frame_ledger)

lemma framed_guarded: "framed m \<Longrightarrow> framed (guarded i k m)"
  unfolding framed_def
proof (intro allI)
  fix s assume m: "\<forall>s. frame s (snd (m s))"
  obtain r s1 where r: "m s = (r, s1)" by fastforce
  with m have "frame s s1" by (metis snd_conv)
  moreover have "frame s1 (snd (leave_ledger i k s1))" using framed_leave by (auto simp: framed_def)
  ultimately show "frame s (snd (guarded i k m s))"
    using r by (auto simp: guarded_def split: sum.split intro: frame_trans)
qed

lemmas framed_steps = framed_clock framed_cancellation framed_cancel_raw framed_insert_failed framed_enter framed_leave
  framed_guarded framed_upd_lease


section \<open>Changes of one lease\<close>

lemma lease_le_same:
  assumes "hl_key l' = hl_key l" "hl_lease_id l' = hl_lease_id l" "hl_state l' = hl_state l" "hl_references l' = hl_references l"
  shows "lease_le {} l l'"
  using assms by (simp add: lease_le_def unspent_def)

lemma map_ref_fields [simp]:
  "hl_key (map_ref t f l) = hl_key l" "hl_lease_id (map_ref t f l) = hl_lease_id l" "hl_state (map_ref t f l) = hl_state l"
  "fmdom (hl_references (map_ref t f l)) = fmdom (hl_references l)"
  by (auto simp: map_ref_def split: option.split intro: fmdomI)

lemma map_host_session_fields [simp]:
  "hl_key (map_host_session i f l) = hl_key l" "hl_lease_id (map_host_session i f l) = hl_lease_id l"
  "hl_state (map_host_session i f l) = hl_state l" "hl_references (map_host_session i f l) = hl_references l"
  by (auto simp: map_host_session_def split: option.split)

text \<open>A change of a reference that does not make it usable again.\<close>

definition no_revival :: "(Reference \<Rightarrow> Reference) \<Rightarrow> bool" where
  "no_revival f \<longleftrightarrow> (\<forall>r. rf_state (f r) \<in> {RefPending, RefMinted} \<longrightarrow> rf_state r \<in> {RefPending, RefMinted})"

lemma no_revivals [simp]:
  "no_revival (\<lambda>r. r\<lparr>rf_state := RefRedeeming\<rparr>)" "no_revival (\<lambda>r. r\<lparr>rf_state := RefConsumed\<rparr>)"
  "no_revival (\<lambda>r. r\<lparr>rf_state := RefStale\<rparr>)" "no_revival (\<lambda>r. r\<lparr>rf_session_slot := x\<rparr>)"
  "no_revival (\<lambda>r. r\<lparr>rf_session_id := y\<rparr>)" "no_revival (\<lambda>r. r\<lparr>rf_expires := z\<rparr>)"
  by (simp_all add: no_revival_def)

lemma lease_le_map_ref: "no_revival f \<Longrightarrow> lease_le {} l (map_ref t f l)"
  by (auto simp: lease_le_def unspent_def map_ref_def no_revival_def split: option.split intro: fmdomI)

lemma lease_le_map_slot_refs: "no_revival f \<Longrightarrow> lease_le {} l (map_slot_refs i f l)"
  by (auto simp: lease_le_def unspent_def map_slot_refs_def no_revival_def)

lemma lease_le_map_session: "lease_le {} l (map_host_session i f l)" by (simp add: lease_le_same)

lemma lease_le_closing:
  assumes "hl_key l' = hl_key l" "hl_lease_id l' = hl_lease_id l" "hl_state l' = LeaseClosing"
    "hl_references l' = fmmap f (hl_references l)" "\<And>r. rf_state (f r) = RefStale"
  shows "lease_le {} l l'"
  using assms by (auto simp: lease_le_def unspent_def)

lemma lease_le_seal: "lease_le {} l (seal_lease reason expires l)"
  by (rule lease_le_closing [where f = "\<lambda>r. r\<lparr>rf_state := RefStale,
       rf_expires := (if rf_session_id r \<noteq> None then expires else rf_expires r)\<rparr>"]) (simp_all add: seal_lease_def)

lemma lease_le_seal_references: "lease_le {} l (seal_references l)"
  by (auto simp: lease_le_def unspent_def seal_references_def)

lemma lease_le_prune: "lease_le {} l (prune_lease current l)"
  by (auto simp: lease_le_def unspent_def prune_lease_def fmfilter_alt_defs split: if_splits)

lemma lease_le_reject:
  "lease_le {} l (l\<lparr>hl_state := (if hl_state l \<noteq> LeaseClosing then LeaseStale else hl_state l),
     hl_terminal_reason := x, hl_references := fmdrop t (hl_references l)\<rparr>)"
  by (cases "hl_state l") (auto simp: lease_le_def unspent_def)

lemma lease_le_commit:
  assumes "hl_state l = LeasePreparing" "fmlookup (hl_references l) t = Some r" "rf_state r = RefPending"
  shows "lease_le {} l (commit_lease p t completed expires l)"
  using assms by (auto simp: lease_le_def unspent_def commit_lease_def map_ref_def Let_def split: if_splits intro: fmdomI)

lemma lease_le_tombstone: "lease_le {} l (map_ref t (\<lambda>r. r\<lparr>rf_expires := x\<rparr>) (l\<lparr>hl_sessions := y\<rparr>))"
  by (rule lease_le_trans [OF lease_le_same lease_le_map_ref]) simp_all

lemmas lease_changes = lease_le_map_ref lease_le_map_slot_refs lease_le_map_session lease_le_seal lease_le_reject lease_le_tombstone


section \<open>The sections that draw nothing\<close>

lemma framed_refuse: "framed (refuse stage reason)" by (simp add: refuse_def framed_fail)
lemma framed_or_refuse: "framed (or_refuse r)" by (simp add: or_refuse_def framed_lift)
lemma framed_some_or: "framed (some_or stage reason x)" by (simp add: some_or_def framed_or_refuse)

lemma framed_with_lease: "(\<And>l. framed (f l)) \<Longrightarrow> framed (with_lease i f)"
  unfolding with_lease_def by (intro framed_rules)

lemma framed_index_lease: "(\<And>l. framed (f l)) \<Longrightarrow> framed (index_lease i f)"
  unfolding index_lease_def by (intro framed_rules)

lemma framed_gate_bind: "framed m \<Longrightarrow> (\<And>x. framed (f x)) \<Longrightarrow> framed (gate_bind m f)"
  unfolding gate_bind_def by (intro framed_rules)

lemma framed_gate_map: "framed m \<Longrightarrow> framed (gate_map f m)"
  unfolding gate_map_def by (intro framed_gate_bind framed_rules)

lemma framed_st_map: "framed m \<Longrightarrow> framed (st_map f m)"
  unfolding st_map_def by (intro framed_rules)

lemmas framed_intros = framed_refuse framed_or_refuse framed_some_or framed_with_lease framed_index_lease framed_gate_bind
  framed_gate_map framed_st_map framed_steps framed_rules

lemma get_lease_map: "get_lease i (s\<lparr>bk_stale_tokens := x, bk_leases := map (map_option f) (bk_leases s)\<rparr>) =
  map_option f (get_lease i s)"
  by (simp add: get_lease_def)

lemma framed_prune: "framed (prune current)"
  unfolding prune_def
proof (rule framed_upd)
  fix s :: "('h, 't) broker"
  have "slot_le {} (get_lease i s) (map_option (prune_lease current) (get_lease i s))" for i
    by (cases "get_lease i s") (simp_all add: lease_le_prune)
  then show "frame s (s\<lparr>bk_stale_tokens := fmfilter (\<lambda>token. case fmlookup (bk_stale_tokens s) token of
      None \<Rightarrow> False | Some expires \<Rightarrow> current < expires) (bk_stale_tokens s),
      bk_leases := map (map_option (prune_lease current)) (bk_leases s)\<rparr>)"
    by (intro frame_leases) (simp_all add: get_lease_map)
qed

lemma framed_admit: "framed (admit d)"
  unfolding admit_def by (intro framed_intros framed_prune)

lemma framed_maintain: "framed maintain_begin"
  unfolding maintain_begin_def by (intro framed_intros framed_prune)

lemma framed_commit_begin: "framed (commit_begin r p)"
  unfolding commit_begin_def by (intro framed_intros)

text \<open>A change that depends on what the section found in the lease.\<close>

lemma framed_with_at: "(\<And>s. frame s (snd (f s s))) \<Longrightarrow> framed (st_with f)" by (simp add: framed_def st_simps)

lemma frame_change:
  assumes "get_lease i s = Some l" "lease_le {} l (g l)" "framed m"
  shows "frame s (snd (st_bind (upd_lease i g) (\<lambda>_. m) s))"
proof -
  let ?s = "s\<lparr>bk_leases := (bk_leases s)[i := Some (g l)]\<rparr>"
  have "frame s ?s" using assms by (intro frame_put) simp
  moreover have "frame ?s (snd (m ?s))" using assms by (simp add: framed_def)
  ultimately show ?thesis using assms by (simp add: st_simps upd_lease_def frame_trans)
qed

lemma framed_commit_finish: "framed (commit_finish r p)"
  unfolding commit_finish_def
  by (intro framed_bind framed_clock framed_option framed_ok framed_or_refuse framed_with_at)
    (auto split: option.split simp: framed_def [THEN iffD1, OF framed_ok, rule_format]
      intro!: frame_change lease_le_commit framed_bind framed_leave framed_ok)


lemma framed_discard_mark: "framed (discard_mark r failed)"
  unfolding discard_mark_def by (intro framed_intros lease_le_same) simp_all

lemma framed_reject: "framed (reject_with_cleanup r reason failed)"
  unfolding reject_with_cleanup_def by (intro framed_intros lease_changes)

lemma frame_slot: "frame s (case get_lease i s of None \<Rightarrow> s | Some l \<Rightarrow>
    if P l then s\<lparr>bk_leases := (bk_leases s)[i := None]\<rparr> else s\<lparr>bk_leases := (bk_leases s)[i := Some (g l)]\<rparr>)"
  if "\<And>l. lease_le {} l (g l)"
proof (cases "get_lease i s")
  case (Some l)
  have "slot_le {} (get_lease i s) None" "slot_le {} (get_lease i s) (Some (g l))" using that Some by simp_all
  with Some show ?thesis by (auto intro: frame_put)
qed simp

lemma framed_reap_late: "framed (reap_late_launch i key failed)"
  unfolding reap_late_launch_def
  by (intro framed_bind framed_upd frame_slot lease_le_seal_references framed_if framed_insert_failed framed_ok)

lemma framed_locate: "framed (locate_lease stage token current)"
  unfolding locate_lease_def by (intro framed_intros)

lemma framed_open_redeem: "framed (open_redeem i t d c k)"
  unfolding open_redeem_def by (intro framed_intros lease_changes no_revivals) (simp_all add: lease_le_same)

lemma framed_open_begin: "framed (open_begin sha d body)"
  unfolding open_begin_def open_resume_def open_reserve_def
  by (intro framed_intros framed_locate framed_open_redeem lease_le_same) simp_all

lemma framed_stale_reference: "framed (stale_reference i t)"
  unfolding stale_reference_def by (intro framed_intros lease_changes no_revivals)

lemma framed_open_record: "framed (open_record sha i t slot raw opened)"
  unfolding open_record_def by (intro framed_intros lease_changes no_revivals) (simp_all add: lease_le_same)

lemma framed_open_commit: "framed (open_commit sha r t out)"
  unfolding open_commit_def by (intro framed_intros framed_stale_reference framed_open_record)

lemma framed_claim: "(\<And>slot x k. framed (f slot x k)) \<Longrightarrow> framed (claim_session stage i t sid g e f)"
  unfolding claim_session_def by (intro framed_intros lease_changes no_revivals)

lemma framed_exchange_reserve: "framed (exchange_reserve sha d body)"
  unfolding exchange_reserve_def by (intro framed_intros framed_locate framed_claim lease_changes)

lemma framed_exchange_record: "framed (exchange_record sha r body crypto reader message)"
  unfolding exchange_record_def by (intro framed_intros lease_le_same) simp_all

lemma framed_exchange_commit: "framed (exchange_commit sha r body crypto reader out)"
  unfolding exchange_commit_def by (intro framed_intros framed_exchange_record lease_changes no_revivals)

lemma framed_close_session_reserve: "framed (close_session_reserve d body)"
  unfolding close_session_reserve_def by (intro framed_intros framed_locate framed_claim lease_changes)

lemma framed_close_session_commit: "framed (close_session_commit r body out)"
  unfolding close_session_commit_def by (intro framed_intros lease_changes no_revivals)

lemma framed_close_lease_find: "framed (close_lease_find body)"
  unfolding close_lease_find_def by (intro framed_intros)

lemma framed_terminalize_timeout: "framed (terminalize_timeout key)"
  unfolding terminalize_timeout_def by (intro framed_intros)

lemma framed_reap_begin: "framed (reap_begin_step i key)"
  unfolding framed_def reap_begin_step_def reap_begin_def
  by (auto split: option.split intro!: frame_put lease_le_same)

lemma framed_reap_finish: "framed (reap_finish i key tokens result)"
proof -
  have tokens: "framed (st_upd (\<lambda>s. s\<lparr>bk_stale_tokens := bk_stale_tokens s ++\<^sub>f tokens\<rparr>))"
    by (intro framed_upd framed_other) simp_all
  have drop: "framed (st_upd (\<lambda>s. case get_lease i s of None \<Rightarrow> s
      | Some l \<Rightarrow> if hl_key l = key \<and> hl_state l = LeaseClosing then s\<lparr>bk_leases := (bk_leases s)[i := None]\<rparr> else s))"
    by (rule framed_upd) (auto split: option.split intro!: frame_put)
  have ledger: "framed (st_upd (\<lambda>s. s\<lparr>bk_ledgers := (bk_ledgers s)[i := LeaseOperations_finish_close result (bk_ledgers s ! i)]\<rparr>))"
    by (intro framed_upd frame_ledger) (simp add: LeaseOperations_finish_close_def)
  show ?thesis
    unfolding reap_finish_def by (intro framed_bind framed_if framed_insert_failed framed_ok tokens drop ledger)
qed

lemma framed_expire_session: "framed (expire_session_begin i slot)"
  unfolding expire_session_begin_def by (intro framed_intros lease_changes)

lemma framed_expire_session_finish: "framed (expire_session_finish i slot sid raw)"
  unfolding expire_session_finish_def
  by (intro framed_intros lease_changes no_revivals) (simp_all add: lease_le_same)

lemma framed_probes: "framed (heartbeat_find i)" "framed (ready_probe_enter i d)" "framed (ready_probe_drop i)"
  unfolding heartbeat_find_def ready_probe_enter_def ready_probe_drop_def
  by (intro framed_intros framed_upd framed_other; simp)+

lemma framed_heartbeat: "framed (heartbeat_begin i d)"
  unfolding heartbeat_begin_def by (intro framed_intros lease_le_same) simp_all

lemma framed_heartbeat_outcomes:
  "framed (heartbeat_failed i crypto reader e)" "framed (heartbeat_answered_ok i n crypto reader)"
  "framed (heartbeat_missed i d crypto reader)"
  unfolding heartbeat_failed_def heartbeat_answered_ok_def heartbeat_missed_def
  by (intro framed_intros lease_le_same; simp add: return_control_def)+


section \<open>An abstract broker\<close>

text \<open>The changes of the state that matter to its owner: housekeeping within the frame, a draw from the
  generator, a new lease for a selection that has none with one freshly drawn token, another token for a
  lease, the closing of a lease together with its ledger, and the shutdown.\<close>

definition unused :: "SelectionKey \<Rightarrow> ('h, 't) broker \<Rightarrow> bool" where
  "unused k s \<longleftrightarrow> (\<forall>l. Some l \<in> set (bk_leases s) \<longrightarrow> PrepareKey_selection (hl_key l) \<noteq> k)"

inductive change :: "('h, 't) broker \<Rightarrow> ('h, 't) broker \<Rightarrow> bool" where
  keep: "frame s s' \<Longrightarrow> change s s'"
| draw: "bk_entropy s = pre @ e \<Longrightarrow> change s (s\<lparr>bk_entropy := e\<rparr>)"
| launch: "bk_entropy s = pre @ e \<Longrightarrow> Some t \<in> set pre \<Longrightarrow> unused (PrepareKey_selection (hl_key l)) s \<Longrightarrow>
    \<not> bk_shutting_down s \<Longrightarrow> PrepareKey_selection (hl_key l) |\<notin>| fmdom (bk_failed s) \<Longrightarrow>
    fmdom (hl_references l) = {|t|} \<Longrightarrow>
    change s (s\<lparr>bk_entropy := e, bk_leases := bk_leases s @ [Some l], bk_ledgers := bk_ledgers s @ [LeaseOperations_new],
      bk_probes := bk_probes s @ [False]\<rparr>)"
| remint: "bk_entropy s = pre @ e \<Longrightarrow> Some t \<in> set pre \<Longrightarrow> get_lease i s = Some l \<Longrightarrow>
    change s (s\<lparr>bk_entropy := e, bk_leases := (bk_leases s)[i := Some (l\<lparr>hl_references := fmupd t r (hl_references l)\<rparr>)]\<rparr>)"
| close: "get_lease i s = Some l \<Longrightarrow> lease_le {} l l' \<Longrightarrow> hl_state l' = LeaseClosing \<Longrightarrow> \<not> lo_accepting st \<Longrightarrow>
    change s (s\<lparr>bk_ledgers := (bk_ledgers s)[i := st], bk_leases := (bk_leases s)[i := Some l']\<rparr>)"
| stop: "change s (s\<lparr>bk_shutting_down := True\<rparr>)"

abbreviation changes :: "('h, 't) broker \<Rightarrow> ('h, 't) broker \<Rightarrow> bool" where
  "changes \<equiv> change\<^sup>*\<^sup>*"

lemma changes_keep: "frame s s' \<Longrightarrow> changes s s'" by (blast intro: change.keep)

lemma changes_framed: "framed m \<Longrightarrow> changes s (snd (m s))" by (simp add: framed_def changes_keep)

text \<open>A section as a sequence of such changes.\<close>

definition changing :: "('h, 't, 'a) brk \<Rightarrow> bool" where
  "changing m \<longleftrightarrow> (\<forall>s. changes s (snd (m s)))"

lemma changing_framed: "framed m \<Longrightarrow> changing m" by (simp add: changing_def changes_framed)

lemma changes_bind:
  assumes "changes s (snd (m s))" "\<And>v s'. m s = (Inr v, s') \<Longrightarrow> changes s' (snd (f v s'))"
  shows "changes s (snd (st_bind m f s))"
  using assms by (auto simp: st_simps split: prod.splits sum.splits intro: rtranclp_trans)

lemma changing_bind: "changing m \<Longrightarrow> (\<And>v. changing (f v)) \<Longrightarrow> changing (st_bind m f)"
  by (simp add: changing_def changes_bind)

lemma changing_st_map: "changing m \<Longrightarrow> changing (st_map f m)"
  unfolding st_map_def by (rule changing_bind) (simp_all add: changing_framed framed_ok)

text \<open>Drawing.\<close>

lemma random_draws_state:
  "\<exists>e pre. snd (random_draws k n s) = s\<lparr>bk_entropy := e\<rparr> \<and> bk_entropy s = pre @ e \<and>
     (\<forall>t. fst (random_draws k n s) = Inr t \<longrightarrow> Some t \<in> set pre)"
proof (induction k arbitrary: s)
  case 0
  show ?case by (rule exI [of _ "bk_entropy s"]) simp
next
  case (Suc k)
  show ?case
  proof (cases "bk_entropy s")
    case Nil
    then show ?thesis by (intro exI [of _ "[]"]) simp
  next
    case (Cons x rest)
    obtain e pre where e: "snd (random_draws k n (s\<lparr>bk_entropy := rest\<rparr>)) = s\<lparr>bk_entropy := e\<rparr>" "rest = pre @ e"
        "\<forall>t. fst (random_draws k n (s\<lparr>bk_entropy := rest\<rparr>)) = Inr t \<longrightarrow> Some t \<in> set pre"
      using Suc [of "s\<lparr>bk_entropy := rest\<rparr>"] by auto
    show ?thesis
    proof (cases "x = Some (replicate n 0)")
      case True
      with Cons e show ?thesis by (intro exI [of _ e] exI [of _ "x # pre"]) auto
    next
      case False
      with Cons show ?thesis by (intro exI [of _ rest] exI [of _ "[x]"]) (auto split: option.split)
    qed
  qed
qed

lemma random_bytes_drawn:
  assumes "random_bytes n s = (r, s')"
  obtains e pre where "s' = s\<lparr>bk_entropy := e\<rparr>" "bk_entropy s = pre @ e" "\<And>t. r = Inr t \<Longrightarrow> Some t \<in> set pre"
  using random_draws_state [of 8 n s] assms unfolding random_bytes_def by auto

text \<open>Minting.\<close>

lemma changing_mint: "changing (mint i now)"
  unfolding changing_def
proof
  fix s :: "('h, 't) broker"
  obtain r s' where r: "random_bytes 32 s = (r, s')" by fastforce
  then obtain e pre where e: "s' = s\<lparr>bk_entropy := e\<rparr>" "bk_entropy s = pre @ e" "\<And>t. r = Inr t \<Longrightarrow> Some t \<in> set pre"
    by (blast elim: random_bytes_drawn)
  have drawn: "changes s s'" using e by (auto intro: change.draw)
  show "changes s (snd (mint i now s))"
  proof (cases "\<exists>t expires l. r = Inr t \<and> reference_expires now = Inr expires \<and> get_lease i s = Some l")
    case True
    then obtain t expires l where t: "r = Inr t" "reference_expires now = Inr expires" "get_lease i s = Some l" by blast
    have "snd (mint i now s) = s\<lparr>bk_entropy := e,
        bk_leases := (bk_leases s)[i := Some (l\<lparr>hl_references := fmupd t (new_reference RefMinted now expires) (hl_references l)\<rparr>)]\<rparr>"
      using t e r by (auto simp: mint_def st_simps or_refuse_def map_err_def index_lease_def upd_lease_def get_lease_def split: if_splits)
    with t e show ?thesis by (auto intro!: r_into_rtranclp change.remint)
  next
    case False
    then have "snd (mint i now s) = s'"
      using e r by (auto simp: mint_def st_simps or_refuse_def map_err_def index_lease_def refuse_def get_lease_def
        split: sum.split option.split if_splits)
    with drawn show ?thesis by simp
  qed
qed

lemma changing_with: "(\<And>s. changing (f s)) \<Longrightarrow> changing (st_with f)" by (simp add: changing_def st_simps)
lemma changing_if: "changing a \<Longrightarrow> changing b \<Longrightarrow> changing (if c then a else b)" by simp
lemma changing_option: "changing a \<Longrightarrow> (\<And>x. changing (f x)) \<Longrightarrow> changing (case v of None \<Rightarrow> a | Some x \<Rightarrow> f x)"
  by (cases v) simp_all

lemma changing_reuse: "changing (prepare_reuse i key d)"
  unfolding prepare_reuse_def
  by (intro changing_bind changing_with changing_if changing_option changing_mint)
    (simp_all add: changing_framed framed_clock framed_refuse framed_ok)

text \<open>Closing.\<close>

lemma changes_own:
  assumes "get_lease i s = Some l" "\<not> lo_accepting st"
  shows "changes s (snd (terminalize_own i reason expires c st l s))"
proof -
  let ?s = "s\<lparr>bk_cancelled := bk_cancelled s |\<union>| c, bk_raw_cancelled := bk_raw_cancelled s |\<union>| lease_streams l\<rparr>"
  have "change s ?s" by (intro change.keep frame_leases) simp_all
  moreover have "change ?s (?s\<lparr>bk_ledgers := (bk_ledgers ?s)[i := st], bk_leases := (bk_leases ?s)[i := Some (seal_lease reason expires l)]\<rparr>)"
    using assms by (intro change.close [of _ _ l]) (simp_all add: lease_le_seal, simp add: seal_lease_def)
  ultimately show ?thesis by (simp add: terminalize_own_def st_simps)
qed

lemma changing_at: "(\<And>s. changes s (snd (f s s))) \<Longrightarrow> changing (st_with f)" by (simp add: changing_def st_simps)

lemma changing_terminalize: "changing (terminalize_begin i reason)"
  unfolding terminalize_begin_def LeaseOperations_begin_close_def
  by (intro changing_bind changing_at)
    (simp_all add: changing_framed framed_clock framed_or_refuse changes_framed framed_refuse framed_ok changes_own split: option.split)

text \<open>Launching.\<close>

lemma changes_push:
  assumes "bk_entropy s = pre @ e" "Some t \<in> set pre" "unused (PrepareKey_selection key) s" "\<not> bk_shutting_down s"
    "PrepareKey_selection key |\<notin>| fmdom (bk_failed s)"
  shows "changes s (snd (push_lease (new_lease key lease_id t deadline started) (s\<lparr>bk_entropy := e\<rparr>)))"
  using assms by (auto simp: push_lease_def new_lease_def intro!: r_into_rtranclp change.launch)

lemma changes_then:
  assumes m: "changes s (snd (m s'))" and f: "\<And>v. framed (f v)"
  shows "changes s (snd (st_bind m f s'))"
proof (cases "m s'")
  case (Pair r s1)
  have "changes s1 (snd (f v s1))" for v using f by (rule changes_framed)
  with m Pair show ?thesis by (auto simp: st_bind_apply split: sum.split intro: rtranclp_trans)
qed

lemma changes_prepare_launch:
  assumes sel: "unused (PrepareKey_selection key) s" "\<not> bk_shutting_down s" "PrepareKey_selection key |\<notin>| fmdom (bk_failed s)"
  shows "changes s (snd (prepare_launch rd keypair secret key cancel started deadline launch s))"
proof -
  obtain r1 s1 where r1: "random_bytes 32 s = (r1, s1)" by fastforce
  obtain r2 s2 where r2: "random_bytes 16 s1 = (r2, s2)" by fastforce
  obtain r3 s3 where r3: "random_bytes 32 s2 = (r3, s3)" by fastforce
  obtain e1 p1 where e1: "s1 = s\<lparr>bk_entropy := e1\<rparr>" "bk_entropy s = p1 @ e1" "\<And>t. r1 = Inr t \<Longrightarrow> Some t \<in> set p1"
    using r1 by (blast elim: random_bytes_drawn)
  obtain e2 p2 where e2: "s2 = s1\<lparr>bk_entropy := e2\<rparr>" "bk_entropy s1 = p2 @ e2" using r2 by (blast elim: random_bytes_drawn)
  obtain e3 p3 where e3: "s3 = s2\<lparr>bk_entropy := e3\<rparr>" "bk_entropy s2 = p3 @ e3" using r3 by (blast elim: random_bytes_drawn)
  have c: "changes s s1" "changes s s2" "changes s s3"
  proof -
    have "change s s1" "change s1 s2" "change s2 s3" using e1 e2 e3 by (blast intro: change.draw)+
    then show "changes s s1" "changes s s2" "changes s s3" by (blast intro: rtranclp.rtrancl_into_rtrancl)+
  qed
  have push: "changes s (snd (push_lease (new_lease key lease_id t deadline started) s3))" if "r1 = Inr t" for t lease_id
    using changes_push [of s "p1 @ p2 @ p3" e3 t key] that sel e1 e2 e3 by auto
  have enter: "framed (st_bind (enter_ledger AtPrepare index cancel) (\<lambda>k. st_ok (g k)))" for index g
    by (intro framed_bind framed_enter framed_ok)
  show ?thesis
    using r1 r2 r3 c
    by (cases r1; cases r2; cases r3; cases keypair; cases secret)
      (auto simp: prepare_launch_def or_refuse_def map_err_def st_lift_apply st_bind_apply [of "random_bytes _"]
         st_bind_apply [of "st_lift _"] intro!: changes_then [where m = "push_lease l" for l] push enter)
qed

lemma unusedI:
  assumes digest: "\<not> list_ex (\<lambda>l. case l of None \<Rightarrow> False
        | Some l \<Rightarrow> PrepareKey_selection (hl_key l) = PrepareKey_selection key \<and> pk_digest (hl_key l) \<noteq> pk_digest key) (bk_leases s)"
    and free: "\<And>l. Some l \<in> set (bk_leases s) \<Longrightarrow> hl_key l \<noteq> key"
  shows "unused (PrepareKey_selection key) s"
  unfolding unused_def
proof (intro allI impI notI)
  fix l assume l: "Some l \<in> set (bk_leases s)" and same: "PrepareKey_selection (hl_key l) = PrepareKey_selection key"
  with digest have "pk_digest (hl_key l) = pk_digest key" by (auto simp: list_ex_iff)
  with same have "hl_key l = key" by (simp add: PrepareKey_selection_def)
  with free [OF l] show False by simp
qed

lemma position_None: "position P xs = None \<longleftrightarrow> (\<forall>x \<in> set xs. \<not> P x)"
  by (induction xs) auto

lemma no_lease_with_key:
  assumes "position (has_key key (\<lambda>st. st = LeaseReady)) ls = None"
    "\<not> (\<exists>l. List.find (has_key key (\<lambda>st. st \<noteq> LeaseReady)) ls = Some (Some l))" "Some l \<in> set ls"
  shows "hl_key l \<noteq> key"
proof
  assume key: "hl_key l = key"
  with assms(1,3) have "has_key key (\<lambda>st. st \<noteq> LeaseReady) (Some l)" by (auto simp: has_key_def position_None)
  with assms(3) obtain x where "List.find (has_key key (\<lambda>st. st \<noteq> LeaseReady)) ls = Some x"
    by (cases "List.find (has_key key (\<lambda>st. st \<noteq> LeaseReady)) ls") (auto simp: find_None_iff)
  moreover from this have "x \<noteq> None" by (auto simp: find_Some_iff has_key_def split: option.splits)
  ultimately show False using assms(2) by auto
qed

lemma changing_prepare: "changing (prepare_begin rd keypair secret d body)"
proof -
  have seal: "framed (upd_lease i (\<lambda>l. seal_references (l\<lparr>hl_state := LeaseClosing, hl_terminal_reason := Some reason\<rparr>)))" for i reason
    by (intro framed_upd_lease lease_le_closing [where f = "\<lambda>r. r\<lparr>rf_state := RefStale\<rparr>"]) (simp_all add: seal_references_def)
  have reuse: "framed (with_lease i (\<lambda>l. case lease_ends started l of
      Some reason \<Rightarrow> st_bind (upd_lease i (\<lambda>l. seal_references (l\<lparr>hl_state := LeaseClosing, hl_terminal_reason := Some reason\<rparr>)))
        (\<lambda>_. st_ok (LeaseEnds i reason)) | None \<Rightarrow> st_ok (Proceed (RouteReuse i))))" for i started
    by (intro framed_intros seal)
  show ?thesis
    unfolding prepare_begin_def
    by (intro changing_bind changing_at,
      auto simp: changing_framed framed_clock framed_or_refuse framed_cancellation Let_def
        split: option.split prod.split
        intro!: changes_framed [OF framed_refuse] changes_framed [OF reuse] changes_then [where m = "prepare_launch a b c d e f g h" for a b c d e f g h]
          changes_prepare_launch framed_ok unusedI,
      auto simp: fmdom_notI dest: no_lease_with_key)
qed


lemma changing_shutdown: "changing shutdown_begin"
  unfolding changing_def shutdown_begin_def by (auto intro: change.stop)

lemmas framed_sections = framed_admit framed_commit_begin framed_commit_finish framed_discard_mark framed_reject framed_reap_late
  framed_open_begin framed_open_commit framed_exchange_reserve framed_exchange_commit framed_close_session_reserve
  framed_close_session_commit framed_close_lease_find framed_terminalize_timeout framed_reap_begin framed_reap_finish
  framed_maintain framed_expire_session framed_expire_session_finish framed_probes framed_heartbeat framed_heartbeat_outcomes
  framed_leave

lemma broker_op_changing: "changing (broker_op rd sha a)"
  by (cases a) (simp_all add: changing_st_map changing_framed framed_sections changing_prepare changing_reuse changing_terminalize
    changing_shutdown)

section \<open>Runs\<close>

text \<open>A run performs sections one after the other and keeps their answers.\<close>

fun broker_run :: "(bytes \<Rightarrow> bytes) \<Rightarrow> (bytes \<Rightarrow> bytes) \<Rightarrow> ('h, 't) act list \<Rightarrow> ('h, 't) broker \<Rightarrow>
    (stop + ('h, 't) broker_answer) list \<times> ('h, 't) broker" where
  "broker_run rd sha [] s = ([], s)"
| "broker_run rd sha (a # as) s =
     (let (r, s') = broker_op rd sha a s; (rs, s'') = broker_run rd sha as s' in (r # rs, s''))"

lemma broker_run_changes: "changes s (snd (broker_run rd sha as s))"
proof (induction "as" arbitrary: s)
  case (Cons a "as")
  obtain r s' where r: "broker_op rd sha a s = (r, s')" by fastforce
  then have "changes s s'" using broker_op_changing [of rd sha a] by (metis changing_def snd_conv)
  with Cons [of s'] r show ?case by (auto simp: Let_def split: prod.split intro: rtranclp_trans)
qed simp

lemma broker_run_append:
  "broker_run rd sha (as @ bs) s =
     (let (rs, s') = broker_run rd sha as s; (rs', s'') = broker_run rd sha bs s' in (rs @ rs', s''))"
  by (induction "as" arbitrary: s) (simp_all add: Let_def split: prod.split)

section \<open>What every change keeps\<close>

lemma get_lease_at:
  assumes "get_lease i s = Some l"
  shows "get_lease j (s\<lparr>bk_entropy := e, bk_leases := (bk_leases s)[i := x]\<rparr>) = (if j = i then x else get_lease j s)"
    "get_lease j (s\<lparr>bk_ledgers := g, bk_leases := (bk_leases s)[i := x]\<rparr>) = (if j = i then x else get_lease j s)"
  using assms by (auto simp: get_lease_def split: if_splits)

lemma change_follows: "change s s' \<Longrightarrow> broker_le (drawn s) s s'"
proof (induction rule: change.induct)
  case (keep s s')
  then show ?case by (auto simp: frame_def intro: broker_le_mono)
next
  case (draw s pre e)
  then show ?case by (auto simp: broker_le_def sealed_def drawn_def)
next
  case (launch s pre e t l)
  then have "t \<in> drawn s" by (auto simp: drawn_def)
  with launch show ?case
    by (auto simp: broker_le_def sealed_def drawn_def get_lease_def nth_append)
next
  case (remint s pre e t i l r)
  then have "t \<in> drawn s" by (auto simp: drawn_def)
  then have "lease_le (drawn s) l (l\<lparr>hl_references := fmupd t r (hl_references l)\<rparr>)"
    by (auto simp: lease_le_def unspent_def)
  with remint show ?case
    by (auto simp: broker_le_def sealed_def get_lease_at [OF remint(3)] drawn_def)
next
  case (close i s l l' st)
  then have "lease_le (drawn s) l l'" by (auto intro: lease_le_trans [OF lease_le_refl])
  moreover have "\<not> lo_accepting (bk_ledgers s ! j) \<Longrightarrow> \<not> lo_accepting ((bk_ledgers s)[i := st] ! j)" for j
    using close by (cases "i < length (bk_ledgers s)"; cases "i = j") (simp_all add: list_update_beyond)
  ultimately show ?case
    using close by (auto simp: broker_le_def sealed_def get_lease_at [OF close(1)] drawn_def)
next
  case (stop s)
  then show ?case by (auto simp: broker_le_def sealed_def drawn_def)
qed


lemma changes_follow: "changes s s' \<Longrightarrow> broker_le (drawn s) s s'"
proof (induction rule: rtranclp_induct)
  case (step s' s'')
  then have "drawn s' \<subseteq> drawn s" by (simp add: broker_le_def)
  with step change_follows [of s' s''] show ?case by (auto intro: broker_le_trans)
qed simp

text \<open>Each selection has at most one live lease, and the ledger of a live lease is closed only when the lease
  is closing.\<close>

definition broker_ok :: "('h, 't) broker \<Rightarrow> bool" where
  "broker_ok s \<longleftrightarrow> length (bk_ledgers s) = length (bk_leases s) \<and>
     (\<forall>i j l m. i \<noteq> j \<longrightarrow> get_lease i s = Some l \<longrightarrow> get_lease j s = Some m \<longrightarrow>
       PrepareKey_selection (hl_key l) \<noteq> PrepareKey_selection (hl_key m)) \<and>
     (\<forall>i l. sealed i s \<longrightarrow> get_lease i s = Some l \<longrightarrow> hl_state l = LeaseClosing)"

lemma get_lease_Some: "get_lease i s = Some l \<Longrightarrow> i < length (bk_leases s) \<and> Some l \<in> set (bk_leases s)"
  by (auto simp: get_lease_def split: if_splits) (metis nth_mem)

lemma broker_le_lease:
  assumes "broker_le D s s'" "get_lease i s' = Some l'" "i < length (bk_leases s)"
  obtains l where "get_lease i s = Some l" "lease_le D l l'"
proof -
  from assms have "slot_le D (get_lease i s) (Some l')" by (metis broker_le_def)
  with that show thesis by (cases "get_lease i s") simp_all
qed

text \<open>Every change but a launch leads to a state with the same slots.\<close>

lemma change_slots:
  assumes "change s s'"
  shows "(length (bk_leases s') = length (bk_leases s) \<and> length (bk_ledgers s') = length (bk_ledgers s)) \<or>
    (\<exists>l. bk_leases s' = bk_leases s @ [Some l] \<and> bk_ledgers s' = bk_ledgers s @ [LeaseOperations_new] \<and>
       unused (PrepareKey_selection (hl_key l)) s)"
  using assms by (induction rule: change.induct) (auto simp: frame_def)

lemma change_seals:
  assumes "change s s'" "sealed i s'" "get_lease i s' = Some l" "length (bk_leases s) = length (bk_ledgers s)"
  shows "sealed i s \<or> hl_state l = LeaseClosing"
  using assms(1)
proof cases
  case keep
  with assms show ?thesis by (simp add: frame_def)
next
  case (launch pre e t m)
  with assms show ?thesis by (auto simp: sealed_def get_lease_def nth_append LeaseOperations_new_def split: if_splits)
next
  case (close j m m' st)
  with assms show ?thesis by (cases "i = j") (auto simp: get_lease_at sealed_def)
qed (use assms in \<open>simp_all add: sealed_def\<close>)

lemma change_old_lease:
  assumes "change s s'" "get_lease i s' = Some l" "i < length (bk_leases s)"
  obtains m where "get_lease i s = Some m" "hl_key m = hl_key l" "state_rank (hl_state m) \<le> state_rank (hl_state l)"
proof -
  from change_follows [OF assms(1)] assms(2,3) obtain m where "get_lease i s = Some m" "lease_le (drawn s) m l"
    by (rule broker_le_lease)
  then show thesis by (intro that [of m]) (simp_all add: lease_le_def)
qed

lemma change_keeps_seals:
  assumes c: "change s s'" and ok: "broker_ok s" and l: "sealed i s'" "get_lease i s' = Some l"
  shows "hl_state l = LeaseClosing"
proof (rule ccontr)
  assume open_l: "hl_state l \<noteq> LeaseClosing"
  from ok have len: "length (bk_leases s) = length (bk_ledgers s)" by (simp add: broker_ok_def)
  with change_seals [OF c l] open_l have s: "sealed i s" by blast
  show False
  proof (cases "i < length (bk_leases s)")
    case True
    with c l obtain m where m: "get_lease i s = Some m" "state_rank (hl_state m) \<le> state_rank (hl_state l)"
      by (blast elim: change_old_lease)
    from ok s m(1) have "hl_state m = LeaseClosing" by (simp add: broker_ok_def)
    with m(2) open_l show False by simp
  next
    case False
    with change_slots [OF c] l len show False
      by (auto simp: get_lease_def sealed_def nth_append LeaseOperations_new_def split: if_splits)
  qed
qed

text \<open>The keys of live leases: all old, or old ones and one for a selection that was not in use.\<close>

lemma change_keys:
  assumes c: "change s s'" and l: "get_lease i s' = Some l"
  shows "(\<exists>m. get_lease i s = Some m \<and> hl_key m = hl_key l) \<or>
    (i = length (bk_leases s) \<and> unused (PrepareKey_selection (hl_key l)) s)"
proof (cases "i < length (bk_leases s)")
  case True
  with c l show ?thesis by (blast elim: change_old_lease)
next
  case False
  with change_slots [OF c] l show ?thesis by (auto simp: get_lease_def nth_append split: if_splits)
qed

lemma unused_lease: "unused k s \<Longrightarrow> get_lease i s = Some l \<Longrightarrow> PrepareKey_selection (hl_key l) \<noteq> k"
  using get_lease_Some unfolding unused_def by blast

lemma change_ok:
  assumes c: "change s s'" and ok: "broker_ok s"
  shows "broker_ok s'"
proof -
  have "PrepareKey_selection (hl_key l) \<noteq> PrepareKey_selection (hl_key m)"
    if lm: "i \<noteq> j" "get_lease i s' = Some l" "get_lease j s' = Some m" for i j l m
    using change_keys [OF c lm(2)] change_keys [OF c lm(3)] lm(1) ok unfolding broker_ok_def
    by (metis unused_lease)
  then show ?thesis
    using change_slots [OF c] change_keeps_seals [OF c ok] ok unfolding broker_ok_def by auto
qed

lemma changes_ok: "changes s s' \<Longrightarrow> broker_ok s \<Longrightarrow> broker_ok s'"
  by (induction rule: rtranclp_induct) (auto intro: change_ok)

lemma new_ok: "broker_ok (SessionBroker_new entropy clock)"
  by (simp add: broker_ok_def SessionBroker_new_def get_lease_def)

lemma run_ok: "broker_ok s \<Longrightarrow> broker_ok (snd (broker_run rd sha as s))"
  by (rule changes_ok [OF broker_run_changes])

section \<open>Tokens\<close>

text \<open>When the generator never repeats a value, a token belongs to one lease at most, and none is drawn again.\<close>

definition slot_tokens :: "nat \<Rightarrow> ('h, 't) broker \<Rightarrow> bytes set" where
  "slot_tokens i s = (case get_lease i s of None \<Rightarrow> {} | Some l \<Rightarrow> fset (fmdom (hl_references l)))"

definition tokens_ok :: "('h, 't) broker \<Rightarrow> bool" where
  "tokens_ok s \<longleftrightarrow> distinct (filter (\<lambda>x. x \<noteq> None) (bk_entropy s)) \<and>
     (\<forall>i. slot_tokens i s \<inter> drawn s = {}) \<and>
     (\<forall>i j. i \<noteq> j \<longrightarrow> slot_tokens i s \<inter> slot_tokens j s = {})"

text \<open>At most one slot gets new tokens, and they were drawn in between.\<close>

lemma tokens_okI:
  assumes ok: "tokens_ok s" and e: "bk_entropy s = pre @ bk_entropy s'" and T: "\<And>t. t \<in> T \<Longrightarrow> Some t \<in> set pre"
    and sub: "\<And>i. slot_tokens i s' \<subseteq> slot_tokens i s \<union> (if i = k then T else {})"
  shows "tokens_ok s'"
proof -
  have d: "distinct (filter (\<lambda>x. x \<noteq> None) (pre @ bk_entropy s'))" using ok e by (simp add: tokens_ok_def)
  have new: "T \<inter> drawn s' = {}" using d T by (auto simp: drawn_def)
  have old: "T \<subseteq> drawn s" "drawn s' \<subseteq> drawn s" using T e by (auto simp: drawn_def)
  have own: "slot_tokens i s \<inter> drawn s = {}" for i using ok by (simp add: tokens_ok_def)
  have apart: "slot_tokens i s \<inter> slot_tokens j s = {}" if "i \<noteq> j" for i j using ok that by (simp add: tokens_ok_def)
  have "slot_tokens i s' \<inter> drawn s' = {}" for i
  proof -
    have "(slot_tokens i s \<union> (if i = k then T else {})) \<inter> drawn s' = {}" using own [of i] new old by auto
    with sub [of i] show ?thesis by blast
  qed
  moreover have "slot_tokens i s' \<inter> slot_tokens j s' = {}" if "i \<noteq> j" for i j
  proof -
    have "(slot_tokens i s \<union> (if i = k then T else {})) \<inter> (slot_tokens j s \<union> (if j = k then T else {})) = {}"
      using apart [OF that] own [of i] own [of j] old(1) that by auto
    with sub [of i] sub [of j] show ?thesis by blast
  qed
  ultimately show ?thesis using d by (simp add: tokens_ok_def)
qed

lemma slot_le_tokens:
  "slot_le {} (get_lease i s) (get_lease i s') \<Longrightarrow> slot_tokens i s' \<subseteq> slot_tokens i s"
  by (cases "get_lease i s"; cases "get_lease i s'") (auto simp: slot_tokens_def lease_le_def)

lemma frame_slot_tokens:
  assumes "frame s s'"
  shows "slot_tokens i s' \<subseteq> slot_tokens i s"
proof (cases "i < length (bk_leases s)")
  case True
  with assms show ?thesis by (intro slot_le_tokens) (simp add: frame_def broker_le_def)
next
  case False
  with assms have "get_lease i s' = None" by (simp add: frame_def)
  then show ?thesis by (simp add: slot_tokens_def)
qed

lemma change_tokens: "change s s' \<Longrightarrow> tokens_ok s \<Longrightarrow> tokens_ok s'"
proof (induction rule: change.induct)
  case (keep s s')
  have "bk_entropy s = [] @ bk_entropy s'" using keep(1) by (simp add: frame_def)
  with keep(2) show ?case by (rule tokens_okI [where T = "{}"]) (simp_all add: frame_slot_tokens [OF keep(1)])
next
  case (draw s pre e)
  then show ?case by - (rule tokens_okI [of s pre _ "{}"], simp_all add: slot_tokens_def)
next
  case (launch s pre e t l)
  then show ?case
    by - (rule tokens_okI [of s pre _ "{t}" "length (bk_leases s)"], auto simp: slot_tokens_def get_lease_def nth_append)
next
  case (remint s pre e t i l r)
  then show ?case
    by - (rule tokens_okI [of s pre _ "{t}" i], auto simp: slot_tokens_def get_lease_at [OF remint(3)])
next
  case (close i s l l' st)
  then show ?case
    by - (rule tokens_okI [of s "[]" _ "{}"], auto simp: slot_tokens_def get_lease_at [OF close(1)] lease_le_def)
next
  case (stop s)
  then show ?case by (simp add: tokens_ok_def drawn_def slot_tokens_def)
qed

lemma changes_tokens: "changes s s' \<Longrightarrow> tokens_ok s \<Longrightarrow> tokens_ok s'"
  by (induction rule: rtranclp_induct) (auto intro: change_tokens)

end
