(* ===== verification/Broker_Props.thy ===== *)
theory Broker_Props
  imports Broker_Inv
begin

text \<open>
  The properties of the host's broker, over every interleaving of its critical sections: a selection has one
  owner, a reference is redeemed once, a lease ends once and for good, a failed cleanup keeps its selection
  closed, the ledger of a lease counts the guards that are held, an exchange returns the peer's message, and
  what a lost lease reports of an exchange that reached the peer.
\<close>

section \<open>One owner\<close>

text \<open>C11: At no point of any interleaving do two live leases of the broker own the same selection (platform, device
  and app).\<close>

theorem broker_single_owner:
  fixes acts :: "('h, 't) act list"
  assumes "s = snd (broker_run rd sha acts (SessionBroker_new entropy clock))" "i \<noteq> j" "get_lease i s = Some l" "get_lease j s = Some m"
  shows "PrepareKey_selection (hl_key l) \<noteq> PrepareKey_selection (hl_key m)"
  using run_ok [OF new_ok, of rd sha acts entropy clock] assms unfolding broker_ok_def by blast

section \<open>References\<close>

fun redeems :: "bytes \<Rightarrow> ('h, 't) act \<times> (stop + ('h, 't) broker_answer) \<Rightarrow> bool" where
  "redeems t (A_open d body, Inr (B_open (Proceed (Reserved r)))) = (ob_target_token body = t)"
| "redeems t _ = False"

definition spent :: "bytes \<Rightarrow> ('h, 't) broker \<Rightarrow> bool" where
  "spent t s \<longleftrightarrow> t \<notin> drawn s \<and> (\<forall>i l. get_lease i s = Some l \<longrightarrow> \<not> unspent t l)"

lemma spent_follows:
  assumes "broker_le (drawn s) s s'" "spent t s"
  shows "spent t s'"
  unfolding spent_def
proof (intro conjI allI impI)
  show "t \<notin> drawn s'" using assms by (auto simp: broker_le_def spent_def)
  fix i l' assume l': "get_lease i s' = Some l'"
  show "\<not> unspent t l'"
  proof (cases "i < length (bk_leases s)")
    case True
    with assms l' obtain l where "get_lease i s = Some l" "lease_le (drawn s) l l'" by (blast elim: broker_le_lease)
    with assms show ?thesis unfolding spent_def lease_le_def by blast
  next
    case False
    with assms l' have "drawn_slot (drawn s) (Some l')" unfolding broker_le_def by (metis linorder_not_less)
    with assms show ?thesis by (auto simp: unspent_def spent_def dest: fmdomI)
  qed
qed


lemma framed_after: "framed m \<Longrightarrow> m s = (r, s') \<Longrightarrow> frame s s'" unfolding framed_def by (metis snd_conv)

lemma frame_unspent:
  assumes "frame s s'" "get_lease i s' = Some l'" "unspent t l'"
  obtains l where "get_lease i s = Some l" "unspent t l"
proof -
  from assms have "broker_le {} s s'" "i < length (bk_leases s)" using get_lease_Some [of i s' l'] by (auto simp: frame_def)
  with assms(2) obtain l where "get_lease i s = Some l" "lease_le {} l l'" by (blast elim: broker_le_lease)
  with assms(3) that show thesis unfolding lease_le_def by blast
qed

lemma redeeming_spent: "\<not> unspent t (map_ref t (\<lambda>r. r\<lparr>rf_state := RefRedeeming\<rparr>) l)"
  by (auto simp: unspent_def map_ref_def split: option.split)

lemma redeem_spends:
  assumes "open_redeem i t d c k s = (Inr r, s')" "get_lease i s' = Some l'"
  shows "\<not> unspent t l'"
proof
  assume un: "unspent t l'"
  have "\<exists>f. open_redeem i t d c k = st_bind (upd_lease i (map_ref t (\<lambda>r. r\<lparr>rf_state := RefRedeeming\<rparr>))) (\<lambda>_. f) \<and> framed f"
    unfolding open_redeem_def
    by (intro exI conjI, rule refl) (intro framed_intros lease_changes no_revivals, simp add: lease_le_same)
  then obtain f :: "('a, 'b, OpenReservation) brk" where
    f: "open_redeem i t d c k = st_bind (upd_lease i (map_ref t (\<lambda>r. r\<lparr>rf_state := RefRedeeming\<rparr>))) (\<lambda>_. f)" "framed f" by blast
  from assms(1) f(1) obtain s1 where s1: "upd_lease i (map_ref t (\<lambda>r. r\<lparr>rf_state := RefRedeeming\<rparr>)) s = (Inr (), s1)" "f s1 = (Inr r, s')"
    by (auto simp: st_bind_Inr)
  with f(2) assms(2) un obtain l where "get_lease i s1 = Some l" "unspent t l" by (blast elim: frame_unspent dest: framed_after)
  moreover from this s1(1) obtain l0 where "l = map_ref t (\<lambda>r. r\<lparr>rf_state := RefRedeeming\<rparr>) l0"
    by (auto simp: upd_lease_def st_simps get_lease_upd split: if_splits)
  ultimately show False by (simp add: redeeming_spent)
qed

text \<open>A section that succeeded, taken apart.\<close>

lemma guarded_Inr: "guarded i k m s = (Inr v, s') \<longleftrightarrow> m s = (Inr v, s')"
  by (auto simp: guarded_def split: prod.splits sum.splits)

lemma refuse_Inr: "refuse stage reason s = (Inr v, s') \<longleftrightarrow> False" by (simp add: refuse_def st_fail_apply)

lemma with_lease_Inr: "with_lease i f s = (Inr v, s') \<longleftrightarrow> (\<exists>l. get_lease i s = Some l \<and> f l s = (Inr v, s'))"
  by (auto simp: with_lease_def st_with_apply st_fail_apply split: option.split)

lemma gate_bind_Proceed:
  "gate_bind m f s = (Inr (Proceed v), s') \<longleftrightarrow> (\<exists>x s1. m s = (Inr (Proceed x), s1) \<and> f x s1 = (Inr (Proceed v), s'))"
proof -
  have "(case g of LeaseEnds i r \<Rightarrow> st_ok (LeaseEnds i r) | Proceed x \<Rightarrow> f x) s1 = (Inr (Proceed v), s') \<longleftrightarrow>
      (\<exists>x. g = Proceed x \<and> f x s1 = (Inr (Proceed v), s'))" for g s1
    by (cases g) (simp_all add: st_ok_apply)
  then show ?thesis by (auto simp: gate_bind_def st_bind_Inr)
qed

lemma locate_Proceed:
  "locate_lease stage t current s = (Inr (Proceed i), s') \<longleftrightarrow>
     s' = s \<and> find_token t s = Some i \<and> (\<exists>l. get_lease i s = Some l \<and> lease_ends current l = None)"
  by (auto simp: locate_lease_def st_with_apply st_fail_apply st_ok_apply with_lease_def split: option.split)

lemma or_refuse_Inr: "or_refuse r s = (Inr v, s') \<longleftrightarrow> s' = s \<and> r = Inr v"
  by (cases r) (auto simp: or_refuse_def map_err_def st_lift_apply)

lemma some_or_Inr: "some_or stage reason x s = (Inr v, s') \<longleftrightarrow> s' = s \<and> x = Some v"
  by (cases x) (auto simp: some_or_def ok_or_def or_refuse_Inr)

lemma clock_now_Inr: "clock_now s = (Inr t, s') \<longleftrightarrow> bk_clock s (bk_ticks s) = Some t \<and> s' = s\<lparr>bk_ticks := Suc (bk_ticks s)\<rparr>"
  by (auto simp: clock_now_def Let_def split: option.split)

lemmas section_inverts = guarded_Inr refuse_Inr with_lease_Inr gate_bind_Proceed locate_Proceed or_refuse_Inr some_or_Inr
  clock_now_Inr st_bind_Inr st_ok_apply st_fail_apply

lemma open_reserve_spends:
  assumes "open_reserve sha d body s = (Inr (Proceed r), s')"
  obtains i l where "get_lease i s = Some l" "unspent (ob_target_token body) l"
    "\<And>l'. get_lease i s' = Some l' \<Longrightarrow> \<not> unspent (ob_target_token body) l'"
proof -
  from assms obtain i l ref s3 k c where
    i: "get_lease i s = Some l" "fmlookup (hl_references l) (ob_target_token body) = Some ref" "rf_state ref = RefMinted"
      "open_redeem i (ob_target_token body) d c k s3 = (Inr r, s')"
    by (auto simp: open_reserve_def section_inverts split: option.splits if_splits)
  moreover have "unspent (ob_target_token body) l" using i by (simp add: unspent_def)
  ultimately show thesis using that redeem_spends [OF i(4)] by blast
qed

lemma spent_after_reserve:
  assumes ok: "tokens_ok s" and r: "broker_op rd sha a s = (r, s')" "redeems t (a, r)"
  shows "\<not> spent t s \<and> spent t s'"
proof -
  from r(2) obtain d body res where a: "a = A_open d body" "ob_target_token body = t" "r = Inr (B_open (Proceed (Reserved res)))"
    by (cases "(t, a, r)" rule: redeems.cases) auto
  with r(1) have opened: "open_begin sha d body s = (Inr (Proceed (Reserved res)), s')"
    by (auto simp: st_map_def section_inverts)
  then have fr: "frame s s'" by (rule framed_after [OF framed_open_begin])
  from opened obtain s1 where "open_reserve sha d body s1 = (Inr (Proceed res), s')" and s1: "\<And>i. get_lease i s1 = get_lease i s"
    by (auto simp: open_begin_def gate_map_def section_inverts split: option.splits)
  then obtain i l where i: "get_lease i s = Some l" "unspent t l" "\<And>l'. get_lease i s' = Some l' \<Longrightarrow> \<not> unspent t l'"
    using a(2) by (auto elim!: open_reserve_spends)
  then have t: "t \<in> slot_tokens i s" by (auto simp: slot_tokens_def unspent_def dest: fmdomI)
  have "\<not> unspent t l'" if j: "get_lease j s' = Some l'" for j l'
  proof (cases "j = i")
    case False
    with ok t have "t \<notin> slot_tokens j s" unfolding tokens_ok_def by blast
    with frame_slot_tokens [OF fr] have "t \<notin> slot_tokens j s'" by blast
    with j show ?thesis by (auto simp: slot_tokens_def unspent_def dest: fmdomI)
  qed (use i j in blast)
  moreover have "t \<notin> drawn s'" using ok t fr by (auto simp: tokens_ok_def drawn_def frame_def)
  ultimately show ?thesis using i by (auto simp: spent_def)
qed

lemma redeemed_at_most_once:
  assumes "tokens_ok s"
  shows "length (filter (redeems t) (zip acts (fst (broker_run rd sha acts s)))) \<le> (if spent t s then 0 else 1)"
  using assms
proof (induction acts arbitrary: s)
  case (Cons a acts)
  obtain r s' where r: "broker_op rd sha a s = (r, s')" by fastforce
  then have ch: "changes s s'" using broker_op_changing [of rd sha a] by (metis changing_def snd_conv)
  have ok': "tokens_ok s'" using ch Cons(2) by (rule changes_tokens)
  have mono: "spent t s \<Longrightarrow> spent t s'" using ch by (rule spent_follows [OF changes_follow])
  have red: "redeems t (a, r) \<Longrightarrow> \<not> spent t s \<and> spent t s'" using Cons(2) r by (rule spent_after_reserve)
  show ?case
    using Cons(1) [OF ok'] r mono red by (auto simp: Let_def split: prod.split if_splits)
qed simp

text \<open>C12: When the generator does not repeat a value, a target reference is redeemed for a session at most once,
  whatever the clients send and however their requests interleave.\<close>

theorem reference_redeemed_once:
  fixes acts :: "('h, 't) act list"
  assumes "distinct (filter (\<lambda>x. x \<noteq> None) entropy)"
  shows "length (filter (redeems t) (zip acts (fst (broker_run rd sha acts (SessionBroker_new entropy clock))))) \<le> 1"
proof -
  have "tokens_ok (SessionBroker_new entropy clock :: ('h, 't) broker)"
    using assms by (simp add: tokens_ok_def SessionBroker_new_def slot_tokens_def get_lease_def)
  from redeemed_at_most_once [OF this, of t acts rd sha] show ?thesis by (simp split: if_splits)
qed


section \<open>The end of a lease\<close>

lemma enter_sealed: "sealed i s \<Longrightarrow> enter_ledger stage i c s = (Inl (Refused (broker_fail stage Stale)), s)"
  by (simp add: enter_ledger_def LeaseOperations_enter_def sealed_def)

lemma own_inverts:
  assumes "terminalize_begin i reason s = (Inr (Owner key), s')"
  obtains t expires l where "get_lease i s = Some l" "\<not> sealed i s"
    "terminalize_own i reason expires (fmran (lo_cancellations (bk_ledgers s ! i))) ((bk_ledgers s ! i)\<lparr>lo_accepting := False\<rparr>) l
       (s\<lparr>bk_ticks := t\<rparr>) = (Inr (Owner key), s')"
  using assms
  by (auto simp: terminalize_begin_def section_inverts st_with_apply LeaseOperations_begin_close_def sealed_def
    split: option.splits if_splits)

lemma own_needs_open: "terminalize_begin i reason s = (Inr (Owner key), s') \<Longrightarrow> \<not> sealed i s"
  by (blast elim: own_inverts)

lemma own_seals:
  assumes "terminalize_begin i reason s = (Inr (Owner key), s')" "broker_ok s"
  shows "sealed i s' \<and> i < length (bk_leases s')"
  using assms(1)
proof (rule own_inverts)
  fix t expires l assume l: "get_lease i s = Some l" and own:
    "terminalize_own i reason expires (fmran (lo_cancellations (bk_ledgers s ! i))) ((bk_ledgers s ! i)\<lparr>lo_accepting := False\<rparr>) l
       (s\<lparr>bk_ticks := t\<rparr>) = (Inr (Owner key), s')"
  from own have "bk_ledgers s' = (bk_ledgers s)[i := (bk_ledgers s ! i)\<lparr>lo_accepting := False\<rparr>]"
      "length (bk_leases s') = length (bk_leases s)"
    by (auto simp: terminalize_own_def st_simps)
  with get_lease_Some [OF l] assms(2) show ?thesis by (simp add: sealed_def broker_ok_def)
qed

lemma sealed_stays:
  assumes "sealed i s" "i < length (bk_leases s)" "broker_ok s"
  shows "sealed i (snd (broker_run rd sha acts s))"
  using changes_follow [OF broker_run_changes [of s rd sha acts]] assms by (simp add: broker_le_def broker_ok_def)

lemma owned_end:
  assumes "s = snd (broker_run rd sha pre (SessionBroker_new entropy clock))"
    and "terminalize_begin i reason s = (Inr (Owner key), s1)"
    and "s2 = snd (broker_run rd sha acts s1)"
  shows "sealed i s2" "get_lease i s2 = None \<or> (\<exists>l. get_lease i s2 = Some l \<and> hl_state l = LeaseClosing)"
    "i < length (bk_leases s2)"
proof -
  have ok: "broker_ok s" using run_ok [OF new_ok] assms(1) by simp
  have "changes s s1" using changing_terminalize [of i reason] assms(2) unfolding changing_def by (metis snd_conv)
  then have ok1: "broker_ok s1" using ok by (rule changes_ok)
  show seal: "sealed i s2" using own_seals [OF assms(2) ok] ok1 assms(3) sealed_stays by blast
  have "length (bk_leases s1) \<le> length (bk_leases s2)"
    using changes_follow [OF broker_run_changes [of s1 rd sha acts]] assms(3) by (simp add: broker_le_def)
  then show "i < length (bk_leases s2)" using own_seals [OF assms(2) ok] by simp
  have "broker_ok s2" using run_ok [OF ok1] assms(3) by simp
  then show "get_lease i s2 = None \<or> (\<exists>l. get_lease i s2 = Some l \<and> hl_state l = LeaseClosing)"
    using seal by (cases "get_lease i s2") (auto simp: broker_ok_def)
qed

text \<open>C14: A lease ends once and for good: after a caller became the owner of its end, in every later state the
  slot is empty or holds the closing lease, no operation can enter its ledger, and no other caller becomes the
  owner, so that the streams of the lease are reaped once.\<close>

theorem lease_ends_once:
  fixes pre acts :: "('h, 't) act list"
  assumes "s = snd (broker_run rd sha pre (SessionBroker_new entropy clock))"
    and "terminalize_begin i reason s = (Inr (Owner key), s1)"
    and "s2 = snd (broker_run rd sha acts s1)"
  shows "(get_lease i s2 = None \<or> (\<exists>l. get_lease i s2 = Some l \<and> hl_state l = LeaseClosing)) \<and>
    fst (enter_ledger stage i c s2) = Inl (Refused (broker_fail stage Stale)) \<and>
    (\<forall>reason' key' s3. terminalize_begin i reason' s2 \<noteq> (Inr (Owner key'), s3))"
  using owned_end [OF assms] by (auto simp: enter_sealed dest: own_needs_open)

text \<open>C17: An exchange whose lease is closed before its outcome is recorded reports \<^verbatim>\<open>NotHandedOff\<close>, whatever
  the outcome was: also when the peer received the request, and even when its response arrived. (The end of the
  lease by its own time is reported by the handler with the same failure.) Record 0009 of the architecture
  decisions asks for \<^verbatim>\<open>HandoffPossibleOrConfirmed\<close> after a full request without a response, so that the command
  line reports an unknown outcome and does not call it safe to repeat.\<close>

theorem exchange_outcome_understated:
  fixes pre acts :: "('h, 't) act list"
  assumes "s = snd (broker_run rd sha pre (SessionBroker_new entropy clock))"
    and "terminalize_begin (er_index r) reason s = (Inr (Owner key), s1)"
    and "s2 = snd (broker_run rd sha acts s1)"
    and "exchange_commit sha r body crypto reader outcome s2 = (out, s3)"
  shows "(\<exists>why. out = Inr (LeaseEnds (er_index r) why)) \<or>
    (\<exists>f. out = Inl (Refused f) \<and> cf_handoff f = NotHandedOff)"
  using owned_end(2,3) [OF assms(1-3)] assms(4)
  by (auto simp: exchange_commit_def index_lease_def get_lease_def clock_now_def Let_def refuse_def cancel_raw_def st_simps
    split: option.splits if_splits)

section \<open>Failed cleanups\<close>

text \<open>The sections that report a failed cleanup for a key.\<close>

fun cleanup_failure :: "('h, 't) act \<Rightarrow> PrepareKey option" where
  "cleanup_failure (A_reap_finish i key tokens (Inl e)) = Some key"
| "cleanup_failure (A_terminalize_timeout key) = Some key"
| "cleanup_failure (A_reject r reason True) = Some (rv_key r)"
| "cleanup_failure (A_reap_late i key True) = Some key"
| "cleanup_failure _ = None"

lemma cleanup_failure_recorded:
  assumes "cleanup_failure a = Some key"
  shows "PrepareKey_selection key |\<in>| fmdom (bk_failed (snd (broker_op rd sha a s)))"
  using assms
  by (cases a rule: cleanup_failure.cases)
    (auto simp: st_map_def st_simps reap_finish_def terminalize_timeout_def reject_with_cleanup_def reap_late_launch_def
      insert_failed_def refuse_def upd_lease_def is_err_def split: option.split if_splits)

lemma failed_stays:
  "k |\<in>| fmdom (bk_failed s) \<Longrightarrow> k |\<in>| fmdom (bk_failed (snd (broker_run rd sha acts s)))"
  using changes_follow [OF broker_run_changes [of s rd sha acts]] by (simp add: broker_le_def)

lemma prepare_answers:
  assumes "prepare_begin rd keypair secret d body s = (Inr v, s')"
  shows "PrepareKey_selection (PrepareKey_new body) |\<notin>| fmdom (bk_failed s)" "\<not> bk_shutting_down s"
  using assms
  by (auto simp: prepare_begin_def section_inverts st_with_apply Let_def Cancellation_new_def fmdom_notI
    split: option.splits if_splits)

text \<open>C15: A failed cleanup closes its selection: after any report of one, and whatever happens next, no request to
  prepare the same platform, device and app gets a lease, with this artifact or another.\<close>

theorem failed_cleanup_blocks:
  fixes a :: "('h, 't) act"
  assumes "cleanup_failure a = Some key" "PrepareKey_selection (PrepareKey_new body) = PrepareKey_selection key"
    and "s' = snd (broker_run rd sha acts (snd (broker_op rd sha a s)))"
  shows "is_err (fst (prepare_begin rd keypair secret d body s'))"
proof -
  have "PrepareKey_selection key |\<in>| fmdom (bk_failed s')"
    unfolding assms(3) using cleanup_failure_recorded [OF assms(1)] by (rule failed_stays)
  then have "prepare_begin rd keypair secret d body s' \<noteq> (Inr v, s'')" for v s'' using prepare_answers(1) assms(2) by metis
  then show ?thesis by (cases "prepare_begin rd keypair secret d body s'") (auto simp: is_err_def split: sum.split)
qed


section \<open>The ledger and its guards\<close>

text \<open>A ledger together with the ids of the guards that are held.\<close>

inductive ledger_step :: "OperationState \<times> u64 fset \<Rightarrow> OperationState \<times> u64 fset \<Rightarrow> bool" where
  enter: "LeaseOperations_enter c st = (Inr i, st') \<Longrightarrow> ledger_step (st, H) (st', finsert i H)"
| leave: "i |\<in>| H \<Longrightarrow> LeaseOperation_drop i st = Some st' \<Longrightarrow> ledger_step (st, H) (st', H |-| {|i|})"
| begin_close: "LeaseOperations_begin_close st = (cs, st') \<Longrightarrow> ledger_step (st, H) (st', H)"
| finish: "ledger_step (st, H) (LeaseOperations_finish_close r st, H)"

definition ledger_ok :: "OperationState \<times> u64 fset \<Rightarrow> bool" where
  "ledger_ok x \<longleftrightarrow> (case x of (st, H) \<Rightarrow> lo_active st = fcard H \<and> fmdom (lo_cancellations st) = H \<and> (\<forall>i |\<in>| H. i < lo_next_id st))"

lemma ledger_step_ok: "ledger_step x y \<Longrightarrow> ledger_ok x \<Longrightarrow> ledger_ok y"
proof (induction rule: ledger_step.induct)
  case (enter c st i st' H)
  then obtain next_id where n: "checked_add (lo_next_id st) 1 = Some next_id" "i = lo_next_id st"
      "st' = st\<lparr>lo_next_id := next_id, lo_active := lo_active st + 1, lo_cancellations := fmupd i c (lo_cancellations st)\<rparr>"
    by (auto simp: LeaseOperations_enter_def split: if_splits option.splits)
  have "lo_next_id st < next_id" using checked_add_SomeD [OF n(1)] by (auto simp: word_less_nat_alt)
  moreover have "i |\<notin>| H" using enter(2) n(2) by (auto simp: ledger_ok_def)
  moreover from this have "fcard (finsert i H) = Suc (fcard H)" by (rule fcard_finsert_disjoint)
  ultimately show ?case using enter(2) n by (auto simp: ledger_ok_def)
next
  case (leave i H st st')
  then show ?case by (auto simp: ledger_ok_def LeaseOperation_drop_def split: if_splits)
next
  case (begin_close st cs st' H)
  then show ?case by (auto simp: ledger_ok_def LeaseOperations_begin_close_def split: if_splits)
next
  case (finish st H r)
  then show ?case by (simp add: ledger_ok_def LeaseOperations_finish_close_def)
qed

lemma ledger_steps_ok: "ledger_step\<^sup>*\<^sup>* (LeaseOperations_new, {||}) x \<Longrightarrow> ledger_ok x"
proof (induction rule: rtranclp_induct)
  case base
  show ?case by (simp add: ledger_ok_def LeaseOperations_new_def)
qed (rule ledger_step_ok)

lemma closed_ledger:
  assumes "ledger_step\<^sup>*\<^sup>* x y" "\<not> lo_accepting (fst x)"
  shows "\<not> lo_accepting (fst y) \<and> snd y |\<subseteq>| snd x"
  using assms
proof (induction rule: rtranclp_induct)
  case (step y z)
  then have "\<not> lo_accepting (fst y)" "snd y |\<subseteq>| snd x" by simp_all
  with step(2) show ?case
    by (cases rule: ledger_step.cases) (auto simp: LeaseOperations_enter_def LeaseOperation_drop_def
      LeaseOperations_begin_close_def LeaseOperations_finish_close_def split: if_splits)
qed simp

text \<open>C16: The ledger of a lease counts the guards that are held: it is drained exactly when none is, a held guard
  can always be dropped without a panic, its close names the cancellations of exactly the held guards, and once
  closed it admits no guard and no second close.\<close>

theorem ledger_counts_guards:
  assumes "ledger_step\<^sup>*\<^sup>* (LeaseOperations_new, {||}) (st, H)"
  shows "(LeaseOperations_drained st \<longleftrightarrow> H = {||}) \<and> (\<forall>i |\<in>| H. LeaseOperation_drop i st \<noteq> None) \<and>
    (lo_accepting st \<longrightarrow> (\<exists>cs. LeaseOperations_begin_close st = (Some cs, st\<lparr>lo_accepting := False\<rparr>) \<and>
       cs = (\<lambda>i. the (fmlookup (lo_cancellations st) i)) |`| H)) \<and>
    (\<not> lo_accepting st \<longrightarrow> (\<forall>y. ledger_step\<^sup>*\<^sup>* (st, H) y \<longrightarrow>
       fst (LeaseOperations_enter c (fst y)) = Inl Stale \<and> fst (LeaseOperations_begin_close (fst y)) = None \<and> snd y |\<subseteq>| H))"
proof -
  have ok: "lo_active st = fcard H" "fmdom (lo_cancellations st) = H" using ledger_steps_ok [OF assms] by (simp_all add: ledger_ok_def)
  then have count: "lo_active st = 0 \<longleftrightarrow> H = {||}" by simp
  have ran: "fmran (lo_cancellations st) = (\<lambda>i. the (fmlookup (lo_cancellations st) i)) |`| H"
    using ok(2) by (force simp: fmlookup_ran_iff fmlookup_dom_iff)
  show ?thesis
    using count ran closed_ledger [of "(st, H)"]
    by (auto simp: LeaseOperations_drained_def LeaseOperation_drop_def LeaseOperations_begin_close_def LeaseOperations_enter_def)
qed

end
