(* ===== verification/Broker_Excl.thy ===== *)
theory Broker_Excl
  imports Broker_Props
begin

text \<open>
  A session's connection, with its keys and nonces, is handed to one operation at a time: while an exchange, a
  close or an expiry holds it, no interleaving of other sections hands it out again before an outcome is recorded.
\<close>

section \<open>A session that is lent\<close>

definition lent_lease :: "u64 \<Rightarrow> ('h, 't) HostLease \<Rightarrow> bool" where
  "lent_lease slot l \<longleftrightarrow> (\<forall>x. fmlookup (hl_sessions l) slot = Some x \<longrightarrow> hs_crypto x = None)"

definition lent :: "nat \<Rightarrow> u64 \<Rightarrow> ('h, 't) broker \<Rightarrow> bool" where
  "lent i slot s \<longleftrightarrow> (\<forall>l. get_lease i s = Some l \<longrightarrow> lent_lease slot l)"

text \<open>The acts that put a connection into a slot: the record of an open or of an exchange.\<close>

fun returns :: "nat \<Rightarrow> u64 \<Rightarrow> ('h, 't) act \<Rightarrow> bool" where
  "returns i slot (A_open_commit r token out) = ((or_index r, or_slot r) = (i, slot))"
| "returns i slot (A_exchange_commit r body crypto reader out) = ((er_index r, er_slot r) = (i, slot))"
| "returns i slot _ = False"

lemma pres_refuse: "st_pres P (refuse stage reason)" by (simp add: refuse_def st_pres_fail)
lemma pres_or_refuse: "st_pres P (or_refuse r)" by (simp add: or_refuse_def st_pres_lift)
lemma pres_some_or: "st_pres P (some_or stage reason x)" by (simp add: some_or_def pres_or_refuse)
lemma pres_with_lease: "(\<And>l. st_pres P (f l)) \<Longrightarrow> st_pres P (with_lease i f)"
  unfolding with_lease_def by (intro st_pres_rules)
lemma pres_index_lease: "(\<And>l. st_pres P (f l)) \<Longrightarrow> st_pres P (index_lease i f)"
  unfolding index_lease_def by (intro st_pres_rules)
lemma pres_gate: "(\<And>x. st_pres P (f x)) \<Longrightarrow> (\<And>i r. st_pres P (g i r)) \<Longrightarrow> st_pres P (case v of Proceed x \<Rightarrow> f x | LeaseEnds i r \<Rightarrow> g i r)"
  by (cases v) simp_all
lemma pres_sum: "(\<And>x. st_pres P (f x)) \<Longrightarrow> (\<And>x. st_pres P (g x)) \<Longrightarrow> st_pres P (case v of Inl x \<Rightarrow> f x | Inr x \<Rightarrow> g x)"
  by (cases v) simp_all
lemma pres_let: "(\<And>x. st_pres P (f x)) \<Longrightarrow> st_pres P (let x = v in f x)" by simp
lemma pres_gate_bind: "st_pres P m \<Longrightarrow> (\<And>x. st_pres P (f x)) \<Longrightarrow> st_pres P (gate_bind m f)"
  unfolding gate_bind_def by (intro st_pres_rules pres_gate)
lemma pres_gate_map: "st_pres P m \<Longrightarrow> st_pres P (gate_map f m)"
  unfolding gate_map_def by (intro pres_gate_bind st_pres_rules)
lemma pres_st_map: "st_pres P m \<Longrightarrow> st_pres P (st_map f m)"
  unfolding st_map_def by (intro st_pres_rules)

text \<open>The steps that change no lease.\<close>

lemma lent_same: "bk_leases s' = bk_leases s \<Longrightarrow> lent i slot s \<Longrightarrow> lent i slot s'"
  by (simp add: lent_def get_lease_def)

lemma pres_same: "(\<And>s. bk_leases (snd (m s)) = bk_leases s) \<Longrightarrow> st_pres (lent i slot) m"
  unfolding st_pres_def using lent_same by blast

lemma pres_clock: "st_pres (lent i slot) clock_now"
  by (rule pres_same) (simp add: clock_now_def Let_def split: option.split)
lemma pres_cancellation: "st_pres (lent i slot) Cancellation_new" by (rule pres_same) (simp add: Cancellation_new_def)
lemma pres_cancel_raw: "st_pres (lent i slot) (cancel_raw raw)" by (rule pres_same) (simp add: cancel_raw_def st_simps)
lemma pres_insert_failed: "st_pres (lent i slot) (insert_failed key)" by (rule pres_same) (simp add: insert_failed_def st_simps)
lemma pres_enter: "st_pres (lent i slot) (enter_ledger stage j c)"
  by (rule pres_same) (simp add: enter_ledger_def split: prod.split sum.split)
lemma leave_leases: "bk_leases (snd (leave_ledger j k s)) = bk_leases s" by (simp add: leave_ledger_def split: option.split)
lemma pres_leave: "st_pres (lent i slot) (leave_ledger j k)" by (rule pres_same) (rule leave_leases)
lemma pres_random: "st_pres (lent i slot) (random_bytes n)"
proof (rule pres_same)
  fix s :: "('h, 't) broker"
  obtain r s' where r: "random_bytes n s = (r, s')" by fastforce
  then show "bk_leases (snd (random_bytes n s)) = bk_leases s" by (auto elim!: random_bytes_drawn)
qed

lemma pres_guarded:
  fixes m :: "('h, 't, 'a) brk"
  assumes "st_pres (lent i slot) m"
  shows "st_pres (lent i slot) (guarded j k m)"
  unfolding st_pres_def
proof (intro allI impI)
  fix s :: "('h, 't) broker" assume "lent i slot s"
  with assms have "lent i slot (snd (m s))" by (simp add: st_pres_def)
  then show "lent i slot (snd (guarded j k m s))"
    by (auto simp: guarded_def split: prod.splits sum.splits intro: lent_same [OF leave_leases])
qed

lemma pres_upd_lease:
  assumes "\<And>l. j = i \<Longrightarrow> lent_lease slot l \<Longrightarrow> lent_lease slot (f l)"
  shows "st_pres (lent i slot) (upd_lease j f)"
  unfolding st_pres_def upd_lease_def st_simps
  using assms by (auto simp: lent_def get_lease_upd split: if_splits)

lemmas pres_steps = pres_refuse pres_or_refuse pres_some_or pres_with_lease pres_index_lease pres_gate pres_sum pres_let pres_gate_bind
  pres_gate_map pres_st_map pres_clock pres_cancellation pres_cancel_raw pres_insert_failed pres_enter pres_leave pres_random pres_guarded
  pres_upd_lease st_pres_ok st_pres_fail st_pres_lift st_pres_with st_pres_bind st_pres_if st_pres_option st_pres_prod


text \<open>Changes of one lease.\<close>

lemma lent_map_ref: "lent_lease slot l \<Longrightarrow> lent_lease slot (map_ref t f l)"
  by (auto simp: map_ref_def lent_lease_def split: option.split)

lemma lent_map_session:
  assumes "\<And>x. hs_crypto x = None \<Longrightarrow> hs_crypto (f x) = None" "lent_lease slot l"
  shows "lent_lease slot (map_host_session j f l)"
  using assms by (auto simp: map_host_session_def lent_lease_def split: option.split)

lemma lent_map_other: "j \<noteq> slot \<Longrightarrow> lent_lease slot l \<Longrightarrow> lent_lease slot (map_host_session j f l)"
  by (auto simp: map_host_session_def lent_lease_def split: option.split)

lemma lent_drop: "lent_lease slot l \<Longrightarrow> lent_lease slot (l\<lparr>hl_sessions := fmdrop j (hl_sessions l)\<rparr>)"
  by (auto simp: lent_lease_def)

lemma lent_fields [simp]:
  "lent_lease slot (l\<lparr>hl_state := a\<rparr>) = lent_lease slot l" "lent_lease slot (l\<lparr>hl_references := b\<rparr>) = lent_lease slot l"
  "lent_lease slot (l\<lparr>hl_terminal_reason := c\<rparr>) = lent_lease slot l" "lent_lease slot (l\<lparr>hl_terminal_handoff := d\<rparr>) = lent_lease slot l"
  "lent_lease slot (l\<lparr>hl_last_client_activity := e\<rparr>) = lent_lease slot l" "lent_lease slot (l\<lparr>hl_next_session := f\<rparr>) = lent_lease slot l"
  "lent_lease slot (l\<lparr>hl_control := g\<rparr>) = lent_lease slot l" "lent_lease slot (l\<lparr>hl_lease_crypto := h\<rparr>) = lent_lease slot l"
  "lent_lease slot (l\<lparr>hl_cleanup := k\<rparr>) = lent_lease slot l" "lent_lease slot (l\<lparr>hl_control_reader := m\<rparr>) = lent_lease slot l"
  "lent_lease slot (l\<lparr>hl_handoff := n\<rparr>) = lent_lease slot l" "lent_lease slot (l\<lparr>hl_heartbeat_counter := p\<rparr>) = lent_lease slot l"
  "lent_lease slot (l\<lparr>hl_heartbeat_misses := q\<rparr>) = lent_lease slot l" "lent_lease slot (l\<lparr>hl_last_heartbeat_attempt := r\<rparr>) = lent_lease slot l"
  "lent_lease slot (l\<lparr>hl_last_heartbeat_success := t\<rparr>) = lent_lease slot l" "lent_lease slot (l\<lparr>hl_terminal_cleanup_failed := u\<rparr>) = lent_lease slot l"
  "lent_lease slot (l\<lparr>hl_generation := v\<rparr>) = lent_lease slot l" "lent_lease slot (l\<lparr>hl_epoch := v\<rparr>) = lent_lease slot l"
  "lent_lease slot (l\<lparr>hl_nk_hash := w\<rparr>) = lent_lease slot l" "lent_lease slot (l\<lparr>hl_pbs := x\<rparr>) = lent_lease slot l"
  "lent_lease slot (l\<lparr>hl_connector := y\<rparr>) = lent_lease slot l" "lent_lease slot (l\<lparr>hl_created := z\<rparr>) = lent_lease slot l"
  by (simp_all add: lent_lease_def)

lemma lent_map_slot_refs [simp]: "lent_lease slot (map_slot_refs j f l) = lent_lease slot l" by (simp add: map_slot_refs_def)
lemma lent_seal_references [simp]: "lent_lease slot (seal_references l) = lent_lease slot l" by (simp add: seal_references_def)
lemma lent_seal_lease [simp]: "lent_lease slot (seal_lease reason expires l) = lent_lease slot l" by (simp add: seal_lease_def)
lemma lent_prune [simp]: "lent_lease slot (prune_lease now l) = lent_lease slot l" by (simp add: prune_lease_def)
lemma lent_return_control [simp]: "lent_lease slot (return_control crypto reader l) = lent_lease slot l" by (simp add: return_control_def)
lemma lent_commit: "lent_lease slot l \<Longrightarrow> lent_lease slot (commit_lease p t completed expires l)"
  by (simp add: commit_lease_def Let_def lent_map_ref)
lemma lent_new_lease [simp]: "lent_lease slot (new_lease key lease_id t deadline started)" by (simp add: new_lease_def lent_lease_def)

section \<open>No section but a record returns it\<close>

lemma lent_put: "lent i slot s \<Longrightarrow> (\<And>l. x = Some l \<Longrightarrow> lent_lease slot l) \<Longrightarrow> lent i slot (s\<lparr>bk_leases := (bk_leases s)[j := x]\<rparr>)"
  by (auto simp: lent_def get_lease_upd split: if_splits)

lemma pres_prune: "st_pres (lent i slot) (prune current)"
  unfolding st_pres_def prune_def st_simps by (auto simp: lent_def get_lease_map)

lemma pres_push: "st_pres (lent i slot) (push_lease (new_lease key lease_id t deadline started))"
  unfolding st_pres_def push_lease_def by (auto simp: lent_def get_lease_def nth_append split: if_splits)

lemma pres_prepare: "st_pres (lent i slot) (prepare_begin rd keypair secret d body)"
  unfolding prepare_begin_def prepare_launch_def by (intro pres_steps pres_push) simp_all

lemma pres_reuse: "st_pres (lent i slot) (prepare_reuse j key d)"
  unfolding prepare_reuse_def mint_def by (intro pres_steps) simp_all

lemma pres_commit: "st_pres (lent i slot) (commit_begin r p)" "st_pres (lent i slot) (commit_finish r p)"
  unfolding commit_begin_def commit_finish_def by (intro pres_steps lent_commit; assumption)+


lemma pres_upd_same: "(\<And>s. bk_leases (g s) = bk_leases s) \<Longrightarrow> st_pres (lent i slot) (st_upd g)"
  by (rule pres_same) (simp add: st_simps)

lemma pres_upd_at: "(\<And>s. lent i slot s \<Longrightarrow> lent i slot (g s)) \<Longrightarrow> st_pres (lent i slot) (st_upd g)"
  by (simp add: st_pres_def st_simps)

lemma lent_slot:
  assumes "lent i slot s" "\<And>l. lent_lease slot l \<Longrightarrow> lent_lease slot (g l)"
  shows "lent i slot (case get_lease j s of None \<Rightarrow> s | Some l \<Rightarrow>
    if P l then s\<lparr>bk_leases := (bk_leases s)[j := None]\<rparr> else s\<lparr>bk_leases := (bk_leases s)[j := Some (g l)]\<rparr>)"
  using assms by (auto simp: lent_def get_lease_upd split: option.splits if_splits)

lemma pres_reject: "st_pres (lent i slot) (discard_mark r failed)" "st_pres (lent i slot) (reject_with_cleanup r reason failed)"
  unfolding discard_mark_def reject_with_cleanup_def by (intro pres_steps; simp)+

lemma pres_reap_late: "st_pres (lent i slot) (reap_late_launch j key failed)"
  unfolding reap_late_launch_def by (intro pres_steps pres_upd_at lent_slot; simp)

lemma pres_locate: "st_pres (lent i slot) (locate_lease stage t current)"
  unfolding locate_lease_def by (intro pres_steps)

lemma pres_open: "st_pres (lent i slot) (open_begin sha d body)"
  unfolding open_begin_def open_resume_def open_reserve_def open_redeem_def
  by (intro pres_steps pres_locate) (simp_all add: lent_map_ref)

lemma lent_upd_other:
  "j \<noteq> slot \<Longrightarrow> lent_lease slot l \<Longrightarrow> lent_lease slot (l\<lparr>hl_sessions := fmupd j x (hl_sessions l)\<rparr>)"
  by (simp add: lent_lease_def)

lemma pres_open_commit:
  assumes "(or_index r, or_slot r) \<noteq> (i, slot)"
  shows "st_pres (lent i slot) (open_commit sha r t out)"
  using assms unfolding open_commit_def open_record_def stale_reference_def
  by (intro pres_steps) (auto simp: lent_map_ref lent_upd_other)

lemma pres_claim:
  "(\<And>j x k. st_pres (lent i slot) (f j x k)) \<Longrightarrow> st_pres (lent i slot) (claim_session stage n t sid g e f)"
  unfolding claim_session_def by (intro pres_steps lent_map_ref lent_map_session) simp_all

lemma pres_exchange_reserve: "st_pres (lent i slot) (exchange_reserve sha d body)"
  unfolding exchange_reserve_def by (intro pres_steps pres_locate pres_claim lent_map_session) simp_all

lemma pres_exchange_commit:
  assumes "(er_index r, er_slot r) \<noteq> (i, slot)"
  shows "st_pres (lent i slot) (exchange_commit sha r body crypto reader out)"
  using assms unfolding exchange_commit_def exchange_record_def
  by (intro pres_steps) (auto simp: lent_map_ref lent_map_other lent_drop)

lemma pres_close_session: "st_pres (lent i slot) (close_session_reserve d cb)" "st_pres (lent i slot) (close_session_commit cr cb out)"
  unfolding close_session_reserve_def close_session_commit_def
  by (intro pres_steps pres_locate pres_claim lent_map_session lent_map_ref lent_drop; simp)+

lemma pres_end: "st_pres (lent i slot) (close_lease_find lb)" "st_pres (lent i slot) (terminalize_timeout key)"
  unfolding close_lease_find_def terminalize_timeout_def by (intro pres_steps)+

lemma pres_with_at: "(\<And>s. P s \<Longrightarrow> P (snd (f s s))) \<Longrightarrow> st_pres P (st_with f)" by (simp add: st_pres_def st_simps)

lemma lent_own: "lent i slot s \<Longrightarrow> get_lease j s = Some l \<Longrightarrow> lent i slot (snd (terminalize_own j reason expires c st l s))"
  by (auto simp: terminalize_own_def st_simps lent_def get_lease_def nth_list_update split: if_splits)

lemma pres_terminalize: "st_pres (lent i slot) (terminalize_begin j reason)"
  unfolding terminalize_begin_def
  by (intro pres_with_at pres_clock pres_or_refuse st_pres_bind)
    (auto simp: refuse_def st_simps split: option.splits prod.splits intro: lent_own)

lemma pres_reap: "st_pres (lent i slot) (reap_begin_step j key)" "st_pres (lent i slot) (reap_finish j key tokens result)"
proof -
  show "st_pres (lent i slot) (reap_begin_step j key)"
    unfolding st_pres_def reap_begin_step_def reap_begin_def
    by (auto simp: lent_def get_lease_upd split: option.split if_splits)
  have "st_pres (lent i slot) (st_upd (\<lambda>s. case get_lease j s of None \<Rightarrow> s
      | Some l \<Rightarrow> if hl_key l = key \<and> hl_state l = LeaseClosing then s\<lparr>bk_leases := (bk_leases s)[j := None]\<rparr> else s))"
    by (rule pres_upd_at) (auto intro: lent_put split: option.split)
  then show "st_pres (lent i slot) (reap_finish j key tokens result)"
    unfolding reap_finish_def by (intro pres_steps) (simp_all add: pres_upd_same)
qed

lemma pres_upkeep: "st_pres (lent i slot) (admit d)" "st_pres (lent i slot) maintain_begin" "st_pres (lent i slot) shutdown_begin"
proof -
  show "st_pres (lent i slot) (admit d)" "st_pres (lent i slot) maintain_begin"
    unfolding admit_def maintain_begin_def by (intro pres_steps pres_prune)+
  show "st_pres (lent i slot) shutdown_begin" by (rule pres_same) (simp add: shutdown_begin_def)
qed

lemma pres_expire: "st_pres (lent i slot) (expire_session_begin j k)" "st_pres (lent i slot) (expire_session_finish j k sid raw)"
  unfolding expire_session_begin_def expire_session_finish_def by (intro pres_steps lent_map_session lent_drop; simp)+

lemma pres_heartbeat: "st_pres (lent i slot) (heartbeat_begin j d)" "st_pres (lent i slot) (heartbeat_failed j lc reader e)"
  "st_pres (lent i slot) (heartbeat_answered_ok j n lc reader)" "st_pres (lent i slot) (heartbeat_missed j d lc reader)"
  unfolding heartbeat_begin_def heartbeat_failed_def heartbeat_answered_ok_def heartbeat_missed_def by (intro pres_steps; simp)+

lemma pres_probes: "st_pres (lent i slot) (heartbeat_find j)" "st_pres (lent i slot) (ready_probe_enter j d)"
  "st_pres (lent i slot) (ready_probe_drop j)"
  unfolding heartbeat_find_def ready_probe_enter_def ready_probe_drop_def by (intro pres_steps pres_upd_same; simp)+

lemmas pres_sections = pres_prepare pres_reuse pres_commit pres_reject pres_reap_late pres_open pres_open_commit pres_exchange_reserve
  pres_exchange_commit pres_close_session pres_end pres_terminalize pres_reap pres_upkeep pres_expire pres_heartbeat pres_probes pres_leave

lemma pres_op: "\<not> returns i slot a \<Longrightarrow> st_pres (lent i slot) (broker_op rd sha a)"
  by (cases a) (simp_all add: pres_st_map pres_sections)

lemma lent_run:
  assumes "lent i slot s" "list_all (\<lambda>a. \<not> returns i slot a) acts"
  shows "lent i slot (snd (broker_run rd sha acts s))"
  using assms
proof (induction acts arbitrary: s)
  case (Cons a acts)
  from Cons(2,3) pres_op [of i slot a rd sha] have "lent i slot (snd (broker_op rd sha a s))" by (simp add: st_pres_def)
  with Cons(1) [of "snd (broker_op rd sha a s)"] Cons(3) show ?case by (auto simp: Let_def split: prod.split)
qed simp

section \<open>One operation at a time\<close>

text \<open>The sections that hand a connection out: an exchange, the close of a session and the expiry of a session
  take it from the slot. The reservation of a close does not name the slot; it is the one the request's
  reference and session id match.\<close>

fun hands_out :: "(bytes \<Rightarrow> bytes) \<Rightarrow> nat \<Rightarrow> u64 \<Rightarrow> ('h, 't) act \<Rightarrow> ('h, 't) broker \<Rightarrow> bool" where
  "hands_out sha i slot (A_exchange d body) s =
     (case fst (exchange_reserve sha d body s) of
        Inr (Proceed r) \<Rightarrow> (er_index r, er_slot r) = (i, slot) | _ \<Rightarrow> False)"
| "hands_out sha i slot (A_close_session d body) s =
     (case fst (close_session_reserve d body s) of
        Inr (Proceed r) \<Rightarrow> cr_index r = i \<and>
          (case get_lease i s of None \<Rightarrow> False
           | Some l \<Rightarrow> matched_session_slot l (cb_target_token body) (cb_session_id body) AtClose True = Inr slot)
      | _ \<Rightarrow> False)"
| "hands_out sha i slot (A_expire_session j k) s = ((j, k) = (i, slot) \<and> \<not> is_err (fst (expire_session_begin j k s)))"
| "hands_out sha i slot _ s = False"

lemma lent_taken: "lent_lease slot (map_host_session slot (\<lambda>x. x\<lparr>hs_crypto := None\<rparr>) l)"
  by (auto simp: lent_lease_def map_host_session_def split: option.split)

lemma taken_lent: "upd_lease i (map_host_session slot (\<lambda>x. x\<lparr>hs_crypto := None\<rparr>)) s = (r, s') \<Longrightarrow> lent i slot s'"
  by (auto simp: upd_lease_def st_simps lent_def get_lease_upd lent_taken split: if_splits)

lemma claim_inverts:
  assumes "claim_session stage i t sid g e f s = (Inr v, s')"
  obtains l slot x k s1 where "get_lease i s = Some l" "matched_session_slot l t sid stage True = Inr slot"
    "fmlookup (hl_sessions l) slot = Some x" "f slot x k s1 = (Inr v, s')"
  using assms by (auto simp: claim_session_def section_inverts split: if_splits option.splits)

lemma reserve_takes:
  assumes "exchange_reserve sha d body s = (Inr (Proceed r), s')"
  shows "\<not> lent (er_index r) (er_slot r) s \<and> lent (er_index r) (er_slot r) s'"
proof -
  from assms obtain current i where
    "claim_session AtExchange i (eb_target_token body) (eb_session_id body) (eb_process_generation body)
          (eb_listener_epoch body) (\<lambda>slot x operation.
          st_bind (some_or AtExchange Stale (hs_reader x)) (\<lambda>reader.
          st_bind (upd_lease i (map_host_session slot (\<lambda>x. x\<lparr>hs_reader := None\<rparr>))) (\<lambda>_.
          st_bind (some_or AtExchange Stale (hs_crypto x)) (\<lambda>crypto.
          st_bind (upd_lease i (map_host_session slot (\<lambda>x. x\<lparr>hs_crypto := None\<rparr>))) (\<lambda>_.
          with_lease i (\<lambda>l.
          st_bind (or_refuse (effective_deadline d l)) (\<lambda>deadline.
          st_ok (Proceed \<lparr>er_index = i, er_slot = slot, er_raw = hs_raw x, er_reader = reader, er_crypto = crypto,
            er_deadline = deadline, er_operation = operation\<rparr>))))))))
        (s\<lparr>bk_ticks := Suc (bk_ticks s)\<rparr>) = (Inr (Proceed r), s')"
    by (auto simp: exchange_reserve_def section_inverts split: if_splits)
  then show ?thesis
    by (rule claim_inverts) (auto simp: section_inverts lent_def lent_lease_def [of _ l for l] dest!: taken_lent)
qed

lemma close_takes:
  assumes "close_session_reserve d body s = (Inr (Proceed r), s')" "get_lease (cr_index r) s = Some l"
    "matched_session_slot l (cb_target_token body) (cb_session_id body) AtClose True = Inr slot"
  shows "\<not> lent (cr_index r) slot s \<and> lent (cr_index r) slot s'"
proof -
  from assms(1) obtain i where
    "claim_session AtClose i (cb_target_token body) (cb_session_id body) (cb_process_generation body)
       (cb_listener_epoch body) (\<lambda>slot x operation.
       st_bind (some_or AtClose Stale (hs_crypto x)) (\<lambda>crypto.
       st_bind (upd_lease i (map_host_session slot (\<lambda>x. x\<lparr>hs_crypto := None\<rparr>))) (\<lambda>_.
       with_lease i (\<lambda>l.
       st_bind (or_refuse (effective_deadline d l)) (\<lambda>deadline.
       st_ok (Proceed \<lparr>cr_index = i, cr_raw = hs_raw x, cr_crypto = crypto, cr_handoff = hs_handoff x,
         cr_deadline = deadline, cr_operation = operation\<rparr>))))))
      (s\<lparr>bk_ticks := Suc (bk_ticks s)\<rparr>) = (Inr (Proceed r), s')"
    by (auto simp: close_session_reserve_def section_inverts split: if_splits)
  then show ?thesis
    by (rule claim_inverts)
      (use assms(2,3) in \<open>auto simp: section_inverts lent_def lent_lease_def [of _ l for l] dest!: taken_lent\<close>)
qed

lemma expire_takes:
  assumes "expire_session_begin i slot s = (Inr r, s')"
  shows "\<not> lent i slot s \<and> lent i slot s'"
  using assms
  by (auto simp: expire_session_begin_def st_with_apply section_inverts lent_def lent_lease_def [of _ l for l] dest!: taken_lent
      split: if_splits option.splits)

lemma snd_st_map [simp]: "snd (st_map f m s) = snd (m s)"
  by (cases "m s"; cases "fst (m s)") (simp_all add: st_map_def st_simps)

lemma hands_out_takes:
  assumes "hands_out sha i slot a s"
  shows "\<not> lent i slot s \<and> lent i slot (snd (broker_op rd sha a s))"
proof (cases a)
  case (A_exchange d body)
  obtain r s' where "exchange_reserve sha d body s = (r, s')" by fastforce
  with A_exchange assms show ?thesis
    by (auto split: sum.splits Gate.splits dest!: reserve_takes)
next
  case (A_close_session d body)
  obtain r s' where "close_session_reserve d body s = (r, s')" by fastforce
  with A_close_session assms show ?thesis
    by (auto split: sum.splits Gate.splits option.splits dest!: close_takes)
next
  case (A_expire_session j k)
  obtain r s' where "expire_session_begin j k s = (r, s')" by fastforce
  with A_expire_session assms show ?thesis
    by (cases r) (auto dest!: expire_takes)
qed (use assms in simp_all)

text \<open>C13: The connection of a session is used by one operation at a time: after an exchange, a close or an expiry
  took it, and until the outcome of an exchange or an open is recorded for that slot, no interleaving of other
  requests, heartbeats and maintenance lets an exchange, a close or an expiry take it again.\<close>

theorem session_used_exclusively:
  fixes acts :: "('h, 't) act list"
  assumes "hands_out sha i slot a s" "s1 = snd (broker_op rd sha a s)"
    and "list_all (\<lambda>a. \<not> returns i slot a) acts" "s2 = snd (broker_run rd sha acts s1)"
  shows "\<not> hands_out sha i slot a' s2"
proof -
  have "lent i slot s2" unfolding assms(2,4)
    using hands_out_takes [OF assms(1), of rd] assms(3) by (intro lent_run) simp_all
  with hands_out_takes [of sha i slot a' s2 rd] show ?thesis by blast
qed

end
