(* ===== verification/Broker_Demo.thy ===== *)
theory Broker_Demo
  imports Broker_Excl
begin

text \<open>
  A concrete run of the broker, from the launch of a lease to an exchange on its session, and the instances
  of the broker's properties on it. The cryptographic values are those of the plain Noise of the development.
\<close>

section \<open>The run\<close>

lemma random_first:
  assumes "bk_entropy s = Some (x # y) # rest" "x \<noteq> 0"
  shows "random_bytes n s = (Inr (x # y), s\<lparr>bk_entropy := rest\<rparr>)"
proof -
  have "x # y \<noteq> replicate n 0" using assms(2) by (cases n) simp_all
  with assms(1) show ?thesis by (simp add: random_bytes_def eval_nat_numeral)
qed

lemma fmdrop_only [simp]: "fmdrop k (fmupd k v fmempty) = fmempty" by (rule fmap_ext) simp

lemmas step_eval = broker_run.simps broker_op.simps clock_now_def Cancellation_new_def or_refuse_def some_or_def st_simps map_err_def
  res_bind_def ok_or_def checked_add_def Let_def PrepareKey_new_def PrepareKey_selection_def random_first enter_ledger_def
  LeaseOperations_enter_def LeaseOperations_new_def st_map_def has_key_def upd_lease_def get_lease_def with_lease_def index_lease_def
  leave_ledger_def LeaseOperation_drop_def gate_bind_def gate_map_def refuse_def

lemmas budget_eval = prepare_deadline_def launch_deadline_def prepare_launch_budget_def IOS_PREPARE_LAUNCH_MS_def PREPARE_BOOTSTRAP_MS_def
  reference_expires_def READY_REFERENCE_TTL_MS_def MAX_SAFE_def lease_ends_def lease_terminal_reason_def expired_at_def
  saturating_sub64_def LEASE_ABSOLUTE_MS_def LEASE_IDLE_MS_def heartbeat_lost_def HEARTBEAT_MISSES_def commit_rejection_reason_def
  effective_deadline_def broker_abs_def saturating_add64_def AbsoluteDeadline_new_def session_tombstone_expires_def SESSION_IDLE_MS_def

text \<open>The clock stands still; the generator does not repeat itself.\<close>

definition demo_body :: "string \<Rightarrow> PrepareBody" where
  "demo_body device = \<lparr>pb_platform = IosSimulator, pb_device_selector = device, pb_app_id = ''app'', pb_app_artifact = ''a'',
     pb_app_artifact_sha256 = [9]\<rparr>"

definition demo_prepare :: "string \<Rightarrow> (clear_hs, clear_tr) act" where
  "demo_prepare device = A_prepare (Inr ([1], [2])) (Inr [3]) 50000 (demo_body device)"

definition demo_entropy :: "bytes option list" where
  "demo_entropy = map (\<lambda>n. Some [n]) [1, 2, 3, 4, 5, 6]"

definition demo_broker :: "(clear_hs, clear_tr) broker" where
  "demo_broker = SessionBroker_new demo_entropy (\<lambda>_. Some 1000)"

lemmas demo_defs = demo_broker_def demo_prepare_def demo_body_def demo_entropy_def SessionBroker_new_def prepare_begin_def prepare_launch_def
  push_lease_def new_lease_def new_reference_def

lemma demo_two_leases:
  "\<exists>l m. get_lease 0 (snd (broker_run id id [demo_prepare ''a'', demo_prepare ''b''] demo_broker)) = Some l \<and>
     get_lease 1 (snd (broker_run id id [demo_prepare ''a'', demo_prepare ''b''] demo_broker)) = Some m \<and>
     pk_device (hl_key l) = ''a'' \<and> pk_device (hl_key m) = ''b''"
  by (simp add: demo_defs step_eval budget_eval)

text \<open>The launch of the first lease completes, its reference is redeemed, the session opens and an exchange
  reserves it.\<close>

definition demo_rv :: Reservation where
  "demo_rv = \<lparr>rv_index = 0, rv_key = PrepareKey_new (demo_body ''a''), rv_token = [1], rv_digest = [1], rv_lease_id = [2], rv_nonce = [3],
     rv_private = [1], rv_public = [2], rv_pbs = [3], rv_deadline = 21000, rv_launch_deadline = 11000, rv_launch_cancel = 0,
     rv_operation = 1\<rparr>"

definition demo_prepared :: "clear_tr Prepared" where
  "demo_prepared = \<lparr>pr_success = \<lparr>bs_ack = \<lparr>ack_target_reference_digest = [1], ack_lease_id = [2], ack_process_generation = 77,
       ack_listener_epoch = 1, ack_nk_handshake_hash = [8]\<rparr>, bs_lease = demo_broker_lease, bs_reader = RawFrameReader_new\<rparr>,
     pr_bootstrap = 10, pr_connector = 11, pr_cleanup = 12, pr_pbs = [3], pr_operation = 1\<rparr>"

definition demo_open :: OpenSessionBody where
  "demo_open = \<lparr>ob_target_token = [1], ob_session_id = None, ob_required_capabilities = [], ob_session_open_request = Some [4],
     ob_session_open_request_sha256 = Some [4]\<rparr>"

definition demo_launch :: "(clear_hs, clear_tr) act list" where
  "demo_launch = [demo_prepare ''a'', A_commit demo_rv demo_prepared]"


text \<open>The states of the run: the ready lease with its reference and its sessions, and the broker around it.\<close>

definition demo_ready_lease :: "Reference \<Rightarrow> u64 \<Rightarrow> (u64, (clear_hs, clear_tr) HostSession) fmap \<Rightarrow> (clear_hs, clear_tr) HostLease" where
  "demo_ready_lease ref next sessions =
     \<lparr>hl_key = PrepareKey_new (demo_body ''a''), hl_state = LeaseReady, hl_lease_id = [2], hl_generation = 77, hl_epoch = 1,
      hl_nk_hash = [8], hl_pbs = Some [3], hl_control = Some 10, hl_lease_crypto = Some demo_broker_lease,
      hl_control_reader = Some RawFrameReader_new, hl_connector = Some 11, hl_cleanup = Some 12,
      hl_references = fmupd [1] ref fmempty, hl_sessions = sessions, hl_next_session = next, hl_created = 1000,
      hl_last_heartbeat_attempt = 1000, hl_last_heartbeat_success = 1000, hl_heartbeat_counter = 2, hl_heartbeat_misses = 0,
      hl_last_client_activity = 1000, hl_terminal_cleanup_failed = False, hl_terminal_reason = None,
      hl_terminal_handoff = NotHandedOff, hl_handoff = NotHandedOff\<rparr>"

definition demo_ref :: "RefState \<Rightarrow> u64 option \<Rightarrow> string option \<Rightarrow> Reference" where
  "demo_ref st slot sid = \<lparr>rf_state = st, rf_issued = 1000, rf_expires = 31000, rf_session_slot = slot, rf_session_id = sid\<rparr>"

definition demo_at :: "nat \<Rightarrow> nat \<Rightarrow> nat \<Rightarrow> u64 \<Rightarrow> (u64, nat) fmap \<Rightarrow> (clear_hs, clear_tr) HostLease \<Rightarrow> (clear_hs, clear_tr) broker" where
  "demo_at ticks cancellation active next_id guards l =
     \<lparr>bk_leases = [Some l],
      bk_ledgers = [\<lparr>lo_accepting = True, lo_active = active, lo_completed = None, lo_next_id = next_id, lo_cancellations = guards\<rparr>],
      bk_probes = [False], bk_failed = fmempty, bk_stale_tokens = fmempty, bk_shutting_down = False,
      bk_entropy = map (\<lambda>n. Some [n]) [4, 5, 6], bk_clock = (\<lambda>_. Some 1000), bk_ticks = ticks,
      bk_next_cancellation = cancellation, bk_cancelled = {||}, bk_raw_cancelled = {||}\<rparr>"

lemmas demo_states = demo_at_def demo_ready_lease_def demo_ref_def demo_body_def demo_rv_def demo_prepared_def demo_open_def

lemma demo_launched:
  "broker_run id id demo_launch demo_broker =
     ([Inr (B_route (Proceed (RouteLaunch demo_rv))), Inr B_done],
      demo_at 2 1 0 2 fmempty (demo_ready_lease (demo_ref RefMinted None None) 1 fmempty))"
  by (simp add: demo_launch_def demo_states demo_defs step_eval budget_eval commit_finish_def commit_lease_def map_ref_def)

definition demo_or :: OpenReservation where
  "demo_or = \<lparr>or_index = 0, or_slot = 1, or_connector = 11, or_pbs = [3],
     or_binding = \<lparr>sb_lease_id = [2], sb_process_generation = 77, sb_listener_epoch = 1, sb_nk_handshake_hash = [8]\<rparr>,
     or_cancellation = 1, or_deadline = 50000, or_operation = 2\<rparr>"

lemmas open_eval = open_begin_def open_reserve_def open_redeem_def locate_lease_def find_token_def guarded_def map_ref_def lease_binding_def

lemma demo_opens:
  "broker_op id id (A_open 50000 demo_open) (demo_at 2 1 0 2 fmempty (demo_ready_lease (demo_ref RefMinted None None) 1 fmempty)) =
     (Inr (B_open (Proceed (Reserved demo_or))),
      demo_at 4 2 1 3 (fmupd 2 1 fmempty) (demo_ready_lease (demo_ref RefRedeeming (Some 1) None) 2 fmempty))"
  by (simp add: demo_states demo_or_def step_eval budget_eval open_eval)

lemma demo_reopens:
  "broker_op id id (A_open 50000 demo_open)
       (demo_at 4 2 1 3 (fmupd 2 1 fmempty) (demo_ready_lease (demo_ref RefRedeeming (Some 1) None) 2 fmempty)) =
     (Inl (Refused (broker_fail AtSessionOpen Stale)),
      demo_at 6 2 1 3 (fmupd 2 1 fmempty) (demo_ready_lease (demo_ref RefRedeeming (Some 1) None) 2 fmempty))"
  by (simp add: demo_states demo_or_def step_eval budget_eval open_eval)

definition demo_opened :: "(clear_hs, clear_tr) OpenedSession" where
  "demo_opened = \<lparr>os_session = demo_target_session, os_response = [5], os_handoff = HandoffPossibleOrConfirmed, os_reader = RawFrameReader_new\<rparr>"

definition demo_session :: "string option \<Rightarrow> (clear_hs, clear_tr) SessionCore option \<Rightarrow> RawFrameReader option \<Rightarrow> (clear_hs, clear_tr) HostSession" where
  "demo_session sid crypto reader = \<lparr>hs_id = sid, hs_raw = 13, hs_crypto = crypto, hs_reader = reader, hs_response = [5],
     hs_response_digest = [5], hs_handoff = HandoffPossibleOrConfirmed, hs_last = 1000\<rparr>"

lemma demo_session_opened:
  "broker_op id id (A_open_commit demo_or [1] (Inr (13, demo_opened)))
       (demo_at 4 2 1 3 (fmupd 2 1 fmempty) (demo_ready_lease (demo_ref RefRedeeming (Some 1) None) 2 fmempty)) =
     (Inr (B_opened (Proceed \<lparr>so_target_token = [1], so_response = [5], so_response_sha256 = [5], so_process_generation = 77,
        so_listener_epoch = 1, so_handoff = HandoffPossibleOrConfirmed\<rparr>)),
      demo_at 7 2 1 3 (fmupd 2 1 fmempty) (demo_ready_lease (demo_ref RefConsumed (Some 1) None) 2
        (fmupd 1 (demo_session None (Some demo_target_session) (Some RawFrameReader_new)) fmempty)))"
  by (simp add: demo_states demo_or_def demo_opened_def demo_session_def step_eval budget_eval open_eval open_commit_def open_record_def)

lemma demo_left:
  "broker_op id id (A_leave 0 2) (demo_at n 2 1 3 (fmupd 2 1 fmempty) l) = (Inr B_done, demo_at n 2 0 3 fmempty l)"
  by (simp add: demo_states step_eval)

definition demo_exchange :: ExchangeBody where
  "demo_exchange = \<lparr>eb_target_token = [1], eb_session_id = ''sid'', eb_process_generation = 77, eb_listener_epoch = 1, eb_message = [6],
     eb_message_sha256 = [6]\<rparr>"

definition demo_er :: "(clear_hs, clear_tr) ExchangeReservation" where
  "demo_er = \<lparr>er_index = 0, er_slot = 1, er_raw = 13, er_reader = RawFrameReader_new, er_crypto = demo_target_session, er_deadline = 50000,
     er_operation = 3\<rparr>"

lemma demo_reserves:
  "exchange_reserve id 50000 demo_exchange (demo_at 7 2 0 3 fmempty (demo_ready_lease (demo_ref RefConsumed (Some 1) None) 2
        (fmupd 1 (demo_session None (Some demo_target_session) (Some RawFrameReader_new)) fmempty))) =
     (Inr (Proceed demo_er),
      demo_at 8 3 1 4 (fmupd 3 2 fmempty) (demo_ready_lease (demo_ref RefConsumed (Some 1) (Some ''sid'')) 2
        (fmupd 1 (demo_session (Some ''sid'') None None) fmempty)))"
  by (simp add: demo_states demo_session_def demo_exchange_def demo_er_def step_eval budget_eval open_eval exchange_reserve_def
    claim_session_def matched_session_slot_def map_host_session_def)


definition demo_acts :: "(clear_hs, clear_tr) act list" where
  "demo_acts = demo_launch @ [A_open 50000 demo_open, A_open_commit demo_or [1] (Inr (13, demo_opened)), A_leave 0 2,
     A_exchange 50000 demo_exchange]"

definition demo_busy :: "(clear_hs, clear_tr) broker" where
  "demo_busy = demo_at 8 3 1 4 (fmupd 3 2 fmempty) (demo_ready_lease (demo_ref RefConsumed (Some 1) (Some ''sid'')) 2
     (fmupd 1 (demo_session (Some ''sid'') None None) fmempty))"

lemma demo_exchanges:
  "broker_op id id (A_exchange 50000 demo_exchange) (demo_at 7 2 0 3 fmempty (demo_ready_lease (demo_ref RefConsumed (Some 1) None) 2
     (fmupd 1 (demo_session None (Some demo_target_session) (Some RawFrameReader_new)) fmempty))) = (Inr B_done, demo_busy)"
  by (simp add: demo_reserves demo_busy_def st_map_def st_bind_apply st_ok_apply del: One_nat_def)

lemmas demo_steps = demo_launched demo_opens demo_reopens demo_session_opened demo_left demo_exchanges broker_run_append Let_def

lemma demo_run: "snd (broker_run id id demo_acts demo_broker) = demo_busy"
  by (simp add: demo_acts_def demo_steps del: broker_op.simps One_nat_def)

section \<open>Instances of the properties\<close>

theorem broker_single_owner_witness:
  "\<exists>s l m. s = snd (broker_run id id [demo_prepare ''a'', demo_prepare ''b''] demo_broker) \<and>
     get_lease 0 s = Some l \<and> get_lease 1 s = Some m \<and> PrepareKey_selection (hl_key l) \<noteq> PrepareKey_selection (hl_key m)"
  using demo_two_leases broker_single_owner [OF refl zero_neq_one]
  unfolding demo_broker_def by metis

theorem reference_redeemed_once_witness:
  "length (filter (redeems [1]) (zip (demo_launch @ [A_open 50000 demo_open, A_open 50000 demo_open])
     (fst (broker_run id id (demo_launch @ [A_open 50000 demo_open, A_open 50000 demo_open]) demo_broker)))) = 1"
proof -
  have "distinct (filter (\<lambda>x. x \<noteq> None) demo_entropy)" by (simp add: demo_entropy_def)
  then have le: "length (filter (redeems [1]) (zip (demo_launch @ [A_open 50000 demo_open, A_open 50000 demo_open])
      (fst (broker_run id id (demo_launch @ [A_open 50000 demo_open, A_open 50000 demo_open]) demo_broker)))) \<le> 1"
    unfolding demo_broker_def by (rule reference_redeemed_once)
  have "length (filter (redeems [1]) (zip (demo_launch @ [A_open 50000 demo_open, A_open 50000 demo_open])
      (fst (broker_run id id (demo_launch @ [A_open 50000 demo_open, A_open 50000 demo_open]) demo_broker)))) \<noteq> 0"
    by (simp add: demo_steps del: broker_op.simps One_nat_def) (simp add: demo_launch_def demo_open_def)
  with le show ?thesis by linarith
qed

lemma demo_closes:
  "fst (terminalize_begin 0 PeerClosed demo_busy) = Inr (Owner (PrepareKey_new (demo_body ''a'')))"
  by (simp add: demo_busy_def demo_at_def demo_ready_lease_def terminalize_begin_def terminalize_own_def LeaseOperations_begin_close_def
    step_eval budget_eval)

lemma demo_closed_run:
  "terminalize_begin 0 PeerClosed (snd (broker_run id id demo_acts demo_broker)) =
     (Inr (Owner (PrepareKey_new (demo_body ''a''))), snd (terminalize_begin 0 PeerClosed demo_busy))"
  using demo_closes unfolding demo_run by (simp add: prod_eq_iff)

theorem lease_ends_once_witness:
  "\<exists>s2. s2 = snd (broker_run id id [A_open 50000 demo_open] (snd (terminalize_begin 0 PeerClosed demo_busy))) \<and>
     fst (enter_ledger AtExchange 0 9 s2) = Inl (Refused (broker_fail AtExchange Stale)) \<and>
     (\<forall>key s3. terminalize_begin 0 Stale s2 \<noteq> (Inr (Owner key), s3))"
  using lease_ends_once [OF refl demo_closed_run [unfolded demo_broker_def] refl] by blast

lemma demo_lost_exchange:
  "fst (exchange_commit id demo_er demo_exchange demo_target_session RawFrameReader_new (Inr [7])
     (snd (terminalize_begin 0 PeerClosed demo_busy))) = Inl (Refused (broker_fail AtExchange Stale))"
  by (simp add: demo_busy_def demo_states demo_er_def demo_exchange_def terminalize_begin_def terminalize_own_def
    LeaseOperations_begin_close_def exchange_commit_def cancel_raw_def seal_lease_def step_eval budget_eval)

theorem exchange_outcome_understated_witness:
  "\<exists>f. fst (exchange_commit id demo_er demo_exchange demo_target_session RawFrameReader_new (Inr [7])
     (snd (terminalize_begin 0 PeerClosed demo_busy))) = Inl (Refused f) \<and> cf_handoff f = NotHandedOff"
proof -
  let ?out = "exchange_commit id demo_er demo_exchange demo_target_session RawFrameReader_new (Inr [7])
     (snd (terminalize_begin 0 PeerClosed demo_busy))"
  have closed: "terminalize_begin (er_index demo_er) PeerClosed (snd (broker_run id id demo_acts demo_broker)) =
      (Inr (Owner (PrepareKey_new (demo_body ''a''))), snd (terminalize_begin 0 PeerClosed demo_busy))"
    using demo_closed_run by (simp add: demo_er_def)
  have last: "snd (terminalize_begin 0 PeerClosed demo_busy) = snd (broker_run id id [] (snd (terminalize_begin 0 PeerClosed demo_busy)))"
    by simp
  have "(\<exists>why. fst ?out = Inr (LeaseEnds (er_index demo_er) why)) \<or> (\<exists>f. fst ?out = Inl (Refused f) \<and> cf_handoff f = NotHandedOff)"
    by (rule exchange_outcome_understated [OF refl closed [unfolded demo_broker_def] last prod.collapse [symmetric]])
  with demo_lost_exchange show ?thesis by auto
qed

theorem failed_cleanup_blocks_witness:
  "is_err (fst (prepare_begin id (Inr ([1], [2])) (Inr [3]) 50000 (demo_body ''a'')
     (snd (broker_run id id [A_maintain]
       (snd (broker_op id id (A_terminalize_timeout (PrepareKey_new (demo_body ''a''))) demo_busy))))))"
  by (rule failed_cleanup_blocks [OF _ refl refl]) simp

definition demo_guards :: "nat \<Rightarrow> u64 \<Rightarrow> (u64, nat) fmap \<Rightarrow> OperationState" where
  "demo_guards active next_id guards = \<lparr>lo_accepting = True, lo_active = active, lo_completed = None, lo_next_id = next_id,
     lo_cancellations = guards\<rparr>"

lemma demo_ledger: "ledger_step\<^sup>*\<^sup>* (LeaseOperations_new, {||}) (demo_guards 1 3 (fmupd 2 8 fmempty), {|2|})"
proof -
  have "ledger_step (LeaseOperations_new, {||}) (demo_guards 1 2 (fmupd 1 7 fmempty), {|1|})"
    by (rule ledger_step.enter [of 7]) (simp add: LeaseOperations_new_def demo_guards_def LeaseOperations_enter_def checked_add_def)
  moreover have "ledger_step (demo_guards 1 2 (fmupd 1 7 fmempty), {|1|}) (demo_guards 2 3 (fmupd 2 8 (fmupd 1 7 fmempty)), {|2, 1|})"
    by (rule ledger_step.enter [of 8]) (simp add: demo_guards_def LeaseOperations_enter_def checked_add_def)
  moreover have "ledger_step (demo_guards 2 3 (fmupd 2 8 (fmupd 1 7 fmempty)), {|2, 1|})
      (demo_guards 1 3 (fmdrop 1 (fmupd 2 8 (fmupd 1 7 fmempty))), {|2, 1|} |-| {|1|})"
    by (rule ledger_step.leave) (simp_all add: demo_guards_def LeaseOperation_drop_def)
  moreover have "fmdrop 1 (fmupd 2 8 (fmupd 1 7 fmempty)) = fmupd (2 :: u64) (8 :: nat) fmempty" "{|2, 1|} |-| {|1|} = {|2 :: u64|}"
    by (rule fmap_ext, auto)
  ultimately show ?thesis by (metis (no_types, lifting) rtranclp.rtrancl_into_rtrancl rtranclp.rtrancl_refl)
qed

theorem ledger_counts_guards_witness:
  "\<not> LeaseOperations_drained (demo_guards 1 3 (fmupd 2 8 fmempty)) \<and> LeaseOperation_drop 2 (demo_guards 1 3 (fmupd 2 8 fmempty)) \<noteq> None \<and>
     fst (LeaseOperations_begin_close (demo_guards 1 3 (fmupd 2 8 fmempty))) = Some {|8|}"
  using ledger_counts_guards [OF demo_ledger] by (auto simp: demo_guards_def)

definition demo_pair :: "(clear_hs, clear_tr) broker" where
  "demo_pair = demo_at 7 2 0 3 fmempty ((demo_ready_lease (demo_ref RefConsumed (Some 1) None) 3
     (fmupd 1 (demo_session None (Some demo_target_session) (Some RawFrameReader_new))
       (fmupd 2 (demo_session None (Some demo_target_session) (Some RawFrameReader_new)) fmempty)))\<lparr>
     hl_references := fmupd [1] (demo_ref RefConsumed (Some 1) None) (fmupd [4] (demo_ref RefConsumed (Some 2) None) fmempty)\<rparr>)"

lemmas reserve_eval = demo_states demo_session_def demo_exchange_def demo_er_def step_eval budget_eval open_eval exchange_reserve_def
    claim_session_def matched_session_slot_def map_host_session_def

text \<open>An exchange takes the connection of session 1; a close then takes that of session 2, not that of session 1.\<close>

definition demo_close :: "bytes \<Rightarrow> CloseSessionBody" where
  "demo_close token = \<lparr>cb_target_token = token, cb_session_id = eb_session_id demo_exchange,
     cb_process_generation = eb_process_generation demo_exchange, cb_listener_epoch = eb_listener_epoch demo_exchange, cb_reason = Normal\<rparr>"

lemma demo_pair_first: "hands_out id 0 1 (A_exchange 50000 demo_exchange) demo_pair"
  by (simp add: demo_pair_def reserve_eval)

lemma demo_pair_second:
  "hands_out id 0 2 (A_close_session 50000 (demo_close [4]))
     (snd (broker_run id id [A_exchange 50000 demo_exchange] (snd (broker_op id id (A_exchange 50000 demo_exchange) demo_pair))))"
  by (simp add: demo_pair_def demo_close_def close_session_reserve_def st_map_def reserve_eval)

theorem session_used_exclusively_witness:
  "\<not> hands_out id 0 1 (A_close_session 50000 (demo_close [1]))
     (snd (broker_run id id [A_close_session 50000 (demo_close [4])]
       (snd (broker_op id id (A_exchange 50000 demo_exchange) demo_pair)))) \<and>
   hands_out id 0 2 (A_close_session 50000 (demo_close [4]))
     (snd (broker_run id id [A_exchange 50000 demo_exchange] (snd (broker_op id id (A_exchange 50000 demo_exchange) demo_pair))))"
proof -
  have "list_all (\<lambda>a. \<not> returns 0 1 a) [A_close_session 50000 (demo_close [4])]" by simp
  from session_used_exclusively [OF demo_pair_first refl this refl] demo_pair_second show ?thesis by blast
qed

end
