(* ===== verification/Spec2Isabelle.thy ===== *)
theory Spec2Isabelle
  imports Session_Link Supervisor_Props Host_Deadline Broker_Demo
begin

text \<open>
  A verification development for the transport of AppPilotKit: the crypto core that both ends share
  (\<^verbatim>\<open>transport/crypto-core\<close>), the Target's supervisor, and the host's byte transport and broker
  (\<^verbatim>\<open>cli/crates/host-runtime\<close>).

  \<^bold>\<open>The program.\<close> A command line asks the host's Broker for a Target, an application on a simulator or an
  emulator. The Broker launches it with a launch descriptor; the Target connects back, and a Noise NK handshake
  (the bootstrap) gives both a secret, a binding and a lease connection that is kept alive by heartbeats. Each
  application session is a stream of its own with a Noise NNpsk0 handshake under that secret, a Finished
  exchange, and alternating application messages cut into records. On the Target the supervisor owns the lease,
  the sessions and their timers and answers events of the platform with actions; on the host blocking reads and
  writes drive the same protocol, and the Broker keeps leases, one-time references and sessions behind one lock
  and hands them to concurrent requests.

  \<^bold>\<open>The theories and what they model.\<close>
  \<^item> \<open>Prelude\<close>: machine integers, checked arithmetic, state-and-error steps, the locales \<open>wire_codec\<close>,
    \<open>fail_stop\<close>, its strict case \<open>fail_closed\<close>, and \<open>counter_log\<close>.
  \<^item> \<open>Wire_Types\<close>, \<open>Cbor\<close>, \<open>Outer_Frame\<close>, \<open>Payloads\<close>, \<open>Records\<close>, \<open>Noise\<close>, \<open>Lease\<close>, \<open>Bootstrap\<close>, \<open>Session\<close>:
    \<^verbatim>\<open>crypto-core/src/lib.rs\<close> in its order, one record per struct (\<open>OuterFrameDecoder\<close>, \<open>RecordReassembler\<close>,
    \<open>LeaseCore\<close>, \<open>SessionCore\<close>) and one definition per method, named after it.
  \<^item> \<open>Session_Link\<close>: two ends of one session joined.
  \<^item> \<open>Descriptor\<close>: the writer of the launch descriptor (\<^verbatim>\<open>raw_transport.rs\<close>, \<^verbatim>\<open>adapter.rs\<close>) and the Target's parser
    (\<^verbatim>\<open>target_transport.rs\<close>).
  \<^item> \<open>Supervisor\<close>: \<^verbatim>\<open>TargetTransport\<close> of \<^verbatim>\<open>target_transport.rs\<close> with every event handler, composed by \<open>drive\<close>;
    \<open>Supervisor_Inv\<close>, \<open>Supervisor_Life\<close>, \<open>Supervisor_Ends\<close>, \<open>Supervisor_Link\<close>, \<open>Supervisor_Props\<close> hold its invariants
    and properties.
  \<^item> \<open>Host_Io\<close>: \<^verbatim>\<open>raw_transport.rs\<close>, the reader with its deadlines, complete writes, bootstrap, sessions, heartbeats
    and closing; \<open>Host_Link\<close> and \<open>Host_Deadline\<close> hold its properties.
  \<^item> \<open>Broker_Ledger\<close>, \<open>Broker\<close>: \<^verbatim>\<open>broker.rs\<close>, its policies, the operation ledger of a lease (\<^verbatim>\<open>LeaseOperations\<close>) and one
    definition per critical section of a handler (\<open>prepare_begin\<close>, \<open>commit_finish\<close>, \<open>open_reserve\<close>, \<open>open_commit\<close>,
    \<open>exchange_reserve\<close>, \<open>exchange_commit\<close>, \<open>terminalize_begin\<close>, \<open>reap_finish\<close> and so on). \<open>broker_op\<close> collects them as
    actions, and a list of actions is an interleaving of requests, reapers and maintenance.
  \<^item> \<open>Broker_Inv\<close>: an abstract broker (\<open>change\<close>) that every section refines, and what its changes keep;
    \<open>Broker_Props\<close>, \<open>Broker_Excl\<close>: the properties; \<open>Broker_Demo\<close>: a concrete run and their instances.

  \<^bold>\<open>What the lemmas show.\<close> Codecs are bijective on what the parsers accept, and frames and messages survive any
  cutting of the stream. Decoder, reassembler, lease and session are fail-closed and stay within their
  quotas; what a closed session still answers is a \<^verbatim>\<open>validate_binding\<close> that matches.
  A bootstrap and a session between two linked ends complete with the bytes that were written; with the
  supervisor and the host's blocking code in between they still do, from the launch descriptor to the response
  (\<open>launch_to_response\<close> below, \<open>Host_Link\<close>). The supervisor's timers are exactly those of its live objects, its
  sessions cannot disturb each other, the end of a session tells whether its history holds a delivery, and the end
  of the supervisor is final. The broker gives a selection one owner and a reference
  one session in every interleaving, ends a lease once, uses a session's connection for one operation at a time
  and keeps a selection closed after a failed cleanup. Where the code falls short of its documents the theorem
  says so: \<open>close_commit_understates\<close>, \<open>exchange_outcome_understated\<close>, \<open>launch_descriptor_read_back\<close>,
  \<open>straddling_frame_times_out\<close>.

  \<^bold>\<open>Parameters.\<close> The Noise library \<^verbatim>\<open>snow\<close> is a record of functions with the laws of the locale \<open>noise_link\<close>, the CBOR
  library \<^verbatim>\<open>minicbor\<close> one with the laws of \<open>minicbor\<close>; both locales are interpreted on concrete functions
  (\<open>clear_noise\<close>, which does not encrypt, and \<open>rfc_cbor\<close>), with which the witnesses compute. The laws say what passes between
  honest ends, not that an attacker learns nothing: secrecy is not a claim of this development. SHA-256 and the
  digest of a printed reference are function arguments. Clock, random draws, reads, writes, connections and
  cleanup receipts of the platform are data of the host's and the broker's state or arguments of the step that
  follows them.

  \<^bold>\<open>Loops.\<close> Loops over data are total functions. \<open>generate_loop\<close> consumes the list of draws and \<open>None\<close> means that it is still
  drawing; \<open>random_draws\<close> has the source's eight attempts. \<open>io_loop\<close> is a partial function whose \<open>None\<close> is a read that
  waits for ever; \<open>host_read_returns\<close> shows when it does return. Waiting on a condition variable is left to the
  order of the actions.

  \<^bold>\<open>Not modelled.\<close> Threads, locks and condition variables themselves, the thread that runs a launch
  and the counter of pending reapers; Unix sockets and the control packet codec (\<^verbatim>\<open>unix.rs\<close>, \<^verbatim>\<open>owned_op.rs\<close>, \<^verbatim>\<open>control.rs\<close>); the C and
  JNI interfaces, which wrap the supervisor in raw pointers; the adapters for simulator and emulator, which run
  external programs; the command line's catalogue and results and its composition with the broker, which are
  tables and glue; the verifier of the contract's fixtures, spikes and test brokers. Diagnostic origins, which
  exist only under the feature \<^verbatim>\<open>internal-diagnostics\<close>, are left out.
\<close>

section \<open>From the launch descriptor to the response\<close>

lemma create_from_descriptor:
  assumes "parse_descriptor C d = Inr parsed" "generate_process_generation rng = Some (Inr g)"
  obtains out where "TargetTransport_create C rng d =
    Some (Inr (fresh_transport (pd_binding parsed) (pd_broker_public_key parsed) g, out))"
  using assms by (cases "pd_endpoint parsed") (simp_all add: TargetTransport_create_def fresh_transport_def Let_def)

lemma generated_valid: "generate_process_generation rng = Some (Inr g) \<Longrightarrow> valid_generation g"
  using generate_loop_range
  by (auto simp: generate_process_generation_def valid_generation_def JSON_SAFE_MAX_def word_le_nat_alt split: option.splits)

text \<open>C1: The whole path. The host writes a launch descriptor; the Target creates its supervisor from it; over
  the bootstrap stream the Broker that holds the matching key hands over its secret and receives the
  acknowledgement, with both lease connections linked; and over a session stream opened under the resulting
  binding an application message of the Broker reaches the runtime and its response reaches the Broker, each
  byte for byte. Every call of both sides on the way succeeds.\<close>

theorem launch_to_response:
  fixes N :: "('h, 't) noise"
  assumes link: "protected_link N chan keypair C" and key: "keypair sk pk" "length pk = 32"
    and b: "wf_bootstrap_binding b" "bb_expiry_ms b \<le> JSON_SAFE_MAX"
    and ep: "ios_loopback port = Inr ep \<or> utf8_valid name \<and> 0 \<notin> set name \<and> android_local_abstract name = Inr ep"
    and host: "encode_launch_descriptor platform ep (bb_lease_id b) (bb_target_nonce b) (bb_app_artifact_digest b)
      pk (bb_expiry_ms b) (bb_target_reference_digest b) = Inr d"
    and gen: "generate_process_generation rng = Some (Inr g)" and secret: "length secret = 32"
    and k: "k \<noteq> 0" and j: "j \<noteq> 0" "j \<noteq> k"
    and p: "p \<noteq> []" "length p \<le> 65536" and q: "q \<noteq> []" "length q \<le> 67108864"
  shows "\<exists>s0 out B0 m1 m2 R ack A bl s1 S0 n1 n2 S1 f1 S2 f2 S3 fs S4 gs S5 s2.
    TargetTransport_create C rng d = Some (Inr (s0, out)) \<and>
    BrokerBootstrap_new N C e b sk secret = Inr B0 \<and> BrokerBootstrap_read_m1_write_m2 N C B0 m1 = Inr (m2, R) \<and>
    run (drive_op N C) (map (Pair e) (bootstrap_events k m2)) s0 = (map Inr (bootstrap_answers k m1 ack g), s1) \<and>
    BrokerBootstrapAckReceiver_read_ack N C R ack = Inr (A, bl) \<and>
    (\<exists>el. tt_phase s1 = P_Eligible el \<and> lease_linked chan bl (el_lease el)) \<and>
    BrokerSession_new N C e (binding_of_ack A) secret = Inr S0 \<and> BrokerSession_read_m1_write_m2 N n1 S0 = (Inr n2, S1) \<and>
    BrokerSession_read_finished N C f1 S1 = (Inr (), S2) \<and> BrokerSession_write_finished N C S2 = (Inr f2, S3) \<and>
    BrokerSession_write_session_open N C p S3 = (Inr fs, S4) \<and>
    run (drive_op N C) (map (Pair e) (session_events j 5 n2 f2 fs q)) s1 = (map Inr (session_answers j 5 n1 f1 p gs), s2) \<and>
    run (BrokerSession_read_application_response N C) gs S4 =
      (replicate (length gs - 1) (Inr None) @ [Inr (Some q)], S5)"
proof -
  have C: "minicbor C" using link by (simp add: protected_link_def)
  have ep': "ios_loopback port = Inr ep \<or> utf8_valid name \<and> android_local_abstract name = Inr ep"
    "\<forall>name. android_name ep = Some name \<longrightarrow> 0 \<notin> set name"
    using ep by (auto simp: ios_loopback_def android_local_abstract_def split: if_splits)
  have parsed: "parse_descriptor C d = Inr \<lparr>pd_binding = b, pd_broker_public_key = pk, pd_endpoint = host_endpoint ep\<rparr>"
    using launch_descriptor_parsed [OF C ep'(1) b(1) key(2) host] ep'(2) b(2) by simp
  obtain out where create: "TargetTransport_create C rng d =
      Some (Inr (fresh_transport b pk g :: ('h, 't) TargetTransport, out))"
    using create_from_descriptor [OF parsed gen] by auto
  obtain B0 m1 m2 R ack A bl lease where boot:
    "BrokerBootstrap_new N C e b sk secret = Inr B0" "BrokerBootstrap_read_m1_write_m2 N C B0 m1 = Inr (m2, R)"
    "BrokerBootstrapAckReceiver_read_ack N C R ack = Inr (A, bl)" and linked: "lease_linked chan bl lease"
    and s1: "run (drive_op N C) (map (Pair e) (bootstrap_events k m2)) (fresh_transport b pk g) =
      (map Inr (bootstrap_answers k m1 ack g), ready_transport g k lease secret (binding_of_ack A))"
    and sb: "wf_session_binding (binding_of_ack A)" "SessionBinding_valid (binding_of_ack A)"
    by (rule protected_link.supervisor_becomes_ready [OF link key(1) b(1) secret generated_valid [OF gen] k])
  let ?s1 = "ready_transport g k lease secret (binding_of_ack A) :: ('h, 't) TargetTransport"
  obtain el where el: "tt_phase ?s1 = P_Eligible el" "el_lease_stream el = k" "el_pbs el = secret"
    "el_session_binding el = binding_of_ack A" "get_child j el = None" "tt_next_token ?s1 = 5" "el_lease el = lease"
    by (simp add: ready_transport_def get_child_def)
  have "j \<noteq> el_lease_stream el" "wf_session_binding (el_session_binding el)" "SessionBinding_valid (el_session_binding el)"
    "length (el_pbs el) = 32" using el sb j secret by simp_all
  from protected_link.session_served [OF link el(1) this(2-4) j(1) this(1) el(5,6) _ _ p q, of e e]
  obtain S0 n1 n2 S1 f1 S2 f2 S3 fs S4 gs S5 s2 where sess:
    "BrokerSession_new N C e (binding_of_ack A) secret = Inr S0" "BrokerSession_read_m1_write_m2 N n1 S0 = (Inr n2, S1)"
    "BrokerSession_read_finished N C f1 S1 = (Inr (), S2)" "BrokerSession_write_finished N C S2 = (Inr f2, S3)"
    "BrokerSession_write_session_open N C p S3 = (Inr fs, S4)"
    "run (drive_op N C) (map (Pair e) (session_events j 5 n2 f2 fs q)) ?s1 = (map Inr (session_answers j 5 n1 f1 p gs), s2)"
    "run (BrokerSession_read_application_response N C) gs S4 = (replicate (length gs - 1) (Inr None) @ [Inr (Some q)], S5)"
    by (auto simp: el(3,4))
  have "lease_linked chan bl (el_lease el)" using el(7) linked by simp
  from create boot s1 el(1) this sess show ?thesis by (intro exI conjI)
qed


theorem launch_to_response_witness:
  "\<exists>d (s0 :: (clear_hs, clear_tr) TargetTransport) out m1 m2 ack s1 n1 n2 f1 f2 fs gs s2.
     encode_launch_descriptor IosSimulator (IosLoopback 50000) (bb_lease_id demo_bootstrap_binding)
       (bb_target_nonce demo_bootstrap_binding) (bb_app_artifact_digest demo_bootstrap_binding) (replicate 32 6)
       (bb_expiry_ms demo_bootstrap_binding) (bb_target_reference_digest demo_bootstrap_binding) = Inr d \<and>
     TargetTransport_create rfc_cbor demo_draws d = Some (Inr (s0, out)) \<and>
     run (drive_op clear_noise rfc_cbor) (map (Pair []) (bootstrap_events 1 m2)) s0 =
       (map Inr (bootstrap_answers 1 m1 ack 6), s1) \<and>
     run (drive_op clear_noise rfc_cbor) (map (Pair []) (session_events 2 5 n2 f2 fs [4])) s1 =
       (map Inr (session_answers 2 5 n1 f1 [1, 2, 3] gs), s2)"
proof -
  obtain d where d: "encode_launch_descriptor IosSimulator (IosLoopback 50000)
     (bb_lease_id demo_bootstrap_binding) (bb_target_nonce demo_bootstrap_binding)
     (bb_app_artifact_digest demo_bootstrap_binding) (replicate 32 6)
     (bb_expiry_ms demo_bootstrap_binding) (bb_target_reference_digest demo_bootstrap_binding) = Inr d"
    by (simp add: encode_launch_descriptor_def demo_bootstrap_binding_def)
  have ep: "ios_loopback 50000 = Inr (IosLoopback 50000) \<or>
      utf8_valid [] \<and> 0 \<notin> set [] \<and> android_local_abstract [] = Inr (IosLoopback 50000)"
    by (simp add: ios_loopback_def)
  have g: "generate_process_generation demo_draws = Some (Inr 6)" by (rule demo_generation)
  have b: "bb_expiry_ms demo_bootstrap_binding \<le> JSON_SAFE_MAX" by (simp add: demo_bootstrap_binding_def JSON_SAFE_MAX_def)
  have len: "length (replicate 32 6 :: bytes) = 32" "length (replicate 32 9 :: bytes) = 32" by simp_all
  have "(1 :: u64) \<noteq> 0" "(2 :: u64) \<noteq> 0" "(2 :: u64) \<noteq> 1" "[1, 2, 3 :: u8] \<noteq> []" "length [1, 2, 3 :: u8] \<le> 65536"
    "[4 :: u8] \<noteq> []" "length [4 :: u8] \<le> 67108864" by simp_all
  from launch_to_response [OF clear_link.protected_link_axioms refl len(1) demo_bindings_wf(1) b ep d g len(2) this, of "[]"] d
  show ?thesis by blast
qed

end
